(* ===== verification/Net_Prelude.thy ===== *)
theory Net_Prelude
  imports Main "HOL-Library.Word" "HOL-Library.Product_Lexorder"
begin

text \<open>
  Shared material of the development: names for the C++ integer types, the error values of the
  model, an executable model of \<^verbatim>\<open>std::map\<close> (an association list sorted by key, so
  that iteration order is the order of the keys as in C++), the interface such a container
  promises, and the lemma collections the component theories extend.
\<close>

section \<open>Integer types and errors\<close>

type_synonym u8 = "8 word"
type_synonym u16 = "16 word"
type_synonym u32 = "32 word"
type_synonym u64 = "64 word"

text \<open>
  \<^verbatim>\<open>simtime_t\<close> is a 64-bit fixed-point count of ticks; the components only compare and
  add simulation times, so a time is the integer tick count.
\<close>

type_synonym simtime = int

text \<open>
  \<^verbatim>\<open>throw cRuntimeError(...)\<close> is \<open>RuntimeError\<close> with the fixed part of its message, a
  failed \<^verbatim>\<open>ASSERT\<close> is \<open>AssertFailed\<close>, a step the C++ standard leaves
  undefined is \<open>UndefinedBehaviour\<close>, and a loop that never ends is \<open>DoesNotReturn\<close>.
\<close>

datatype cpp_error =
    RuntimeError string
  | AssertFailed string
  | UndefinedBehaviour string
  | DoesNotReturn

type_synonym 'a outcome = "cpp_error + 'a"

fun outcome_bind :: "'a outcome \<Rightarrow> ('a \<Rightarrow> 'b outcome) \<Rightarrow> 'b outcome" where
  "outcome_bind (Inl e) f = Inl e"
| "outcome_bind (Inr x) f = f x"

text \<open>The outcome of a loop written as a partial function.\<close>

fun returning :: "'a outcome option \<Rightarrow> 'a outcome" where
  "returning None = Inl DoesNotReturn"
| "returning (Some r) = r"

lemma returning_Inr [simp]: "returning r = Inr y \<longleftrightarrow> r = Some (Inr y)"
  by (cases r) auto

lemma outcome_bind_Inr [simp]:
  "outcome_bind r f = Inr y \<longleftrightarrow> (\<exists>x. r = Inr x \<and> f x = Inr y)"
  by (cases r) auto

lemma outcome_bind_Inl: "outcome_bind r f = Inl e \<longleftrightarrow> r = Inl e \<or> (\<exists>x. r = Inr x \<and> f x = Inl e)"
  by (cases r) auto

lemma if_pair: "(if b then (x, y) else (x', y')) = (if b then x else x', if b then y else y')"
  by simp

lemma outcome_bind_assoc:
  "outcome_bind (outcome_bind r f) g = outcome_bind r (\<lambda>x. outcome_bind (f x) g)"
  by (cases r) auto

lemma outcome_bind_return: "outcome_bind r Inr = r"
  by (cases r) auto

lemma word_less_pos: "x < y \<Longrightarrow> 0 < y" for x y :: "'a::len word"
  by (rule order.strict_trans1 [OF word_zero_le])

lemma word_eq_bits: "a = b \<longleftrightarrow> (\<forall>n < LENGTH('a). bit a n = bit b n)" for a b :: "'a::len word"
  by (auto intro: bit_word_eqI)

lemma word_of_int_less:
  "0 \<le> a \<Longrightarrow> a < b \<Longrightarrow> b < 2 ^ LENGTH('a) \<Longrightarrow> (word_of_int a :: 'a::len word) < word_of_int b"
  by (simp add: word_less_def uint_word_of_int_eq take_bit_int_eq_self)

lemma word_of_int_neq_0:
  "0 < a \<Longrightarrow> a < 2 ^ LENGTH('a) \<Longrightarrow> (word_of_int a :: 'a::len word) \<noteq> 0"
  using word_of_int_less [of 0 a, where 'a = 'a] by auto

section \<open>Lemma collections\<close>

named_theorems inv_intros \<open>introduction rules for component invariants\<close>
named_theorems step_simps \<open>one-step unfoldings of operations\<close>
named_theorems frame_simps \<open>what an operation leaves unchanged\<close>

section \<open>std::map\<close>

type_synonym ('k, 'v) smap = "('k \<times> 'v) list"

definition smap_find :: "('k, 'v) smap \<Rightarrow> 'k \<Rightarrow> 'v option" where
  "smap_find m k = map_of m k"

fun smap_insert :: "'k::linorder \<Rightarrow> 'v \<Rightarrow> ('k, 'v) smap \<Rightarrow> ('k, 'v) smap" where
  "smap_insert k v [] = [(k, v)]"
| "smap_insert k v ((k', v') # m) =
     (if k < k' then (k, v) # (k', v') # m
      else if k = k' then (k, v) # m
      else (k', v') # smap_insert k v m)"

definition smap_erase :: "'k \<Rightarrow> ('k, 'v) smap \<Rightarrow> ('k, 'v) smap" where
  "smap_erase k m = filter (\<lambda>p. fst p \<noteq> k) m"

definition smap_wf :: "('k::linorder, 'v) smap \<Rightarrow> bool" where
  "smap_wf m \<longleftrightarrow> sorted_wrt (<) (map fst m)"

lemma fst_set_smap_insert: "fst ` set (smap_insert k v m) = insert k (fst ` set m)"
  by (induction k v m rule: smap_insert.induct) auto

lemma smap_find_insert: "smap_find (smap_insert k v m) = (smap_find m)(k \<mapsto> v)"
  by (induction k v m rule: smap_insert.induct) (auto simp: smap_find_def fun_eq_iff)

lemma smap_find_erase: "smap_find (smap_erase k m) = (smap_find m)(k := None)"
  by (induction m) (auto simp: smap_find_def smap_erase_def fun_eq_iff)

lemma smap_wf_insert: "smap_wf m \<Longrightarrow> smap_wf (smap_insert k v m)"
proof (induction k v m rule: smap_insert.induct)
  case (2 k v k' v' m)
  have "\<forall>x \<in> fst ` set (smap_insert k v m). k' < x" if "k' < k"
    using 2(2) that by (auto simp: smap_wf_def fst_set_smap_insert)
  with 2 show ?case by (auto simp: smap_wf_def)
qed (simp add: smap_wf_def)

lemma smap_wf_filter: "smap_wf m \<Longrightarrow> smap_wf (filter P m)"
  by (induction m) (auto simp: smap_wf_def)

lemma smap_find_filter:
  "smap_wf m \<Longrightarrow> smap_find (filter P m) k =
     (case smap_find m k of None \<Rightarrow> None | Some v \<Rightarrow> if P (k, v) then Some v else None)"
proof (induction m)
  case (Cons p m)
  have "map_of m (fst p) = None"
    using Cons.prems by (fastforce simp: smap_wf_def map_of_eq_None_iff)
  with Cons show ?case
    by (cases p) (auto simp: smap_find_def smap_wf_def split: option.splits)
qed (simp add: smap_find_def)

lemma smap_find_mem: "smap_wf m \<Longrightarrow> (k, v) \<in> set m \<longleftrightarrow> smap_find m k = Some v"
proof -
  assume "smap_wf m"
  then have "distinct (map fst m)"
    by (simp add: smap_wf_def strict_sorted_iff)
  then show ?thesis by (simp add: smap_find_def)
qed

text \<open>The contract a component relies on when it keeps its state in an ordered map.\<close>

locale ordered_map =
  fixes empty :: "'m"
    and find :: "'m \<Rightarrow> 'k \<Rightarrow> 'v option"
    and insert :: "'k \<Rightarrow> 'v \<Rightarrow> 'm \<Rightarrow> 'm"
    and erase :: "'k \<Rightarrow> 'm \<Rightarrow> 'm"
    and invar :: "'m \<Rightarrow> bool"
  assumes find_empty [simp]: "find empty k = None"
    and find_insert [simp]: "find (insert k v m) = (find m)(k \<mapsto> v)"
    and find_erase [simp]: "find (erase k m) = (find m)(k := None)"
    and invar_empty [simp]: "invar empty"
    and invar_insert [simp]: "invar m \<Longrightarrow> invar (insert k v m)"
    and invar_erase [simp]: "invar m \<Longrightarrow> invar (erase k m)"
begin

lemma find_insert_other: "k' \<noteq> k \<Longrightarrow> find (insert k v m) k' = find m k'"
  by simp

lemma find_erase_other: "k' \<noteq> k \<Longrightarrow> find (erase k m) k' = find m k'"
  by simp

lemma erase_insert_find: "find m k = None \<Longrightarrow> find (erase k (insert k v m)) = find m"
  by (auto simp: fun_eq_iff)

end

interpretation smap: ordered_map "[] :: ('k::linorder, 'v) smap" smap_find smap_insert smap_erase smap_wf
proof unfold_locales
  show "smap_wf m \<Longrightarrow> smap_wf (smap_erase k m)" for k :: 'k and m :: "('k, 'v) smap"
    by (simp add: smap_erase_def smap_wf_filter)
qed (simp_all add: smap_find_def [of "[]"] smap_find_insert smap_find_erase smap_wf_insert
      smap_wf_def [of "[]"])

section \<open>std::upper\_bound\<close>

text \<open>
  The binary search of \<^verbatim>\<open>std::upper_bound\<close>: \<open>P x\<close> stands for the comparison
  \<^verbatim>\<open>comp(value, x)\<close>.
\<close>

function upper_bound_loop :: "('a \<Rightarrow> bool) \<Rightarrow> 'a list \<Rightarrow> nat \<Rightarrow> nat \<Rightarrow> nat" where
  "upper_bound_loop P xs first n =
     (if n = 0 then first
      else let half = n div 2; middle = first + half in
        if P (xs ! middle) then upper_bound_loop P xs first half
        else upper_bound_loop P xs (middle + 1) (n - half - 1))"
  by pat_completeness auto
termination
  by (relation "measure (\<lambda>(P, xs, first, n). n)") auto

declare upper_bound_loop.simps [simp del]

definition upper_bound :: "('a \<Rightarrow> bool) \<Rightarrow> 'a list \<Rightarrow> nat" where
  "upper_bound P xs = upper_bound_loop P xs 0 (length xs)"

definition insert_at :: "nat \<Rightarrow> 'a \<Rightarrow> 'a list \<Rightarrow> 'a list" where
  "insert_at i x xs = take i xs @ x # drop i xs"

lemma upper_bound_loop_partition:
  assumes "\<And>i. i < length xs \<Longrightarrow> P (xs ! i) \<longleftrightarrow> k \<le> i"
  shows "first \<le> k \<Longrightarrow> k \<le> first + n \<Longrightarrow> first + n \<le> length xs \<Longrightarrow> upper_bound_loop P xs first n = k"
  using assms
proof (induction P xs first n rule: upper_bound_loop.induct)
  case (1 P xs first n)
  show ?case
  proof (cases "n = 0")
    case True
    with 1(3,4) show ?thesis by (subst upper_bound_loop.simps) simp
  next
    case False
    let ?m = "first + n div 2"
    have m: "?m < length xs" using False 1(5) by linarith
    show ?thesis
    proof (cases "P (xs ! ?m)")
      case True
      then have "k \<le> ?m" using 1(6) [OF m] by simp
      with 1(1) [OF False refl refl True] 1(3-6) False True show ?thesis
        by (subst upper_bound_loop.simps) (simp add: Let_def)
    next
      case np: False
      then have "?m < k" using 1(6) [OF m] by simp
      with 1(2) [OF False refl refl np] 1(3-6) False np show ?thesis
        by (subst upper_bound_loop.simps) (simp add: Let_def)
    qed
  qed
qed

lemma upper_bound_partition:
  assumes "\<And>i. i < length xs \<Longrightarrow> P (xs ! i) \<longleftrightarrow> k \<le> i" and "k \<le> length xs"
  shows "upper_bound P xs = k"
  unfolding upper_bound_def
  by (rule upper_bound_loop_partition) (use assms in auto)

text \<open>On a vector sorted by a key the new element goes after all elements with a key not above its own.\<close>

lemma upper_bound_sorted:
  assumes "sorted (map f xs)"
  shows "upper_bound (\<lambda>y. v < f y) xs = length (takeWhile (\<lambda>y. f y \<le> v) xs)"
proof (rule upper_bound_partition)
  fix i assume i: "i < length xs"
  let ?k = "length (takeWhile (\<lambda>y. f y \<le> v) xs)"
  show "v < f (xs ! i) \<longleftrightarrow> ?k \<le> i"
  proof
    assume "v < f (xs ! i)"
    then show "?k \<le> i"
      by (metis linorder_not_le nth_mem set_takeWhileD takeWhile_nth)
  next
    assume k: "?k \<le> i"
    then have "?k < length xs" using i by simp
    then have "\<not> f (xs ! ?k) \<le> v" by (rule nth_length_takeWhile)
    moreover have "f (xs ! ?k) \<le> f (xs ! i)"
      using assms k i by (auto simp: sorted_iff_nth_mono)
    ultimately show "v < f (xs ! i)" by simp
  qed
qed (simp add: length_takeWhile_le)

lemma insert_at_takeWhile:
  "insert_at (length (takeWhile P xs)) x xs = takeWhile P xs @ x # dropWhile P xs"
  by (simp add: insert_at_def flip: takeWhile_eq_take dropWhile_eq_drop)

lemma set_insert_at [simp]: "set (insert_at i x xs) = insert x (set xs)"
proof -
  have "set (take i xs) \<union> set (drop i xs) = set xs"
    by (metis append_take_drop_id set_append)
  then show ?thesis by (auto simp: insert_at_def)
qed

lemma distinct_insert_at [simp]: "distinct (insert_at i x xs) \<longleftrightarrow> x \<notin> set xs \<and> distinct xs"
proof -
  have "distinct (insert_at i x xs) \<longleftrightarrow> distinct (x # (take i xs @ drop i xs))"
    unfolding insert_at_def distinct_append distinct.simps set_append by auto
  then show ?thesis unfolding append_take_drop_id by simp
qed

lemma sorted_insert_upper_bound:
  assumes "sorted (map f xs)"
  shows "sorted (map f (insert_at (upper_bound (\<lambda>y. f x < f y) xs) x xs))"
proof -
  have *: "sorted (map f (takeWhile (\<lambda>y. f y \<le> f x) xs @ x # dropWhile (\<lambda>y. f y \<le> f x) xs))"
    using assms
  proof (induction xs)
    case (Cons y xs)
    then show ?case
      by (auto dest: set_takeWhileD set_dropWhileD)
  qed simp
  then show ?thesis
    by (simp only: upper_bound_sorted [OF assms] insert_at_takeWhile)
qed

end
