(* ===== verification/Reassembly_Buffer.thy ===== *)
theory Reassembly_Buffer
  imports Net_Prelude
begin

text \<open>
  The generic reassembly buffer of \<^verbatim>\<open>src/src/base/ReassemblyBuffer.{h,cc}\<close>: one
  region \<open>main\<close> that is extended as fragments arrive, and a vector of regions that do not yet
  touch it.  Offsets are \<^verbatim>\<open>ushort\<close>, i.e.\ 16-bit words.  Shown here: the merge loop
  terminates, and for fragments cut from one datagram the buffer reports completion exactly when
  every byte has arrived, in any order and with duplicates.
\<close>

section \<open>Model\<close>

record Region =
  reg_beg :: u16
  reg_end :: u16
  reg_islast :: bool

record ReassemblyBuffer =
  rb_main :: Region
  rb_fragments :: "Region list option"

definition ReassemblyBuffer_new :: ReassemblyBuffer where
  "ReassemblyBuffer_new =
     \<lparr>rb_main = \<lparr>reg_beg = 0, reg_end = 0, reg_islast = False\<rparr>, rb_fragments = None\<rparr>"

text \<open>
  One execution of the \<^verbatim>\<open>for\<close> loop of \<open>mergeFragments\<close>: the regions that stay, the
  region \<open>main\<close> after the pass, and the flag \<open>oncemore\<close>.
\<close>

fun mergePass :: "Region \<Rightarrow> Region list \<Rightarrow> Region \<times> Region list \<times> bool" where
  "mergePass m [] = (m, [], False)"
| "mergePass m (frag # frags) =
     (if reg_end m = reg_beg frag then
        (case mergePass (m\<lparr>reg_end := reg_end frag,
                            reg_islast := reg_islast m \<or> reg_islast frag\<rparr>) frags of
           (m', fs, _) \<Rightarrow> (m', fs, True))
      else if reg_beg m = reg_end frag then
        (case mergePass (m\<lparr>reg_beg := reg_beg frag\<rparr>) frags of (m', fs, _) \<Rightarrow> (m', fs, True))
      else if reg_beg m \<le> reg_beg frag \<and> reg_end frag \<le> reg_end m then
        (case mergePass m frags of (m', fs, _) \<Rightarrow> (m', fs, True))
      else
        (case mergePass m frags of (m', fs, oncemore) \<Rightarrow> (m', frag # fs, oncemore)))"

lemma mergePass_shrinks:
  "case mergePass m frags of (m', fs, oncemore) \<Rightarrow>
     length fs \<le> length frags \<and> (oncemore \<longrightarrow> length fs < length frags)"
  by (induction m frags rule: mergePass.induct) (auto split: prod.splits)

lemma mergePass_length:
  "mergePass m frags = (m', fs, oncemore) \<Longrightarrow>
     length fs \<le> length frags \<and> (oncemore \<longrightarrow> length fs < length frags)"
  using mergePass_shrinks [where m = m and frags = frags] by simp

function mergeFragments :: "Region \<Rightarrow> Region list \<Rightarrow> Region \<times> Region list" where
  "mergeFragments m frags =
     (case mergePass m frags of (m', fs, oncemore) \<Rightarrow>
        if oncemore then mergeFragments m' fs else (m', fs))"
  by pat_completeness auto
termination
  by (relation "measure (\<lambda>(m, frags). length frags)")
    (auto dest: mergePass_length [OF sym])

declare mergeFragments.simps [simp del]

text \<open>The calls \<^verbatim>\<open>if (fragments) mergeFragments();\<close>.\<close>

definition mergeFragmentsIfAny :: "ReassemblyBuffer \<Rightarrow> ReassemblyBuffer" where
  "mergeFragmentsIfAny b =
     (case rb_fragments b of
        None \<Rightarrow> b
      | Some frags \<Rightarrow> (case mergeFragments (rb_main b) frags of
                        (m, fs) \<Rightarrow> b\<lparr>rb_main := m, rb_fragments := Some fs\<rparr>))"

definition ReassemblyBuffer_merge :: "ReassemblyBuffer \<Rightarrow> Region \<Rightarrow> ReassemblyBuffer" where
  "ReassemblyBuffer_merge b r =
     (let m = rb_main b in
      if reg_end m = reg_beg r then
        mergeFragmentsIfAny (b\<lparr>rb_main := m\<lparr>reg_end := reg_end r,
                                             reg_islast := reg_islast m \<or> reg_islast r\<rparr>\<rparr>)
      else if reg_beg m = reg_end r then
        mergeFragmentsIfAny (b\<lparr>rb_main := m\<lparr>reg_beg := reg_beg r\<rparr>\<rparr>)
      else if reg_end m < reg_beg r \<or> reg_beg m > reg_end r then
        b\<lparr>rb_fragments := Some ((case rb_fragments b of None \<Rightarrow> [] | Some fs \<Rightarrow> fs) @ [r])\<rparr>
      else b)"

definition ReassemblyBuffer_isComplete :: "ReassemblyBuffer \<Rightarrow> bool" where
  "ReassemblyBuffer_isComplete b \<longleftrightarrow> reg_beg (rb_main b) = 0 \<and> reg_islast (rb_main b)"

definition ReassemblyBuffer_addFragment ::
    "ReassemblyBuffer \<Rightarrow> u16 \<Rightarrow> u16 \<Rightarrow> bool \<Rightarrow> ReassemblyBuffer \<times> bool" where
  "ReassemblyBuffer_addFragment b beg end islast =
     (let b' = ReassemblyBuffer_merge b \<lparr>reg_beg = beg, reg_end = end, reg_islast = islast\<rparr>
      in (b', ReassemblyBuffer_isComplete b'))"

definition ReassemblyBuffer_getTotalLength :: "ReassemblyBuffer \<Rightarrow> u16" where
  "ReassemblyBuffer_getTotalLength b = reg_end (rb_main b)"

section \<open>What a fragmented datagram is\<close>

definition region_bytes :: "Region \<Rightarrow> u16 set" where
  "region_bytes r = {reg_beg r ..< reg_end r}"

definition covered :: "Region set \<Rightarrow> u16 set" where
  "covered rs = (\<Union>r\<in>rs. region_bytes r)"

text \<open>
  The fragments of one datagram of \<open>L\<close> payload bytes: non-empty, inside the datagram, the last one
  and only it marked as last, and any two either the same range or disjoint.
\<close>

definition fragment_of :: "u16 \<Rightarrow> Region \<Rightarrow> bool" where
  "fragment_of L r \<longleftrightarrow> reg_beg r < reg_end r \<and> reg_end r \<le> L \<and> (reg_islast r \<longleftrightarrow> reg_end r = L)"

definition aligned :: "Region \<Rightarrow> Region \<Rightarrow> bool" where
  "aligned r s \<longleftrightarrow> (reg_beg r = reg_beg s \<and> reg_end r = reg_end s)
     \<or> reg_end r \<le> reg_beg s \<or> reg_end s \<le> reg_beg r"

definition fragmentation :: "u16 \<Rightarrow> Region set \<Rightarrow> bool" where
  "fragmentation L rs \<longleftrightarrow> 0 < L \<and> (\<forall>r\<in>rs. fragment_of L r) \<and> (\<forall>r\<in>rs. \<forall>s\<in>rs. aligned r s)"

lemma fragment_end_pos: "fragment_of L r \<Longrightarrow> 0 < reg_end r"
  by (auto simp: fragment_of_def intro: word_less_pos)

lemma fragmentation_subset: "fragmentation L rs \<Longrightarrow> ss \<subseteq> rs \<Longrightarrow> fragmentation L ss"
  by (auto simp: fragmentation_def)

lemma covered_bound: "fragmentation L rs \<Longrightarrow> covered rs \<subseteq> {0 ..< L}"
  by (fastforce simp: covered_def region_bytes_def fragmentation_def fragment_of_def)

lemma covered_mono: "rs \<subseteq> ss \<Longrightarrow> covered rs \<subseteq> covered ss"
  by (auto simp: covered_def)

section \<open>Invariant\<close>

abbreviation rb_stored :: "ReassemblyBuffer \<Rightarrow> Region list" where
  "rb_stored b \<equiv> (case rb_fragments b of None \<Rightarrow> [] | Some fs \<Rightarrow> fs)"

text \<open>
  \<open>main_ok\<close> relates \<open>main\<close> and the stored regions to the set \<open>rs\<close> of regions received so far; it is
  kept by every pass.  \<open>rb_inv\<close> adds that no stored region touches \<open>main\<close>.
\<close>

definition main_ok :: "u16 \<Rightarrow> Region set \<Rightarrow> Region \<Rightarrow> Region list \<Rightarrow> bool" where
  "main_ok L rs m fs \<longleftrightarrow>
     reg_beg m = 0 \<and> {0 ..< reg_end m} \<subseteq> covered rs
     \<and> (reg_end m = 0 \<or> (\<exists>r\<in>rs. reg_end r = reg_end m))
     \<and> (reg_islast m \<longleftrightarrow> reg_end m = L)
     \<and> set fs \<subseteq> rs
     \<and> (\<forall>r\<in>rs. reg_end r \<le> reg_end m \<or> r \<in> set fs)"

definition rb_inv :: "u16 \<Rightarrow> Region set \<Rightarrow> ReassemblyBuffer \<Rightarrow> bool" where
  "rb_inv L rs b \<longleftrightarrow> main_ok L rs (rb_main b) (rb_stored b)
     \<and> (\<forall>f\<in>set (rb_stored b). reg_end (rb_main b) < reg_beg f)"

lemma rb_inv_new [inv_intros]: "0 < L \<Longrightarrow> rb_inv L {} ReassemblyBuffer_new"
  by (auto simp: rb_inv_def main_ok_def ReassemblyBuffer_new_def)

lemma main_ok_extend:
  assumes frag: "fragmentation L rs" and ok: "main_ok L rs m (f # fs)"
    and touch: "reg_end m = reg_beg f"
  shows "main_ok L rs (m\<lparr>reg_end := reg_end f, reg_islast := reg_islast m \<or> reg_islast f\<rparr>) fs"
proof -
  have f: "f \<in> rs" "reg_beg f < reg_end f" "reg_end f \<le> L" "reg_islast f \<longleftrightarrow> reg_end f = L"
    using frag ok by (auto simp: main_ok_def fragmentation_def fragment_of_def)
  have "{0 ..< reg_end f} \<subseteq> {0 ..< reg_end m} \<union> region_bytes f"
    using touch by (auto simp: region_bytes_def)
  also have "\<dots> \<subseteq> covered rs"
    using ok f(1) by (auto simp: main_ok_def covered_def)
  finally show ?thesis
    using ok f touch by (auto simp: main_ok_def)
qed

lemma main_ok_drop:
  assumes "main_ok L rs m (f # fs)" and "reg_end f \<le> reg_end m"
  shows "main_ok L rs m fs"
  using assms by (auto simp: main_ok_def)

lemma main_ok_pass:
  assumes "fragmentation L rs"
  shows "main_ok L rs m (gs @ fs) \<Longrightarrow>
    (case mergePass m fs of (m', fs', _) \<Rightarrow> main_ok L rs m' (gs @ fs'))"
proof (induction m fs arbitrary: gs rule: mergePass.induct)
  case (1 m)
  then show ?case by simp
next
  case (2 m f fs)
  have f: "f \<in> rs" "0 < reg_end f" and m0: "reg_beg m = 0"
    using 2(5) assms fragment_end_pos [of L f] by (auto simp: main_ok_def fragmentation_def)
  have ok: "main_ok L rs m (f # gs @ fs)"
    using 2(5) by (auto simp: main_ok_def)
  consider (touch) "reg_end m = reg_beg f"
    | (inside) "reg_end m \<noteq> reg_beg f" "reg_end f \<le> reg_end m"
    | (apart) "reg_end m \<noteq> reg_beg f" "\<not> reg_end f \<le> reg_end m"
    by blast
  then show ?case
  proof cases
    case touch
    show ?thesis
      using 2(1) [OF touch main_ok_extend [OF assms ok touch]] touch
      by (auto split: prod.splits)
  next
    case inside
    show ?thesis
      using 2(3) [OF inside(1) _ _ main_ok_drop [OF ok inside(2)]] inside f m0
      by (auto split: prod.splits)
  next
    case apart
    show ?thesis
      using 2(4) [OF apart(1), of "gs @ [f]"] 2(5) apart f m0
      by (auto split: prod.splits)
  qed
qed

lemma mergePass_unchanged:
  "mergePass m fs = (m', fs', False) \<Longrightarrow> m' = m \<and> fs' = fs \<and>
     (\<forall>f\<in>set fs. reg_end m \<noteq> reg_beg f \<and> reg_beg m \<noteq> reg_end f
        \<and> \<not> (reg_beg m \<le> reg_beg f \<and> reg_end f \<le> reg_end m))"
proof (induction fs arbitrary: fs')
  case (Cons f fs)
  then show ?case by (auto split: if_splits prod.splits)
qed simp

text \<open>A region that neither touches nor lies inside \<open>main\<close> begins after it.\<close>

lemma apart_after:
  assumes frag: "fragmentation L rs" and ok: "main_ok L rs m fs" and f: "f \<in> set fs"
    and apart: "reg_end m \<noteq> reg_beg f" "\<not> (reg_beg m \<le> reg_beg f \<and> reg_end f \<le> reg_end m)"
  shows "reg_end m < reg_beg f"
proof (cases "reg_end m = 0")
  case True
  with apart(1) show ?thesis by (metis word_neq_0_conv)
next
  case False
  then obtain r where r: "r \<in> rs" "reg_end r = reg_end m"
    using ok by (auto simp: main_ok_def)
  have fr: "f \<in> rs" "aligned f r" "reg_beg m = 0" "reg_beg r < reg_end r"
    using frag ok f r(1) by (auto simp: main_ok_def fragmentation_def fragment_of_def)
  have "\<not> reg_end f \<le> reg_end m"
    using apart(2) fr(3) by simp
  with fr(2,4) r(2) apart(1) show ?thesis
    by (auto simp: aligned_def)
qed

lemma mergeFragments_inv:
  assumes frag: "fragmentation L rs"
  shows "main_ok L rs m fs \<Longrightarrow> mergeFragments m fs = (m', fs') \<Longrightarrow>
    main_ok L rs m' fs' \<and> (\<forall>f\<in>set fs'. reg_end m' < reg_beg f)"
proof (induction m fs rule: mergeFragments.induct)
  case (1 m fs)
  obtain m1 fs1 oncemore where pass: "mergePass m fs = (m1, fs1, oncemore)"
    by (metis prod_cases3)
  have ok1: "main_ok L rs m1 fs1"
    using main_ok_pass [OF frag, of m "[]" fs] 1(2) pass by simp
  show ?case
  proof (cases oncemore)
    case True
    with pass 1(3) have "mergeFragments m1 fs1 = (m', fs')"
      by (simp add: mergeFragments.simps [where m = m and frags = fs])
    with 1(1) [OF pass [symmetric] refl True ok1] show ?thesis by simp
  next
    case False
    with pass 1(3) have eq: "m' = m1" "fs' = fs1"
      by (simp_all add: mergeFragments.simps [where m = m and frags = fs])
    have "\<forall>f\<in>set fs1. reg_end m1 < reg_beg f"
      using mergePass_unchanged [of m fs m1 fs1] pass False apart_after [OF frag ok1] by auto
    with ok1 eq show ?thesis by simp
  qed
qed

section \<open>Adding fragments\<close>

lemma mergeFragmentsIfAny_inv:
  assumes frag: "fragmentation L rs" and ok: "main_ok L rs (rb_main b) (rb_stored b)"
  shows "rb_inv L rs (mergeFragmentsIfAny b)"
  using ok mergeFragments_inv [OF frag, of "rb_main b"]
  by (auto simp: rb_inv_def mergeFragmentsIfAny_def split: option.splits prod.splits)

lemma main_ok_mono:
  assumes "main_ok L rs m fs" and "rs \<subseteq> rs'"
    and "\<And>r. r \<in> rs' - rs \<Longrightarrow> reg_end r \<le> reg_end m \<or> r \<in> set fs'"
    and "set fs \<subseteq> set fs'" and "set fs' \<subseteq> rs'"
  shows "main_ok L rs' m fs'"
  using assms unfolding main_ok_def covered_def by blast

lemma merge_inv:
  assumes frag: "fragmentation L (insert r rs)" and inv: "rb_inv L rs b"
  shows "rb_inv L (insert r rs) (ReassemblyBuffer_merge b r)"
proof -
  let ?m = "rb_main b"
  have ok: "main_ok L rs ?m (rb_stored b)" and apart: "\<forall>f\<in>set (rb_stored b). reg_end ?m < reg_beg f"
    using inv by (auto simp: rb_inv_def)
  have m0: "reg_beg ?m = 0" and rpos: "0 < reg_end r"
    using ok frag fragment_end_pos [of L r] by (auto simp: main_ok_def fragmentation_def)
  have ok_r: "main_ok L (insert r rs) ?m (r # rb_stored b)"
    by (rule main_ok_mono [OF ok]) (use ok in \<open>auto simp: main_ok_def\<close>)
  consider (touch) "reg_end ?m = reg_beg r"
    | (after) "reg_end ?m < reg_beg r"
    | (before) "reg_beg r < reg_end ?m"
    by (rule linorder_cases)
  then show ?thesis
  proof cases
    case touch
    then show ?thesis
      using mergeFragmentsIfAny_inv [OF frag] main_ok_extend [OF frag ok_r touch]
      by (simp add: ReassemblyBuffer_merge_def Let_def)
  next
    case after
    have "main_ok L (insert r rs) ?m (rb_stored b @ [r])"
      using ok_r by (auto simp: main_ok_def)
    with after m0 rpos apart show ?thesis
      by (auto simp: ReassemblyBuffer_merge_def rb_inv_def Let_def)
  next
    case before
    have "reg_end r \<le> reg_end ?m"
      using apart_after [OF frag ok_r, of r] before m0 by (fastforce dest: less_asym)
    then have "main_ok L (insert r rs) ?m (rb_stored b)"
      using main_ok_drop [OF ok_r] by blast
    with before m0 rpos apart show ?thesis
      by (auto simp: ReassemblyBuffer_merge_def rb_inv_def Let_def)
  qed
qed

lemma rb_inv_complete_iff:
  assumes frag: "fragmentation L rs" and inv: "rb_inv L rs b"
  shows "ReassemblyBuffer_isComplete b \<longleftrightarrow> covered rs = {0 ..< L}"
proof -
  let ?m = "rb_main b"
  have ok: "main_ok L rs ?m (rb_stored b)" and apart: "\<forall>f\<in>set (rb_stored b). reg_end ?m < reg_beg f"
    using inv by (auto simp: rb_inv_def)
  have sub: "covered rs \<subseteq> {0 ..< L}"
    using frag by (rule covered_bound)
  have le: "reg_end ?m \<le> L"
    using ok frag by (auto simp: main_ok_def fragmentation_def fragment_of_def)
  have "reg_end ?m = L" if all: "covered rs = {0 ..< L}"
  proof (rule ccontr)
    assume "reg_end ?m \<noteq> L"
    with le all have "reg_end ?m \<in> covered rs" by auto
    then obtain r where "r \<in> rs" "reg_beg r \<le> reg_end ?m" "reg_end ?m < reg_end r"
      by (auto simp: covered_def region_bytes_def)
    with ok apart show False by (fastforce simp: main_ok_def)
  qed
  moreover have "reg_beg ?m = 0" "reg_islast ?m \<longleftrightarrow> reg_end ?m = L" "{0 ..< reg_end ?m} \<subseteq> covered rs"
    using ok by (auto simp: main_ok_def)
  ultimately show ?thesis
    using sub by (auto simp: ReassemblyBuffer_isComplete_def)
qed

text \<open>
  The interface the per-protocol fragment buffers rely on: a buffer that starts empty, takes
  regions, and knows when it is complete and how long the datagram is.
\<close>

locale reassembler =
  fixes new :: 'b
    and add :: "'b \<Rightarrow> Region \<Rightarrow> 'b"
    and complete :: "'b \<Rightarrow> bool"
    and total :: "'b \<Rightarrow> u16"
    and invar :: "u16 \<Rightarrow> Region set \<Rightarrow> 'b \<Rightarrow> bool"
  assumes invar_new: "0 < L \<Longrightarrow> invar L {} new"
    and invar_add: "fragmentation L (insert r rs) \<Longrightarrow> invar L rs b \<Longrightarrow> invar L (insert r rs) (add b r)"
    and complete_iff: "fragmentation L rs \<Longrightarrow> invar L rs b \<Longrightarrow> complete b \<longleftrightarrow> covered rs = {0 ..< L}"
    and total_eq: "fragmentation L rs \<Longrightarrow> invar L rs b \<Longrightarrow> complete b \<Longrightarrow> total b = L"
begin

lemma invar_foldl:
  "invar L rs b \<Longrightarrow> fragmentation L (rs \<union> set fs) \<Longrightarrow> invar L (rs \<union> set fs) (foldl add b fs)"
proof (induction fs arbitrary: rs b)
  case (Cons f fs)
  have "fragmentation L (insert f rs)"
    using Cons.prems(2) by (rule fragmentation_subset) auto
  from invar_add [OF this Cons.prems(1)] Cons.IH [of "insert f rs" "add b f"] Cons.prems(2)
  show ?case by simp
qed simp

lemma complete_foldl:
  assumes "fragmentation L (set fs)"
  shows "complete (foldl add new fs) \<longleftrightarrow> covered (set fs) = {0 ..< L}"
    and "complete (foldl add new fs) \<Longrightarrow> total (foldl add new fs) = L"
proof -
  have inv: "invar L (set fs) (foldl add new fs)"
    using invar_foldl [of L "{}" new fs] invar_new [of L] assms
    by (simp add: fragmentation_def)
  from complete_iff [OF assms inv] total_eq [OF assms inv]
  show "complete (foldl add new fs) \<longleftrightarrow> covered (set fs) = {0 ..< L}"
    and "complete (foldl add new fs) \<Longrightarrow> total (foldl add new fs) = L"
    by simp_all
qed

end

interpretation rb: reassembler ReassemblyBuffer_new ReassemblyBuffer_merge ReassemblyBuffer_isComplete
  ReassemblyBuffer_getTotalLength rb_inv
proof unfold_locales
  show "ReassemblyBuffer_getTotalLength b = L"
    if "fragmentation L rs" "rb_inv L rs b" "ReassemblyBuffer_isComplete b" for L rs b
    using that by (auto simp: ReassemblyBuffer_getTotalLength_def rb_inv_def main_ok_def
        ReassemblyBuffer_isComplete_def)
qed (simp_all add: rb_inv_new merge_inv rb_inv_complete_iff)

section \<open>Properties\<close>

fun addFragments :: "ReassemblyBuffer \<Rightarrow> Region list \<Rightarrow> ReassemblyBuffer \<times> bool" where
  "addFragments b [] = (b, ReassemblyBuffer_isComplete b)"
| "addFragments b (r # rs) =
     addFragments (fst (ReassemblyBuffer_addFragment b (reg_beg r) (reg_end r) (reg_islast r))) rs"

lemma addFragment_eq:
  "ReassemblyBuffer_addFragment b (reg_beg r) (reg_end r) (reg_islast r) =
     (ReassemblyBuffer_merge b r, ReassemblyBuffer_isComplete (ReassemblyBuffer_merge b r))"
  for r :: Region
  by (cases r) (simp add: ReassemblyBuffer_addFragment_def Let_def)

lemma addFragments_foldl:
  "addFragments b rs = (foldl ReassemblyBuffer_merge b rs,
     ReassemblyBuffer_isComplete (foldl ReassemblyBuffer_merge b rs))"
  by (induction rs arbitrary: b) (auto simp: addFragment_eq)

text \<open>
  C1: when the fragments of a datagram of \<open>L\<close> bytes are added in any order and any number of times,
  the buffer reports completion exactly when the fragments received so far cover every byte, and
  the reported total length is then \<open>L\<close>.
\<close>

theorem reassembly_complete_iff:
  assumes "fragmentation L (set rs)"
  shows "(snd (addFragments ReassemblyBuffer_new rs) \<longleftrightarrow> covered (set rs) = {0 ..< L}) \<and>
    (snd (addFragments ReassemblyBuffer_new rs) \<longrightarrow>
       ReassemblyBuffer_getTotalLength (fst (addFragments ReassemblyBuffer_new rs)) = L)"
  using rb.complete_foldl [OF assms] by (simp add: addFragments_foldl)

definition example_fragments :: "Region list" where
  "example_fragments =
     [\<lparr>reg_beg = 8, reg_end = 16, reg_islast = False\<rparr>, \<lparr>reg_beg = 16, reg_end = 20, reg_islast = True\<rparr>,
      \<lparr>reg_beg = 8, reg_end = 16, reg_islast = False\<rparr>, \<lparr>reg_beg = 0, reg_end = 8, reg_islast = False\<rparr>]"

lemma example_fragmentation: "fragmentation 20 (set example_fragments)"
  by (simp add: example_fragments_def fragmentation_def fragment_of_def aligned_def)

lemma example_complete: "snd (addFragments ReassemblyBuffer_new example_fragments)"
  by code_simp

theorem reassembly_complete_iff_witness:
  "fragmentation 20 (set example_fragments) \<and> covered (set example_fragments) = {0 ..< 20} \<and>
   ReassemblyBuffer_getTotalLength (fst (addFragments ReassemblyBuffer_new example_fragments)) = 20"
  using reassembly_complete_iff [OF example_fragmentation] example_fragmentation example_complete
  by simp

end
