(* ===== verification/IPv4_FragBuf.thy ===== *)
theory IPv4_FragBuf
  imports Reassembly_Buffer
begin

text \<open>
  The per-datagram reassembly buffers of \<^verbatim>\<open>src/src/networklayer/ipv4/IPv4FragBuf.{h,cc}\<close>.
  A fragment is filed under its (identification, source, destination) key; the key order is the
  lexicographic one of \<^verbatim>\<open>Key::operator<\<close>.  Datagrams carry the fields of
  \<^verbatim>\<open>IPv4Datagram.msg\<close> the IPv4 module reads (options are left out), with the
  bit-error flag and the index of the arrival gate that every message has and, while a control info
  is attached, its multicast-loop flag.
  Shown here: fragments of different datagrams do not influence each other, a fragment stream
  yields its datagram exactly when the last missing byte arrives, no call on a genuine fragment
  reaches the undefined \<^verbatim>\<open>erase(end())\<close>, and purging drops exactly the stale buffers.
\<close>

section \<open>Datagrams\<close>

text \<open>
  What the IPv4 modules read of an encapsulated packet: the ports of UDP packets and TCP segments, and
  of an ICMP message its type and the transport protocol of the datagram it carries, if any.  The
  content stands for everything else.
\<close>

datatype PayloadKind =
    UDPPacket int int | TCPSegment int int | ICMPMessage int "int option" | OtherPacket

record Payload =
  pl_byteLength :: int
  pl_kind :: PayloadKind
  pl_content :: nat

record IPv4Datagram =
  dg_byteLength :: int
  dg_headerLength :: int
  dg_srcAddress :: u32
  dg_destAddress :: u32
  dg_transportProtocol :: int
  dg_timeToLive :: int
  dg_identification :: int
  dg_moreFragments :: bool
  dg_dontFragment :: bool
  dg_fragmentOffset :: int
  dg_typeOfService :: u8
  dg_totalPayloadLength :: int
  dg_encapsulatedPacket :: "Payload option"
  dg_bitError :: bool
  dg_arrivalGate :: "int option"
  dg_multicastLoop :: "bool option"

section \<open>Model\<close>

type_synonym FragKey = "u16 \<times> u32 \<times> u32"

record DatagramBuffer =
  db_buf :: ReassemblyBuffer
  db_datagram :: "IPv4Datagram option"
  db_lastupdate :: simtime

type_synonym IPv4FragBuf = "(FragKey, DatagramBuffer) smap"

definition frag_key :: "IPv4Datagram \<Rightarrow> FragKey" where
  "frag_key d = (word_of_int (dg_identification d), dg_srcAddress d, dg_destAddress d)"

text \<open>The byte range a fragment carries, after the conversion of both bounds to \<^verbatim>\<open>ushort\<close>.\<close>

definition frag_region :: "IPv4Datagram \<Rightarrow> Region" where
  "frag_region d =
     (let bytes = dg_byteLength d - dg_headerLength d
      in \<lparr>reg_beg = word_of_int (dg_fragmentOffset d),
          reg_end = word_of_int (dg_fragmentOffset d + bytes),
          reg_islast = \<not> dg_moreFragments d\<rparr>)"

definition DatagramBuffer_new :: DatagramBuffer where
  "DatagramBuffer_new = \<lparr>db_buf = ReassemblyBuffer_new, db_datagram = None, db_lastupdate = 0\<rparr>"

text \<open>Which of the two datagrams is kept: one with content is preferred to one without.\<close>

definition keep_datagram :: "IPv4Datagram option \<Rightarrow> IPv4Datagram \<Rightarrow> IPv4Datagram" where
  "keep_datagram old d =
     (case old of
        None \<Rightarrow> d
      | Some d0 \<Rightarrow> if dg_encapsulatedPacket d0 = None \<and> dg_encapsulatedPacket d \<noteq> None then d else d0)"

definition IPv4FragBuf_addFragment ::
    "IPv4FragBuf \<Rightarrow> IPv4Datagram \<Rightarrow> simtime \<Rightarrow> (IPv4FragBuf \<times> IPv4Datagram option) outcome" where
  "IPv4FragBuf_addFragment bufs d now =
     (let key = frag_key d;
          i = smap_find bufs key;
          buf = (case i of None \<Rightarrow> DatagramBuffer_new | Some b \<Rightarrow> b);
          r = frag_region d;
          (rb, isComplete) = ReassemblyBuffer_addFragment (db_buf buf) (reg_beg r) (reg_end r) (reg_islast r);
          kept = keep_datagram (db_datagram buf) d
      in if isComplete then
           (if i = None then Inl (UndefinedBehaviour ''bufs.erase(bufs.end())'')
            else Inr (smap_erase key bufs,
                      Some (kept\<lparr>dg_byteLength := dg_headerLength kept + uint (ReassemblyBuffer_getTotalLength rb),
                                 dg_fragmentOffset := 0,
                                 dg_moreFragments := False\<rparr>)))
         else Inr (smap_insert key \<lparr>db_buf = rb, db_datagram = Some kept, db_lastupdate = now\<rparr> bufs, None))"

text \<open>
  Stale buffers are removed in key order, and each gives one \<^verbatim>\<open>ICMP_TIME_EXCEEDED\<close>
  error about the datagram it holds.
\<close>

definition IPv4FragBuf_purgeStaleFragments ::
    "IPv4FragBuf \<Rightarrow> simtime \<Rightarrow> IPv4FragBuf \<times> IPv4Datagram option list" where
  "IPv4FragBuf_purgeStaleFragments bufs lastupdate =
     (filter (\<lambda>(k, b). \<not> db_lastupdate b < lastupdate) bufs,
      map (\<lambda>(k, b). db_datagram b) (filter (\<lambda>(k, b). db_lastupdate b < lastupdate) bufs))"

section \<open>One buffer seen alone\<close>

text \<open>What a call does to the buffer of its own key.\<close>

definition entry_step ::
    "DatagramBuffer option \<Rightarrow> IPv4Datagram \<Rightarrow> simtime \<Rightarrow> DatagramBuffer option \<times> IPv4Datagram option" where
  "entry_step e d now =
     (let buf = (case e of None \<Rightarrow> DatagramBuffer_new | Some b \<Rightarrow> b);
          rb = ReassemblyBuffer_merge (db_buf buf) (frag_region d);
          kept = keep_datagram (db_datagram buf) d
      in if ReassemblyBuffer_isComplete rb
         then (None, Some (kept\<lparr>dg_byteLength := dg_headerLength kept + uint (ReassemblyBuffer_getTotalLength rb),
                                dg_fragmentOffset := 0, dg_moreFragments := False\<rparr>))
         else (Some \<lparr>db_buf = rb, db_datagram = Some kept, db_lastupdate = now\<rparr>, None))"

lemma addFragment_entry:
  assumes "IPv4FragBuf_addFragment bufs d now = Inr (bufs', out)"
  shows "smap_find bufs' = (smap_find bufs)(frag_key d := fst (entry_step (smap_find bufs (frag_key d)) d now))"
    and "out = snd (entry_step (smap_find bufs (frag_key d)) d now)"
  using assms
  by (auto simp: IPv4FragBuf_addFragment_def entry_step_def Let_def addFragment_eq
      split: if_splits option.splits)

lemma addFragment_wf:
  "IPv4FragBuf_addFragment bufs d now = Inr (bufs', out) \<Longrightarrow> smap_wf bufs \<Longrightarrow> smap_wf bufs'"
  by (auto simp: IPv4FragBuf_addFragment_def Let_def split: if_splits option.splits prod.splits)

text \<open>
  A genuine fragment, as \<open>reassembleAndDeliver\<close> guards the call: some bytes, inside a datagram
  whose length fits 16 bits, and not the whole datagram.
\<close>

definition genuine_fragment :: "IPv4Datagram \<Rightarrow> bool" where
  "genuine_fragment d \<longleftrightarrow>
     0 \<le> dg_fragmentOffset d \<and> dg_headerLength d < dg_byteLength d
     \<and> dg_fragmentOffset d + (dg_byteLength d - dg_headerLength d) < 2 ^ 16
     \<and> (dg_fragmentOffset d \<noteq> 0 \<or> dg_moreFragments d)"

lemma genuine_region:
  assumes "genuine_fragment d"
  shows "reg_beg (frag_region d) < reg_end (frag_region d)"
    and "reg_beg (frag_region d) \<noteq> 0 \<or> \<not> reg_islast (frag_region d)"
proof -
  let ?o = "dg_fragmentOffset d" and ?n = "dg_byteLength d - dg_headerLength d"
  have "(word_of_int ?o :: u16) < word_of_int (?o + ?n)"
    using assms by (intro word_of_int_less) (auto simp: genuine_fragment_def)
  then show "reg_beg (frag_region d) < reg_end (frag_region d)"
    by (simp add: frag_region_def Let_def)
  have "(word_of_int ?o :: u16) \<noteq> 0 \<or> dg_moreFragments d"
    using assms word_of_int_neq_0 [of ?o, where 'a = 16] by (auto simp: genuine_fragment_def)
  then show "reg_beg (frag_region d) \<noteq> 0 \<or> \<not> reg_islast (frag_region d)"
    by (simp add: frag_region_def Let_def)
qed

lemma first_fragment_incomplete:
  assumes "genuine_fragment d"
  shows "\<not> ReassemblyBuffer_isComplete (ReassemblyBuffer_merge ReassemblyBuffer_new (frag_region d))"
  using genuine_region [OF assms] word_less_pos [OF genuine_region(1) [OF assms]]
  by (auto simp: ReassemblyBuffer_isComplete_def ReassemblyBuffer_merge_def ReassemblyBuffer_new_def
      mergeFragmentsIfAny_def Let_def)

section \<open>Fragment streams\<close>

fun fb_run :: "IPv4FragBuf \<Rightarrow> (IPv4Datagram \<times> simtime) list \<Rightarrow> (IPv4FragBuf \<times> IPv4Datagram option list) outcome" where
  "fb_run bufs [] = Inr (bufs, [])"
| "fb_run bufs ((d, now) # es) =
     outcome_bind (IPv4FragBuf_addFragment bufs d now) (\<lambda>(bufs', out).
       outcome_bind (fb_run bufs' es) (\<lambda>(bufs'', outs). Inr (bufs'', out # outs)))"

lemma addFragment_defined:
  assumes "genuine_fragment d"
  shows "\<exists>bufs' out. IPv4FragBuf_addFragment bufs d now = Inr (bufs', out)"
  using first_fragment_incomplete [OF assms]
  by (auto simp: IPv4FragBuf_addFragment_def DatagramBuffer_new_def Let_def addFragment_eq
      split: option.splits)

lemma fb_run_defined:
  "\<forall>e \<in> set es. genuine_fragment (fst e) \<Longrightarrow> \<exists>bufs' outs. fb_run bufs es = Inr (bufs', outs)"
proof (induction es arbitrary: bufs)
  case (Cons e es)
  obtain d now where e: "e = (d, now)" by fastforce
  obtain b1 o1 where "IPv4FragBuf_addFragment bufs d now = Inr (b1, o1)"
    using addFragment_defined [of d bufs now] Cons.prems e by auto
  with Cons.IH [of b1] Cons.prems e show ?case by auto
qed simp

definition regions_of_key :: "FragKey \<Rightarrow> (IPv4Datagram \<times> simtime) list \<Rightarrow> Region set" where
  "regions_of_key k es = {frag_region d | d now. (d, now) \<in> set es \<and> frag_key d = k}"

lemma regions_of_key_simps [simp]:
  "regions_of_key k [] = {}"
  "regions_of_key k ((d, now) # es) =
     (if frag_key d = k then insert (frag_region d) (regions_of_key k es) else regions_of_key k es)"
  "regions_of_key k (es @ fs) = regions_of_key k es \<union> regions_of_key k fs"
  by (auto simp: regions_of_key_def)

text \<open>The buffer of key \<open>k\<close> after the regions \<open>rs\<close> of a datagram of \<open>L\<close> bytes have arrived.\<close>

fun entry_inv :: "FragKey \<Rightarrow> u16 \<Rightarrow> Region set \<Rightarrow> DatagramBuffer option \<Rightarrow> bool" where
  "entry_inv k L rs None \<longleftrightarrow> rs = {}"
| "entry_inv k L rs (Some b) \<longleftrightarrow>
     rb_inv L rs (db_buf b) \<and> (\<exists>d. db_datagram b = Some d \<and> frag_key d = k)"

definition reassembled :: "FragKey \<Rightarrow> u16 \<Rightarrow> IPv4Datagram \<Rightarrow> bool" where
  "reassembled k L r \<longleftrightarrow> frag_key r = k \<and> dg_byteLength r = dg_headerLength r + uint L
     \<and> dg_fragmentOffset r = 0 \<and> \<not> dg_moreFragments r"

lemma keep_datagram_key:
  "frag_key d = k \<Longrightarrow> (\<forall>d0. old = Some d0 \<longrightarrow> frag_key d0 = k) \<Longrightarrow> frag_key (keep_datagram old d) = k"
  by (auto simp: keep_datagram_def split: option.splits)

lemma entry_inv_merge:
  assumes "entry_inv k L rs e" and frag: "fragmentation L (insert r rs)"
  shows "rb_inv L (insert r rs)
    (ReassemblyBuffer_merge (db_buf (case e of None \<Rightarrow> DatagramBuffer_new | Some b \<Rightarrow> b)) r)"
proof (rule merge_inv [OF frag])
  show "rb_inv L rs (db_buf (case e of None \<Rightarrow> DatagramBuffer_new | Some b \<Rightarrow> b))"
    using assms rb_inv_new [of L]
    by (cases e) (auto simp: DatagramBuffer_new_def fragmentation_def)
qed

lemma entry_step_inv:
  assumes inv: "entry_inv k L rs e" and k: "frag_key d = k"
    and frag: "fragmentation L (insert (frag_region d) rs)"
  shows "if covered (insert (frag_region d) rs) = {0 ..< L}
     then fst (entry_step e d now) = None \<and> (\<exists>r. snd (entry_step e d now) = Some r \<and> reassembled k L r)
     else snd (entry_step e d now) = None
       \<and> entry_inv k L (insert (frag_region d) rs) (fst (entry_step e d now))"
proof -
  let ?buf = "case e of None \<Rightarrow> DatagramBuffer_new | Some b \<Rightarrow> b"
  let ?rb = "ReassemblyBuffer_merge (db_buf ?buf) (frag_region d)"
  let ?kept = "keep_datagram (db_datagram ?buf) d"
  have rb: "rb_inv L (insert (frag_region d) rs) ?rb"
    using entry_inv_merge [OF inv frag] .
  have kept: "frag_key ?kept = k"
    using inv k by (cases e) (auto simp: DatagramBuffer_new_def intro!: keep_datagram_key)
  have len: "ReassemblyBuffer_isComplete ?rb \<Longrightarrow> ReassemblyBuffer_getTotalLength ?rb = L"
    by (rule rb.total_eq [OF frag rb])
  show ?thesis
    using rb.complete_iff [OF frag rb] rb kept len
    by (auto simp: entry_step_def Let_def reassembled_def frag_key_def)
qed

lemma fb_run_pending:
  "fb_run bufs es = Inr (bufs', outs) \<Longrightarrow> entry_inv k L rs (smap_find bufs k) \<Longrightarrow>
   fragmentation L (rs \<union> regions_of_key k es) \<Longrightarrow> covered (rs \<union> regions_of_key k es) \<noteq> {0 ..< L} \<Longrightarrow>
   entry_inv k L (rs \<union> regions_of_key k es) (smap_find bufs' k)
   \<and> (\<forall>(e, out) \<in> set (zip es outs). frag_key (fst e) = k \<longrightarrow> out = None)"
proof (induction es arbitrary: bufs outs rs)
  case (Cons e es)
  obtain d now where e: "e = (d, now)" by fastforce
  obtain b1 o1 outs1 where step: "IPv4FragBuf_addFragment bufs d now = Inr (b1, o1)"
    and rest: "fb_run b1 es = Inr (bufs', outs1)" and outs: "outs = o1 # outs1"
    using Cons.prems(1) e by auto
  note ent = addFragment_entry [OF step]
  show ?case
  proof (cases "frag_key d = k")
    case False
    then have "entry_inv k L rs (smap_find b1 k)"
      using ent Cons.prems(2) by simp
    from Cons.IH [OF rest this] Cons.prems False e outs show ?thesis by simp
  next
    case True
    let ?rs = "insert (frag_region d) rs"
    have all: "rs \<union> regions_of_key k (e # es) = ?rs \<union> regions_of_key k es"
      using True e by auto
    have frag: "fragmentation L ?rs"
      using Cons.prems(3) unfolding all by (rule fragmentation_subset) auto
    have sub: "covered ?rs \<subseteq> covered (?rs \<union> regions_of_key k es)"
      by (rule covered_mono) auto
    have bound: "covered (?rs \<union> regions_of_key k es) \<subseteq> {0 ..< L}"
      using Cons.prems(3) unfolding all by (rule covered_bound)
    have "covered ?rs \<noteq> {0 ..< L}"
      using sub bound Cons.prems(4) unfolding all by blast
    then have o1: "o1 = None" and inv1: "entry_inv k L ?rs (smap_find b1 k)"
      using entry_step_inv [OF Cons.prems(2) True frag, of now] ent True by auto
    from Cons.IH [OF rest inv1] Cons.prems(3,4) o1 outs True e show ?thesis
      unfolding all by simp
  qed
qed simp

lemma fb_run_append:
  "fb_run bufs (es @ fs) = outcome_bind (fb_run bufs es) (\<lambda>(b, outs).
     outcome_bind (fb_run b fs) (\<lambda>(b', outs'). Inr (b', outs @ outs')))"
proof (induction es arbitrary: bufs)
  case (Cons e es)
  then show ?case
    by (cases e) (simp add: outcome_bind_assoc case_prod_unfold)
qed (simp add: outcome_bind_return)

lemma fb_run_length: "fb_run bufs es = Inr (bufs', outs) \<Longrightarrow> length outs = length es"
  by (induction es arbitrary: bufs outs) auto

text \<open>
  The stream of fragments of datagram \<open>k\<close>, from buffers that hold none of them, up to the one that
  completes it.
\<close>

lemma fb_run_delivers:
  assumes start: "smap_find bufs0 k = None"
    and genuine: "\<forall>e \<in> set (es @ [(d, now)]). genuine_fragment (fst e)"
    and key: "frag_key d = k"
    and frag: "fragmentation L (regions_of_key k (es @ [(d, now)]))"
    and missing: "covered (regions_of_key k es) \<noteq> {0 ..< L}"
    and complete: "covered (regions_of_key k (es @ [(d, now)])) = {0 ..< L}"
  shows "\<exists>bufs outs out. fb_run bufs0 (es @ [(d, now)]) = Inr (bufs, outs @ [out])
    \<and> length outs = length es
    \<and> (\<forall>(e, out') \<in> set (zip es outs). frag_key (fst e) = k \<longrightarrow> out' = None)
    \<and> (\<exists>r. out = Some r \<and> reassembled k L r) \<and> smap_find bufs k = None"
proof -
  obtain b1 outs where r1: "fb_run bufs0 es = Inr (b1, outs)"
    using fb_run_defined [of es bufs0] genuine by auto
  obtain bufs out where last: "IPv4FragBuf_addFragment b1 d now = Inr (bufs, out)"
    using addFragment_defined [of d b1 now] genuine by auto
  have run: "fb_run bufs0 (es @ [(d, now)]) = Inr (bufs, outs @ [out])"
    using r1 last by (simp add: fb_run_append)
  have frag1: "fragmentation L (regions_of_key k es)"
    using frag by (rule fragmentation_subset) auto
  have "entry_inv k L {} (smap_find bufs0 k)" using start by simp
  from fb_run_pending [OF r1 this] frag1 missing
  have pend: "entry_inv k L (regions_of_key k es) (smap_find b1 k)"
    and none: "\<forall>(e, out') \<in> set (zip es outs). frag_key (fst e) = k \<longrightarrow> out' = None"
    by simp_all
  have ins: "regions_of_key k (es @ [(d, now)]) = insert (frag_region d) (regions_of_key k es)"
    using key by auto
  have "(\<exists>r. out = Some r \<and> reassembled k L r) \<and> smap_find bufs k = None"
    using entry_step_inv [OF pend key, of now] frag complete addFragment_entry [OF last] key
    unfolding ins by auto
  with run none fb_run_length [OF r1] show ?thesis by blast
qed

text \<open>The datagram handed back is one of the fragments received, with its length and offset filled in.\<close>

definition holds_one_of :: "IPv4Datagram set \<Rightarrow> DatagramBuffer option \<Rightarrow> bool" where
  "holds_one_of D e \<longleftrightarrow> (\<forall>b. e = Some b \<longrightarrow> (\<exists>d \<in> D. db_datagram b = Some d))"

definition completes_one_of :: "IPv4Datagram set \<Rightarrow> IPv4Datagram option \<Rightarrow> bool" where
  "completes_one_of D out \<longleftrightarrow> (\<forall>r. out = Some r \<longrightarrow>
     (\<exists>d \<in> D. \<exists>n. r = d\<lparr>dg_byteLength := n, dg_fragmentOffset := 0, dg_moreFragments := False\<rparr>))"

lemma keep_datagram_mem: "d \<in> D \<Longrightarrow> (\<forall>d0. old = Some d0 \<longrightarrow> d0 \<in> D) \<Longrightarrow> keep_datagram old d \<in> D"
  by (auto simp: keep_datagram_def split: option.splits)

lemma entry_step_holds:
  assumes "holds_one_of D e" "d \<in> D"
  shows "holds_one_of D (fst (entry_step e d now)) \<and> completes_one_of D (snd (entry_step e d now))"
proof -
  let ?old = "db_datagram (case e of None \<Rightarrow> DatagramBuffer_new | Some b \<Rightarrow> b)"
  have "keep_datagram ?old d \<in> D"
    using assms by (intro keep_datagram_mem) (auto simp: holds_one_of_def DatagramBuffer_new_def split: option.splits)
  then show ?thesis
    by (auto simp: entry_step_def Let_def holds_one_of_def completes_one_of_def)
qed

lemma fb_run_holds:
  "fb_run bufs es = Inr (bufs', outs) \<Longrightarrow> holds_one_of D (smap_find bufs k) \<Longrightarrow>
   \<forall>e \<in> set es. frag_key (fst e) = k \<longrightarrow> fst e \<in> D \<Longrightarrow>
   holds_one_of D (smap_find bufs' k)
   \<and> (\<forall>(e, out) \<in> set (zip es outs). frag_key (fst e) = k \<longrightarrow> completes_one_of D out)"
proof (induction es arbitrary: bufs outs)
  case (Cons e es)
  obtain d now where e: "e = (d, now)" by fastforce
  obtain b1 o1 outs1 where step: "IPv4FragBuf_addFragment bufs d now = Inr (b1, o1)"
    and rest: "fb_run b1 es = Inr (bufs', outs1)" and outs: "outs = o1 # outs1"
    using Cons.prems(1) e by auto
  note ent = addFragment_entry [OF step]
  have "holds_one_of D (smap_find b1 k) \<and> (frag_key d = k \<longrightarrow> completes_one_of D o1)"
    using ent Cons.prems(2,3) entry_step_holds [of D "smap_find bufs k" d now] e
    by (cases "frag_key d = k") auto
  with Cons.IH [OF rest] Cons.prems(3) outs e show ?case by auto
qed simp

section \<open>Properties\<close>

text \<open>
  C2: in a stream of fragments of any number of datagrams, arriving interleaved, reordered and
  duplicated, the calls on fragments of datagram \<open>k\<close> return nothing until its last missing byte
  arrives, and that call returns the datagram with its full length, offset 0 and the more-fragments
  flag clear, and frees the buffer.
\<close>

theorem fragment_stream_delivers:
  assumes genuine: "\<forall>e \<in> set (es @ [(d, now)]). genuine_fragment (fst e)"
    and key: "frag_key d = k"
    and frag: "fragmentation L (regions_of_key k (es @ [(d, now)]))"
    and missing: "covered (regions_of_key k es) \<noteq> {0 ..< L}"
    and complete: "covered (regions_of_key k (es @ [(d, now)])) = {0 ..< L}"
  shows "\<exists>bufs outs out. fb_run [] (es @ [(d, now)]) = Inr (bufs, outs @ [out])
    \<and> (\<forall>(e, out') \<in> set (zip es outs). frag_key (fst e) = k \<longrightarrow> out' = None)
    \<and> (\<exists>r. out = Some r \<and> reassembled k L r) \<and> smap_find bufs k = None"
  using fb_run_delivers [OF _ genuine key frag missing complete, of "[]"] by (auto simp: smap_find_def)

definition example_frag :: "int \<Rightarrow> int \<Rightarrow> int \<Rightarrow> bool \<Rightarrow> IPv4Datagram" where
  "example_frag ident off n mf =
     \<lparr>dg_byteLength = 20 + n, dg_headerLength = 20, dg_srcAddress = 0x0A000001,
      dg_destAddress = 0x0A000002, dg_transportProtocol = 17, dg_timeToLive = 32,
      dg_identification = ident, dg_moreFragments = mf, dg_dontFragment = False,
      dg_fragmentOffset = off, dg_typeOfService = 0, dg_totalPayloadLength = 0,
      dg_encapsulatedPacket = None, dg_bitError = False, dg_arrivalGate = None, dg_multicastLoop = None\<rparr>"

lemma covered_insert [simp]: "covered (insert r rs) = region_bytes r \<union> covered rs" "covered {} = {}"
  by (auto simp: covered_def)

theorem fragment_stream_delivers_witness:
  "\<exists>bufs outs out.
     fb_run [] ([(example_frag 1 8 12 False, 0), (example_frag 2 0 8 True, 1)] @ [(example_frag 1 0 8 True, 2)])
       = Inr (bufs, outs @ [out])
     \<and> (\<exists>r. out = Some r \<and> reassembled (1, 0x0A000001, 0x0A000002) 20 r)"
proof -
  let ?es = "[(example_frag 1 8 12 False, 0), (example_frag 2 0 8 True, 1)]"
  let ?k = "(1, 0x0A000001, 0x0A000002) :: FragKey"
  have g: "\<forall>e \<in> set (?es @ [(example_frag 1 0 8 True, 2)]). genuine_fragment (fst e)"
    by (simp add: genuine_fragment_def example_frag_def)
  have k: "frag_key (example_frag 1 0 8 True) = ?k"
    by (simp add: frag_key_def example_frag_def)
  have r: "regions_of_key ?k ?es = {\<lparr>reg_beg = 8, reg_end = 20, reg_islast = True\<rparr>}"
    "regions_of_key ?k (?es @ [(example_frag 1 0 8 True, 2)]) =
       {\<lparr>reg_beg = 8, reg_end = 20, reg_islast = True\<rparr>, \<lparr>reg_beg = 0, reg_end = 8, reg_islast = False\<rparr>}"
    by (auto simp: frag_key_def example_frag_def frag_region_def)
  have f: "fragmentation 20 (regions_of_key ?k (?es @ [(example_frag 1 0 8 True, 2)]))"
    unfolding r by (simp add: fragmentation_def fragment_of_def aligned_def)
  have m: "covered (regions_of_key ?k ?es) \<noteq> {0 ..< 20}"
    unfolding r by (auto simp: region_bytes_def set_eq_iff intro!: exI [of _ 0])
  have c: "covered (regions_of_key ?k (?es @ [(example_frag 1 0 8 True, 2)])) = {0 ..< 20}"
    unfolding r using ivl_disj_un_two(3) [of 0 "8 :: u16" 20] by (simp add: region_bytes_def Un_commute)
  show ?thesis
    using fragment_stream_delivers [OF g k f m c] by blast
qed



text \<open>
  Purging removes exactly the buffers last updated before the limit and reports each of them
  once; every other buffer is untouched.
\<close>

theorem purgeStaleFragments_exact:
  assumes "smap_wf bufs"
  shows "smap_find (fst (IPv4FragBuf_purgeStaleFragments bufs t)) k =
      (case smap_find bufs k of None \<Rightarrow> None | Some b \<Rightarrow> if db_lastupdate b < t then None else Some b)
    \<and> set (snd (IPv4FragBuf_purgeStaleFragments bufs t)) =
      {db_datagram b | b. \<exists>k. smap_find bufs k = Some b \<and> db_lastupdate b < t}
    \<and> length (fst (IPv4FragBuf_purgeStaleFragments bufs t))
        + length (snd (IPv4FragBuf_purgeStaleFragments bufs t)) = length bufs"
proof -
  have "length (filter (\<lambda>(k, b). \<not> db_lastupdate b < t) bufs)
      + length (filter (\<lambda>(k, b). db_lastupdate b < t) bufs) = length bufs"
    by (induction bufs) auto
  moreover have "set (snd (IPv4FragBuf_purgeStaleFragments bufs t)) =
      {db_datagram b | b. \<exists>k. smap_find bufs k = Some b \<and> db_lastupdate b < t}"
    using smap_find_mem [OF assms] by (force simp: IPv4FragBuf_purgeStaleFragments_def)
  ultimately show ?thesis
    using smap_find_filter [OF assms]
    by (auto simp: IPv4FragBuf_purgeStaleFragments_def split: option.splits)
qed

theorem purgeStaleFragments_exact_witness:
  "smap_find (fst (IPv4FragBuf_purgeStaleFragments
     [((1, 0, 0), DatagramBuffer_new), ((2, 0, 0), DatagramBuffer_new\<lparr>db_lastupdate := 50\<rparr>)] 30)) (1, 0, 0) = None"
  using purgeStaleFragments_exact
    [of "[((1, 0, 0), DatagramBuffer_new), ((2, 0, 0), DatagramBuffer_new\<lparr>db_lastupdate := 50\<rparr>)]" 30 "(1, 0, 0)"]
  by (simp add: smap_wf_def smap_find_def DatagramBuffer_new_def)

end
