(* ===== verification/IPv4_Address.thy ===== *)
theory IPv4_Address
  imports Net_Prelude
begin

unbundle bit_operations_syntax

text \<open>
  IPv4 addresses, \<^verbatim>\<open>src/src/networklayer/contract/IPv4Address.{h,cc}\<close>.  The class
  wraps one \<^verbatim>\<open>uint32\<close>, so an address is a 32-bit word.  Modelled: construction from
  bytes and from text, printing, address classes and categories, netmasks and prefix comparison.
  Shown here: printing and parsing are inverse, the netmask routines agree with each other, and the
  three ways the code compares prefixes (mask, bit count, masked xor) are the same relation.
\<close>

section \<open>Bytes and text\<close>

type_synonym IPv4Address = u32

definition IPv4Address_set4 :: "u32 \<Rightarrow> u32 \<Rightarrow> u32 \<Rightarrow> u32 \<Rightarrow> IPv4Address" where
  "IPv4Address_set4 i0 i1 i2 i3 = push_bit 24 i0 OR push_bit 16 i1 OR push_bit 8 i2 OR i3"

definition getDByte :: "IPv4Address \<Rightarrow> nat \<Rightarrow> u32" where
  "getDByte addr i = drop_bit ((3 - i) * 8) addr AND 0xFF"

definition IPv4Address_isUnspecified :: "IPv4Address \<Rightarrow> bool" where
  "IPv4Address_isUnspecified addr \<longleftrightarrow> addr = 0"

text \<open>
  The outcome of \<open>parseIPAddress\<close>: the four bytes, rejection, or signed overflow of the
  \<^verbatim>\<open>int num\<close> accumulator on an over-long digit string (undefined in C++).
\<close>

datatype ip_parse = ParseOk "u8 list" | ParseFail | ParseOverflow

definition is_digit :: "char \<Rightarrow> bool" where
  "is_digit c \<longleftrightarrow> 48 \<le> (of_char c :: nat) \<and> (of_char c :: nat) \<le> 57"

definition digit_val :: "char \<Rightarrow> nat" where
  "digit_val c = of_char c - 48"

text \<open>The inner loop \<^verbatim>\<open>while (*s>='0' && *s<='9') num = 10*num + (*s++ - '0')\<close>.\<close>

fun readNum :: "nat \<Rightarrow> string \<Rightarrow> (nat \<times> string) option" where
  "readNum num [] = Some (num, [])"
| "readNum num (c # s) =
     (if is_digit c
      then (let num' = 10 * num + digit_val c in if num' < 2 ^ 31 then readNum num' s else None)
      else Some (num, c # s))"

lemma readNum_length: "readNum num s = Some (n, s') \<Longrightarrow> length s' \<le> length s"
  by (induction num s rule: readNum.induct) (auto simp: Let_def split: if_splits)

function parseLoop :: "string \<Rightarrow> u8 list \<Rightarrow> ip_parse" where
  "parseLoop s tobytes =
     (if s = [] \<or> \<not> is_digit (hd s) then ParseFail
      else case readNum 0 s of
        None \<Rightarrow> ParseOverflow
      | Some (num, rest) \<Rightarrow>
          if 255 < num then ParseFail
          else let tobytes' = tobytes @ [of_nat num] in
            (case rest of
               [] \<Rightarrow> if length tobytes' = 4 then ParseOk tobytes' else ParseFail
             | c # rest' \<Rightarrow>
                 if c \<noteq> CHR ''.'' then ParseFail
                 else if length tobytes' = 4 then ParseFail
                 else parseLoop rest' tobytes'))"
  by pat_completeness auto
termination
  by (relation "measure (\<lambda>(s, _). length s)") (auto dest!: readNum_length)

declare parseLoop.simps [simp del]

definition parseIPAddress :: "string option \<Rightarrow> ip_parse" where
  "parseIPAddress text =
     (case text of
        None \<Rightarrow> ParseFail
      | Some s \<Rightarrow> if s = ''<unspec>'' then ParseOk [0, 0, 0, 0] else parseLoop s [])"

definition IPv4Address_setText :: "string option \<Rightarrow> IPv4Address outcome" where
  "IPv4Address_setText text =
     (if text = None then Inl (RuntimeError ''IPv4 address string is NULL'')
      else case parseIPAddress text of
        ParseOk buf \<Rightarrow> Inr (IPv4Address_set4 (ucast (buf ! 0)) (ucast (buf ! 1)) (ucast (buf ! 2)) (ucast (buf ! 3)))
      | ParseFail \<Rightarrow> Inl (RuntimeError ''Invalid IPv4 address string'')
      | ParseOverflow \<Rightarrow> Inl (UndefinedBehaviour ''signed overflow in parseIPAddress''))"

definition isWellFormed :: "string option \<Rightarrow> bool outcome" where
  "isWellFormed text =
     (case parseIPAddress text of
        ParseOk _ \<Rightarrow> Inr True | ParseFail \<Rightarrow> Inr False
      | ParseOverflow \<Rightarrow> Inl (UndefinedBehaviour ''signed overflow in parseIPAddress''))"

text \<open>The \<^verbatim>\<open>%u\<close> conversion of \<^verbatim>\<open>sprintf\<close>.\<close>

fun decimal :: "nat \<Rightarrow> string" where
  "decimal n = (if n < 10 then [char_of (48 + n)] else decimal (n div 10) @ [char_of (48 + n mod 10)])"

declare decimal.simps [simp del]

definition IPv4Address_str :: "bool \<Rightarrow> IPv4Address \<Rightarrow> string" where
  "IPv4Address_str printUnspec addr =
     (if printUnspec \<and> IPv4Address_isUnspecified addr then ''<unspec>''
      else decimal (unat (drop_bit 24 addr AND 255)) @ ''.'' @ decimal (unat (drop_bit 16 addr AND 255)) @ ''.''
         @ decimal (unat (drop_bit 8 addr AND 255)) @ ''.'' @ decimal (unat (addr AND 255)))"

section \<open>Classes and categories\<close>

definition getIPClass :: "IPv4Address \<Rightarrow> char" where
  "getIPClass addr =
     (let buf = getDByte addr 0 in
      if buf AND 0x80 = 0 then CHR ''A''
      else if buf AND 0xC0 = 0x80 then CHR ''B''
      else if buf AND 0xE0 = 0xC0 then CHR ''C''
      else if buf AND 0xF0 = 0xE0 then CHR ''D''
      else if buf AND 0xF8 = 0xF0 then CHR ''E''
      else CHR ''?'')"

datatype AddressCategory =
    UNSPECIFIED | THIS_NETWORK | LOOPBACK | MULTICAST | BROADCAST | IETF | TEST_NET
  | IPv6_TO_IPv4_RELAY | BENCHMARK | RESERVED | LINKLOCAL | PRIVATE_NETWORK | GLOBAL

definition isLimitedBroadcastAddress :: "IPv4Address \<Rightarrow> bool" where
  "isLimitedBroadcastAddress addr \<longleftrightarrow> addr = 0xFFFFFFFF"

definition isMulticast :: "IPv4Address \<Rightarrow> bool" where
  "isMulticast addr \<longleftrightarrow> addr AND 0xF0000000 = 0xE0000000"

definition isUnicast :: "IPv4Address \<Rightarrow> bool" where
  "isUnicast addr \<longleftrightarrow> \<not> isMulticast addr \<and> \<not> isLimitedBroadcastAddress addr"

definition isLinkLocalMulticast :: "IPv4Address \<Rightarrow> bool" where
  "isLinkLocalMulticast addr \<longleftrightarrow> addr AND 0xFFFFFF00 = 0xE0000000"

definition getAddressCategory :: "IPv4Address \<Rightarrow> AddressCategory" where
  "getAddressCategory addr =
     (if IPv4Address_isUnspecified addr then UNSPECIFIED
      else if addr AND 0xFF000000 = 0 then THIS_NETWORK
      else if addr AND 0xFF000000 = 0x7F000000 then LOOPBACK
      else if isMulticast addr then MULTICAST
      else if addr = 0xFFFFFFFF then BROADCAST
      else let addr24 = addr AND 0xFFFFFF00 in
      if addr24 = 0xC0000000 then IETF
      else if addr24 = 0xC0000200 \<or> addr24 = 0xC6336400 \<or> addr24 = 0xCB007100 then TEST_NET
      else if addr24 = 0xC0586300 then IPv6_TO_IPv4_RELAY
      else if addr AND 0xFFFE0000 = 0xC6120000 then BENCHMARK
      else if addr AND 0xF0000000 = 0xF0000000 then RESERVED
      else if addr AND 0xFFFF0000 = 0xA9FE0000 then LINKLOCAL
      else if addr AND 0xFF000000 = 0x0A000000 \<or> addr AND 0xFFF00000 = 0xAC100000
            \<or> addr AND 0xFFFF0000 = 0xC0A80000 then PRIVATE_NETWORK
      else GLOBAL)"

definition getNetwork :: "IPv4Address \<Rightarrow> IPv4Address" where
  "getNetwork addr =
     (let c = getIPClass addr in
      if c = CHR ''A'' then IPv4Address_set4 (getDByte addr 0) 0 0 0
      else if c = CHR ''B'' then IPv4Address_set4 (getDByte addr 0) (getDByte addr 1) 0 0
      else if c = CHR ''C'' then IPv4Address_set4 (getDByte addr 0) (getDByte addr 1) (getDByte addr 2) 0
      else 0)"

definition getNetworkMask :: "IPv4Address \<Rightarrow> IPv4Address" where
  "getNetworkMask addr =
     (let c = getIPClass addr in
      if c = CHR ''A'' then IPv4Address_set4 255 0 0 0
      else if c = CHR ''B'' then IPv4Address_set4 255 255 0 0
      else if c = CHR ''C'' then IPv4Address_set4 255 255 255 0
      else 0)"

section \<open>Netmasks and prefixes\<close>

definition doAnd :: "IPv4Address \<Rightarrow> IPv4Address \<Rightarrow> IPv4Address" where
  "doAnd addr ip = addr AND ip"

definition maskedAddrAreEqual :: "IPv4Address \<Rightarrow> IPv4Address \<Rightarrow> IPv4Address \<Rightarrow> bool" where
  "maskedAddrAreEqual addr1 addr2 netmask \<longleftrightarrow> (addr1 XOR addr2) AND netmask = 0"

definition isNetwork :: "IPv4Address \<Rightarrow> IPv4Address \<Rightarrow> bool" where
  "isNetwork addr toCmp =
     (let netmask = getNetworkMask addr in
      if IPv4Address_isUnspecified netmask then False else maskedAddrAreEqual addr toCmp netmask)"

text \<open>\<open>_makeNetmask\<close>; it is only called with lengths of at least 0.\<close>

definition makeNetmask0 :: "nat \<Rightarrow> u32" where
  "makeNetmask0 n = (if 32 \<le> n then 0xFFFFFFFF else NOT (drop_bit n 0xFFFFFFFF))"

definition makeNetmask :: "int \<Rightarrow> IPv4Address outcome" where
  "makeNetmask n =
     (if n < 0 \<or> 32 < n then Inl (RuntimeError ''IPv4Address: wrong netmask length'')
      else Inr (makeNetmask0 (nat n)))"

definition prefixMatches :: "IPv4Address \<Rightarrow> IPv4Address \<Rightarrow> int \<Rightarrow> bool" where
  "prefixMatches addr other n =
     (if n < 1 then True
      else if 31 < n then addr = other
      else let mask = makeNetmask0 (nat n) in addr AND mask = other AND mask)"

text \<open>The loop \<^verbatim>\<open>for (int i = 31; i >= 0; i--)\<close>; \<open>Suc i\<close> stands for the counter value \<open>i\<close>.\<close>

fun matchingBitsFrom :: "u32 \<Rightarrow> nat \<Rightarrow> nat" where
  "matchingBitsFrom res 0 = 32"
| "matchingBitsFrom res (Suc i) =
     (if res AND push_bit i 1 \<noteq> 0 then 31 - i else matchingBitsFrom res i)"

definition getNumMatchingPrefixBits :: "IPv4Address \<Rightarrow> IPv4Address \<Rightarrow> nat" where
  "getNumMatchingPrefixBits addr to_cmp = matchingBitsFrom (addr XOR to_cmp) 32"

text \<open>The loop \<^verbatim>\<open>for (int i=0; i<32; i++)\<close>, over the counter values still to come.\<close>

fun netmaskLengthLoop :: "u32 \<Rightarrow> nat list \<Rightarrow> nat" where
  "netmaskLengthLoop addr [] = 0"
| "netmaskLengthLoop addr (i # is) =
     (if addr AND push_bit i 1 \<noteq> 0 then 32 - i else netmaskLengthLoop addr is)"

definition getNetmaskLength :: "IPv4Address \<Rightarrow> nat" where
  "getNetmaskLength addr = netmaskLengthLoop addr [0..<32]"

definition isValidNetmask :: "IPv4Address \<Rightarrow> bool" where
  "isValidNetmask addr \<longleftrightarrow> addr = makeNetmask0 (getNetmaskLength addr)"

definition makeBroadcastAddress :: "IPv4Address \<Rightarrow> IPv4Address \<Rightarrow> IPv4Address" where
  "makeBroadcastAddress addr netmask = addr OR NOT netmask"

section \<open>Facts about bits\<close>

lemma and_single_bit [simp]: "w AND 2 ^ i = 0 \<longleftrightarrow> \<not> bit w i" for w :: u32
  by (rule and_exp_eq_0_iff_not_bit)

lemma and_255: "w AND 255 = take_bit 8 w" for w :: u32
  by (simp add: take_bit_eq_mask mask_eq_exp_minus_1)

lemma all_ones_u32: "(0xFFFFFFFF :: u32) = -1"
  by simp

lemma bit_makeNetmask0: "bit (makeNetmask0 n) i \<longleftrightarrow> i < 32 \<and> 32 - n \<le> i"
  by (auto simp: makeNetmask0_def bit_simps all_ones_u32 simp del: word_eq_numeral_iff_iszero)

lemma masked_eq_iff_bits:
  "maskedAddrAreEqual a b m \<longleftrightarrow> (\<forall>i<32. bit m i \<longrightarrow> bit a i = bit b i)"
  by (auto simp: maskedAddrAreEqual_def word_eq_bits bit_simps)

lemma maskedAddrAreEqual_doAnd: "maskedAddrAreEqual a b m \<longleftrightarrow> doAnd a m = doAnd b m"
  by (auto simp: maskedAddrAreEqual_def doAnd_def word_eq_bits bit_simps)

lemma matchingBitsFrom_ge:
  "k \<le> 32 \<Longrightarrow> n \<le> 32 \<Longrightarrow> (\<forall>i<32. k \<le> i \<longrightarrow> \<not> bit res i) \<Longrightarrow>
   n \<le> matchingBitsFrom res k \<longleftrightarrow> (\<forall>i<32. 32 - n \<le> i \<longrightarrow> \<not> bit res i)"
proof (induction k)
  case (Suc k)
  show ?case
  proof (cases "bit res k")
    case True
    have "n \<le> 31 - k \<longleftrightarrow> (\<forall>i<32. 32 - n \<le> i \<longrightarrow> \<not> bit res i)"
    proof
      assume "n \<le> 31 - k"
      then have "32 - n \<le> i \<Longrightarrow> Suc k \<le> i" for i using Suc.prems by linarith
      with Suc.prems(3) show "\<forall>i<32. 32 - n \<le> i \<longrightarrow> \<not> bit res i" by blast
    next
      assume "\<forall>i<32. 32 - n \<le> i \<longrightarrow> \<not> bit res i"
      with True Suc.prems(1) have "\<not> 32 - n \<le> k" by auto
      then show "n \<le> 31 - k" by linarith
    qed
    with True show ?thesis by simp
  next
    case False
    with Suc.prems have "\<forall>i<32. k \<le> i \<longrightarrow> \<not> bit res i"
      by (metis le_eq_less_or_eq Suc_leI)
    with Suc False show ?thesis by simp
  qed
qed auto

lemma matchingPrefix_ge:
  assumes "n \<le> 32"
  shows "n \<le> getNumMatchingPrefixBits a b \<longleftrightarrow> (\<forall>i<32. 32 - n \<le> i \<longrightarrow> bit a i = bit b i)"
  using matchingBitsFrom_ge [of 32 n "a XOR b"] assms
  by (auto simp: getNumMatchingPrefixBits_def bit_simps)

lemma prefixMatches_bits:
  assumes "n \<le> 32"
  shows "prefixMatches a b (int n) \<longleftrightarrow> (\<forall>i<32. 32 - n \<le> i \<longrightarrow> bit a i = bit b i)"
proof -
  consider "n = 0" | "n = 32" | "0 < n" "n < 32" using assms by linarith
  then show ?thesis
    by cases (auto simp: prefixMatches_def Let_def word_eq_bits bit_simps bit_makeNetmask0)
qed

lemma netmaskLengthLoop_first:
  assumes "\<And>i. i < 32 \<Longrightarrow> bit addr i \<longleftrightarrow> 32 - n \<le> i" and "n \<le> 32"
  shows "netmaskLengthLoop addr [0..<32] = n"
proof -
  have "k \<le> 32 - n \<Longrightarrow> netmaskLengthLoop addr [k..<32] = n" if "k \<le> 32" for k
    using that
  proof (induction rule: inc_induct)
    case base
    with assms(2) show ?case by simp
  next
    case (step k)
    show ?case
    proof (cases "k = 32 - n")
      case True
      with step assms show ?thesis by (simp add: upt_conv_Cons)
    next
      case False
      with step have "netmaskLengthLoop addr [Suc k..<32] = n" by simp
      with step False assms show ?thesis by (simp add: upt_conv_Cons)
    qed
  qed
  from this [of 0] show ?thesis by simp
qed

lemma getNetmaskLength_makeNetmask0: "n \<le> 32 \<Longrightarrow> getNetmaskLength (makeNetmask0 n) = n"
  unfolding getNetmaskLength_def
  by (rule netmaskLengthLoop_first) (auto simp: bit_makeNetmask0)

lemma netmaskLengthLoop_le: "netmaskLengthLoop addr is \<le> 32"
  by (induction "is") auto

section \<open>Decimal text\<close>

fun foldNum :: "nat \<Rightarrow> string \<Rightarrow> nat" where
  "foldNum num [] = num"
| "foldNum num (c # s) = foldNum (10 * num + digit_val c) s"

lemma foldNum_append [simp]: "foldNum num (s @ t) = foldNum (foldNum num s) t"
  by (induction s arbitrary: num) auto

lemma foldNum_mono: "num \<le> foldNum num s"
proof (induction s arbitrary: num)
  case (Cons c s)
  from Cons [of "10 * num + digit_val c"] show ?case by simp
qed simp

lemma readNum_digits:
  "list_all is_digit s \<Longrightarrow> foldNum num s < 2 ^ 31 \<Longrightarrow> readNum num (s @ t) = readNum (foldNum num s) t"
proof (induction s arbitrary: num)
  case (Cons c s)
  have "10 * num + digit_val c < 2 ^ 31"
    using foldNum_mono [of "10 * num + digit_val c" s] Cons.prems(2) by simp
  with Cons show ?case by (simp add: Let_def)
qed simp

lemma digit_char: "n < 10 \<Longrightarrow> is_digit (char_of (48 + n)) \<and> digit_val (char_of (48 + n)) = n"
  by (simp add: is_digit_def digit_val_def)

lemma decimal_digits: "list_all is_digit (decimal n)"
proof (induction n rule: decimal.induct)
  case (1 n)
  show ?case
    using 1 digit_char [of n] digit_char [of "n mod 10"] by (subst decimal.simps) auto
qed

lemma foldNum_decimal: "foldNum 0 (decimal n) = n"
proof (induction n rule: decimal.induct)
  case (1 n)
  show ?case
    using 1 digit_char [of n] digit_char [of "n mod 10"] by (subst decimal.simps) auto
qed

lemma decimal_nonempty: "decimal n \<noteq> []"
  by (subst decimal.simps) simp

lemma hd_decimal: "is_digit (hd (decimal n @ s))"
  using decimal_digits [of n] decimal_nonempty [of n] by (cases "decimal n") auto

lemma readNum_decimal:
  assumes "n < 2 ^ 31"
  shows "readNum 0 (decimal n) = Some (n, [])" "readNum 0 (decimal n @ CHR ''.'' # s) = Some (n, CHR ''.'' # s)"
  using readNum_digits [OF decimal_digits, of 0 n "[]"] readNum_digits [OF decimal_digits, of 0 n "CHR ''.'' # s"] assms
  by (auto simp: foldNum_decimal is_digit_def)

lemma parseLoop_dot:
  assumes "n \<le> 255" and "length bs < 3"
  shows "parseLoop (decimal n @ CHR ''.'' # s) bs = parseLoop s (bs @ [of_nat n])"
  using assms readNum_decimal(2) [of n s] hd_decimal [of n "CHR ''.'' # s"] decimal_nonempty [of n]
  by (subst parseLoop.simps) auto

lemma parseLoop_last:
  assumes "n \<le> 255" and "length bs = 3"
  shows "parseLoop (decimal n) bs = ParseOk (bs @ [of_nat n])"
  using assms readNum_decimal(1) [of n] hd_decimal [of n "[]"] decimal_nonempty [of n]
  by (subst parseLoop.simps) auto

lemma byte_le: "unat (w AND 255) \<le> 255" for w :: u32
  using word_and_le1 [of w 255] by (simp add: word_le_nat_alt)

lemma parse_dotted:
  "a \<le> 255 \<Longrightarrow> b \<le> 255 \<Longrightarrow> c \<le> 255 \<Longrightarrow> d \<le> 255 \<Longrightarrow>
   parseLoop (decimal a @ ''.'' @ decimal b @ ''.'' @ decimal c @ ''.'' @ decimal d) [] =
     ParseOk [of_nat a, of_nat b, of_nat c, of_nat d]"
  by (simp add: parseLoop_dot parseLoop_last)

lemma bytes_rebuild:
  "IPv4Address_set4 (drop_bit 24 a AND 255) (drop_bit 16 a AND 255) (drop_bit 8 a AND 255) (a AND 255) = a"
  unfolding and_255 IPv4Address_set4_def
proof (rule bit_word_eqI)
  fix n assume n: "n < LENGTH(32)"
  consider "n < 8" | "8 \<le> n" "n < 16" | "16 \<le> n" "n < 24" | "24 \<le> n" by linarith
  then show "bit (push_bit 24 (take_bit 8 (drop_bit 24 a)) OR push_bit 16 (take_bit 8 (drop_bit 16 a))
      OR push_bit 8 (take_bit 8 (drop_bit 8 a)) OR take_bit 8 a) n = bit a n"
    using n by cases (auto simp: bit_simps)
qed

lemma ucast_byte: "ucast (of_nat (unat (w AND 255)) :: u8) = w AND 255" for w :: u32
  unfolding and_255
  by (rule bit_word_eqI) (auto simp: bit_simps)

lemma byte_mask_top:
  "getDByte a 0 AND 0x80 = 0 \<longleftrightarrow> a AND 0x80000000 = 0"
  "getDByte a 0 AND 0xC0 = 0x80 \<longleftrightarrow> a AND 0xC0000000 = 0x80000000"
  "getDByte a 0 AND 0xE0 = 0xC0 \<longleftrightarrow> a AND 0xE0000000 = 0xC0000000"
  "getDByte a 0 AND 0xF0 = 0xE0 \<longleftrightarrow> a AND 0xF0000000 = 0xE0000000"
  by (auto simp: getDByte_def word_eq_bits bit_simps numeral_eq_Suc All_less_Suc)

lemma top_bits_disjoint:
  "a AND 0xF0000000 = 0xE0000000 \<Longrightarrow> a AND 0x80000000 \<noteq> 0"
  "a AND 0xF0000000 = 0xE0000000 \<Longrightarrow> a AND 0xC0000000 \<noteq> 0x80000000"
  "a AND 0xF0000000 = 0xE0000000 \<Longrightarrow> a AND 0xE0000000 \<noteq> 0xC0000000"
  "a AND 0xF0000000 = 0xE0000000 \<Longrightarrow> a AND 0xFF000000 \<noteq> 0"
  "a AND 0xF0000000 = 0xE0000000 \<Longrightarrow> a AND 0xFF000000 \<noteq> 0x7F000000"
  for a :: u32
  by (auto simp: word_eq_bits bit_simps numeral_eq_Suc All_less_Suc)

lemma class_D_iff: "getIPClass a = CHR ''D'' \<longleftrightarrow> isMulticast a"
  using top_bits_disjoint [of a]
  by (auto simp: getIPClass_def Let_def byte_mask_top isMulticast_def)

lemma category_multicast_iff: "getAddressCategory a = MULTICAST \<longleftrightarrow> isMulticast a"
proof -
  have "isMulticast a \<Longrightarrow> a \<noteq> 0"
    by (auto simp: isMulticast_def)
  then show ?thesis
    using top_bits_disjoint(4,5) [of a]
    by (auto simp: getAddressCategory_def Let_def IPv4Address_isUnspecified_def isMulticast_def
        split: if_splits)
qed

lemma bit_high_mask: "m = NOT (mask k) \<Longrightarrow> bit m n \<longleftrightarrow> n < 32 \<and> k \<le> n" for m :: u32
  by (auto simp: bit_simps)

lemma bit_class_masks:
  "bit (0xFF000000 :: u32) n \<longleftrightarrow> n < 32 \<and> 24 \<le> n"
  "bit (0xFFFF0000 :: u32) n \<longleftrightarrow> n < 32 \<and> 16 \<le> n"
  "bit (0xFFFFFF00 :: u32) n \<longleftrightarrow> n < 32 \<and> 8 \<le> n"
  by (rule bit_high_mask; simp add: mask_eq_exp_minus_1)+

lemma network_prefix:
  "IPv4Address_set4 (getDByte a 0) 0 0 0 = a AND 0xFF000000"
  "IPv4Address_set4 (getDByte a 0) (getDByte a 1) 0 0 = a AND 0xFFFF0000"
  "IPv4Address_set4 (getDByte a 0) (getDByte a 1) (getDByte a 2) 0 = a AND 0xFFFFFF00"
proof -
  have *: "bit (push_bit k (take_bit 8 (drop_bit k a))) n \<longleftrightarrow> k \<le> n \<and> n < k + 8 \<and> n < 32 \<and> bit a n" for k n
    by (auto simp: bit_simps)
  show "IPv4Address_set4 (getDByte a 0) 0 0 0 = a AND 0xFF000000"
    "IPv4Address_set4 (getDByte a 0) (getDByte a 1) 0 0 = a AND 0xFFFF0000"
    "IPv4Address_set4 (getDByte a 0) (getDByte a 1) (getDByte a 2) 0 = a AND 0xFFFFFF00"
    unfolding word_eq_bits IPv4Address_set4_def getDByte_def and_255 bit_or_iff bit_and_iff bit_class_masks
    by (auto simp: *)
qed

lemma getNetwork_masked: "getNetwork a = doAnd a (getNetworkMask a)"
  using network_prefix [of a]
  by (simp add: getNetwork_def getNetworkMask_def doAnd_def Let_def) (simp add: IPv4Address_set4_def)

section \<open>Properties\<close>

text \<open>
  C5: the text printed for an address, with or without the special spelling of the unspecified
  address, is accepted by the text constructor and gives the same address back.
\<close>

theorem address_text_roundtrip: "IPv4Address_setText (Some (IPv4Address_str printUnspec a)) = Inr a"
proof (cases "printUnspec \<and> IPv4Address_isUnspecified a")
  case True
  then show ?thesis
    by (simp add: IPv4Address_str_def IPv4Address_setText_def parseIPAddress_def
        IPv4Address_isUnspecified_def IPv4Address_set4_def)
next
  case False
  let ?s = "IPv4Address_str printUnspec a"
  have "parseLoop ?s [] = ParseOk [of_nat (unat (drop_bit 24 a AND 255)), of_nat (unat (drop_bit 16 a AND 255)),
      of_nat (unat (drop_bit 8 a AND 255)), of_nat (unat (a AND 255))]"
    using False parse_dotted [OF byte_le byte_le byte_le byte_le]
    by (simp only: IPv4Address_str_def if_False)
  moreover have "?s \<noteq> ''<unspec>''"
  proof
    assume "?s = ''<unspec>''"
    then have "is_digit CHR ''<''"
      using False hd_decimal [of "unat (drop_bit 24 a AND 255)"]
      by (metis IPv4Address_str_def list.sel(1))
    then show False by (simp add: is_digit_def)
  qed
  ultimately show ?thesis
    using bytes_rebuild [of a]
    by (simp add: IPv4Address_setText_def parseIPAddress_def ucast_byte del: of_nat_unat)
qed

text \<open>
  \<open>makeNetmask\<close> accepts exactly the lengths 0 to 32, \<open>getNetmaskLength\<close> recovers the length,
  and the masks it builds are exactly the addresses \<open>isValidNetmask\<close> accepts.
\<close>

theorem netmask_roundtrip:
  "(if 0 \<le> n \<and> n \<le> 32
    then \<exists>m. makeNetmask n = Inr m \<and> int (getNetmaskLength m) = n \<and> isValidNetmask m
    else makeNetmask n = Inl (RuntimeError ''IPv4Address: wrong netmask length''))
   \<and> (isValidNetmask a \<longleftrightarrow> (\<exists>n. makeNetmask n = Inr a))"
proof -
  have "\<exists>n. makeNetmask n = Inr a" if "isValidNetmask a"
  proof -
    have "makeNetmask (int (getNetmaskLength a)) = Inr a"
      using that netmaskLengthLoop_le [of a "[0..<32]"]
      by (simp add: makeNetmask_def isValidNetmask_def getNetmaskLength_def)
    then show ?thesis by blast
  qed
  moreover have "isValidNetmask (makeNetmask0 k)" if "k \<le> 32" for k
    using that by (simp add: isValidNetmask_def getNetmaskLength_makeNetmask0)
  ultimately show ?thesis
    by (auto simp: makeNetmask_def getNetmaskLength_makeNetmask0 split: if_splits)
qed

text \<open>
  For every prefix length the three comparisons of the class agree: equal leading bits by
  \<open>prefixMatches\<close>, the bit count of \<open>getNumMatchingPrefixBits\<close>, and the masked xor under the netmask
  of that length.
\<close>

theorem prefix_comparisons_agree:
  assumes "n \<le> 32"
  shows "(prefixMatches a b (int n) \<longleftrightarrow> n \<le> getNumMatchingPrefixBits a b)
    \<and> (prefixMatches a b (int n) \<longleftrightarrow> maskedAddrAreEqual a b (makeNetmask0 n))"
  using assms prefixMatches_bits [OF assms, of a b] matchingPrefix_ge [OF assms, of a b]
  by (auto simp: masked_eq_iff_bits bit_makeNetmask0)

theorem prefix_comparisons_agree_witness:
  "prefixMatches 0xC0A80102 0xC0A801FF 24 \<and> maskedAddrAreEqual 0xC0A80102 0xC0A801FF (makeNetmask0 24)"
proof -
  have "prefixMatches 0xC0A80102 0xC0A801FF (int 24)"
    by (simp add: prefixMatches_def makeNetmask0_def)
  then show ?thesis
    using prefix_comparisons_agree [of 24 "0xC0A80102" "0xC0A801FF"] by simp
qed

text \<open>
  The classful routines are consistent: class D is exactly the multicast range and the
  \<open>MULTICAST\<close> category, \<open>getNetwork\<close> is the address masked by the class mask, and \<open>isNetwork\<close>
  compares the masked addresses and is false for classes without a mask.
\<close>

theorem classful_consistent:
  "(getIPClass a = CHR ''D'' \<longleftrightarrow> isMulticast a)
   \<and> (getAddressCategory a = MULTICAST \<longleftrightarrow> isMulticast a)
   \<and> getNetwork a = doAnd a (getNetworkMask a)
   \<and> (isNetwork a b \<longleftrightarrow> getNetworkMask a \<noteq> 0 \<and> doAnd a (getNetworkMask a) = doAnd b (getNetworkMask a))"
  using class_D_iff [of a] category_multicast_iff [of a] getNetwork_masked [of a]
  by (auto simp: isNetwork_def Let_def IPv4Address_isUnspecified_def maskedAddrAreEqual_doAnd)

end
