(* ===== verification/IPv4_Interface.thy ===== *)
theory IPv4_Interface
  imports IPv4_Address
begin

unbundle bit_operations_syntax

text \<open>
  What the IPv4 modules read of a network interface: the entry of the interface table
  (\<^verbatim>\<open>src/src/networklayer/common/InterfaceEntry.h\<close>), its IPv4 data with the joined
  and the reported multicast groups
  (\<^verbatim>\<open>src/src/networklayer/ipv4/IPv4InterfaceData.{h,cc}\<close>) and the link-layer
  addresses of \<^verbatim>\<open>src/src/linklayer/contract/MACAddress.{h,cc}\<close>.  Groups are
  reference counted in two parallel vectors; shown here: after any sequence of joins and leaves an
  interface is a member of exactly the groups joined more often than left.
\<close>

section \<open>Link-layer addresses\<close>

type_synonym MACAddress = u64

definition MACAddress_isUnspecified :: "MACAddress \<Rightarrow> bool" where
  "MACAddress_isUnspecified a \<longleftrightarrow> a = 0"

definition MACAddress_BROADCAST :: MACAddress where
  "MACAddress_BROADCAST = 0xFFFFFFFFFFFF"

text \<open>The 48-bit case of \<open>setAddressByte\<close>; the 64-bit form is not used by the IPv4 modules.\<close>

definition setAddressByte :: "nat \<Rightarrow> u8 \<Rightarrow> MACAddress \<Rightarrow> MACAddress outcome" where
  "setAddressByte k b a =
     (if 6 \<le> k then Inl (RuntimeError ''Array of size 6 indexed'')
      else let offset = (6 - k - 1) * 8
           in Inr ((a AND NOT (push_bit offset 0xFF)) OR push_bit offset (ucast b)))"

definition makeMulticastAddress :: "IPv4Address \<Rightarrow> MACAddress outcome" where
  "makeMulticastAddress addr =
     (if \<not> isMulticast addr then Inl (AssertFailed ''addr.isMulticast()'')
      else outcome_bind (setAddressByte 0 0x01 0) (\<lambda>m0.
           outcome_bind (setAddressByte 1 0x00 m0) (\<lambda>m1.
           outcome_bind (setAddressByte 2 0x5e m1) (\<lambda>m2.
           outcome_bind (setAddressByte 3 (ucast (getDByte addr 1 AND 0x7f)) m2) (\<lambda>m3.
           outcome_bind (setAddressByte 4 (ucast (getDByte addr 2)) m3) (\<lambda>m4.
           setAddressByte 5 (ucast (getDByte addr 3)) m4))))))"

section \<open>Interfaces\<close>

record IPv4InterfaceData =
  ifd_inetAddr :: IPv4Address
  ifd_netmask :: IPv4Address
  ifd_metric :: int
  ifd_groups :: "IPv4Address list"
  ifd_refCounts :: "int list"
  ifd_reportedGroups :: "IPv4Address list"
  ifd_multicastTtlThreshold :: int

record InterfaceEntry =
  ie_id :: nat
  ie_nwLayerGateIndex :: int
  ie_mtu :: int
  ie_broadcast :: bool
  ie_multicast :: bool
  ie_loopback :: bool
  ie_macAddr :: MACAddress
  ie_ipv4Data :: "IPv4InterfaceData option"

definition IPv4InterfaceData_new :: IPv4InterfaceData where
  "IPv4InterfaceData_new =
     \<lparr>ifd_inetAddr = 0, ifd_netmask = 0xFFFFFFFF, ifd_metric = 0, ifd_groups = [], ifd_refCounts = [],
      ifd_reportedGroups = [], ifd_multicastTtlThreshold = 0\<rparr>"

definition getNetworkBroadcastAddress :: "IPv4InterfaceData \<Rightarrow> IPv4Address" where
  "getNetworkBroadcastAddress d = makeBroadcastAddress (ifd_inetAddr d) (ifd_netmask d)"

definition isMemberOfMulticastGroup :: "IPv4InterfaceData \<Rightarrow> IPv4Address \<Rightarrow> bool" where
  "isMemberOfMulticastGroup d addr \<longleftrightarrow> addr \<in> set (ifd_groups d)"

definition hasMulticastListener :: "IPv4InterfaceData \<Rightarrow> IPv4Address \<Rightarrow> bool" where
  "hasMulticastListener d addr \<longleftrightarrow> addr \<in> set (ifd_reportedGroups d)"

text \<open>The notifications fired, in order.\<close>

datatype GroupNote = CONFIG_CHANGED | MCAST_JOIN IPv4Address | MCAST_LEAVE IPv4Address

fun groupIndex :: "IPv4Address \<Rightarrow> IPv4Address list \<Rightarrow> nat option" where
  "groupIndex addr [] = None"
| "groupIndex addr (g # gs) = (if g = addr then Some 0 else map_option Suc (groupIndex addr gs))"

definition joinMulticastGroup ::
    "IPv4Address \<Rightarrow> IPv4InterfaceData \<Rightarrow> (IPv4InterfaceData \<times> GroupNote list) outcome" where
  "joinMulticastGroup addr d =
     (if \<not> isMulticast addr then Inl (RuntimeError ''joinMulticastGroup(): multicast address expected'')
      else case groupIndex addr (ifd_groups d) of
        Some i \<Rightarrow> Inr (d\<lparr>ifd_refCounts := (ifd_refCounts d)[i := ifd_refCounts d ! i + 1]\<rparr>, [])
      | None \<Rightarrow> Inr (d\<lparr>ifd_groups := ifd_groups d @ [addr], ifd_refCounts := ifd_refCounts d @ [1]\<rparr>,
                    [CONFIG_CHANGED, MCAST_JOIN addr]))"

text \<open>The loop does not stop at the first match, and goes on behind an erased element.\<close>

definition erase_at :: "nat \<Rightarrow> 'a list \<Rightarrow> 'a list" where
  "erase_at i xs = take i xs @ drop (Suc i) xs"

lemma length_erase_at [simp]: "i < length xs \<Longrightarrow> length (erase_at i xs) = length xs - 1"
  by (simp add: erase_at_def)

function leaveLoop ::
    "IPv4Address \<Rightarrow> nat \<Rightarrow> IPv4InterfaceData \<Rightarrow> GroupNote list \<Rightarrow> IPv4InterfaceData \<times> GroupNote list" where
  "leaveLoop addr i d ns =
     (if i < length (ifd_groups d) then
        (if ifd_groups d ! i = addr then
           let c = ifd_refCounts d ! i - 1 in
           (if c = 0
            then leaveLoop addr (Suc i)
                   (d\<lparr>ifd_groups := erase_at i (ifd_groups d), ifd_refCounts := erase_at i (ifd_refCounts d)\<rparr>)
                   (ns @ [CONFIG_CHANGED, MCAST_LEAVE addr])
            else leaveLoop addr (Suc i) (d\<lparr>ifd_refCounts := (ifd_refCounts d)[i := c]\<rparr>) ns)
         else leaveLoop addr (Suc i) d ns)
      else (d, ns))"
  by pat_completeness auto
termination
  by (relation "measure (\<lambda>(addr, i, d, ns). length (ifd_groups d) - i)") auto

declare leaveLoop.simps [simp del]

definition leaveMulticastGroup ::
    "IPv4Address \<Rightarrow> IPv4InterfaceData \<Rightarrow> (IPv4InterfaceData \<times> GroupNote list) outcome" where
  "leaveMulticastGroup addr d =
     (if \<not> isMulticast addr then Inl (RuntimeError ''leaveMulticastGroup(): multicast address expected'')
      else Inr (leaveLoop addr 0 d []))"

definition addMulticastListener ::
    "IPv4Address \<Rightarrow> IPv4InterfaceData \<Rightarrow> (IPv4InterfaceData \<times> GroupNote list) outcome" where
  "addMulticastListener addr d =
     (if \<not> isMulticast addr then Inl (RuntimeError ''addMulticastListener(): multicast address expected'')
      else if hasMulticastListener d addr then Inr (d, [])
      else Inr (d\<lparr>ifd_reportedGroups := ifd_reportedGroups d @ [addr]\<rparr>, [CONFIG_CHANGED]))"

definition removeMulticastListener ::
    "IPv4Address \<Rightarrow> IPv4InterfaceData \<Rightarrow> IPv4InterfaceData \<times> GroupNote list" where
  "removeMulticastListener addr d =
     (case groupIndex addr (ifd_reportedGroups d) of
        None \<Rightarrow> (d, [])
      | Some i \<Rightarrow> (d\<lparr>ifd_reportedGroups := erase_at i (ifd_reportedGroups d)\<rparr>, [CONFIG_CHANGED]))"

section \<open>Reference counting\<close>

text \<open>The vectors as a counter per group, and the invariant that makes them one.\<close>

definition groupCount :: "IPv4InterfaceData \<Rightarrow> IPv4Address \<Rightarrow> int" where
  "groupCount d addr = (case groupIndex addr (ifd_groups d) of None \<Rightarrow> 0 | Some i \<Rightarrow> ifd_refCounts d ! i)"

definition groups_ok :: "IPv4InterfaceData \<Rightarrow> bool" where
  "groups_ok d \<longleftrightarrow> distinct (ifd_groups d) \<and> length (ifd_refCounts d) = length (ifd_groups d)
     \<and> (\<forall>c \<in> set (ifd_refCounts d). 0 < c)"

lemma groupIndex_None [simp]: "groupIndex addr gs = None \<longleftrightarrow> addr \<notin> set gs"
  by (induction gs) auto

lemma groupIndex_absent [simp]: "addr \<notin> set gs \<Longrightarrow> groupIndex addr gs = None"
  by simp

lemma groupIndex_Some: "groupIndex addr gs = Some i \<Longrightarrow> i < length gs \<and> gs ! i = addr"
  by (induction gs arbitrary: i) (auto split: if_splits)

lemma groupIndex_nth: "distinct gs \<Longrightarrow> i < length gs \<Longrightarrow> groupIndex (gs ! i) gs = Some i"
proof (induction gs arbitrary: i)
  case (Cons g gs)
  then show ?case by (cases i) auto
qed simp

lemma groupIndex_eq: "distinct gs \<Longrightarrow> groupIndex addr gs = Some i \<longleftrightarrow> i < length gs \<and> gs ! i = addr"
  using groupIndex_Some groupIndex_nth by blast

lemma groupIndex_append:
  "groupIndex addr (gs @ hs) =
     (if addr \<in> set gs then groupIndex addr gs else map_option (\<lambda>i. length gs + i) (groupIndex addr hs))"
  by (induction gs) (auto simp: option.map_comp o_def split: option.splits intro: option.expand)

lemma set_erase_at:
  assumes "distinct xs" "i < length xs"
  shows "set (erase_at i xs) = set xs - {xs ! i}" and "distinct (erase_at i xs)"
proof -
  have xs: "xs = take i xs @ xs ! i # drop (Suc i) xs" using assms(2) by (simp add: id_take_nth_drop)
  have d: "distinct (take i xs @ xs ! i # drop (Suc i) xs)" using assms(1) xs by simp
  have "set (take i xs @ xs ! i # drop (Suc i) xs) = set xs" using xs by simp
  with d show "set (erase_at i xs) = set xs - {xs ! i}" by (auto simp: erase_at_def)
  from d show "distinct (erase_at i xs)" by (auto simp: erase_at_def)
qed

lemma leaveLoop_absent: "addr \<notin> set (drop i (ifd_groups d)) \<Longrightarrow> leaveLoop addr i d ns = (d, ns)"
proof (induction addr i d ns rule: leaveLoop.induct)
  case (1 addr i d ns)
  show ?case
  proof (cases "i < length (ifd_groups d)")
    case True
    then have "ifd_groups d ! i \<noteq> addr" "addr \<notin> set (drop (Suc i) (ifd_groups d))"
      using 1(4) by (auto simp: Cons_nth_drop_Suc [symmetric])
    with 1(3) [OF True] True show ?thesis by (simp add: leaveLoop.simps [of addr i])
  qed (simp add: leaveLoop.simps [of addr i])
qed

lemma leaveLoop_reach:
  assumes "j \<le> i" "i < length (ifd_groups d)" "\<forall>k. j \<le> k \<and> k < i \<longrightarrow> ifd_groups d ! k \<noteq> addr"
  shows "leaveLoop addr j d ns = leaveLoop addr i d ns"
  using assms
proof (induction "i - j" arbitrary: j)
  case (Suc n)
  then have "leaveLoop addr (Suc j) d ns = leaveLoop addr i d ns" by (intro Suc.hyps(1)) auto
  with Suc.prems Suc.hyps(2) show ?case by (simp add: leaveLoop.simps [of addr j])
qed simp

lemma leaveLoop_present:
  assumes ok: "groups_ok d" and i: "groupIndex addr (ifd_groups d) = Some i"
  shows "leaveLoop addr 0 d [] =
     (if ifd_refCounts d ! i = 1
      then (d\<lparr>ifd_groups := erase_at i (ifd_groups d), ifd_refCounts := erase_at i (ifd_refCounts d)\<rparr>,
            [CONFIG_CHANGED, MCAST_LEAVE addr])
      else (d\<lparr>ifd_refCounts := (ifd_refCounts d)[i := ifd_refCounts d ! i - 1]\<rparr>, []))"
proof -
  let ?gs = "ifd_groups d"
  have len: "i < length ?gs" and at: "?gs ! i = addr" using groupIndex_Some [OF i] by auto
  have dist: "distinct ?gs" using ok by (simp add: groups_ok_def)
  have other: "k < length ?gs \<Longrightarrow> k \<noteq> i \<Longrightarrow> ?gs ! k \<noteq> addr" for k
    using dist len at by (auto simp: nth_eq_iff_index_eq)
  have behind: "addr \<notin> set (drop (Suc i) ?gs)"
    using other by (auto simp: in_set_conv_nth)
  have "addr \<notin> set (drop (Suc i) (erase_at i ?gs))"
    using behind len set_drop_subset [of 1 "drop (Suc i) ?gs"] by (auto simp: erase_at_def)
  then show ?thesis
    using leaveLoop_reach [of 0 i d addr "[]"] other len at behind
    by (simp add: leaveLoop.simps [of addr i] Let_def leaveLoop_absent)
qed

lemma groupCount_erase:
  assumes ok: "groups_ok d" and i: "i < length (ifd_groups d)"
  shows "groupCount (d\<lparr>ifd_groups := erase_at i (ifd_groups d), ifd_refCounts := erase_at i (ifd_refCounts d)\<rparr>) =
     (groupCount d)(ifd_groups d ! i := 0)" (is "groupCount ?d' = _")
proof (rule ext)
  fix a
  let ?gs = "ifd_groups d"
  have dist: "distinct ?gs" "distinct (erase_at i ?gs)" and len: "length (ifd_refCounts d) = length ?gs"
    using ok set_erase_at(2) [of ?gs i] i by (auto simp: groups_ok_def)
  show "groupCount ?d' a = ((groupCount d)(?gs ! i := 0)) a"
  proof (cases "groupIndex a (erase_at i ?gs)")
    case None
    then have "a \<notin> set ?gs \<or> a = ?gs ! i"
      using set_erase_at(1) [OF dist(1) i] by auto
    with None show ?thesis by (auto simp: groupCount_def)
  next
    case (Some j)
    then have j: "j < length ?gs - 1" "erase_at i ?gs ! j = a" using groupIndex_Some [OF Some] i by auto
    let ?j = "if j < i then j else Suc j"
    have "?gs ! ?j = a" "?j < length ?gs" "?j \<noteq> i" "erase_at i (ifd_refCounts d) ! j = ifd_refCounts d ! ?j"
      using j i len by (auto simp: erase_at_def nth_append)
    moreover then have "groupIndex a ?gs = Some ?j" "a \<noteq> ?gs ! i"
      using groupIndex_nth [OF dist(1), of ?j] i dist(1) by (auto simp: nth_eq_iff_index_eq)
    ultimately show ?thesis using Some by (simp add: groupCount_def)
  qed
qed

lemma groups_ok_erase:
  assumes "groups_ok d" "i < length (ifd_groups d)"
  shows "groups_ok (d\<lparr>ifd_groups := erase_at i (ifd_groups d), ifd_refCounts := erase_at i (ifd_refCounts d)\<rparr>)"
proof -
  have "set (erase_at i (ifd_refCounts d)) \<subseteq> set (ifd_refCounts d)"
    using set_take_subset [of i] set_drop_subset [of "Suc i"] by (fastforce simp: erase_at_def)
  with assms set_erase_at(2) [of "ifd_groups d" i] show ?thesis by (auto simp: groups_ok_def)
qed

lemma groupCount_update:
  assumes "groups_ok d" "groupIndex a (ifd_groups d) = Some i" "0 < c"
  shows "groupCount (d\<lparr>ifd_refCounts := (ifd_refCounts d)[i := c]\<rparr>) = (groupCount d)(a := c)"
    and "groups_ok (d\<lparr>ifd_refCounts := (ifd_refCounts d)[i := c]\<rparr>)"
proof -
  have i: "i < length (ifd_refCounts d)" "ifd_groups d ! i = a"
    using assms(1) groupIndex_Some [OF assms(2)] by (auto simp: groups_ok_def)
  show "groupCount (d\<lparr>ifd_refCounts := (ifd_refCounts d)[i := c]\<rparr>) = (groupCount d)(a := c)"
  proof (rule ext)
    fix b
    show "groupCount (d\<lparr>ifd_refCounts := (ifd_refCounts d)[i := c]\<rparr>) b = ((groupCount d)(a := c)) b"
      using assms(2) i groupIndex_Some [of b "ifd_groups d"]
      by (cases "groupIndex b (ifd_groups d)") (auto simp: groupCount_def nth_list_update)
  qed
  show "groups_ok (d\<lparr>ifd_refCounts := (ifd_refCounts d)[i := c]\<rparr>)"
    using assms set_update_subset_insert [of "ifd_refCounts d" i c] by (auto simp: groups_ok_def)
qed

lemma member_iff_counted:
  "groups_ok d \<Longrightarrow> isMemberOfMulticastGroup d addr \<longleftrightarrow> 0 < groupCount d addr"
  using groupIndex_Some [of addr "ifd_groups d"]
  by (auto simp: groups_ok_def groupCount_def isMemberOfMulticastGroup_def split: option.splits)

text \<open>Joining and leaving implement a counter per group, which leaving never takes below zero.\<close>

lemma joinMulticastGroup_counts:
  assumes ok: "groups_ok d" and m: "isMulticast addr"
  shows "\<exists>d' ns. joinMulticastGroup addr d = Inr (d', ns) \<and> groups_ok d'
     \<and> groupCount d' = (groupCount d)(addr := groupCount d addr + 1)
     \<and> ns = (if isMemberOfMulticastGroup d addr then [] else [CONFIG_CHANGED, MCAST_JOIN addr])"
proof (cases "groupIndex addr (ifd_groups d)")
  case None
  then have "groupCount (d\<lparr>ifd_groups := ifd_groups d @ [addr], ifd_refCounts := ifd_refCounts d @ [1]\<rparr>)
      = (groupCount d)(addr := groupCount d addr + 1)"
    using ok
    by (auto simp: fun_eq_iff groupCount_def groups_ok_def groupIndex_append nth_append
        dest: groupIndex_Some split: option.splits)
  with None ok m show ?thesis
    by (auto simp: joinMulticastGroup_def groups_ok_def isMemberOfMulticastGroup_def)
next
  case (Some i)
  have "0 < ifd_refCounts d ! i" using ok groupIndex_Some [OF Some] by (auto simp: groups_ok_def)
  then show ?thesis
    using groupCount_update [OF ok Some, of "ifd_refCounts d ! i + 1"] Some m groupIndex_Some [OF Some]
    by (auto simp: joinMulticastGroup_def groupCount_def isMemberOfMulticastGroup_def)
qed

lemma leaveMulticastGroup_counts:
  assumes ok: "groups_ok d" and m: "isMulticast addr"
  shows "\<exists>d' ns. leaveMulticastGroup addr d = Inr (d', ns) \<and> groups_ok d'
     \<and> groupCount d' = (groupCount d)(addr := max 0 (groupCount d addr - 1))
     \<and> ns = (if groupCount d addr = 1 then [CONFIG_CHANGED, MCAST_LEAVE addr] else [])"
proof (cases "groupIndex addr (ifd_groups d)")
  case None
  then show ?thesis
    using ok m by (auto simp: leaveMulticastGroup_def leaveLoop_absent groupCount_def fun_upd_idem_iff)
next
  case (Some i)
  have i: "i < length (ifd_groups d)" "ifd_groups d ! i = addr" using groupIndex_Some [OF Some] by auto
  have c: "groupCount d addr = ifd_refCounts d ! i" "0 < ifd_refCounts d ! i"
    using ok i Some by (auto simp: groups_ok_def groupCount_def)
  show ?thesis
  proof (cases "ifd_refCounts d ! i = 1")
    case True
    then show ?thesis
      using groupCount_erase [OF ok i(1)] groups_ok_erase [OF ok i(1)] c m
      by (simp add: leaveMulticastGroup_def leaveLoop_present [OF ok Some] i(2))
  next
    case False
    then show ?thesis
      using groupCount_update [OF ok Some, of "ifd_refCounts d ! i - 1"] c m
      by (simp add: leaveMulticastGroup_def leaveLoop_present [OF ok Some])
  qed
qed

end
