(* ===== verification/Routing_Table.thy ===== *)
theory Routing_Table
  imports IPv4_Interface
begin

unbundle bit_operations_syntax

text \<open>
  The IPv4 routing table, \<^verbatim>\<open>src/src/networklayer/ipv4/RoutingTable.{h,cc}\<close>, with the
  routes of \<^verbatim>\<open>IPv4Route.{h,cc}\<close>.  Routes are heap objects: the table holds
  pointers, the routing cache holds the same pointers, and every setter of a route that is in the
  table calls back into the table, so pointers (naturals) and an explicit store are modelled.
  Notifications fired on the notification board are collected in order.  Shown in
  \<^verbatim>\<open>Routing_Table_Props\<close>: the lookup is longest-prefix matching with the best
  administrative distance and metric, the cache never changes an answer, and the operations keep
  the table well formed.
\<close>

section \<open>Routes\<close>

datatype SourceType =
    MANUAL | IFACENETMASK | RIP | OSPF | BGP | ZEBRA | MANET | MANET2 | DYMO | AODV

record IPv4Route =
  r_rt :: bool
  r_dest :: IPv4Address
  r_netmask :: IPv4Address
  r_gateway :: IPv4Address
  r_interface :: "nat option"
  r_sourceType :: SourceType
  r_adminDist :: u32
  r_metric :: int
  r_source :: "nat option"
  r_expiryTime :: simtime

definition IPv4Route_new :: IPv4Route where
  "IPv4Route_new =
     \<lparr>r_rt = False, r_dest = 0, r_netmask = 0, r_gateway = 0, r_interface = None,
      r_sourceType = MANUAL, r_adminDist = 255, r_metric = 0, r_source = None, r_expiryTime = 0\<rparr>"

text \<open>
  \<open>isValid\<close> is virtual: the base class answers true, which is expiry time 0 here; the DSDV route
  overrides it with its expiry time.
\<close>

definition IPv4Route_isValid :: "simtime \<Rightarrow> IPv4Route \<Rightarrow> bool" where
  "IPv4Route_isValid now r \<longleftrightarrow> r_expiryTime r = 0 \<or> r_expiryTime r > now"

datatype MulticastSourceType = M_MANUAL | M_DVMRP | M_PIM_DM | M_PIM_SM

record IPv4MulticastRoute =
  m_rt :: bool
  m_origin :: IPv4Address
  m_originNetmask :: IPv4Address
  m_group :: IPv4Address
  m_inInterface :: "nat option"
  m_outInterfaces :: "(nat \<times> bool) list"
  m_sourceType :: MulticastSourceType
  m_metric :: int

text \<open>An output interface is the interface and its leaf flag; \<open>isEnabled\<close> is true in the base class.\<close>

definition IPv4MulticastRoute_matches :: "IPv4MulticastRoute \<Rightarrow> IPv4Address \<Rightarrow> IPv4Address \<Rightarrow> bool" where
  "IPv4MulticastRoute_matches m origin grp \<longleftrightarrow>
     (IPv4Address_isUnspecified (m_group m) \<or> m_group m = grp)
     \<and> maskedAddrAreEqual origin (m_origin m) (m_originNetmask m)"

section \<open>Filter rules\<close>

datatype Rule = RULE_DROP | RULE_ACCEPT | RULE_NAT | RULE_NONE

record IPv4RouteRule =
  rule_srcAddress :: IPv4Address
  rule_srcNetmask :: IPv4Address
  rule_destAddress :: IPv4Address
  rule_destNetmask :: IPv4Address
  rule_sPort :: int
  rule_dPort :: int
  rule_protocol :: int
  rule_rule :: Rule
  rule_interface :: "nat option"

section \<open>State\<close>

datatype notification =
    ROUTE_ADDED nat | ROUTE_DELETED nat | ROUTE_CHANGED nat
  | MROUTE_ADDED nat | MROUTE_DELETED nat | MROUTE_CHANGED nat

record RoutingTable =
  rt_heap :: "(nat, IPv4Route) smap"
  rt_routes :: "nat list"
  rt_mheap :: "(nat, IPv4MulticastRoute) smap"
  rt_multicastRoutes :: "nat list"
  rt_routingCache :: "(IPv4Address, nat option) smap"
  rt_localAddresses :: "(IPv4Address, unit) smap"
  rt_localBroadcastAddresses :: "(IPv4Address, unit) smap"
  rt_ift :: "InterfaceEntry list"
  rt_routerId :: IPv4Address
  rt_IPForward :: bool
  rt_multicastForward :: bool
  rt_ruleHeap :: "(nat, IPv4RouteRule) smap"
  rt_inputRules :: "nat list"
  rt_outputRules :: "nat list"
  rt_notifications :: "notification list"

text \<open>
  Dereferencing.  A pointer with no object in the store is dangling; the invariant of the next
  theory shows that the table and the cache never hold one, so the default is never read.
\<close>

definition deref :: "RoutingTable \<Rightarrow> nat \<Rightarrow> IPv4Route" where
  "deref s p = (case smap_find (rt_heap s) p of None \<Rightarrow> IPv4Route_new | Some r \<Rightarrow> r)"

definition mderef :: "RoutingTable \<Rightarrow> nat \<Rightarrow> IPv4MulticastRoute" where
  "mderef s p = (case smap_find (rt_mheap s) p of
      None \<Rightarrow> \<lparr>m_rt = False, m_origin = 0, m_originNetmask = 0, m_group = 0, m_inInterface = None,
               m_outInterfaces = [], m_sourceType = M_MANUAL, m_metric = 0\<rparr>
    | Some m \<Rightarrow> m)"

definition fire :: "notification \<Rightarrow> RoutingTable \<Rightarrow> RoutingTable" where
  "fire n s = s\<lparr>rt_notifications := rt_notifications s @ [n]\<rparr>"

definition store_route :: "nat \<Rightarrow> IPv4Route \<Rightarrow> RoutingTable \<Rightarrow> RoutingTable" where
  "store_route p r s = s\<lparr>rt_heap := smap_insert p r (rt_heap s)\<rparr>"

definition free_route :: "nat \<Rightarrow> RoutingTable \<Rightarrow> RoutingTable" where
  "free_route p s = s\<lparr>rt_heap := smap_erase p (rt_heap s)\<rparr>"

definition fresh_ptr :: "RoutingTable \<Rightarrow> nat" where
  "fresh_ptr s = (if rt_heap s = [] then 0 else Suc (fst (last (rt_heap s))))"

definition invalidateCache :: "RoutingTable \<Rightarrow> RoutingTable" where
  "invalidateCache s =
     s\<lparr>rt_routingCache := [], rt_localAddresses := [], rt_localBroadcastAddresses := []\<rparr>"

section \<open>Lookup\<close>

definition route_matches :: "simtime \<Rightarrow> IPv4Address \<Rightarrow> IPv4Route \<Rightarrow> bool" where
  "route_matches now dest e \<longleftrightarrow>
     IPv4Route_isValid now e \<and> maskedAddrAreEqual dest (r_dest e) (r_netmask e)"

fun firstMatch :: "('p \<Rightarrow> bool) \<Rightarrow> 'p list \<Rightarrow> 'p option" where
  "firstMatch P [] = None"
| "firstMatch P (e # es) = (if P e then Some e else firstMatch P es)"

definition findBestMatchingRoute :: "simtime \<Rightarrow> RoutingTable \<Rightarrow> IPv4Address \<Rightarrow> RoutingTable \<times> nat option" where
  "findBestMatchingRoute now s dest =
     (let scan = (let bestRoute = firstMatch (\<lambda>p. route_matches now dest (deref s p)) (rt_routes s)
                  in (s\<lparr>rt_routingCache := smap_insert dest bestRoute (rt_routingCache s)\<rparr>, bestRoute))
      in case smap_find (rt_routingCache s) dest of
           Some None \<Rightarrow> (s, None)
         | Some (Some p) \<Rightarrow> if IPv4Route_isValid now (deref s p) then (s, Some p) else scan
         | None \<Rightarrow> scan)"

definition getInterfaceForDestAddr :: "simtime \<Rightarrow> RoutingTable \<Rightarrow> IPv4Address \<Rightarrow> RoutingTable \<times> nat option" where
  "getInterfaceForDestAddr now s dest =
     (case findBestMatchingRoute now s dest of
        (s', None) \<Rightarrow> (s', None) | (s', Some e) \<Rightarrow> (s', r_interface (deref s' e)))"

definition getGatewayForDestAddr :: "simtime \<Rightarrow> RoutingTable \<Rightarrow> IPv4Address \<Rightarrow> RoutingTable \<times> IPv4Address" where
  "getGatewayForDestAddr now s dest =
     (case findBestMatchingRoute now s dest of
        (s', None) \<Rightarrow> (s', 0) | (s', Some e) \<Rightarrow> (s', r_gateway (deref s' e)))"

definition findBestMatchingMulticastRoute :: "RoutingTable \<Rightarrow> IPv4Address \<Rightarrow> IPv4Address \<Rightarrow> nat option" where
  "findBestMatchingMulticastRoute s origin grp =
     firstMatch (\<lambda>p. IPv4MulticastRoute_matches (mderef s p) origin grp) (rt_multicastRoutes s)"

text \<open>The default route is looked for from the end, as long as the netmasks are zero.\<close>

fun lastDefault :: "simtime \<Rightarrow> (nat \<Rightarrow> IPv4Route) \<Rightarrow> nat list \<Rightarrow> nat option" where
  "lastDefault now d [] = None"
| "lastDefault now d (i # is) =
     (if IPv4Address_isUnspecified (r_netmask (d i))
      then (if IPv4Route_isValid now (d i) then Some i else lastDefault now d is)
      else None)"

definition getDefaultRoute :: "simtime \<Rightarrow> RoutingTable \<Rightarrow> nat option" where
  "getDefaultRoute now s = lastDefault now (deref s) (rev (rt_routes s))"

definition getRoute :: "RoutingTable \<Rightarrow> nat \<Rightarrow> nat option" where
  "getRoute s k = (if k < length (rt_routes s) then Some (rt_routes s ! k) else None)"

section \<open>Local addresses\<close>

fun ipv4Datas :: "InterfaceEntry list \<Rightarrow> IPv4InterfaceData list outcome" where
  "ipv4Datas [] = Inr []"
| "ipv4Datas (ie # ies) =
     (case ie_ipv4Data ie of
        None \<Rightarrow> Inl (UndefinedBehaviour ''ipv4Data() is NULL'')
      | Some d \<Rightarrow> outcome_bind (ipv4Datas ies) (\<lambda>ds. Inr (d # ds)))"

definition gatherAddresses :: "RoutingTable \<Rightarrow> IPv4Address list outcome" where
  "gatherAddresses s = outcome_bind (ipv4Datas (rt_ift s)) (\<lambda>ds. Inr (map ifd_inetAddr ds))"

definition address_set :: "IPv4Address list \<Rightarrow> (IPv4Address, unit) smap" where
  "address_set as = foldl (\<lambda>m a. smap_insert a () m) [] as"

definition isLocalAddress :: "RoutingTable \<Rightarrow> IPv4Address \<Rightarrow> (RoutingTable \<times> bool) outcome" where
  "isLocalAddress s dest =
     (if rt_localAddresses s = []
      then outcome_bind (ipv4Datas (rt_ift s)) (\<lambda>ds.
             let las = address_set (map ifd_inetAddr ds)
             in Inr (s\<lparr>rt_localAddresses := las\<rparr>, smap_find las dest \<noteq> None))
      else Inr (s, smap_find (rt_localAddresses s) dest \<noteq> None))"

definition isLocalBroadcastAddress :: "RoutingTable \<Rightarrow> IPv4Address \<Rightarrow> (RoutingTable \<times> bool) outcome" where
  "isLocalBroadcastAddress s dest =
     (if rt_localBroadcastAddresses s = []
      then outcome_bind (ipv4Datas (rt_ift s)) (\<lambda>ds.
             let bcs = filter (\<lambda>a. \<not> IPv4Address_isUnspecified a)
                         (map (\<lambda>d. makeBroadcastAddress (ifd_inetAddr d) (ifd_netmask d)) ds);
                 las = address_set bcs
             in Inr (s\<lparr>rt_localBroadcastAddresses := las\<rparr>, smap_find las dest \<noteq> None))
      else Inr (s, smap_find (rt_localBroadcastAddresses s) dest \<noteq> None))"

fun findInterfaceBy :: "(IPv4InterfaceData \<Rightarrow> bool) \<Rightarrow> InterfaceEntry list \<Rightarrow> nat option outcome" where
  "findInterfaceBy P [] = Inr None"
| "findInterfaceBy P (ie # ies) =
     (case ie_ipv4Data ie of
        None \<Rightarrow> Inl (UndefinedBehaviour ''ipv4Data() is NULL'')
      | Some d \<Rightarrow> if P d then Inr (Some (ie_id ie)) else findInterfaceBy P ies)"

definition getInterfaceByAddress :: "RoutingTable \<Rightarrow> IPv4Address \<Rightarrow> nat option outcome" where
  "getInterfaceByAddress s addr =
     (if IPv4Address_isUnspecified addr then Inr None
      else findInterfaceBy (\<lambda>d. ifd_inetAddr d = addr) (rt_ift s))"

definition findInterfaceByLocalBroadcastAddress :: "RoutingTable \<Rightarrow> IPv4Address \<Rightarrow> nat option outcome" where
  "findInterfaceByLocalBroadcastAddress s dest =
     findInterfaceBy (\<lambda>d. makeBroadcastAddress (ifd_inetAddr d) (ifd_netmask d) = dest) (rt_ift s)"

definition isLocalMulticastAddress :: "RoutingTable \<Rightarrow> IPv4Address \<Rightarrow> bool outcome" where
  "isLocalMulticastAddress s dest =
     outcome_bind (findInterfaceBy (\<lambda>d. dest \<in> set (ifd_groups d)) (rt_ift s)) (\<lambda>r. Inr (r \<noteq> None))"

section \<open>Adding and removing unicast routes\<close>

definition routeLessThan :: "IPv4Route \<Rightarrow> IPv4Route \<Rightarrow> bool" where
  "routeLessThan a b =
     (if r_netmask a \<noteq> r_netmask b then r_netmask a > r_netmask b
      else if r_dest a \<noteq> r_dest b then r_dest a < r_dest b
      else if r_adminDist a \<noteq> r_adminDist b then r_adminDist a < r_adminDist b
      else r_metric a < r_metric b)"

definition internalRemoveRoute :: "RoutingTable \<Rightarrow> nat \<Rightarrow> RoutingTable \<times> bool" where
  "internalRemoveRoute s p =
     (if p \<in> set (rt_routes s) then (s\<lparr>rt_routes := remove1 p (rt_routes s)\<rparr>, True) else (s, False))"

definition removeRoute :: "RoutingTable \<Rightarrow> nat \<Rightarrow> (RoutingTable \<times> bool) outcome" where
  "removeRoute s p =
     (case internalRemoveRoute s p of
        (s', False) \<Rightarrow> Inr (s', False)
      | (s', True) \<Rightarrow>
          if r_rt (deref s' p)
          then Inr (store_route p (deref s' p \<lparr>r_rt := False\<rparr>) (fire (ROUTE_DELETED p) (invalidateCache s')), True)
          else Inl (AssertFailed ''entry->getRoutingTable() == this''))"

definition deleteRoute :: "RoutingTable \<Rightarrow> nat \<Rightarrow> (RoutingTable \<times> bool) outcome" where
  "deleteRoute s p =
     (case internalRemoveRoute s p of
        (s', False) \<Rightarrow> Inr (s', False)
      | (s', True) \<Rightarrow>
          if r_rt (deref s' p)
          then Inr (free_route p (fire (ROUTE_DELETED p) (invalidateCache s')), True)
          else Inl (AssertFailed ''entry->getRoutingTable() == this''))"

definition insertSorted :: "RoutingTable \<Rightarrow> nat \<Rightarrow> RoutingTable" where
  "insertSorted s p =
     (let pos = upper_bound (\<lambda>q. routeLessThan (deref s p) (deref s q)) (rt_routes s)
      in s\<lparr>rt_routes := insert_at pos p (rt_routes s)\<rparr>)"

definition internalAddRoute :: "simtime \<Rightarrow> RoutingTable \<Rightarrow> nat \<Rightarrow> RoutingTable outcome" where
  "internalAddRoute now s p =
     (let e = deref s p in
      if \<not> isValidNetmask (r_netmask e) then Inl (RuntimeError ''addRoute(): wrong netmask'')
      else if r_netmask e \<noteq> 0 \<and> r_dest e AND r_netmask e = 0
        then Inl (RuntimeError ''addRoute(): all bits of destination address is 0 inside non zero netmask'')
      else if r_dest e AND NOT (r_netmask e) \<noteq> 0
        then Inl (RuntimeError ''addRoute(): suspicious route'')
      else if r_interface e = None then Inl (RuntimeError ''addRoute(): interface cannot be NULL'')
      else outcome_bind
        (if IPv4Address_isUnspecified (r_netmask e)
         then (case getDefaultRoute now s of
                 None \<Rightarrow> Inr s
               | Some old \<Rightarrow> outcome_bind (deleteRoute s old) (\<lambda>(s', _). Inr s'))
         else Inr s)
        (\<lambda>s'. let s'' = insertSorted s' p in Inr (store_route p (deref s'' p \<lparr>r_rt := True\<rparr>) s'')))"

definition addRoute :: "simtime \<Rightarrow> RoutingTable \<Rightarrow> nat \<Rightarrow> RoutingTable outcome" where
  "addRoute now s p =
     outcome_bind (internalAddRoute now s p) (\<lambda>s'. Inr (fire (ROUTE_ADDED p) (invalidateCache s')))"

section \<open>Changing a route\<close>

datatype RouteUpdate =
    SetDestination IPv4Address | SetNetmask IPv4Address | SetGateway IPv4Address
  | SetInterface "nat option" | SetSourceType SourceType | SetAdminDist u32 | SetMetric int
  | SetSource "nat option"

datatype FieldCode =
    F_DESTINATION | F_NETMASK | F_GATEWAY | F_IFACE | F_TYPE | F_SOURCE | F_ADMINDIST | F_METRIC

fun apply_update :: "RouteUpdate \<Rightarrow> IPv4Route \<Rightarrow> IPv4Route" where
  "apply_update (SetDestination a) r = r\<lparr>r_dest := a\<rparr>"
| "apply_update (SetNetmask a) r = r\<lparr>r_netmask := a\<rparr>"
| "apply_update (SetGateway a) r = r\<lparr>r_gateway := a\<rparr>"
| "apply_update (SetInterface i) r = r\<lparr>r_interface := i\<rparr>"
| "apply_update (SetSourceType t) r = r\<lparr>r_sourceType := t\<rparr>"
| "apply_update (SetAdminDist d) r = r\<lparr>r_adminDist := d\<rparr>"
| "apply_update (SetMetric m) r = r\<lparr>r_metric := m\<rparr>"
| "apply_update (SetSource x) r = r\<lparr>r_source := x\<rparr>"

fun update_code :: "RouteUpdate \<Rightarrow> FieldCode" where
  "update_code (SetDestination a) = F_DESTINATION"
| "update_code (SetNetmask a) = F_NETMASK"
| "update_code (SetGateway a) = F_GATEWAY"
| "update_code (SetInterface i) = F_IFACE"
| "update_code (SetSourceType t) = F_SOURCE"
| "update_code (SetAdminDist d) = F_ADMINDIST"
| "update_code (SetMetric m) = F_METRIC"
| "update_code (SetSource x) = F_SOURCE"

definition routeChanged :: "simtime \<Rightarrow> RoutingTable \<Rightarrow> nat \<Rightarrow> FieldCode \<Rightarrow> RoutingTable outcome" where
  "routeChanged now s p fieldCode =
     outcome_bind
       (if fieldCode = F_DESTINATION \<or> fieldCode = F_NETMASK \<or> fieldCode = F_METRIC
        then (case internalRemoveRoute s p of
                (_, False) \<Rightarrow> Inl (AssertFailed ''entry != NULL'')
              | (s', True) \<Rightarrow> outcome_bind (internalAddRoute now s' p) (\<lambda>s''. Inr (invalidateCache s'')))
        else Inr s)
       (\<lambda>s'. Inr (fire (ROUTE_CHANGED p) s'))"

text \<open>A setter of \<open>IPv4Route\<close>: nothing happens when the value is unchanged; \<open>changed()\<close> calls the table.\<close>

definition IPv4Route_set :: "simtime \<Rightarrow> RouteUpdate \<Rightarrow> nat \<Rightarrow> RoutingTable \<Rightarrow> RoutingTable outcome" where
  "IPv4Route_set now u p s =
     (let r = deref s p; r' = apply_update u r in
      if r' = r then Inr s
      else let s' = store_route p r' s in
        if r_rt r then routeChanged now s' p (update_code u) else Inr s')"

section \<open>Bulk operations\<close>

text \<open>
  The erase loops of \<open>purge\<close>, \<open>deleteInterfaceRoutes\<close> and \<open>updateNetmaskRoutes\<close>: every route that
  satisfies \<open>P\<close> is taken out of the vector, announced and deleted.
\<close>

fun eraseRoutes :: "(IPv4Route \<Rightarrow> bool) \<Rightarrow> RoutingTable \<Rightarrow> nat list \<Rightarrow> (nat list \<times> RoutingTable \<times> bool) outcome" where
  "eraseRoutes P s [] = Inr ([], s, False)"
| "eraseRoutes P s (p # ps) =
     (if P (deref s p) then
        (if r_rt (deref s p)
         then outcome_bind (eraseRoutes P (free_route p (fire (ROUTE_DELETED p) s)) ps)
                (\<lambda>(kept, s', _). Inr (kept, s', True))
         else Inl (AssertFailed ''route->getRoutingTable() == this''))
      else outcome_bind (eraseRoutes P s ps) (\<lambda>(kept, s', changed). Inr (p # kept, s', changed)))"

definition eraseUnicast :: "(IPv4Route \<Rightarrow> bool) \<Rightarrow> RoutingTable \<Rightarrow> (RoutingTable \<times> bool) outcome" where
  "eraseUnicast P s =
     outcome_bind (eraseRoutes P s (rt_routes s)) (\<lambda>(kept, s', changed). Inr (s'\<lparr>rt_routes := kept\<rparr>, changed))"

text \<open>Multicast routes are always valid, so only the unicast loop of \<open>purge\<close> removes anything.\<close>

definition purge :: "simtime \<Rightarrow> RoutingTable \<Rightarrow> RoutingTable outcome" where
  "purge now s =
     outcome_bind (eraseUnicast (\<lambda>r. \<not> IPv4Route_isValid now r) s)
       (\<lambda>(s', deleted). Inr (if deleted then invalidateCache s' else s'))"

fun removeOut :: "nat \<Rightarrow> (nat \<times> bool) list \<Rightarrow> (nat \<times> bool) list option" where
  "removeOut ie [] = None"
| "removeOut ie (o1 # os) = (if fst o1 = ie then Some os else map_option ((#) o1) (removeOut ie os))"

text \<open>
  Multicast routes: those with the interface as input are deleted, from the others the interface is
  removed as output.  \<open>removeOutInterface\<close> announces the change through \<open>multicastRouteChanged\<close>, and
  the loop announces it once more.
\<close>

fun eraseMulticast :: "nat \<Rightarrow> RoutingTable \<Rightarrow> nat list \<Rightarrow> (nat list \<times> RoutingTable \<times> bool) outcome" where
  "eraseMulticast ie s [] = Inr ([], s, False)"
| "eraseMulticast ie s (p # ps) =
     (let m = mderef s p in
      if m_inInterface m = Some ie then
        (if m_rt m
         then outcome_bind (eraseMulticast ie (fire (MROUTE_DELETED p) s\<lparr>rt_mheap := smap_erase p (rt_mheap s)\<rparr>) ps)
                (\<lambda>(kept, s', _). Inr (kept, s', True))
         else Inl (AssertFailed ''route->getRoutingTable() == this''))
      else
        (case removeOut ie (m_outInterfaces m) of
           None \<Rightarrow> outcome_bind (eraseMulticast ie s ps) (\<lambda>(kept, s', changed). Inr (p # kept, s', changed))
         | Some outs \<Rightarrow>
             let s1 = s\<lparr>rt_mheap := smap_insert p (m\<lparr>m_outInterfaces := outs\<rparr>) (rt_mheap s)\<rparr>;
                 s2 = (if m_rt m then fire (MROUTE_CHANGED p) s1 else s1)
             in outcome_bind (eraseMulticast ie (fire (MROUTE_CHANGED p) s2) ps)
                  (\<lambda>(kept, s', _). Inr (p # kept, s', True))))"

definition deleteInterfaceRoutes :: "nat \<Rightarrow> RoutingTable \<Rightarrow> RoutingTable outcome" where
  "deleteInterfaceRoutes ie s =
     outcome_bind (eraseUnicast (\<lambda>r. r_interface r = Some ie) s) (\<lambda>(s1, changed1).
       outcome_bind (eraseMulticast ie s1 (rt_multicastRoutes s1)) (\<lambda>(kept, s2, changed2).
         let s3 = s2\<lparr>rt_multicastRoutes := kept\<rparr>
         in Inr (if changed1 \<or> changed2 then invalidateCache s3 else s3)))"

definition netmaskRoute :: "InterfaceEntry \<Rightarrow> IPv4InterfaceData \<Rightarrow> IPv4Route" where
  "netmaskRoute ie d =
     IPv4Route_new\<lparr>r_sourceType := IFACENETMASK, r_source := Some (ie_id ie),
       r_dest := doAnd (ifd_inetAddr d) (ifd_netmask d), r_netmask := ifd_netmask d, r_gateway := 0,
       r_adminDist := 0, r_metric := ifd_metric d, r_interface := Some (ie_id ie), r_rt := True\<rparr>"

fun addNetmaskRoutes :: "RoutingTable \<Rightarrow> InterfaceEntry list \<Rightarrow> RoutingTable" where
  "addNetmaskRoutes s [] = s"
| "addNetmaskRoutes s (ie # ies) =
     (case ie_ipv4Data ie of
        None \<Rightarrow> addNetmaskRoutes s ies
      | Some d \<Rightarrow>
          if ifd_netmask d \<noteq> 0xFFFFFFFF then
            let p = fresh_ptr s;
                s1 = insertSorted (store_route p (netmaskRoute ie d) s) p
            in addNetmaskRoutes (fire (ROUTE_ADDED p) s1) ies
          else addNetmaskRoutes s ies)"

definition updateNetmaskRoutes :: "RoutingTable \<Rightarrow> RoutingTable outcome" where
  "updateNetmaskRoutes s =
     outcome_bind (eraseUnicast (\<lambda>r. r_sourceType r = IFACENETMASK) s)
       (\<lambda>(s', _). Inr (invalidateCache (addNetmaskRoutes s' (rt_ift s'))))"

text \<open>Shutdown and crash: \<^verbatim>\<open>while (!routes.empty()) removeRoute(routes[0]);\<close>\<close>

lemma removeRoute_length:
  "removeRoute s p = Inr (s', b) \<Longrightarrow> p \<in> set (rt_routes s) \<Longrightarrow> length (rt_routes s') < length (rt_routes s)"
  using length_pos_if_in_set [of p "rt_routes s"]
  by (auto simp: removeRoute_def internalRemoveRoute_def store_route_def fire_def invalidateCache_def
      length_remove1 split: if_splits)

function shutdownRoutes :: "RoutingTable \<Rightarrow> RoutingTable outcome" where
  "shutdownRoutes s =
     (case rt_routes s of
        [] \<Rightarrow> Inr s
      | p # _ \<Rightarrow> (case removeRoute s p of Inl e \<Rightarrow> Inl e | Inr (s', _) \<Rightarrow> shutdownRoutes s'))"
  by pat_completeness auto
termination
  by (relation "measure (\<lambda>s. length (rt_routes s))") (auto dest!: removeRoute_length)

declare shutdownRoutes.simps [simp del]

datatype IfNotification =
    NF_INTERFACE_CREATED | NF_INTERFACE_DELETED nat | NF_INTERFACE_STATE_CHANGED
  | NF_INTERFACE_CONFIG_CHANGED | NF_INTERFACE_IPv4CONFIG_CHANGED | NF_OTHER

fun receiveChangeNotification :: "bool \<Rightarrow> RoutingTable \<Rightarrow> IfNotification \<Rightarrow> RoutingTable outcome" where
  "receiveChangeNotification initializing s category =
     (if initializing then Inr s
      else case category of
        NF_INTERFACE_CREATED \<Rightarrow> updateNetmaskRoutes s
      | NF_INTERFACE_DELETED ie \<Rightarrow> deleteInterfaceRoutes ie s
      | NF_INTERFACE_STATE_CHANGED \<Rightarrow> Inr (invalidateCache s)
      | NF_INTERFACE_CONFIG_CHANGED \<Rightarrow> Inr (invalidateCache s)
      | NF_INTERFACE_IPv4CONFIG_CHANGED \<Rightarrow> updateNetmaskRoutes s
      | NF_OTHER \<Rightarrow> Inr s)"

end
