(* ===== verification/Routing_Table_Props.thy ===== *)
theory Routing_Table_Props
  imports Routing_Table
begin

unbundle bit_operations_syntax

text \<open>
  Correctness of the routing table: the structural invariant (live, distinct, sorted routes whose
  netmasks are contiguous and whose destinations lie inside them), coherence of the routing cache,
  longest-prefix lookup, and preservation by the operations.
\<close>

section \<open>Sorted tables answer with the best match\<close>

text \<open>
  Both route vectors are kept sorted by a key and scanned for the first match; the first match is
  then a match with the least key.
\<close>

lemma firstMatch_None: "firstMatch P ps = None \<longleftrightarrow> (\<forall>p\<in>set ps. \<not> P p)"
  by (induction ps) auto

lemma firstMatch_Some: "firstMatch P ps = Some p \<Longrightarrow> p \<in> set ps \<and> P p"
  by (induction ps) (auto split: if_splits)

lemma firstMatch_cong: "(\<And>p. p \<in> set ps \<Longrightarrow> P p = Q p) \<Longrightarrow> firstMatch P ps = firstMatch Q ps"
  by (induction ps) auto

lemma firstMatch_mono:
  "(\<And>p. p \<in> set ps \<Longrightarrow> Q p \<Longrightarrow> P p) \<Longrightarrow> firstMatch P ps = Some p \<Longrightarrow> Q p \<Longrightarrow> firstMatch Q ps = Some p"
  by (induction ps) (auto split: if_splits)

locale sorted_table =
  fixes key :: "'r \<Rightarrow> 'k::linorder"
    and less :: "'r \<Rightarrow> 'r \<Rightarrow> bool"
  assumes less_key: "less a b \<longleftrightarrow> key a < key b"
begin

lemma firstMatch_least:
  assumes "sorted (map (\<lambda>p. key (d p)) ps)" and "firstMatch P ps = Some p" and "q \<in> set ps" and "P q"
  shows "key (d p) \<le> key (d q)"
  using assms by (induction ps) (auto split: if_splits)

lemma insert_keeps_sorted:
  assumes "sorted (map (\<lambda>p. key (d p)) ps)"
  shows "sorted (map (\<lambda>p. key (d p)) (insert_at (upper_bound (\<lambda>q. less (d p) (d q)) ps) p ps))"
  using sorted_insert_upper_bound [OF assms, of p] by (simp add: less_key)

end

definition route_key :: "IPv4Route \<Rightarrow> u32 \<times> u32 \<times> u32 \<times> int" where
  "route_key r = (NOT (r_netmask r), r_dest r, r_adminDist r, r_metric r)"

lemma not_word_less: "NOT a < NOT b \<longleftrightarrow> b < a" for a b :: "'a::len word"
proof -
  have "take_bit LENGTH('a) (uint x) = uint x" for x :: "'a word"
    by (simp add: take_bit_int_eq_self_iff)
  then show ?thesis
    by (simp add: word_less_def unsigned_not_eq take_bit_not_eq_mask_diff)
qed

lemma not_word_eq: "NOT a = NOT b \<longleftrightarrow> a = b" for a b :: "'a::len word"
  by (metis bit.double_compl)

lemma not_word_le: "NOT a \<le> NOT b \<longleftrightarrow> b \<le> a" for a b :: "'a::len word"
  by (simp add: order.order_iff_strict not_word_less not_word_eq eq_commute)

lemma routeLessThan_key: "routeLessThan a b \<longleftrightarrow> route_key a < route_key b"
  by (auto simp: routeLessThan_def route_key_def not_word_less not_word_le)

interpretation unicast: sorted_table route_key routeLessThan
  by unfold_locales (rule routeLessThan_key)

section \<open>Netmask order is prefix-length order\<close>

lemma makeNetmask0_not_mask: "n \<le> 32 \<Longrightarrow> makeNetmask0 n = NOT (mask (32 - n))"
  by (rule bit_word_eqI) (auto simp: bit_makeNetmask0 bit_simps)

lemma uint_mask: "k \<le> 32 \<Longrightarrow> uint (mask k :: u32) = 2 ^ k - 1"
  by (subst of_int_mask_eq [symmetric], subst uint_word_of_int_eq)
    (simp add: take_bit_of_mask min_def, simp add: mask_eq_exp_minus_1)

lemma makeNetmask0_strict_mono:
  assumes "m < n" "n \<le> 32"
  shows "makeNetmask0 m < makeNetmask0 n"
proof -
  have "(2 :: int) ^ (32 - n) < 2 ^ (32 - m)"
    using assms by (intro power_strict_increasing) auto
  then have "(mask (32 - n) :: u32) < mask (32 - m)"
    using assms by (simp add: word_less_def uint_mask)
  then show ?thesis
    using assms by (simp add: makeNetmask0_not_mask not_word_less)
qed

lemma valid_netmask_order:
  assumes "isValidNetmask a" "isValidNetmask b"
  shows "a < b \<longleftrightarrow> getNetmaskLength a < getNetmaskLength b"
proof -
  have le: "getNetmaskLength a \<le> 32" "getNetmaskLength b \<le> 32"
    by (simp_all add: getNetmaskLength_def netmaskLengthLoop_le)
  have "makeNetmask0 m < makeNetmask0 n \<longleftrightarrow> m < n" if "m \<le> 32" "n \<le> 32" for m n
    using makeNetmask0_strict_mono [of m n] makeNetmask0_strict_mono [of n m] that
    by (metis linorder_neqE_nat not_less_iff_gr_or_eq)
  with le show ?thesis
    using assms by (metis isValidNetmask_def)
qed

section \<open>The invariant\<close>

definition good_route :: "IPv4Route \<Rightarrow> bool" where
  "good_route r \<longleftrightarrow> isValidNetmask (r_netmask r) \<and> r_dest r AND NOT (r_netmask r) = 0"

text \<open>
  \<open>rt_struct X s\<close>: the route vector holds distinct live pointers to good routes that know they are in
  the table, sorted by \<open>routeLessThan\<close>; a live route that believes to be in the table is in it, unless
  it is one of \<open>X\<close> (routes taken out while they are being changed).
\<close>

definition rt_struct :: "nat set \<Rightarrow> RoutingTable \<Rightarrow> bool" where
  "rt_struct X s \<longleftrightarrow>
     smap_wf (rt_heap s) \<and> distinct (rt_routes s)
     \<and> (\<forall>p\<in>set (rt_routes s). \<exists>r. smap_find (rt_heap s) p = Some r \<and> r_rt r \<and> good_route r)
     \<and> sorted (map (\<lambda>p. route_key (deref s p)) (rt_routes s))
     \<and> (\<forall>p r. smap_find (rt_heap s) p = Some r \<longrightarrow> r_rt r \<longrightarrow> p \<in> set (rt_routes s) \<union> X)"

definition table_lookup :: "simtime \<Rightarrow> RoutingTable \<Rightarrow> IPv4Address \<Rightarrow> nat option" where
  "table_lookup now s dest = firstMatch (\<lambda>p. route_matches now dest (deref s p)) (rt_routes s)"

text \<open>A cached pointer is live; an answer the cache would give is the answer the scan gives.\<close>

definition cache_ok :: "simtime \<Rightarrow> RoutingTable \<Rightarrow> bool" where
  "cache_ok now s \<longleftrightarrow> (\<forall>dest c. smap_find (rt_routingCache s) dest = Some c \<longrightarrow>
     (case c of
        None \<Rightarrow> table_lookup now s dest = None
      | Some p \<Rightarrow> p \<in> set (rt_routes s)
          \<and> (IPv4Route_isValid now (deref s p) \<longrightarrow> table_lookup now s dest = Some p)))"

definition rt_inv :: "simtime \<Rightarrow> RoutingTable \<Rightarrow> bool" where
  "rt_inv now s \<longleftrightarrow> rt_struct {} s \<and> cache_ok now s"

section \<open>Framing\<close>

lemma deref_simps [simp]:
  "deref (store_route p r s) q = (if q = p then r else deref s q)"
  "deref (free_route p s) q = (if q = p then IPv4Route_new else deref s q)"
  "deref (fire n s) q = deref s q"
  "deref (invalidateCache s) q = deref s q"
  "deref (s\<lparr>rt_routes := ps\<rparr>) q = deref s q"
  "deref (s\<lparr>rt_routingCache := c\<rparr>) q = deref s q"
  by (auto simp: deref_def store_route_def free_route_def fire_def invalidateCache_def)

lemma routes_simps [simp]:
  "rt_routes (store_route p r s) = rt_routes s"
  "rt_routes (free_route p s) = rt_routes s"
  "rt_routes (fire n s) = rt_routes s"
  "rt_routes (invalidateCache s) = rt_routes s"
  "rt_heap (store_route p r s) = smap_insert p r (rt_heap s)"
  "rt_heap (free_route p s) = smap_erase p (rt_heap s)"
  "rt_heap (fire n s) = rt_heap s"
  "rt_heap (invalidateCache s) = rt_heap s"
  "rt_routingCache (invalidateCache s) = []"
  "rt_routingCache (fire n s) = rt_routingCache s"
  "rt_routingCache (store_route p r s) = rt_routingCache s"
  "rt_routingCache (free_route p s) = rt_routingCache s"
  "rt_ift (store_route p r s) = rt_ift s"
  "rt_ift (free_route p s) = rt_ift s"
  "rt_ift (fire n s) = rt_ift s"
  "rt_ift (invalidateCache s) = rt_ift s"
  by (auto simp: store_route_def free_route_def fire_def invalidateCache_def)

lemma struct_fire [simp]: "rt_struct X (fire n s) \<longleftrightarrow> rt_struct X s"
  and struct_invalidate [simp]: "rt_struct X (invalidateCache s) \<longleftrightarrow> rt_struct X s"
  and struct_cache [simp]: "rt_struct X (s\<lparr>rt_routingCache := c\<rparr>) \<longleftrightarrow> rt_struct X s"
  by (simp_all add: rt_struct_def)

lemma sorted_map_deref_cong:
  "(\<And>q. q \<in> set ps \<Longrightarrow> d q = e q) \<Longrightarrow>
   sorted (map (\<lambda>p. route_key (d p)) ps) \<longleftrightarrow> sorted (map (\<lambda>p. route_key (e p)) ps)"
  by (metis (mono_tags, lifting) map_cong)

lemma struct_store:
  assumes "rt_struct X s" and "p \<notin> set (rt_routes s)"
  shows "rt_struct (if r_rt r then insert p X else X - {p}) (store_route p r s)"
proof -
  have "sorted (map (\<lambda>q. route_key (deref (store_route p r s) q)) (rt_routes s))
      \<longleftrightarrow> sorted (map (\<lambda>q. route_key (deref s q)) (rt_routes s))"
    by (rule sorted_map_deref_cong) (use assms(2) in auto)
  with assms show ?thesis
    by (auto simp: rt_struct_def)
qed

lemma struct_free:
  assumes "rt_struct X s" and "p \<notin> set (rt_routes s)"
  shows "rt_struct (X - {p}) (free_route p s)"
proof -
  have "sorted (map (\<lambda>q. route_key (deref (free_route p s) q)) (rt_routes s))
      \<longleftrightarrow> sorted (map (\<lambda>q. route_key (deref s q)) (rt_routes s))"
    by (rule sorted_map_deref_cong) (use assms(2) in auto)
  with assms show ?thesis
    by (auto simp: rt_struct_def)
qed

lemma sorted_map_remove1: "sorted (map f xs) \<Longrightarrow> sorted (map f (remove1 x xs))"
  by (induction xs) (auto dest: notin_set_remove1 set_remove1_subset [THEN subsetD])

lemma struct_remove:
  assumes "rt_struct X s"
  shows "rt_struct (insert p X) (s\<lparr>rt_routes := remove1 p (rt_routes s)\<rparr>)"
  using assms
  by (auto simp: rt_struct_def sorted_map_remove1 distinct_remove1)

lemma struct_insertSorted:
  assumes st: "rt_struct (insert p X) s" and p: "p \<notin> set (rt_routes s)"
    and r: "smap_find (rt_heap s) p = Some r" "r_rt r" "good_route r"
  shows "rt_struct (X - {p}) (insertSorted s p)"
proof -
  have "sorted (map (\<lambda>q. route_key (deref s q)) (rt_routes s))"
    using st by (simp add: rt_struct_def)
  note sorted = unicast.insert_keeps_sorted [OF this, of p]
  have keep: "\<forall>q r. smap_find (rt_heap s) q = Some r \<longrightarrow> r_rt r \<longrightarrow> q = p \<or> q \<in> set (rt_routes s) \<or> q \<in> X"
    using st by (auto simp: rt_struct_def)
  show ?thesis
    using st p r sorted keep by (auto simp: rt_struct_def insertSorted_def Let_def)
qed

lemma insertSorted_store:
  assumes "route_key r = route_key (deref s p)"
  shows "insertSorted (store_route p r s) p = store_route p r (insertSorted s p)"
proof -
  have "(\<lambda>q. routeLessThan (deref (store_route p r s) p) (deref (store_route p r s) q))
      = (\<lambda>q. routeLessThan (deref s p) (deref s q))"
    using assms by (auto simp: routeLessThan_key)
  then show ?thesis
    unfolding insertSorted_def Let_def by (simp add: store_route_def)
qed

section \<open>The operations keep the invariant\<close>

lemma struct_live:
  "rt_struct X s \<Longrightarrow> p \<in> set (rt_routes s) \<Longrightarrow>
     smap_find (rt_heap s) p = Some (deref s p) \<and> r_rt (deref s p) \<and> good_route (deref s p)"
  by (auto simp: rt_struct_def deref_def)

lemma struct_mono: "rt_struct X s \<Longrightarrow> X \<subseteq> Y \<Longrightarrow> rt_struct Y s"
  by (auto simp: rt_struct_def)

lemma cache_ok_empty [simp]: "rt_routingCache s = [] \<Longrightarrow> cache_ok now s"
  by (simp add: cache_ok_def)

lemma deleteRoute_struct:
  assumes st: "rt_struct X s" and p: "p \<in> set (rt_routes s)"
  shows "\<exists>s'. deleteRoute s p = Inr (s', True) \<and> rt_struct X s' \<and> rt_routes s' = remove1 p (rt_routes s)
    \<and> rt_routingCache s' = [] \<and> (\<forall>q. q \<noteq> p \<longrightarrow> deref s' q = deref s q)
    \<and> (\<forall>q. q \<noteq> p \<longrightarrow> smap_find (rt_heap s') q = smap_find (rt_heap s) q)"
proof -
  have "p \<notin> set (remove1 p (rt_routes s))"
    using st by (simp add: rt_struct_def)
  then have "rt_struct X (free_route p (fire (ROUTE_DELETED p)
      (invalidateCache (s\<lparr>rt_routes := remove1 p (rt_routes s)\<rparr>))))"
    using struct_free [of "insert p X" "fire (ROUTE_DELETED p) (invalidateCache (s\<lparr>rt_routes := remove1 p (rt_routes s)\<rparr>))" p]
      struct_remove [OF st, of p] by (auto intro: struct_mono)
  with p struct_live [OF st p] show ?thesis
    by (simp add: deleteRoute_def internalRemoveRoute_def)
qed

lemma removeRoute_struct:
  assumes st: "rt_struct X s" and p: "p \<in> set (rt_routes s)"
  shows "\<exists>s'. removeRoute s p = Inr (s', True) \<and> rt_struct X s' \<and> rt_routes s' = remove1 p (rt_routes s)
    \<and> rt_routingCache s' = []"
proof -
  have "p \<notin> set (remove1 p (rt_routes s))"
    using st by (simp add: rt_struct_def)
  then have "rt_struct X (store_route p (deref s p \<lparr>r_rt := False\<rparr>) (fire (ROUTE_DELETED p)
      (invalidateCache (s\<lparr>rt_routes := remove1 p (rt_routes s)\<rparr>))))"
    using struct_store [of "insert p X" "fire (ROUTE_DELETED p) (invalidateCache (s\<lparr>rt_routes := remove1 p (rt_routes s)\<rparr>))" p
        "deref s p \<lparr>r_rt := False\<rparr>"]
      struct_remove [OF st, of p] by (auto intro: struct_mono)
  with p struct_live [OF st p] show ?thesis
    by (simp add: removeRoute_def internalRemoveRoute_def)
qed

lemma lastDefault_mem: "lastDefault now d ps = Some p \<Longrightarrow> p \<in> set ps"
  by (induction ps) (auto split: if_splits)

text \<open>Adding a live route that is not yet in the vector: an error, or a well-formed table.\<close>

lemma internalAddRoute_struct:
  assumes st: "rt_struct (insert p X) s" and p: "p \<notin> set (rt_routes s)"
    and live: "smap_find (rt_heap s) p = Some r"
    and ok: "internalAddRoute now s p = Inr s'"
  shows "rt_struct (X - {p}) s' \<and> p \<in> set (rt_routes s')"
proof -
  have d: "deref s p = r" using live by (simp add: deref_def)
  have good: "good_route r"
    using ok d by (auto simp: internalAddRoute_def good_route_def Let_def split: if_splits)
  obtain s1 where st1: "rt_struct (insert p X) s1" "p \<notin> set (rt_routes s1)"
    "smap_find (rt_heap s1) p = Some r"
    and s': "s' = store_route p (deref (insertSorted s1 p) p \<lparr>r_rt := True\<rparr>) (insertSorted s1 p)"
  proof (cases "IPv4Address_isUnspecified (r_netmask r) \<and> getDefaultRoute now s \<noteq> None")
    case True
    then obtain old where old: "getDefaultRoute now s = Some old" by blast
    then have mem: "old \<in> set (rt_routes s)"
      using lastDefault_mem by (fastforce simp: getDefaultRoute_def)
    obtain s1 where s1: "deleteRoute s old = Inr (s1, True)" "rt_struct (insert p X) s1"
      "rt_routes s1 = remove1 old (rt_routes s)"
      "\<forall>q. q \<noteq> old \<longrightarrow> smap_find (rt_heap s1) q = smap_find (rt_heap s) q"
      using deleteRoute_struct [OF st mem] by blast
    have "p \<notin> set (rt_routes s1)" "smap_find (rt_heap s1) p = Some r"
      using s1(3,4) p mem live by (auto dest: notin_set_remove1)
    moreover have "s' = store_route p (deref (insertSorted s1 p) p \<lparr>r_rt := True\<rparr>) (insertSorted s1 p)"
      using ok d True old s1(1)
      by (auto simp: internalAddRoute_def Let_def split: if_splits)
    ultimately show ?thesis using that s1(2) by blast
  next
    case False
    then have "s' = store_route p (deref (insertSorted s p) p \<lparr>r_rt := True\<rparr>) (insertSorted s p)"
      using ok d by (auto simp: internalAddRoute_def Let_def split: if_splits option.splits)
    with that st p live show ?thesis by blast
  qed
  have d1: "deref s1 p = r" "deref (insertSorted s1 p) p = r"
    using st1(3) by (simp_all add: deref_def insertSorted_def Let_def)
  have s'_eq: "s' = insertSorted (store_route p (r\<lparr>r_rt := True\<rparr>) s1) p"
    using insertSorted_store [of "r\<lparr>r_rt := True\<rparr>" s1 p] d1 s' by (simp add: route_key_def)
  have "rt_struct (insert p X) (store_route p (r\<lparr>r_rt := True\<rparr>) s1)"
    using struct_store [OF st1(1,2), of "r\<lparr>r_rt := True\<rparr>"] by simp
  from struct_insertSorted [OF this, of "r\<lparr>r_rt := True\<rparr>"] st1(2) good
  show ?thesis
    unfolding s'_eq by (auto simp: good_route_def insertSorted_def Let_def)
qed

lemma addRoute_inv:
  assumes "rt_inv now s" and live: "smap_find (rt_heap s) p = Some r" "\<not> r_rt r"
    and "addRoute now s p = Inr s'"
  shows "rt_inv now s' \<and> p \<in> set (rt_routes s')"
proof -
  have st: "rt_struct {} s" using assms(1) by (simp add: rt_inv_def)
  have p: "p \<notin> set (rt_routes s)" using st live by (auto simp: rt_struct_def)
  obtain s1 where s1: "internalAddRoute now s p = Inr s1" "s' = fire (ROUTE_ADDED p) (invalidateCache s1)"
    using assms(4) by (auto simp: addRoute_def)
  from internalAddRoute_struct [where X = "{}", OF struct_mono [OF st] p live(1) s1(1)] s1(2) show ?thesis
    by (auto simp: rt_inv_def)
qed

section \<open>Changing a route in place\<close>

lemma apply_update_frame:
  "r_rt (apply_update u r) = r_rt r" "r_expiryTime (apply_update u r) = r_expiryTime r"
  by (cases u; simp)+

lemma neutral_update:
  assumes "update_code u \<notin> {F_DESTINATION, F_NETMASK, F_METRIC, F_ADMINDIST}"
  shows "route_key (apply_update u r) = route_key r" "good_route (apply_update u r) = good_route r"
    "route_matches now dest (apply_update u r) = route_matches now dest r"
    "IPv4Route_isValid now (apply_update u r) = IPv4Route_isValid now r"
  using assms by (cases u; simp add: route_key_def good_route_def route_matches_def IPv4Route_isValid_def)+

lemma store_neutral_inv:
  assumes inv: "rt_inv now s" and live: "smap_find (rt_heap s) p = Some r"
    and same: "r_rt r' = r_rt r" "route_key r' = route_key r" "good_route r' = good_route r"
      "\<And>dest. route_matches now dest r' = route_matches now dest r"
      "IPv4Route_isValid now r' = IPv4Route_isValid now r"
  shows "rt_inv now (store_route p r' s)"
proof -
  have d: "deref s p = r" using live by (simp add: deref_def)
  have keys: "(\<lambda>q. route_key (deref (store_route p r' s) q)) = (\<lambda>q. route_key (deref s q))"
    using same(2) d by auto
  have match: "(\<lambda>q. route_matches now dest (deref (store_route p r' s) q)) = (\<lambda>q. route_matches now dest (deref s q))" for dest
    using same(4) d by auto
  have "rt_struct {} (store_route p r' s)"
    using inv live same(1,3) unfolding rt_inv_def rt_struct_def keys by auto
  moreover have "cache_ok now (store_route p r' s)"
    using inv same(5) d unfolding rt_inv_def cache_ok_def table_lookup_def match
    by (auto split: option.splits)
  ultimately show ?thesis by (simp add: rt_inv_def)
qed

lemma table_lookup_fire [simp]: "table_lookup now (fire n s) dest = table_lookup now s dest"
  by (simp add: table_lookup_def)

lemma fire_inv [simp]: "rt_inv now (fire n s) \<longleftrightarrow> rt_inv now s"
  unfolding rt_inv_def cache_ok_def struct_fire routes_simps deref_simps table_lookup_fire ..

lemma IPv4Route_set_inv:
  assumes inv: "rt_inv now s" and live: "smap_find (rt_heap s) p = Some r"
    and u: "update_code u \<noteq> F_ADMINDIST \<or> \<not> r_rt r"
    and ok: "IPv4Route_set now u p s = Inr s'"
  shows "rt_inv now s'"
proof (cases "apply_update u r = r")
  case True
  with inv live ok show ?thesis by (simp add: IPv4Route_set_def deref_def)
next
  case changed: False
  let ?r = "apply_update u r"
  have d: "deref s p = r" using live by (simp add: deref_def)
  have st: "rt_struct {} s" using inv by (simp add: rt_inv_def)
  show ?thesis
  proof (cases "r_rt r")
    case False
    then have "p \<notin> set (rt_routes s)" using st live by (auto simp: rt_struct_def)
    then have "rt_struct {} (store_route p ?r s)"
      using struct_store [OF st, of p ?r] False by (simp add: apply_update_frame)
    moreover have "cache_ok now (store_route p ?r s)"
    proof -
      have "table_lookup now (store_route p ?r s) dest = table_lookup now s dest" for dest
        unfolding table_lookup_def routes_simps
        by (rule firstMatch_cong) (use \<open>p \<notin> set (rt_routes s)\<close> in auto)
      with inv \<open>p \<notin> set (rt_routes s)\<close> show ?thesis
        unfolding rt_inv_def cache_ok_def by (auto split: option.splits)
    qed
    ultimately show ?thesis
      using ok d changed False by (simp add: IPv4Route_set_def rt_inv_def Let_def)
  next
    case True
    then have mem: "p \<in> set (rt_routes s)" using st live by (auto simp: rt_struct_def)
    have chg: "routeChanged now (store_route p ?r s) p (update_code u) = Inr s'"
      using ok d changed True by (simp add: IPv4Route_set_def Let_def)
    show ?thesis
    proof (cases "update_code u \<in> {F_DESTINATION, F_NETMASK, F_METRIC}")
      case False
      then have "rt_inv now (store_route p ?r s)"
        using neutral_update [of u] u True
        by (intro store_neutral_inv [OF inv live]) (auto simp: apply_update_frame)
      moreover have "s' = fire (ROUTE_CHANGED p) (store_route p ?r s)"
        using chg False by (auto simp: routeChanged_def)
      ultimately show ?thesis by simp
    next
      case struct: True
      let ?s1 = "(store_route p ?r s)\<lparr>rt_routes := remove1 p (rt_routes s)\<rparr>"
      have eq: "?s1 = store_route p ?r (s\<lparr>rt_routes := remove1 p (rt_routes s)\<rparr>)"
        by (simp add: store_route_def)
      have notin: "p \<notin> set (remove1 p (rt_routes s))"
        using st by (simp add: rt_struct_def)
      have st1: "rt_struct (insert p {}) ?s1"
        unfolding eq using struct_store [OF struct_remove [OF st, of p], of p ?r] notin True
        by (simp add: apply_update_frame)
      obtain s2 where s2: "internalAddRoute now ?s1 p = Inr s2"
        and s': "s' = fire (ROUTE_CHANGED p) (invalidateCache s2)"
        using chg struct mem by (auto simp: routeChanged_def internalRemoveRoute_def)
      from internalAddRoute_struct [OF st1 _ _ s2] notin s' show ?thesis
        by (simp add: rt_inv_def)
    qed
  qed
qed

section \<open>Erase loops\<close>

lemma eraseRoutes_spec:
  "distinct ps \<Longrightarrow> \<forall>p\<in>set ps. r_rt (deref s p) \<Longrightarrow>
   \<exists>s'. eraseRoutes P s ps = Inr (filter (\<lambda>p. \<not> P (deref s p)) ps, s', \<exists>p\<in>set ps. P (deref s p))
     \<and> smap_find (rt_heap s') = (\<lambda>q. if q \<in> set ps \<and> P (deref s q) then None else smap_find (rt_heap s) q)
     \<and> (smap_wf (rt_heap s) \<longrightarrow> smap_wf (rt_heap s'))
     \<and> rt_ift s' = rt_ift s
     \<and> ((\<forall>p\<in>set ps. \<not> P (deref s p)) \<longrightarrow> s' = s)"
proof (induction ps arbitrary: s)
  case (Cons p ps)
  show ?case
  proof (cases "P (deref s p)")
    case True
    let ?s = "free_route p (fire (ROUTE_DELETED p) s)"
    have same: "deref ?s q = deref s q" if "q \<in> set ps" for q
      using that Cons.prems(1) by auto
    have "\<forall>q\<in>set ps. r_rt (deref ?s q)" using Cons.prems same by simp
    from Cons.IH [of ?s, OF _ this] Cons.prems(1) obtain s' where s':
      "eraseRoutes P ?s ps = Inr (filter (\<lambda>q. \<not> P (deref ?s q)) ps, s', \<exists>q\<in>set ps. P (deref ?s q))"
      "smap_find (rt_heap s') = (\<lambda>q. if q \<in> set ps \<and> P (deref ?s q) then None else smap_find (rt_heap ?s) q)"
      "smap_wf (rt_heap ?s) \<longrightarrow> smap_wf (rt_heap s')" "rt_ift s' = rt_ift ?s"
      by auto
    have f: "filter (\<lambda>q. \<not> P (deref ?s q)) ps = filter (\<lambda>q. \<not> P (deref s q)) ps"
      by (intro filter_cong refl) (simp only: same)
    have h: "smap_find (rt_heap s') = (\<lambda>q. if q \<in> set (p # ps) \<and> P (deref s q) then None else smap_find (rt_heap s) q)"
      using s'(2) same True Cons.prems(1) by (auto simp: fun_eq_iff)
    show ?thesis
      using s'(1,3,4) h True Cons.prems(2) f by auto
  next
    case False
    from Cons.IH [of s] Cons.prems obtain s' where s':
      "eraseRoutes P s ps = Inr (filter (\<lambda>q. \<not> P (deref s q)) ps, s', \<exists>q\<in>set ps. P (deref s q))"
      "smap_find (rt_heap s') = (\<lambda>q. if q \<in> set ps \<and> P (deref s q) then None else smap_find (rt_heap s) q)"
      "smap_wf (rt_heap s) \<longrightarrow> smap_wf (rt_heap s')" "rt_ift s' = rt_ift s"
      "(\<forall>q\<in>set ps. \<not> P (deref s q)) \<longrightarrow> s' = s"
      by auto
    then show ?thesis using False by (auto simp: fun_eq_iff)
  qed
qed simp

lemma eraseUnicast_struct:
  assumes st: "rt_struct {} s"
  shows "\<exists>s' changed. eraseUnicast P s = Inr (s', changed) \<and> rt_struct {} s'
    \<and> rt_routes s' = filter (\<lambda>p. \<not> P (deref s p)) (rt_routes s)
    \<and> (\<forall>p\<in>set (rt_routes s'). deref s' p = deref s p)
    \<and> rt_ift s' = rt_ift s \<and> (\<not> changed \<longrightarrow> s' = s)"
proof -
  let ?ps = "filter (\<lambda>p. \<not> P (deref s p)) (rt_routes s)"
  have live: "\<forall>p\<in>set (rt_routes s). r_rt (deref s p)"
    using struct_live [OF st] by blast
  have dis: "distinct (rt_routes s)" using st by (simp add: rt_struct_def)
  obtain s1 where s1:
    "eraseRoutes P s (rt_routes s) = Inr (?ps, s1, \<exists>p\<in>set (rt_routes s). P (deref s p))"
    "smap_find (rt_heap s1) = (\<lambda>q. if q \<in> set (rt_routes s) \<and> P (deref s q) then None else smap_find (rt_heap s) q)"
    "smap_wf (rt_heap s) \<longrightarrow> smap_wf (rt_heap s1)" "rt_ift s1 = rt_ift s"
    "(\<forall>p\<in>set (rt_routes s). \<not> P (deref s p)) \<longrightarrow> s1 = s"
    using eraseRoutes_spec [OF dis live, of P] by auto
  let ?s' = "s1\<lparr>rt_routes := ?ps\<rparr>"
  have d: "deref ?s' q = deref s q" if "q \<in> set ?ps" for q
    using that s1(2) by (auto simp: deref_def)
  have "sorted (map (\<lambda>p. route_key (deref s p)) ?ps)"
    using st by (auto simp: rt_struct_def intro: sorted_filter)
  then have sorted: "sorted (map (\<lambda>p. route_key (deref ?s' p)) ?ps)"
    using sorted_map_deref_cong [of ?ps "deref ?s'" "deref s"] d by blast
  have "rt_struct {} ?s'"
    using st sorted s1(2,3) unfolding rt_struct_def
    by (auto simp: deref_def split: if_splits option.splits)
  moreover have "s1 = s \<longrightarrow> (\<forall>p\<in>set (rt_routes s). \<not> P (deref s p)) \<longrightarrow> ?s' = s"
    by simp
  ultimately show ?thesis
    using s1 d by (intro exI [of _ ?s'] exI [of _ "\<exists>p\<in>set (rt_routes s). P (deref s p)"])
      (auto simp: eraseUnicast_def)
qed

lemma purge_inv:
  assumes "rt_inv now s"
  shows "\<exists>s'. purge now s = Inr s' \<and> rt_inv now s'
    \<and> rt_routes s' = filter (\<lambda>p. IPv4Route_isValid now (deref s p)) (rt_routes s)"
proof -
  have st: "rt_struct {} s" using assms by (simp add: rt_inv_def)
  obtain s' changed where e: "eraseUnicast (\<lambda>r. \<not> IPv4Route_isValid now r) s = Inr (s', changed)"
    "rt_struct {} s'" "rt_routes s' = filter (\<lambda>p. IPv4Route_isValid now (deref s p)) (rt_routes s)"
    "\<not> changed \<longrightarrow> s' = s"
    using eraseUnicast_struct [OF st, of "\<lambda>r. \<not> IPv4Route_isValid now r"] by auto
  have "purge now s = Inr (if changed then invalidateCache s' else s')"
    using e(1) by (simp add: purge_def)
  with e assms show ?thesis by (cases changed) (simp_all add: rt_inv_def)
qed

text \<open>The multicast half of \<open>deleteInterfaceRoutes\<close> leaves the unicast state alone.\<close>

lemma eraseMulticast_frame:
  "eraseMulticast ie s ps = Inr (kept, s', changed) \<Longrightarrow>
   rt_heap s' = rt_heap s \<and> rt_routes s' = rt_routes s \<and> rt_routingCache s' = rt_routingCache s"
proof (induction ie s ps arbitrary: kept changed rule: eraseMulticast.induct)
  case (2 ie s p ps)
  then show ?case
    by (auto simp: Let_def fire_def split: if_splits option.splits)
qed simp

lemma unicast_state_cong:
  assumes "rt_heap s' = rt_heap s" "rt_routes s' = rt_routes s" "rt_routingCache s' = rt_routingCache s"
  shows "rt_struct X s' = rt_struct X s" "rt_inv now s' = rt_inv now s"
proof -
  have d: "deref s' = deref s" using assms by (simp add: deref_def fun_eq_iff)
  have t: "table_lookup now s' = table_lookup now s"
    using assms d by (simp add: table_lookup_def fun_eq_iff)
  show "rt_struct X s' = rt_struct X s" "rt_inv now s' = rt_inv now s"
    unfolding rt_struct_def rt_inv_def cache_ok_def assms d t by (rule refl)+
qed

lemma deleteInterfaceRoutes_inv:
  assumes inv: "rt_inv now s" and ok: "deleteInterfaceRoutes ie s = Inr s'"
  shows "rt_inv now s' \<and> rt_routes s' = filter (\<lambda>p. r_interface (deref s p) \<noteq> Some ie) (rt_routes s)"
proof -
  have st: "rt_struct {} s" using inv by (simp add: rt_inv_def)
  obtain s1 c1 where e: "eraseUnicast (\<lambda>r. r_interface r = Some ie) s = Inr (s1, c1)" "rt_struct {} s1"
    "rt_routes s1 = filter (\<lambda>p. r_interface (deref s p) \<noteq> Some ie) (rt_routes s)" "\<not> c1 \<longrightarrow> s1 = s"
    using eraseUnicast_struct [OF st, of "\<lambda>r. r_interface r = Some ie"] by auto
  obtain kept s2 c2 where m: "eraseMulticast ie s1 (rt_multicastRoutes s1) = Inr (kept, s2, c2)"
    and s': "s' = (let s3 = s2\<lparr>rt_multicastRoutes := kept\<rparr> in if c1 \<or> c2 then invalidateCache s3 else s3)"
    using ok e(1) by (auto simp: deleteInterfaceRoutes_def Let_def)
  let ?s3 = "s2\<lparr>rt_multicastRoutes := kept\<rparr>"
  have same: "rt_heap ?s3 = rt_heap s1" "rt_routes ?s3 = rt_routes s1" "rt_routingCache ?s3 = rt_routingCache s1"
    using eraseMulticast_frame [OF m] by simp_all
  show ?thesis
    using unicast_state_cong [OF same] e inv s' same(2) by (cases "c1 \<or> c2") (auto simp: rt_inv_def Let_def)
qed

section \<open>Routes derived from interface netmasks\<close>

lemma fresh_ptr_notin: "smap_wf (rt_heap s) \<Longrightarrow> smap_find (rt_heap s) (fresh_ptr s) = None"
proof -
  assume wf: "smap_wf (rt_heap s)"
  have "\<forall>k\<in>fst ` set (rt_heap s). k < fresh_ptr s"
  proof (cases "rt_heap s" rule: rev_cases)
    case (snoc m p)
    then have "fresh_ptr s = Suc (fst p)"
      by (simp add: fresh_ptr_def)
    then show ?thesis
      using wf snoc by (auto simp: smap_wf_def sorted_wrt_append)
  qed simp
  then show ?thesis
    by (auto simp: smap_find_def map_of_eq_None_iff)
qed

definition netmasks_valid :: "InterfaceEntry list \<Rightarrow> bool" where
  "netmasks_valid ies \<longleftrightarrow> (\<forall>ie\<in>set ies. \<forall>d. ie_ipv4Data ie = Some d \<longrightarrow> isValidNetmask (ifd_netmask d))"

lemma netmaskRoute_good: "isValidNetmask (ifd_netmask d) \<Longrightarrow> good_route (netmaskRoute ie d)"
  by (simp add: good_route_def netmaskRoute_def doAnd_def and.assoc)

lemma addNetmaskRoutes_struct:
  "rt_struct {} s \<Longrightarrow> netmasks_valid ies \<Longrightarrow> rt_struct {} (addNetmaskRoutes s ies)"
proof (induction s ies rule: addNetmaskRoutes.induct)
  case (2 s ie ies)
  show ?case
  proof (cases "\<exists>d. ie_ipv4Data ie = Some d \<and> ifd_netmask d \<noteq> 0xFFFFFFFF")
    case False
    with 2 show ?thesis by (auto simp: netmasks_valid_def split: option.splits)
  next
    case True
    then obtain d where d: "ie_ipv4Data ie = Some d" "ifd_netmask d \<noteq> 0xFFFFFFFF" by blast
    let ?p = "fresh_ptr s" and ?r = "netmaskRoute ie d"
    have good: "good_route ?r"
      using 2(5) d by (intro netmaskRoute_good) (auto simp: netmasks_valid_def)
    have rt: "r_rt ?r" by (simp add: netmaskRoute_def)
    have p: "?p \<notin> set (rt_routes s)"
      using 2(4) fresh_ptr_notin [of s] by (auto simp: rt_struct_def)
    have "rt_struct (insert ?p {}) (store_route ?p ?r s)"
      using struct_store [OF 2(4) p, of ?r] rt by simp
    from struct_insertSorted [OF this, of ?r] p good rt
    have "rt_struct {} (fire (ROUTE_ADDED ?p) (insertSorted (store_route ?p ?r s) ?p))"
      by simp
    from 2(2) [OF d(1,2) refl refl this] 2(5) d show ?thesis
      by (simp add: netmasks_valid_def Let_def)
  qed
qed simp

lemma updateNetmaskRoutes_inv:
  assumes inv: "rt_inv now s" and "netmasks_valid (rt_ift s)"
  shows "\<exists>s'. updateNetmaskRoutes s = Inr s' \<and> rt_inv now s'"
proof -
  have st: "rt_struct {} s" using inv by (simp add: rt_inv_def)
  obtain s1 c1 where e: "eraseUnicast (\<lambda>r. r_sourceType r = IFACENETMASK) s = Inr (s1, c1)" "rt_struct {} s1"
    "rt_ift s1 = rt_ift s"
    using eraseUnicast_struct [OF st, of "\<lambda>r. r_sourceType r = IFACENETMASK"] by auto
  from addNetmaskRoutes_struct [OF e(2)] assms(2) e show ?thesis
    by (simp add: updateNetmaskRoutes_def rt_inv_def)
qed

lemma shutdownRoutes_empties:
  "rt_struct {} s \<Longrightarrow> \<exists>s'. shutdownRoutes s = Inr s' \<and> rt_routes s' = []"
proof (induction s rule: shutdownRoutes.induct)
  case (1 s)
  show ?case
  proof (cases "rt_routes s")
    case Nil
    then show ?thesis by (subst shutdownRoutes.simps) simp
  next
    case (Cons p ps)
    obtain s1 where s1: "removeRoute s p = Inr (s1, True)" "rt_struct {} s1"
      using removeRoute_struct [OF 1(2), of p] Cons by auto
    from 1(1) [OF Cons s1(1) refl s1(2)] Cons s1(1) show ?thesis
      by (subst shutdownRoutes.simps) simp
  qed
qed

section \<open>Lookup\<close>

text \<open>The specification of a lookup: a matching route of greatest prefix length, then least
  administrative distance, then least metric, or none if no route matches.\<close>

definition best_route :: "simtime \<Rightarrow> RoutingTable \<Rightarrow> IPv4Address \<Rightarrow> nat option \<Rightarrow> bool" where
  "best_route now s dest res \<longleftrightarrow>
     (case res of
        None \<Rightarrow> \<forall>q\<in>set (rt_routes s). \<not> route_matches now dest (deref s q)
      | Some p \<Rightarrow> p \<in> set (rt_routes s) \<and> route_matches now dest (deref s p)
          \<and> (\<forall>q\<in>set (rt_routes s). route_matches now dest (deref s q) \<longrightarrow>
               getNetmaskLength (r_netmask (deref s q)) < getNetmaskLength (r_netmask (deref s p))
               \<or> (r_netmask (deref s q) = r_netmask (deref s p) \<and> r_dest (deref s q) = r_dest (deref s p)
                   \<and> (r_adminDist (deref s p), r_metric (deref s p)) \<le> (r_adminDist (deref s q), r_metric (deref s q)))))"

lemma matching_same_netmask_same_dest:
  assumes "good_route a" "good_route b" "r_netmask a = r_netmask b"
    and "route_matches now dest a" "route_matches now dest b"
  shows "r_dest a = r_dest b"
proof -
  have "r_dest r = dest AND r_netmask r" if "good_route r" "route_matches now dest r" for r
    using that by (auto simp: good_route_def route_matches_def maskedAddrAreEqual_def word_eq_bits bit_simps)
  with assms show ?thesis by metis
qed

lemma table_lookup_best:
  assumes st: "rt_struct X s"
  shows "best_route now s dest (table_lookup now s dest)"
proof (cases "table_lookup now s dest")
  case None
  then have "\<forall>q\<in>set (rt_routes s). \<not> route_matches now dest (deref s q)"
    by (simp add: table_lookup_def firstMatch_None)
  then show ?thesis unfolding None by (simp add: best_route_def)
next
  case (Some p)
  then have p: "p \<in> set (rt_routes s)" "route_matches now dest (deref s p)"
    using firstMatch_Some by (fastforce simp: table_lookup_def)+
  have sorted: "sorted (map (\<lambda>p. route_key (deref s p)) (rt_routes s))"
    using st by (simp add: rt_struct_def)
  have "getNetmaskLength (r_netmask (deref s q)) < getNetmaskLength (r_netmask (deref s p))
      \<or> (r_netmask (deref s q) = r_netmask (deref s p) \<and> r_dest (deref s q) = r_dest (deref s p)
         \<and> (r_adminDist (deref s p), r_metric (deref s p)) \<le> (r_adminDist (deref s q), r_metric (deref s q)))"
    if q: "q \<in> set (rt_routes s)" "route_matches now dest (deref s q)" for q
  proof -
    have good: "good_route (deref s p)" "good_route (deref s q)"
      using struct_live [OF st] p q by blast+
    have key: "route_key (deref s p) \<le> route_key (deref s q)"
      using unicast.firstMatch_least [OF sorted] Some q unfolding table_lookup_def by blast
    show ?thesis
    proof (cases "r_netmask (deref s p) = r_netmask (deref s q)")
      case True
      have "r_dest (deref s p) = r_dest (deref s q)"
        by (rule matching_same_netmask_same_dest [OF good True p(2) q(2)])
      with True key show ?thesis
        by (auto simp: route_key_def)
    next
      case False
      then have "r_netmask (deref s q) < r_netmask (deref s p)"
        using key by (auto simp: route_key_def not_word_le not_word_less)
      then show ?thesis
        using valid_netmask_order good by (auto simp: good_route_def)
    qed
  qed
  with Some p show ?thesis by (auto simp: best_route_def)
qed

lemma findBest_eq_lookup:
  assumes "cache_ok now s"
  shows "snd (findBestMatchingRoute now s dest) = table_lookup now s dest"
proof (cases "smap_find (rt_routingCache s) dest")
  case None
  then show ?thesis by (simp add: findBestMatchingRoute_def table_lookup_def Let_def)
next
  case (Some c)
  then have *: "case c of None \<Rightarrow> table_lookup now s dest = None
      | Some p \<Rightarrow> IPv4Route_isValid now (deref s p) \<longrightarrow> table_lookup now s dest = Some p"
    using assms unfolding cache_ok_def by (fastforce split: option.splits)
  show ?thesis
  proof (cases c)
    case None
    with Some * show ?thesis by (simp add: findBestMatchingRoute_def Let_def)
  next
    case (Some p)
    with \<open>smap_find (rt_routingCache s) dest = Some c\<close> * show ?thesis
      by (simp add: findBestMatchingRoute_def Let_def table_lookup_def [symmetric])
  qed
qed

lemma table_lookup_cache [simp]:
  "table_lookup now (s\<lparr>rt_routingCache := c\<rparr>) dest = table_lookup now s dest"
  by (simp add: table_lookup_def)

lemma findBest_inv:
  assumes inv: "rt_inv now s"
  shows "rt_inv now (fst (findBestMatchingRoute now s dest))"
proof -
  let ?c = "smap_insert dest (table_lookup now s dest) (rt_routingCache s)"
  have "cache_ok now (s\<lparr>rt_routingCache := ?c\<rparr>)"
    using inv firstMatch_Some [of _ "rt_routes s"]
    unfolding rt_inv_def cache_ok_def
    by (auto simp: table_lookup_def split: option.splits)
  then have "rt_inv now (s\<lparr>rt_routingCache := ?c\<rparr>)"
    using inv by (simp add: rt_inv_def)
  with inv show ?thesis
    by (auto simp: findBestMatchingRoute_def table_lookup_def Let_def split: option.splits)
qed

text \<open>Time only makes routes invalid, so a coherent cache stays coherent.\<close>

lemma rt_inv_later:
  assumes inv: "rt_inv now s" and "now \<le> now'"
  shows "rt_inv now' s"
proof -
  have less: "route_matches now' dest r \<Longrightarrow> route_matches now dest r" for dest r
    using assms(2) by (auto simp: route_matches_def IPv4Route_isValid_def)
  have none: "table_lookup now s dest = None \<Longrightarrow> table_lookup now' s dest = None" for dest
    using less by (auto simp: table_lookup_def firstMatch_None)
  have some: "table_lookup now' s dest = Some p"
    if "table_lookup now s dest = Some p" "IPv4Route_isValid now' (deref s p)" for dest p
    unfolding table_lookup_def
  proof (rule firstMatch_mono [where P = "\<lambda>p. route_matches now dest (deref s p)"])
    show "firstMatch (\<lambda>p. route_matches now dest (deref s p)) (rt_routes s) = Some p"
      using that(1) by (simp add: table_lookup_def)
    then have "route_matches now dest (deref s p)" by (rule firstMatch_Some [THEN conjunct2])
    then show "route_matches now' dest (deref s p)" using that(2) by (simp add: route_matches_def)
  qed (rule less)
  have valid: "IPv4Route_isValid now' r \<Longrightarrow> IPv4Route_isValid now r" for r
    using assms(2) by (auto simp: IPv4Route_isValid_def)
  have "cache_ok now' s"
    unfolding cache_ok_def
  proof (intro allI impI)
    fix dest c assume "smap_find (rt_routingCache s) dest = Some c"
    then have "case c of None \<Rightarrow> table_lookup now s dest = None
        | Some p \<Rightarrow> p \<in> set (rt_routes s) \<and> (IPv4Route_isValid now (deref s p) \<longrightarrow> table_lookup now s dest = Some p)"
      using inv unfolding rt_inv_def cache_ok_def by blast
    then show "case c of None \<Rightarrow> table_lookup now' s dest = None
        | Some p \<Rightarrow> p \<in> set (rt_routes s) \<and> (IPv4Route_isValid now' (deref s p) \<longrightarrow> table_lookup now' s dest = Some p)"
      by (cases c) (simp_all add: none some valid)
  qed
  with inv show ?thesis by (simp add: rt_inv_def)
qed

section \<open>Histories\<close>

text \<open>
  The table as the protocol modules and the interface table drive it: routes are allocated, filled in
  through their setters, added, changed, removed, purged and looked up while time passes, and the
  parts of the module that the unicast lookup does not read (multicast routes, rules, interfaces,
  flags) change in any way.  A state is the current time and the table.  The one caller-visible operation left out is \<open>setAdminDist\<close> on a
  route that is in the table, which breaks the order (see \<open>setAdminDist_breaks_lookup\<close>).
\<close>

definition rt_empty :: "InterfaceEntry list \<Rightarrow> RoutingTable" where
  "rt_empty ift =
     \<lparr>rt_heap = [], rt_routes = [], rt_mheap = [], rt_multicastRoutes = [], rt_routingCache = [],
      rt_localAddresses = [], rt_localBroadcastAddresses = [], rt_ift = ift, rt_routerId = 0,
      rt_IPForward = False, rt_multicastForward = False, rt_ruleHeap = [], rt_inputRules = [],
      rt_outputRules = [], rt_notifications = []\<rparr>"

inductive rt_step :: "simtime \<times> RoutingTable \<Rightarrow> simtime \<times> RoutingTable \<Rightarrow> bool" where
  st_time: "now \<le> now' \<Longrightarrow> rt_step (now, s) (now', s)"
| st_new: "smap_find (rt_heap s) p = None \<Longrightarrow> \<not> r_rt r \<Longrightarrow> rt_step (now, s) (now, store_route p r s)"
| st_add: "smap_find (rt_heap s) p = Some r \<Longrightarrow> \<not> r_rt r \<Longrightarrow> addRoute now s p = Inr s' \<Longrightarrow>
    rt_step (now, s) (now, s')"
| st_remove: "removeRoute s p = Inr (s', b) \<Longrightarrow> rt_step (now, s) (now, s')"
| st_delete: "deleteRoute s p = Inr (s', b) \<Longrightarrow> rt_step (now, s) (now, s')"
| st_set: "smap_find (rt_heap s) p = Some r \<Longrightarrow> update_code u \<noteq> F_ADMINDIST \<or> \<not> r_rt r \<Longrightarrow>
    IPv4Route_set now u p s = Inr s' \<Longrightarrow> rt_step (now, s) (now, s')"
| st_find: "rt_step (now, s) (now, fst (findBestMatchingRoute now s dest))"
| st_purge: "purge now s = Inr s' \<Longrightarrow> rt_step (now, s) (now, s')"
| st_notify: "netmasks_valid (rt_ift s) \<Longrightarrow> receiveChangeNotification i s n = Inr s' \<Longrightarrow>
    rt_step (now, s) (now, s')"
| st_other: "rt_heap s' = rt_heap s \<Longrightarrow> rt_routes s' = rt_routes s \<Longrightarrow>
    rt_routingCache s' = rt_routingCache s \<or> rt_routingCache s' = [] \<Longrightarrow> rt_step (now, s) (now, s')"

inductive rt_reachable :: "InterfaceEntry list \<Rightarrow> simtime \<times> RoutingTable \<Rightarrow> bool" for ift where
  rt_init: "rt_reachable ift (0, rt_empty ift)"
| rt_next: "rt_reachable ift c \<Longrightarrow> rt_step c c' \<Longrightarrow> rt_reachable ift c'"

inductive_cases rt_stepE: "rt_step (now, s) (now', s')"

lemma rt_inv_empty: "rt_inv now (rt_empty ift)"
  by (simp add: rt_inv_def rt_struct_def cache_ok_def rt_empty_def smap_wf_def smap_find_def)

lemma invalidateCache_inv: "rt_inv now s \<Longrightarrow> rt_inv now (invalidateCache s)"
  by (simp add: rt_inv_def)

lemma store_fresh_inv:
  assumes inv: "rt_inv now s" and "smap_find (rt_heap s) p = None" "\<not> r_rt r"
  shows "rt_inv now (store_route p r s)"
proof -
  have st: "rt_struct {} s" using inv by (simp add: rt_inv_def)
  have p: "p \<notin> set (rt_routes s)" using st assms(2) by (auto simp: rt_struct_def)
  have lookup: "table_lookup now (store_route p r s) dest = table_lookup now s dest" for dest
    unfolding table_lookup_def routes_simps
    by (rule firstMatch_cong) (use p in auto)
  have "cache_ok now (store_route p r s)"
    using inv p unfolding rt_inv_def cache_ok_def lookup
    by (auto split: option.splits)
  then show ?thesis
    using struct_store [OF st p, of r] assms(3) by (simp add: rt_inv_def)
qed

lemma remove_inv:
  assumes "rt_inv now s" and "removeRoute s p = Inr (s', b) \<or> deleteRoute s p = Inr (s', b)"
  shows "rt_inv now s'"
proof (cases "p \<in> set (rt_routes s)")
  case True
  then show ?thesis
    using removeRoute_struct [of "{}" s p] deleteRoute_struct [of "{}" s p] assms
    by (auto simp: rt_inv_def)
next
  case False
  with assms show ?thesis
    by (auto simp: removeRoute_def deleteRoute_def internalRemoveRoute_def)
qed

lemma notify_inv:
  assumes "rt_inv now s" "netmasks_valid (rt_ift s)" "receiveChangeNotification i s n = Inr s'"
  shows "rt_inv now s'"
  using assms updateNetmaskRoutes_inv [OF assms(1,2)] deleteInterfaceRoutes_inv [OF assms(1)]
  by (cases n) (auto split: if_splits simp: invalidateCache_inv)

lemma other_inv:
  assumes "rt_inv now s" "rt_heap s' = rt_heap s" "rt_routes s' = rt_routes s"
    "rt_routingCache s' = rt_routingCache s \<or> rt_routingCache s' = []"
  shows "rt_inv now s'"
  using assms(4)
proof
  assume "rt_routingCache s' = []"
  moreover have "rt_struct {} s' = rt_struct {} s"
    using assms(2,3) by (simp add: rt_struct_def deref_def)
  ultimately show ?thesis using assms(1) by (simp add: rt_inv_def)
qed (use unicast_state_cong(2) [of s' s now] assms in simp)

lemma rt_step_inv: "rt_step c c' \<Longrightarrow> rt_inv (fst c) (snd c) \<Longrightarrow> rt_inv (fst c') (snd c')"
proof (induction rule: rt_step.induct)
  case (st_purge now s s')
  then show ?case using purge_inv by fastforce
qed (auto intro: rt_inv_later store_fresh_inv remove_inv findBest_inv notify_inv IPv4Route_set_inv
      other_inv dest: addRoute_inv)

lemma rt_reachable_inv: "rt_reachable ift c \<Longrightarrow> rt_inv (fst c) (snd c)"
  by (induction rule: rt_reachable.induct) (auto simp: rt_inv_empty intro: rt_step_inv)

section \<open>What the table promises\<close>

lemma deleteDefault_routes:
  assumes st: "rt_struct {} s" and p: "p \<notin> set (rt_routes s)" and live: "smap_find (rt_heap s) p = Some r"
    and chk: "isValidNetmask (r_netmask r)" "r_netmask r \<noteq> 0 \<longrightarrow> r_dest r AND r_netmask r \<noteq> 0"
      "r_dest r AND NOT (r_netmask r) = 0" "r_interface r \<noteq> None"
  shows "\<exists>s'. internalAddRoute now s p = Inr s'
     \<and> set (rt_routes s') = insert p (set (rt_routes s) -
         (if r_netmask r = 0 then set_option (getDefaultRoute now s) else {}))"
proof -
  have d: "deref s p = r" using live by (simp add: deref_def)
  show ?thesis
  proof (cases "r_netmask r = 0 \<and> getDefaultRoute now s \<noteq> None")
    case True
    then obtain old where old: "getDefaultRoute now s = Some old" by blast
    then have mem: "old \<in> set (rt_routes s)"
      using lastDefault_mem by (fastforce simp: getDefaultRoute_def)
    obtain s1 where s1: "deleteRoute s old = Inr (s1, True)" "rt_routes s1 = remove1 old (rt_routes s)"
      using deleteRoute_struct [OF st mem] by blast
    have "set (remove1 old (rt_routes s)) = set (rt_routes s) - {old}"
      using st by (simp add: rt_struct_def)
    with True old s1 d chk show ?thesis
      by (auto simp: internalAddRoute_def Let_def IPv4Address_isUnspecified_def insertSorted_def)
  next
    case False
    with d chk show ?thesis
      by (auto simp: internalAddRoute_def Let_def IPv4Address_isUnspecified_def insertSorted_def
          split: option.splits)
  qed
qed

lemma addRoute_checks:
  "addRoute now s p = Inr s' \<Longrightarrow> r = deref s p \<Longrightarrow>
     isValidNetmask (r_netmask r) \<and> (r_netmask r \<noteq> 0 \<longrightarrow> r_dest r AND r_netmask r \<noteq> 0)
     \<and> r_dest r AND NOT (r_netmask r) = 0 \<and> r_interface r \<noteq> None"
  by (auto simp: addRoute_def internalAddRoute_def Let_def split: if_splits)

lemmas reachable_struct = rt_reachable_inv [unfolded rt_inv_def, THEN conjunct1]

text \<open>A concrete history, used as the witness of the properties below: two routes to 10.0.0.0/8
  with administrative distances 1 and 2 are allocated and added.\<close>

definition demo_route :: "u32 \<Rightarrow> IPv4Route" where
  "demo_route d = IPv4Route_new\<lparr>r_dest := 0x0A000000, r_netmask := 0xFF000000, r_interface := Some 1, r_adminDist := d\<rparr>"

definition demo_add :: "nat \<Rightarrow> IPv4Route \<Rightarrow> RoutingTable \<Rightarrow> RoutingTable" where
  "demo_add p r s = (case addRoute 0 (store_route p r s) p of Inl e \<Rightarrow> s | Inr s' \<Rightarrow> s')"

definition demo_table :: RoutingTable where
  "demo_table = demo_add 1 (demo_route 2) (demo_add 0 (demo_route 1) (rt_empty []))"

lemma demo_add_reachable:
  assumes "rt_reachable ift (0, s)" "smap_find (rt_heap s) p = None" "\<not> r_rt r"
  shows "rt_reachable ift (0, demo_add p r s)"
proof (cases "addRoute 0 (store_route p r s) p")
  case (Inl e)
  with assms show ?thesis by (simp add: demo_add_def)
next
  case (Inr s')
  have "rt_reachable ift (0, store_route p r s)"
    using assms by (blast intro: rt_next st_new)
  moreover have "smap_find (rt_heap (store_route p r s)) p = Some r"
    by (simp add: store_route_def)
  ultimately show ?thesis
    using st_add [OF _ assms(3) Inr] Inr by (auto simp: demo_add_def intro: rt_next)
qed

lemma demo_table_reachable: "rt_reachable [] (0, demo_table)"
  unfolding demo_table_def
proof (intro demo_add_reachable rt_init)
  show "smap_find (rt_heap (demo_add 0 (demo_route 1) (rt_empty []))) 1 = None" by code_simp
qed code_simp+

lemma demo_table_routes: "rt_routes demo_table = [0, 1]"
  by code_simp

text \<open>
  C9: In every state the table can get into, for every destination, \<open>findBestMatchingRoute\<close> returns a
  valid matching route of greatest prefix length and, among those, of least administrative distance and
  then least metric, and returns none only if no valid route matches: the answer is the same whether it
  comes from the routing cache or from the scan.
\<close>

theorem lookup_longest_prefix:
  assumes "rt_reachable ift (now, s)"
  shows "best_route now s dest (snd (findBestMatchingRoute now s dest))"
proof -
  have inv: "rt_inv now s" using rt_reachable_inv [OF assms] by simp
  then have "snd (findBestMatchingRoute now s dest) = table_lookup now s dest"
    by (intro findBest_eq_lookup) (simp add: rt_inv_def)
  moreover have "best_route now s dest (table_lookup now s dest)"
    using inv by (intro table_lookup_best [where X = "{}"]) (simp add: rt_inv_def)
  ultimately show ?thesis by simp
qed

theorem lookup_longest_prefix_witness:
  "rt_reachable [] (0, demo_table)
   \<and> snd (findBestMatchingRoute 0 demo_table 0x0A010203) = Some 0
   \<and> best_route 0 demo_table 0x0A010203 (snd (findBestMatchingRoute 0 demo_table 0x0A010203))"
proof (intro conjI)
  show "snd (findBestMatchingRoute 0 demo_table 0x0A010203) = Some 0" by code_simp
qed (use lookup_longest_prefix [OF demo_table_reachable] demo_table_reachable in blast)+

text \<open>
  C10: In every reachable state no operation that takes routes out of the table fails one of its
  ASSERTs, and each removes exactly the routes it is meant to: \<open>removeRoute\<close> and \<open>deleteRoute\<close> the given
  route, \<open>purge\<close> the expired routes, and the shutdown loop terminates with all of them removed.
\<close>

theorem removal_operations_total:
  assumes "rt_reachable ift (now, s)"
  shows "(\<exists>s'. removeRoute s p = Inr (s', p \<in> set (rt_routes s)) \<and> rt_routes s' = remove1 p (rt_routes s))
    \<and> (\<exists>s'. deleteRoute s p = Inr (s', p \<in> set (rt_routes s)) \<and> rt_routes s' = remove1 p (rt_routes s))
    \<and> (\<exists>s'. purge now s = Inr s' \<and> rt_routes s' = filter (\<lambda>q. IPv4Route_isValid now (deref s q)) (rt_routes s))
    \<and> (\<exists>s'. shutdownRoutes s = Inr s' \<and> rt_routes s' = [])"
proof (intro conjI)
  have st: "rt_struct {} s" using reachable_struct [OF assms] by simp
  show "\<exists>s'. removeRoute s p = Inr (s', p \<in> set (rt_routes s)) \<and> rt_routes s' = remove1 p (rt_routes s)"
    using removeRoute_struct [OF st, of p]
    by (cases "p \<in> set (rt_routes s)") (force, simp add: removeRoute_def internalRemoveRoute_def remove1_idem)
  show "\<exists>s'. deleteRoute s p = Inr (s', p \<in> set (rt_routes s)) \<and> rt_routes s' = remove1 p (rt_routes s)"
    using deleteRoute_struct [OF st, of p]
    by (cases "p \<in> set (rt_routes s)") (force, simp add: deleteRoute_def internalRemoveRoute_def remove1_idem)
  show "\<exists>s'. shutdownRoutes s = Inr s' \<and> rt_routes s' = []"
    by (rule shutdownRoutes_empties [OF st])
  show "\<exists>s'. purge now s = Inr s' \<and> rt_routes s' = filter (\<lambda>q. IPv4Route_isValid now (deref s q)) (rt_routes s)"
    using purge_inv rt_reachable_inv [OF assms] by fastforce
qed

theorem removal_operations_total_witness:
  "\<exists>s'. deleteRoute demo_table 0 = Inr (s', True) \<and> rt_routes s' = [1]"
  using removal_operations_total [OF demo_table_reachable, of 0] by (simp add: demo_table_routes)

text \<open>
  C11: \<open>addRoute\<close> of a route object that is not in a table succeeds exactly if its netmask is contiguous,
  the destination has a bit inside a nonzero netmask and none outside it, and it has an interface;
  afterwards the table holds the old routes and the new one, except that a new default route replaces
  the current default route.
\<close>

theorem addRoute_exact:
  assumes reach: "rt_reachable ift (now, s)" and live: "smap_find (rt_heap s) p = Some r" and "\<not> r_rt r"
  shows "((\<exists>s'. addRoute now s p = Inr s') \<longleftrightarrow>
       isValidNetmask (r_netmask r) \<and> (r_netmask r \<noteq> 0 \<longrightarrow> r_dest r AND r_netmask r \<noteq> 0)
       \<and> r_dest r AND NOT (r_netmask r) = 0 \<and> r_interface r \<noteq> None)
    \<and> (\<forall>s'. addRoute now s p = Inr s' \<longrightarrow> set (rt_routes s') = insert p (set (rt_routes s) -
           (if r_netmask r = 0 then set_option (getDefaultRoute now s) else {})))"
proof -
  have st: "rt_struct {} s" using reachable_struct [OF reach] by simp
  have p: "p \<notin> set (rt_routes s)" using struct_live [OF st, of p] live assms(3) by auto
  have d: "r = deref s p" using live by (simp add: deref_def)
  let ?C = "isValidNetmask (r_netmask r) \<and> (r_netmask r \<noteq> 0 \<longrightarrow> r_dest r AND r_netmask r \<noteq> 0)
       \<and> r_dest r AND NOT (r_netmask r) = 0 \<and> r_interface r \<noteq> None"
  show ?thesis
  proof (cases ?C)
    case True
    then obtain s1 where s1: "internalAddRoute now s p = Inr s1"
      "set (rt_routes s1) = insert p (set (rt_routes s) -
         (if r_netmask r = 0 then set_option (getDefaultRoute now s) else {}))"
      using deleteDefault_routes [OF st p live, of now] by blast
    have "addRoute now s p = Inr (fire (ROUTE_ADDED p) (invalidateCache s1))"
      by (simp add: addRoute_def s1(1))
    then show ?thesis using True s1(2) by simp
  next
    case False
    then have "addRoute now s p \<noteq> Inr s'" for s'
      using addRoute_checks [OF _ d, of now s'] by blast
    with False show ?thesis by blast
  qed
qed

theorem addRoute_exact_witness:
  "\<exists>s'. addRoute 0 (store_route 0 (demo_route 1) (rt_empty [])) 0 = Inr s' \<and> set (rt_routes s') = {0}"
proof -
  have reach: "rt_reachable [] (0, store_route 0 (demo_route 1) (rt_empty []))"
    by (intro rt_next [OF rt_init] st_new) code_simp+
  have live: "smap_find (rt_heap (store_route 0 (demo_route 1) (rt_empty []))) 0 = Some (demo_route 1)"
    by code_simp
  have "\<not> r_rt (demo_route 1)" by code_simp
  note exact = addRoute_exact [OF reach live this]
  have "isValidNetmask (r_netmask (demo_route 1))" "r_dest (demo_route 1) AND r_netmask (demo_route 1) \<noteq> 0"
    "r_dest (demo_route 1) AND NOT (r_netmask (demo_route 1)) = 0" "r_interface (demo_route 1) \<noteq> None"
    "r_netmask (demo_route 1) \<noteq> 0" "rt_routes (store_route 0 (demo_route 1) (rt_empty [])) = []"
    by code_simp+
  with exact show ?thesis by auto
qed

text \<open>
  C12: \<open>routeChanged\<close> does not re-sort the table when the administrative distance of a route changes,
  although \<open>routeLessThan\<close> orders by it: there is a reachable state where, after
  \<open>setAdminDist\<close>, the lookup returns a route that another matching route of the same prefix beats.
\<close>

theorem setAdminDist_breaks_lookup:
  "\<exists>s s' dest. rt_reachable [] (0, s) \<and> IPv4Route_set 0 (SetAdminDist 200) 0 s = Inr s'
     \<and> \<not> best_route 0 s' dest (snd (findBestMatchingRoute 0 s' dest))"
proof -
  let ?s' = "projr (IPv4Route_set 0 (SetAdminDist 200) 0 demo_table)"
  have ok: "isl (IPv4Route_set 0 (SetAdminDist 200) 0 demo_table) = False" by code_simp
  then have "IPv4Route_set 0 (SetAdminDist 200) 0 demo_table = Inr ?s'" by simp
  moreover have "snd (findBestMatchingRoute 0 ?s' 0x0A000001) = Some 0" by code_simp
  moreover have "rt_routes ?s' = [0, 1]" by code_simp
  moreover have "route_matches 0 0x0A000001 (deref ?s' 1)" by code_simp
  moreover have "deref ?s' 0 = (demo_route 200)\<lparr>r_rt := True\<rparr>" by code_simp
  moreover have "deref ?s' 1 = (demo_route 2)\<lparr>r_rt := True\<rparr>" by code_simp
  ultimately show ?thesis
    using demo_table_reachable unfolding best_route_def
    by (intro exI [of _ demo_table] exI [of _ ?s'] exI [of _ "0x0A000001"]) (auto simp: demo_route_def)
qed

end
