(* ===== verification/Multicast_Routing.thy ===== *)
theory Multicast_Routing
  imports Routing_Table_Props
begin

unbundle bit_operations_syntax

text \<open>
  The multicast half of \<^verbatim>\<open>src/src/networklayer/ipv4/RoutingTable.cc\<close> and the filter
  rules (\<^verbatim>\<open>IPv4RouteRule.{h,cc}\<close>): multicast routes are added, changed and removed
  through the same pointer store as unicast routes, rules are kept in two vectors.  Shown here: the
  multicast route vector stays sorted, live and well formed, the lookup prefers the longest origin
  prefix and then the route of the specific group, and none of these operations touches what the
  unicast lookup reads.
\<close>

section \<open>Adding and removing multicast routes\<close>

definition iface_by_id :: "InterfaceEntry list \<Rightarrow> nat \<Rightarrow> InterfaceEntry option" where
  "iface_by_id ift i = find (\<lambda>ie. ie_id ie = i) ift"

definition multicastRouteLessThan :: "IPv4MulticastRoute \<Rightarrow> IPv4MulticastRoute \<Rightarrow> bool" where
  "multicastRouteLessThan a b =
     (if m_originNetmask a \<noteq> m_originNetmask b then m_originNetmask a > m_originNetmask b
      else if m_origin a \<noteq> m_origin b then m_origin a < m_origin b
      else if m_group a \<noteq> m_group b then m_group a > m_group b
      else m_metric a < m_metric b)"

text \<open>A route that points to an interface which is gone would be read after its deletion.\<close>

definition capable :: "RoutingTable \<Rightarrow> nat \<Rightarrow> string \<Rightarrow> unit outcome" where
  "capable s i msg =
     (case iface_by_id (rt_ift s) i of
        None \<Rightarrow> Inl (UndefinedBehaviour ''interface entry was deleted'')
      | Some ie \<Rightarrow> if ie_multicast ie then Inr () else Inl (RuntimeError msg))"

fun checkOuts :: "RoutingTable \<Rightarrow> nat option \<Rightarrow> (nat \<times> bool) list \<Rightarrow> unit outcome" where
  "checkOuts s inif [] = Inr ()"
| "checkOuts s inif ((i, leaf) # outs) =
     outcome_bind (capable s i ''addMulticastRoute(): output interface must be multicast capable'') (\<lambda>_.
       if inif = Some i
       then Inl (RuntimeError ''addMulticastRoute(): output interface cannot be the same as the input interface'')
       else checkOuts s inif outs)"

definition store_mroute :: "nat \<Rightarrow> IPv4MulticastRoute \<Rightarrow> RoutingTable \<Rightarrow> RoutingTable" where
  "store_mroute p m s = s\<lparr>rt_mheap := smap_insert p m (rt_mheap s)\<rparr>"

definition internalAddMulticastRoute :: "RoutingTable \<Rightarrow> nat \<Rightarrow> RoutingTable outcome" where
  "internalAddMulticastRoute s p =
     (let e = mderef s p in
      if \<not> isValidNetmask (m_originNetmask e)
        then Inl (RuntimeError ''addMulticastRoute(): wrong netmask in multicast route'')
      else if m_origin e AND NOT (m_originNetmask e) \<noteq> 0
        then Inl (RuntimeError ''addMulticastRoute(): suspicious route'')
      else if \<not> IPv4Address_isUnspecified (m_group e) \<and> \<not> isMulticast (m_group e)
        then Inl (RuntimeError ''addMulticastRoute(): group address is not a multicast address'')
      else outcome_bind
        (case m_inInterface e of
           None \<Rightarrow> Inr ()
         | Some i \<Rightarrow> capable s i ''addMulticastRoute(): input interface must be multicast capable'') (\<lambda>_.
      outcome_bind (checkOuts s (m_inInterface e) (m_outInterfaces e)) (\<lambda>_.
      let pos = upper_bound (\<lambda>q. multicastRouteLessThan (mderef s p) (mderef s q)) (rt_multicastRoutes s);
          s' = s\<lparr>rt_multicastRoutes := insert_at pos p (rt_multicastRoutes s)\<rparr>
      in Inr (store_mroute p (e\<lparr>m_rt := True\<rparr>) s'))))"

definition addMulticastRoute :: "RoutingTable \<Rightarrow> nat \<Rightarrow> RoutingTable outcome" where
  "addMulticastRoute s p =
     outcome_bind (internalAddMulticastRoute s p) (\<lambda>s'. Inr (fire (MROUTE_ADDED p) (invalidateCache s')))"

definition internalRemoveMulticastRoute :: "RoutingTable \<Rightarrow> nat \<Rightarrow> RoutingTable \<times> bool" where
  "internalRemoveMulticastRoute s p =
     (if p \<in> set (rt_multicastRoutes s)
      then (s\<lparr>rt_multicastRoutes := remove1 p (rt_multicastRoutes s)\<rparr>, True) else (s, False))"

definition removeMulticastRoute :: "RoutingTable \<Rightarrow> nat \<Rightarrow> (RoutingTable \<times> bool) outcome" where
  "removeMulticastRoute s p =
     (case internalRemoveMulticastRoute s p of
        (s', False) \<Rightarrow> Inr (s', False)
      | (s', True) \<Rightarrow>
          if m_rt (mderef s' p)
          then Inr (store_mroute p (mderef s' p \<lparr>m_rt := False\<rparr>) (fire (MROUTE_DELETED p) (invalidateCache s')), True)
          else Inl (AssertFailed ''entry->getRoutingTable() == this''))"

definition deleteMulticastRoute :: "RoutingTable \<Rightarrow> nat \<Rightarrow> (RoutingTable \<times> bool) outcome" where
  "deleteMulticastRoute s p =
     (case internalRemoveMulticastRoute s p of
        (s', False) \<Rightarrow> Inr (s', False)
      | (s', True) \<Rightarrow>
          if m_rt (mderef s' p)
          then let s'' = fire (MROUTE_DELETED p) (invalidateCache s')
               in Inr (s''\<lparr>rt_mheap := smap_erase p (rt_mheap s'')\<rparr>, True)
          else Inl (AssertFailed ''entry->getRoutingTable() == this''))"

section \<open>Changing a multicast route\<close>

datatype MFieldCode = F_ORIGIN | F_ORIGINMASK | F_MULTICASTGROUP | F_IN | F_OUT | F_MSOURCE | F_MMETRIC

definition multicastRouteChanged :: "RoutingTable \<Rightarrow> nat \<Rightarrow> MFieldCode \<Rightarrow> RoutingTable outcome" where
  "multicastRouteChanged s p fieldCode =
     outcome_bind
       (if fieldCode = F_ORIGIN \<or> fieldCode = F_ORIGINMASK \<or> fieldCode = F_MULTICASTGROUP \<or> fieldCode = F_MMETRIC
        then (case internalRemoveMulticastRoute s p of
                (_, False) \<Rightarrow> Inl (AssertFailed ''entry != NULL'')
              | (s', True) \<Rightarrow> outcome_bind (internalAddMulticastRoute s' p) (\<lambda>s''. Inr (invalidateCache s'')))
        else Inr s)
       (\<lambda>s'. Inr (fire (MROUTE_CHANGED p) s'))"

datatype MRouteUpdate =
    SetOrigin IPv4Address | SetOriginNetmask IPv4Address | SetMulticastGroup IPv4Address
  | SetInInterface "nat option" | ClearOutInterfaces | AddOutInterface nat bool
  | RemoveOutInterface nat | RemoveOutInterfaceAt nat | SetMSourceType MulticastSourceType | SetMMetric int

fun replaceOut :: "nat \<Rightarrow> bool \<Rightarrow> (nat \<times> bool) list \<Rightarrow> (nat \<times> bool) list" where
  "replaceOut i leaf [] = [(i, leaf)]"
| "replaceOut i leaf (o1 # outs) = (if fst o1 = i then (i, leaf) # outs else o1 # replaceOut i leaf outs)"

text \<open>
  What a setter makes of the route, or \<open>None\<close> when it does not call \<open>changed\<close>.  Each call of
  \<open>setInInterface\<close> and \<open>addOutInterface\<close> passes a new object, so only two null pointers are equal.
\<close>

fun mroute_update :: "MRouteUpdate \<Rightarrow> IPv4MulticastRoute \<Rightarrow> (IPv4MulticastRoute \<times> MFieldCode) option outcome" where
  "mroute_update (SetOrigin a) m =
     Inr (if m_origin m \<noteq> a then Some (m\<lparr>m_origin := a\<rparr>, F_ORIGIN) else None)"
| "mroute_update (SetOriginNetmask a) m =
     Inr (if m_originNetmask m \<noteq> a then Some (m\<lparr>m_originNetmask := a\<rparr>, F_ORIGINMASK) else None)"
| "mroute_update (SetMulticastGroup a) m =
     Inr (if m_group m \<noteq> a then Some (m\<lparr>m_group := a\<rparr>, F_MULTICASTGROUP) else None)"
| "mroute_update (SetInInterface i) m =
     Inr (if m_inInterface m = None \<and> i = None then None else Some (m\<lparr>m_inInterface := i\<rparr>, F_IN))"
| "mroute_update ClearOutInterfaces m =
     Inr (if m_outInterfaces m = [] then None else Some (m\<lparr>m_outInterfaces := []\<rparr>, F_OUT))"
| "mroute_update (AddOutInterface i leaf) m =
     Inr (Some (m\<lparr>m_outInterfaces := replaceOut i leaf (m_outInterfaces m)\<rparr>, F_OUT))"
| "mroute_update (RemoveOutInterface i) m =
     Inr (case removeOut i (m_outInterfaces m) of
            None \<Rightarrow> None | Some outs \<Rightarrow> Some (m\<lparr>m_outInterfaces := outs\<rparr>, F_OUT))"
| "mroute_update (RemoveOutInterfaceAt k) m =
     (if k < length (m_outInterfaces m)
      then Inr (Some (m\<lparr>m_outInterfaces := erase_at k (m_outInterfaces m)\<rparr>, F_OUT))
      else Inl (RuntimeError ''std::out_of_range''))"
| "mroute_update (SetMSourceType t) m =
     Inr (if m_sourceType m \<noteq> t then Some (m\<lparr>m_sourceType := t\<rparr>, F_MSOURCE) else None)"
| "mroute_update (SetMMetric k) m =
     Inr (if m_metric m \<noteq> k then Some (m\<lparr>m_metric := k\<rparr>, F_MMETRIC) else None)"

definition IPv4MulticastRoute_set :: "MRouteUpdate \<Rightarrow> nat \<Rightarrow> RoutingTable \<Rightarrow> RoutingTable outcome" where
  "IPv4MulticastRoute_set u p s =
     outcome_bind (mroute_update u (mderef s p)) (\<lambda>res.
       case res of
         None \<Rightarrow> Inr s
       | Some (m', code) \<Rightarrow>
           let s' = store_mroute p m' s
           in if m_rt m' then multicastRouteChanged s' p code else Inr s')"

section \<open>Filter rules\<close>

definition IPv4RouteRule_new :: IPv4RouteRule where
  "IPv4RouteRule_new =
     \<lparr>rule_srcAddress = 0, rule_srcNetmask = 0, rule_destAddress = 0, rule_destNetmask = 0,
      rule_sPort = -1, rule_dPort = -1, rule_protocol = 59, rule_rule = RULE_NONE, rule_interface = None\<rparr>"

definition setRule :: "Rule \<Rightarrow> IPv4RouteRule \<Rightarrow> IPv4RouteRule outcome" where
  "setRule x r =
     (if x \<noteq> RULE_DROP \<and> x \<noteq> RULE_NONE then Inl (RuntimeError ''Rule not supported yet'')
      else Inr (r\<lparr>rule_rule := x\<rparr>))"

text \<open>The port setters assign the member to itself: the argument has no effect.\<close>

definition setSrcPort :: "int \<Rightarrow> IPv4RouteRule \<Rightarrow> IPv4RouteRule" where
  "setSrcPort port r = r\<lparr>rule_sPort := rule_sPort r\<rparr>"

definition setDestPort :: "int \<Rightarrow> IPv4RouteRule \<Rightarrow> IPv4RouteRule" where
  "setDestPort port r = r\<lparr>rule_dPort := rule_dPort r\<rparr>"

text \<open>The loops of \<open>delRule\<close> start at an uninitialised index, which is an argument here.\<close>

function delRuleLoop :: "nat \<Rightarrow> nat \<Rightarrow> nat list \<Rightarrow> nat list" where
  "delRuleLoop entry i rules =
     (if i < length rules
      then delRuleLoop entry (Suc i) (if rules ! i = entry then erase_at i rules else rules)
      else rules)"
  by pat_completeness auto
termination
  by (relation "measure (\<lambda>(entry, i, rules). length rules - i)") auto

declare delRuleLoop.simps [simp del]

definition delRule :: "u32 \<times> u32 \<Rightarrow> nat \<Rightarrow> RoutingTable \<Rightarrow> RoutingTable" where
  "delRule garbage entry s =
     s\<lparr>rt_outputRules := delRuleLoop entry (unat (fst garbage)) (rt_outputRules s),
       rt_inputRules := delRuleLoop entry (unat (snd garbage)) (rt_inputRules s)\<rparr>"

definition addRule :: "u32 \<times> u32 \<Rightarrow> bool \<Rightarrow> nat \<Rightarrow> RoutingTable \<Rightarrow> RoutingTable" where
  "addRule garbage output entry s =
     (let s' = delRule garbage entry s
      in if output then s'\<lparr>rt_outputRules := rt_outputRules s' @ [entry]\<rparr>
         else s'\<lparr>rt_inputRules := rt_inputRules s' @ [entry]\<rparr>)"

definition rules_of :: "RoutingTable \<Rightarrow> bool \<Rightarrow> nat list" where
  "rules_of s output = (if output then rt_outputRules s else rt_inputRules s)"

definition getRule :: "RoutingTable \<Rightarrow> bool \<Rightarrow> nat \<Rightarrow> nat option" where
  "getRule s output index = (if index < length (rules_of s output) then Some (rules_of s output ! index) else None)"

definition getNumRules :: "RoutingTable \<Rightarrow> bool \<Rightarrow> nat" where
  "getNumRules s output = length (rules_of s output)"

definition rderef :: "RoutingTable \<Rightarrow> nat \<Rightarrow> IPv4RouteRule" where
  "rderef s p = (case smap_find (rt_ruleHeap s) p of None \<Rightarrow> IPv4RouteRule_new | Some r \<Rightarrow> r)"

text \<open>The port test of the destination compares with the source port of the packet, as in the code.\<close>

definition rule_matches ::
    "int \<Rightarrow> int \<Rightarrow> IPv4Address \<Rightarrow> int \<Rightarrow> IPv4Address \<Rightarrow> nat option \<Rightarrow> IPv4RouteRule \<Rightarrow> bool" where
  "rule_matches prot sPort srcAddr dPort destAddr iface e \<longleftrightarrow>
     (\<not> IPv4Address_isUnspecified srcAddr \<and> \<not> IPv4Address_isUnspecified (rule_srcAddress e) \<longrightarrow>
        maskedAddrAreEqual srcAddr (rule_srcAddress e) (rule_srcNetmask e))
     \<and> (\<not> IPv4Address_isUnspecified destAddr \<and> \<not> IPv4Address_isUnspecified (rule_destAddress e) \<longrightarrow>
        maskedAddrAreEqual destAddr (rule_destAddress e) (rule_destNetmask e))
     \<and> \<not> (prot \<noteq> 59 \<and> rule_protocol e \<noteq> 59 \<and> prot \<noteq> rule_protocol e)
     \<and> \<not> (sPort \<noteq> -1 \<and> rule_sPort e \<noteq> -1 \<and> sPort \<noteq> rule_sPort e)
     \<and> \<not> (dPort \<noteq> -1 \<and> rule_dPort e \<noteq> -1 \<and> sPort \<noteq> rule_dPort e)
     \<and> \<not> (iface \<noteq> None \<and> rule_interface e \<noteq> None \<and> iface \<noteq> rule_interface e)"

definition findRule ::
    "RoutingTable \<Rightarrow> bool \<Rightarrow> int \<Rightarrow> int \<Rightarrow> IPv4Address \<Rightarrow> int \<Rightarrow> IPv4Address \<Rightarrow> nat option \<Rightarrow> nat option" where
  "findRule s output prot sPort srcAddr dPort destAddr iface =
     firstMatch (\<lambda>p. rule_matches prot sPort srcAddr dPort destAddr iface (rderef s p)) (rules_of s output)"

section \<open>The multicast table stays sorted and live\<close>

definition mroute_key :: "IPv4MulticastRoute \<Rightarrow> u32 \<times> u32 \<times> u32 \<times> int" where
  "mroute_key m = (NOT (m_originNetmask m), m_origin m, NOT (m_group m), m_metric m)"

lemma multicastRouteLessThan_key: "multicastRouteLessThan a b \<longleftrightarrow> mroute_key a < mroute_key b"
  by (auto simp: multicastRouteLessThan_def mroute_key_def not_word_less not_word_eq not_word_le)

interpretation multicast: sorted_table mroute_key multicastRouteLessThan
  by unfold_locales (rule multicastRouteLessThan_key)

definition good_mroute :: "IPv4MulticastRoute \<Rightarrow> bool" where
  "good_mroute m \<longleftrightarrow> isValidNetmask (m_originNetmask m) \<and> m_origin m AND NOT (m_originNetmask m) = 0
     \<and> (m_group m = 0 \<or> isMulticast (m_group m))"

text \<open>As \<open>rt_struct\<close> for unicast routes; \<open>X\<close> are routes taken out while they are being changed.\<close>

definition mrt_struct :: "nat set \<Rightarrow> RoutingTable \<Rightarrow> bool" where
  "mrt_struct X s \<longleftrightarrow>
     smap_wf (rt_mheap s) \<and> distinct (rt_multicastRoutes s)
     \<and> (\<forall>p\<in>set (rt_multicastRoutes s). \<exists>m. smap_find (rt_mheap s) p = Some m \<and> m_rt m \<and> good_mroute m)
     \<and> sorted (map (\<lambda>p. mroute_key (mderef s p)) (rt_multicastRoutes s))
     \<and> (\<forall>p m. smap_find (rt_mheap s) p = Some m \<longrightarrow> m_rt m \<longrightarrow> p \<in> set (rt_multicastRoutes s) \<union> X)"

lemma mroutes_simps [simp]:
  "rt_multicastRoutes (store_mroute p m s) = rt_multicastRoutes s"
  "rt_mheap (store_mroute p m s) = smap_insert p m (rt_mheap s)"
  "rt_multicastRoutes (fire n s) = rt_multicastRoutes s" "rt_mheap (fire n s) = rt_mheap s"
  "rt_multicastRoutes (invalidateCache s) = rt_multicastRoutes s"
  "rt_mheap (invalidateCache s) = rt_mheap s"
  "mderef (store_mroute p m s) q = (if q = p then m else mderef s q)"
  "mderef (fire n s) = mderef s" "mderef (invalidateCache s) = mderef s"
  "mderef (s\<lparr>rt_multicastRoutes := ps\<rparr>) = mderef s"
  by (auto simp: store_mroute_def fire_def invalidateCache_def mderef_def fun_eq_iff)

lemma mstruct_frame [simp]:
  "mrt_struct X (fire n s) \<longleftrightarrow> mrt_struct X s" "mrt_struct X (invalidateCache s) \<longleftrightarrow> mrt_struct X s"
  by (simp_all add: mrt_struct_def)

lemma mstruct_mono: "mrt_struct X s \<Longrightarrow> X \<subseteq> Y \<Longrightarrow> mrt_struct Y s"
  by (auto simp: mrt_struct_def)

lemma mstruct_live:
  "mrt_struct X s \<Longrightarrow> p \<in> set (rt_multicastRoutes s) \<Longrightarrow>
     smap_find (rt_mheap s) p = Some (mderef s p) \<and> m_rt (mderef s p) \<and> good_mroute (mderef s p)"
  by (auto simp: mrt_struct_def mderef_def)

lemma sorted_map_mderef_cong:
  "(\<And>q. q \<in> set ps \<Longrightarrow> f q = g q) \<Longrightarrow> sorted (map f ps) \<longleftrightarrow> sorted (map g ps)"
  by (metis map_cong)

lemma mstruct_store:
  assumes "mrt_struct X s" and "p \<notin> set (rt_multicastRoutes s)"
  shows "mrt_struct (if m_rt m then insert p X else X - {p}) (store_mroute p m s)"
proof -
  have "sorted (map (\<lambda>q. mroute_key (mderef (store_mroute p m s) q)) (rt_multicastRoutes s))
      \<longleftrightarrow> sorted (map (\<lambda>q. mroute_key (mderef s q)) (rt_multicastRoutes s))"
    by (rule sorted_map_mderef_cong) (use assms(2) in auto)
  with assms show ?thesis by (auto simp: mrt_struct_def)
qed

text \<open>Overwriting a route in place is safe when its key is not changed.\<close>

lemma mstruct_store_neutral:
  assumes st: "mrt_struct X s" and p: "p \<in> set (rt_multicastRoutes s)"
    and m: "mroute_key m = mroute_key (mderef s p)" "m_rt m"
  shows "mrt_struct X (store_mroute p m s)"
proof -
  have "good_mroute (mderef s p)" using mstruct_live [OF st p] by blast
  then have "good_mroute m"
    using m(1) by (simp add: good_mroute_def mroute_key_def not_word_eq)
  moreover have "sorted (map (\<lambda>q. mroute_key (mderef (store_mroute p m s) q)) (rt_multicastRoutes s))
      \<longleftrightarrow> sorted (map (\<lambda>q. mroute_key (mderef s q)) (rt_multicastRoutes s))"
    by (rule sorted_map_mderef_cong) (use m(1) in auto)
  ultimately show ?thesis using st p m(2) by (auto simp: mrt_struct_def)
qed

lemma mstruct_erase:
  assumes "mrt_struct X s" and "p \<notin> set (rt_multicastRoutes s)"
  shows "mrt_struct (X - {p}) (s\<lparr>rt_mheap := smap_erase p (rt_mheap s)\<rparr>)"
proof -
  have "sorted (map (\<lambda>q. mroute_key (mderef (s\<lparr>rt_mheap := smap_erase p (rt_mheap s)\<rparr>) q)) (rt_multicastRoutes s))
      \<longleftrightarrow> sorted (map (\<lambda>q. mroute_key (mderef s q)) (rt_multicastRoutes s))"
    by (rule sorted_map_mderef_cong) (use assms(2) in \<open>auto simp: mderef_def\<close>)
  with assms show ?thesis by (auto simp: mrt_struct_def)
qed

lemma mstruct_remove:
  "mrt_struct X s \<Longrightarrow> mrt_struct (insert p X) (s\<lparr>rt_multicastRoutes := remove1 p (rt_multicastRoutes s)\<rparr>)"
  by (auto simp: mrt_struct_def sorted_map_remove1 distinct_remove1)

lemma internalAddMulticastRoute_struct:
  assumes st: "mrt_struct (insert p X) s" and p: "p \<notin> set (rt_multicastRoutes s)"
    and ok: "internalAddMulticastRoute s p = Inr s'"
  shows "mrt_struct (X - {p}) s' \<and> set (rt_multicastRoutes s') = insert p (set (rt_multicastRoutes s))"
proof -
  let ?e = "mderef s p\<lparr>m_rt := True\<rparr>"
  let ?pos = "upper_bound (\<lambda>q. multicastRouteLessThan (mderef s p) (mderef s q)) (rt_multicastRoutes s)"
  have good: "good_mroute ?e"
    and s': "s' = store_mroute p ?e (s\<lparr>rt_multicastRoutes := insert_at ?pos p (rt_multicastRoutes s)\<rparr>)"
    using ok by (auto simp: internalAddMulticastRoute_def Let_def good_mroute_def
        IPv4Address_isUnspecified_def split: if_splits)
  have "mroute_key ?e = mroute_key (mderef s p)" by (simp add: mroute_key_def)
  then have key: "(\<lambda>q. mroute_key (mderef s' q)) = (\<lambda>q. mroute_key (mderef s q))"
    by (auto simp: s')
  have "sorted (map (\<lambda>q. mroute_key (mderef s q)) (insert_at ?pos p (rt_multicastRoutes s)))"
    using st by (intro multicast.insert_keeps_sorted) (simp add: mrt_struct_def)
  with key have "sorted (map (\<lambda>q. mroute_key (mderef s' q)) (rt_multicastRoutes s'))"
    by (simp add: s')
  with st p good show ?thesis
    by (auto simp: mrt_struct_def s')
qed

section \<open>The operations keep the invariant\<close>

lemma addMulticastRoute_struct:
  assumes st: "mrt_struct {} s" and live: "smap_find (rt_mheap s) p = Some m" "\<not> m_rt m"
    and ok: "addMulticastRoute s p = Inr s'"
  shows "mrt_struct {} s' \<and> p \<in> set (rt_multicastRoutes s')"
proof -
  have "p \<notin> set (rt_multicastRoutes s)" using st live by (auto simp: mrt_struct_def)
  with internalAddMulticastRoute_struct [where X = "{}", OF mstruct_mono [OF st]] ok show ?thesis
    by (auto simp: addMulticastRoute_def)
qed

lemma removal_multicast_struct:
  assumes st: "mrt_struct {} s"
  shows "\<exists>s'. removeMulticastRoute s p = Inr (s', p \<in> set (rt_multicastRoutes s)) \<and> mrt_struct {} s'
      \<and> rt_multicastRoutes s' = remove1 p (rt_multicastRoutes s)"
    and "\<exists>s'. deleteMulticastRoute s p = Inr (s', p \<in> set (rt_multicastRoutes s)) \<and> mrt_struct {} s'
      \<and> rt_multicastRoutes s' = remove1 p (rt_multicastRoutes s)"
proof -
  let ?s1 = "fire (MROUTE_DELETED p) (invalidateCache (s\<lparr>rt_multicastRoutes := remove1 p (rt_multicastRoutes s)\<rparr>))"
  have s1: "mrt_struct {p} ?s1" "p \<notin> set (rt_multicastRoutes ?s1)"
    using mstruct_remove [OF st, of p] st by (simp_all add: mrt_struct_def)
  note stored = mstruct_store [OF s1, of "mderef s p\<lparr>m_rt := False\<rparr>"]
  note erased = mstruct_erase [OF s1]
  show "\<exists>s'. removeMulticastRoute s p = Inr (s', p \<in> set (rt_multicastRoutes s)) \<and> mrt_struct {} s'
      \<and> rt_multicastRoutes s' = remove1 p (rt_multicastRoutes s)"
    using st stored mstruct_live [OF st, of p]
    by (cases "p \<in> set (rt_multicastRoutes s)")
       (simp_all add: removeMulticastRoute_def internalRemoveMulticastRoute_def remove1_idem)
  show "\<exists>s'. deleteMulticastRoute s p = Inr (s', p \<in> set (rt_multicastRoutes s)) \<and> mrt_struct {} s'
      \<and> rt_multicastRoutes s' = remove1 p (rt_multicastRoutes s)"
    using st erased mstruct_live [OF st, of p]
    by (cases "p \<in> set (rt_multicastRoutes s)")
       (simp_all add: deleteMulticastRoute_def internalRemoveMulticastRoute_def remove1_idem Let_def)
qed

definition rekeys :: "MFieldCode \<Rightarrow> bool" where
  "rekeys c \<longleftrightarrow> c = F_ORIGIN \<or> c = F_ORIGINMASK \<or> c = F_MULTICASTGROUP \<or> c = F_MMETRIC"

lemma mroute_update_frame:
  "mroute_update u m = Inr (Some (m', c)) \<Longrightarrow>
     m_rt m' = m_rt m \<and> (\<not> rekeys c \<longrightarrow> mroute_key m' = mroute_key m)"
  by (cases u) (auto simp: rekeys_def mroute_key_def split: if_splits option.splits)

text \<open>A setter on a live route keeps the table sorted, or raises an error.\<close>

lemma IPv4MulticastRoute_set_struct:
  assumes st: "mrt_struct {} s" and live: "smap_find (rt_mheap s) p = Some m"
    and ok: "IPv4MulticastRoute_set u p s = Inr s'"
  shows "mrt_struct {} s' \<and> set (rt_multicastRoutes s') = set (rt_multicastRoutes s)"
proof -
  have d: "mderef s p = m" using live by (simp add: mderef_def)
  have mem: "p \<in> set (rt_multicastRoutes s) \<longleftrightarrow> m_rt m"
    using st live by (auto simp: mrt_struct_def)
  show ?thesis
  proof (cases "\<exists>m' c. mroute_update u m = Inr (Some (m', c))")
    case False
    with ok d st show ?thesis
      by (auto simp: IPv4MulticastRoute_set_def split: option.splits)
  next
    case True
    then obtain m' c where upd: "mroute_update u m = Inr (Some (m', c))" by blast
    note frame = mroute_update_frame [OF upd]
    let ?s1 = "store_mroute p m' s"
    have s': "(if m_rt m then multicastRouteChanged ?s1 p c else Inr ?s1) = Inr s'"
      using ok d upd frame by (simp add: IPv4MulticastRoute_set_def Let_def)
    show ?thesis
    proof (cases "m_rt m")
      case False
      then have "s' = ?s1" using s' by simp
      with False mstruct_store [OF st, of p m'] mem frame show ?thesis by simp
    next
      case in_table: True
      show ?thesis
      proof (cases "rekeys c")
        case False
        then have "s' = fire (MROUTE_CHANGED p) ?s1"
          using s' in_table by (auto simp: multicastRouteChanged_def rekeys_def)
        moreover have "mrt_struct {} ?s1"
          using mstruct_store_neutral [OF st] in_table mem frame False d by simp
        ultimately show ?thesis by simp
      next
        case True
        let ?s2 = "?s1\<lparr>rt_multicastRoutes := remove1 p (rt_multicastRoutes ?s1)\<rparr>"
        obtain s3 where s3: "internalAddMulticastRoute ?s2 p = Inr s3"
          and s'3: "s' = fire (MROUTE_CHANGED p) (invalidateCache s3)"
          using s' in_table True mem
          by (auto simp: multicastRouteChanged_def rekeys_def internalRemoveMulticastRoute_def)
        have p2: "p \<notin> set (rt_multicastRoutes ?s2)" using st by (simp add: mrt_struct_def)
        have "mrt_struct {p} (store_mroute p m' (s\<lparr>rt_multicastRoutes := remove1 p (rt_multicastRoutes s)\<rparr>))"
          using mstruct_store [OF mstruct_remove [OF st, of p], of p m'] p2 frame in_table by simp
        then have "mrt_struct {p} ?s2" by (simp add: mrt_struct_def cong: if_cong)
        from internalAddMulticastRoute_struct [OF this p2 s3] s'3 in_table mem st show ?thesis
          by (auto simp: mrt_struct_def)
      qed
    qed
  qed
qed

section \<open>What the lookup returns\<close>

text \<open>
  Among the routes that match, one of longest origin prefix; among those, one for the group itself
  before one for any group, and then one of least metric.
\<close>

definition best_mroute :: "RoutingTable \<Rightarrow> IPv4Address \<Rightarrow> IPv4Address \<Rightarrow> nat option \<Rightarrow> bool" where
  "best_mroute s origin grp res \<longleftrightarrow>
     (let matches = (\<lambda>q. q \<in> set (rt_multicastRoutes s) \<and> IPv4MulticastRoute_matches (mderef s q) origin grp) in
      case res of
        None \<Rightarrow> \<forall>q. \<not> matches q
      | Some p \<Rightarrow> matches p \<and> (\<forall>q. matches q \<longrightarrow>
          getNetmaskLength (m_originNetmask (mderef s q)) < getNetmaskLength (m_originNetmask (mderef s p))
          \<or> (m_originNetmask (mderef s q) = m_originNetmask (mderef s p)
              \<and> m_origin (mderef s q) = m_origin (mderef s p)
              \<and> (m_group (mderef s q) = 0 \<and> m_group (mderef s p) = grp \<and> grp \<noteq> 0
                  \<or> m_group (mderef s q) = m_group (mderef s p)
                      \<and> m_metric (mderef s p) \<le> m_metric (mderef s q)))))"

lemma mmatches_origin:
  "good_mroute m \<Longrightarrow> IPv4MulticastRoute_matches m origin grp \<Longrightarrow> m_origin m = origin AND m_originNetmask m"
  by (auto simp: good_mroute_def IPv4MulticastRoute_matches_def maskedAddrAreEqual_def word_eq_bits bit_simps)

lemma multicast_lookup_best:
  assumes st: "mrt_struct {} s"
  shows "best_mroute s origin grp (findBestMatchingMulticastRoute s origin grp)"
proof (cases "findBestMatchingMulticastRoute s origin grp")
  case None
  then have "\<forall>q\<in>set (rt_multicastRoutes s). \<not> IPv4MulticastRoute_matches (mderef s q) origin grp"
    by (simp add: findBestMatchingMulticastRoute_def firstMatch_None)
  with None show ?thesis by (simp add: best_mroute_def Let_def)
next
  case (Some p)
  let ?M = "\<lambda>q. IPv4MulticastRoute_matches (mderef s q) origin grp"
  have p: "p \<in> set (rt_multicastRoutes s)" "?M p"
    using Some firstMatch_Some unfolding findBestMatchingMulticastRoute_def by fastforce+
  have sorted: "sorted (map (\<lambda>p. mroute_key (mderef s p)) (rt_multicastRoutes s))"
    using st by (simp add: mrt_struct_def)
  have best: "getNetmaskLength (m_originNetmask (mderef s q)) < getNetmaskLength (m_originNetmask (mderef s p))
      \<or> (m_originNetmask (mderef s q) = m_originNetmask (mderef s p) \<and> m_origin (mderef s q) = m_origin (mderef s p)
         \<and> (m_group (mderef s q) = 0 \<and> m_group (mderef s p) = grp \<and> grp \<noteq> 0
             \<or> m_group (mderef s q) = m_group (mderef s p) \<and> m_metric (mderef s p) \<le> m_metric (mderef s q)))"
    if q: "q \<in> set (rt_multicastRoutes s)" "?M q" for q
  proof -
    have good: "good_mroute (mderef s p)" "good_mroute (mderef s q)" using mstruct_live [OF st] p q by blast+
    have key: "mroute_key (mderef s p) \<le> mroute_key (mderef s q)"
      using multicast.firstMatch_least [OF sorted] Some q unfolding findBestMatchingMulticastRoute_def by blast
    show ?thesis
    proof (cases "m_originNetmask (mderef s p) = m_originNetmask (mderef s q)")
      case True
      then have "m_origin (mderef s p) = m_origin (mderef s q)"
        using mmatches_origin good p q by simp
      then have "m_group (mderef s q) < m_group (mderef s p)
          \<or> m_group (mderef s q) = m_group (mderef s p) \<and> m_metric (mderef s p) \<le> m_metric (mderef s q)"
        using key True by (auto simp: mroute_key_def not_word_less not_word_eq not_word_le)
      moreover have "m_group (mderef s p) \<in> {0, grp}" "m_group (mderef s q) \<in> {0, grp}"
        using p(2) q(2) by (auto simp: IPv4MulticastRoute_matches_def IPv4Address_isUnspecified_def)
      ultimately show ?thesis
        using True \<open>m_origin (mderef s p) = m_origin (mderef s q)\<close> by auto
    next
      case False
      then have "m_originNetmask (mderef s q) < m_originNetmask (mderef s p)"
        using key by (auto simp: mroute_key_def not_word_le not_word_less)
      then show ?thesis
        using valid_netmask_order good by (auto simp: good_mroute_def)
    qed
  qed
  show ?thesis using Some p best by (simp add: best_mroute_def Let_def)
qed

text \<open>Seen by the unicast lookup, all these operations are the \<open>st_other\<close> step of the histories.\<close>

lemma multicast_unicast_frame:
  "rt_heap (store_mroute p m s) = rt_heap s" "rt_routes (store_mroute p m s) = rt_routes s"
  "rt_routingCache (store_mroute p m s) = rt_routingCache s"
  by (simp_all add: store_mroute_def)

definition unicast_quiet :: "RoutingTable \<Rightarrow> RoutingTable \<Rightarrow> bool" where
  "unicast_quiet s s' \<longleftrightarrow> rt_heap s' = rt_heap s \<and> rt_routes s' = rt_routes s
     \<and> (rt_routingCache s' = rt_routingCache s \<or> rt_routingCache s' = [])"

lemma unicast_quiet_step: "unicast_quiet s s' \<Longrightarrow> rt_step (now, s) (now, s')"
  by (auto simp: unicast_quiet_def intro: st_other)

lemma multicast_quiet:
  "internalAddMulticastRoute s p = Inr s' \<Longrightarrow> unicast_quiet s s'"
  "addMulticastRoute s p = Inr s' \<Longrightarrow> unicast_quiet s s'"
  "removeMulticastRoute s p = Inr (s', b) \<Longrightarrow> unicast_quiet s s'"
  "deleteMulticastRoute s p = Inr (s', b) \<Longrightarrow> unicast_quiet s s'"
  "unicast_quiet s (addRule g out r s)"
  by (auto simp: unicast_quiet_def internalAddMulticastRoute_def addMulticastRoute_def removeMulticastRoute_def
      deleteMulticastRoute_def internalRemoveMulticastRoute_def Let_def multicast_unicast_frame addRule_def
      delRule_def split: if_splits)

end
