(* ===== verification/ICMP.thy ===== *)
theory ICMP
  imports IPv4_FragBuf Multicast_Routing
begin

unbundle bit_operations_syntax

text \<open>
  The ICMP module, \<^verbatim>\<open>src/src/networklayer/ipv4/ICMP.{h,cc}\<close>: error messages about
  datagrams, echo requests and replies.  The type numbers are those of
  \<^verbatim>\<open>ICMPMessage.msg\<close>, where types from 128 on are informational.  Messages sent to
  IPv4, to the error output and to the ping applications are returned as values.  Shown here: an
  error is only sent about a datagram from one host to one host that is not itself an ICMP error, so
  errors never cause errors.
\<close>

section \<open>Messages\<close>

record IPv4ControlInfo =
  ci_destAddr :: IPv4Address
  ci_srcAddr :: IPv4Address
  ci_interfaceId :: int
  ci_multicastLoop :: bool
  ci_protocol :: int
  ci_typeOfService :: u8
  ci_timeToLive :: int
  ci_dontFragment :: bool

definition IPv4ControlInfo_new :: IPv4ControlInfo where
  "IPv4ControlInfo_new =
     \<lparr>ci_destAddr = 0, ci_srcAddr = 0, ci_interfaceId = -1, ci_multicastLoop = False, ci_protocol = 0,
      ci_typeOfService = 0, ci_timeToLive = 0, ci_dontFragment = False\<rparr>"

abbreviation "IP_PROT_ICMP \<equiv> (1 :: int)"
abbreviation "IP_PROT_IGMP \<equiv> (2 :: int)"
abbreviation "IP_PROT_IP \<equiv> (4 :: int)"
abbreviation "IP_PROT_TCP \<equiv> (6 :: int)"
abbreviation "IP_PROT_UDP \<equiv> (17 :: int)"

abbreviation "ICMP_REDIRECT \<equiv> (5 :: int)"
abbreviation "ICMP_TIME_EXCEEDED \<equiv> (11 :: int)"
abbreviation "ICMP_PARAMETER_PROBLEM \<equiv> (12 :: int)"
abbreviation "ICMP_DESTINATION_UNREACHABLE \<equiv> (13 :: int)"
abbreviation "ICMP_ECHO_REQUEST \<equiv> (128 :: int)"
abbreviation "ICMP_ECHO_REPLY \<equiv> (129 :: int)"
abbreviation "ICMP_TIMESTAMP_REQUEST \<equiv> (130 :: int)"
abbreviation "ICMP_TIMESTAMP_REPLY \<equiv> (131 :: int)"

text \<open>The payload is the offending datagram of an error, or a ping with its originator id.\<close>

datatype IcmpPayload = ICMP_Datagram IPv4Datagram | ICMP_Ping int

record ICMPMessage =
  icmp_type :: int
  icmp_code :: int
  icmp_byteLength :: int
  icmp_payload :: IcmpPayload
  icmp_ctrl :: "IPv4ControlInfo option"

datatype IcmpOut = IcmpToIP ICMPMessage | IcmpErrorOut ICMPMessage | IcmpPingOut int int "IPv4ControlInfo option"

type_synonym PingMap = "(int, int) smap"

section \<open>Broadcasts\<close>

definition unconfigured :: "InterfaceEntry \<Rightarrow> bool" where
  "unconfigured ie \<longleftrightarrow>
     (case ie_ipv4Data ie of None \<Rightarrow> True | Some d \<Rightarrow> IPv4Address_isUnspecified (ifd_inetAddr d))"

text \<open>
  Interfaces are numbered from 100 in the interface table; \<open>ie_id\<close> is that number.  An unknown number
  other than -1 would dereference a null pointer.
\<close>

definition getInterfaceById :: "RoutingTable \<Rightarrow> int \<Rightarrow> InterfaceEntry option" where
  "getInterfaceById s i = (if i < 0 then None else iface_by_id (rt_ift s) (nat i))"

definition possiblyLocalBroadcast :: "RoutingTable \<Rightarrow> IPv4Address \<Rightarrow> int \<Rightarrow> (RoutingTable \<times> bool) outcome" where
  "possiblyLocalBroadcast s addr interfaceId =
     (if addr AND 1 = 0 then Inr (s, False)
      else outcome_bind (isLocalBroadcastAddress s addr) (\<lambda>(s', b).
        if b then Inr (s', True)
        else if interfaceId \<noteq> -1 then
          (case getInterfaceById s' interfaceId of
             None \<Rightarrow> Inl (UndefinedBehaviour ''ie is NULL'')
           | Some ie \<Rightarrow> Inr (s', unconfigured ie))
        else Inr (s', \<exists>ie \<in> set (rt_ift s'). unconfigured ie)))"

section \<open>Handling ICMP messages\<close>

definition ICMP_sendToIP :: "ICMPMessage \<Rightarrow> IPv4Address \<Rightarrow> IcmpOut" where
  "ICMP_sendToIP msg dest =
     IcmpToIP (msg\<lparr>icmp_ctrl := Some (IPv4ControlInfo_new\<lparr>ci_destAddr := dest, ci_protocol := IP_PROT_ICMP\<rparr>)\<rparr>)"

definition processEchoRequest :: "ICMPMessage \<Rightarrow> IcmpOut outcome" where
  "processEchoRequest request =
     (case icmp_ctrl request of
        None \<Rightarrow> Inl (RuntimeError ''check_and_cast(): cannot cast NULL to IPv4ControlInfo'')
      | Some ctrl \<Rightarrow>
          Inr (IcmpToIP (request\<lparr>icmp_type := ICMP_ECHO_REPLY,
            icmp_ctrl := Some (ctrl\<lparr>ci_interfaceId := -1, ci_srcAddr := ci_destAddr ctrl,
                                    ci_destAddr := ci_srcAddr ctrl\<rparr>)\<rparr>)))"

definition processEchoReply :: "PingMap \<Rightarrow> ICMPMessage \<Rightarrow> IcmpOut list outcome" where
  "processEchoReply pingMap reply =
     (case icmp_payload reply of
        ICMP_Datagram d \<Rightarrow> Inl (RuntimeError ''check_and_cast(): cannot cast to PingPayload'')
      | ICMP_Ping originatorId \<Rightarrow>
          (case smap_find pingMap originatorId of
             None \<Rightarrow> Inr []
           | Some g \<Rightarrow> Inr [IcmpPingOut g originatorId (icmp_ctrl reply)]))"

definition processICMPMessage :: "PingMap \<Rightarrow> ICMPMessage \<Rightarrow> IcmpOut list outcome" where
  "processICMPMessage pingMap msg =
     (if icmp_type msg \<in> {ICMP_DESTINATION_UNREACHABLE, ICMP_REDIRECT, ICMP_TIME_EXCEEDED, ICMP_PARAMETER_PROBLEM}
        then Inr [IcmpErrorOut msg]
      else if icmp_type msg \<in> {ICMP_ECHO_REQUEST, ICMP_TIMESTAMP_REQUEST}
        then outcome_bind (processEchoRequest msg) (\<lambda>x. Inr [x])
      else if icmp_type msg \<in> {ICMP_ECHO_REPLY, ICMP_TIMESTAMP_REPLY} then processEchoReply pingMap msg
      else Inl (RuntimeError ''Unknown ICMP type''))"

definition sendEchoRequest :: "PingMap \<Rightarrow> int \<Rightarrow> int \<Rightarrow> int \<Rightarrow> IPv4ControlInfo \<Rightarrow> PingMap \<times> IcmpOut" where
  "sendEchoRequest pingMap i originatorId len ctrl =
     (smap_insert originatorId i pingMap,
      IcmpToIP \<lparr>icmp_type = ICMP_ECHO_REQUEST, icmp_code = 0, icmp_byteLength = len,
        icmp_payload = ICMP_Ping originatorId, icmp_ctrl = Some (ctrl\<lparr>ci_protocol := IP_PROT_ICMP\<rparr>)\<rparr>)"

section \<open>Error messages\<close>

definition errorMessageAbout :: "IPv4Datagram \<Rightarrow> int \<Rightarrow> int \<Rightarrow> ICMPMessage" where
  "errorMessageAbout dg type code =
     (let dataLength = dg_byteLength dg - dg_headerLength dg;
          truncatedDataLength = (if dataLength \<le> 8 then dataLength else 8)
      in \<lparr>icmp_type = type, icmp_code = code,
          icmp_byteLength = 8 + dg_headerLength dg + truncatedDataLength,
          icmp_payload = ICMP_Datagram dg, icmp_ctrl = None\<rparr>)"

text \<open>
  The type of an encapsulated ICMP message; \<open>check_and_cast\<close> fails on anything else.
\<close>

definition encapsulatedIcmpType :: "IPv4Datagram \<Rightarrow> int outcome" where
  "encapsulatedIcmpType dg =
     (case dg_encapsulatedPacket dg of
        Some p \<Rightarrow> (case pl_kind p of
            ICMPMessage t x \<Rightarrow> Inr t
          | _ \<Rightarrow> Inl (RuntimeError ''check_and_cast(): cannot cast to ICMPMessage''))
      | None \<Rightarrow> Inl (RuntimeError ''check_and_cast(): cannot cast NULL to ICMPMessage''))"

definition ICMP_sendErrorMessage ::
    "RoutingTable \<Rightarrow> PingMap \<Rightarrow> IPv4Datagram \<Rightarrow> int \<Rightarrow> int \<Rightarrow> int \<Rightarrow> (RoutingTable \<times> IcmpOut list) outcome" where
  "ICMP_sendErrorMessage s pingMap dg inputInterfaceId type code =
     (let origDestAddr = dg_destAddress dg; origSrcAddr = dg_srcAddress dg;
          errorMessage = errorMessageAbout dg type code;
          checkType = (if dg_transportProtocol dg = IP_PROT_ICMP
                       then outcome_bind (encapsulatedIcmpType dg) (\<lambda>t. Inr (t < 128)) else Inr False)
      in outcome_bind
          (if isMulticast origDestAddr \<or> isLimitedBroadcastAddress origDestAddr then Inr (s, True)
           else possiblyLocalBroadcast s origDestAddr inputInterfaceId) (\<lambda>(s1, toMany).
         if toMany then Inr (s1, [])
         else outcome_bind
          (if IPv4Address_isUnspecified origSrcAddr \<or> isMulticast origSrcAddr \<or> isLimitedBroadcastAddress origSrcAddr
           then Inr (s1, True)
           else possiblyLocalBroadcast s1 origSrcAddr inputInterfaceId) (\<lambda>(s2, fromMany).
         if fromMany then Inr (s2, [])
         else outcome_bind checkType (\<lambda>isError.
         if isError then Inr (s2, [])
         else if IPv4Address_isUnspecified origSrcAddr
           then outcome_bind
             (processICMPMessage pingMap
               (errorMessage\<lparr>icmp_ctrl := Some (IPv4ControlInfo_new\<lparr>ci_srcAddr := 0x7F000001, ci_protocol := IP_PROT_ICMP\<rparr>)\<rparr>))
             (\<lambda>outs. Inr (s2, outs))
         else Inr (s2, [ICMP_sendToIP errorMessage origSrcAddr])))))"

text \<open>The form called by transport protocols puts the packet back into its datagram first.\<close>

definition ICMP_sendErrorMessage_transport ::
    "RoutingTable \<Rightarrow> PingMap \<Rightarrow> Payload \<Rightarrow> IPv4ControlInfo \<Rightarrow> IPv4Datagram option \<Rightarrow> int \<Rightarrow> int
      \<Rightarrow> (RoutingTable \<times> IcmpOut list) outcome" where
  "ICMP_sendErrorMessage_transport s pingMap packet ctrl orig type code =
     (case orig of
        None \<Rightarrow> Inl (RuntimeError ''removeOrigDatagram(): no datagram attached'')
      | Some dg \<Rightarrow>
          ICMP_sendErrorMessage s pingMap
            (dg\<lparr>dg_encapsulatedPacket := Some packet, dg_byteLength := dg_byteLength dg + pl_byteLength packet\<rparr>)
            (ci_interfaceId ctrl) type code)"

section \<open>When an error is sent\<close>

text \<open>A datagram from one host to one host that is not an ICMP error message.\<close>

definition answerable :: "IPv4Datagram \<Rightarrow> bool" where
  "answerable dg \<longleftrightarrow> isUnicast (dg_destAddress dg) \<and> isUnicast (dg_srcAddress dg) \<and> dg_srcAddress dg \<noteq> 0
     \<and> (dg_transportProtocol dg = IP_PROT_ICMP \<longrightarrow> (\<exists>t. encapsulatedIcmpType dg = Inr t \<and> 128 \<le> t))"

lemma sendErrorMessage_answers:
  assumes "ICMP_sendErrorMessage s pm dg i type code = Inr (s', outs)"
  shows "outs = [] \<or> answerable dg \<and> outs = [ICMP_sendToIP (errorMessageAbout dg type code) (dg_srcAddress dg)]"
  using assms
  by (auto simp: ICMP_sendErrorMessage_def Let_def answerable_def isUnicast_def IPv4Address_isUnspecified_def
      split: if_splits)

text \<open>The datagram an error message travels in is never answered with another error.\<close>

lemma error_about_error:
  assumes "dg_transportProtocol dg = IP_PROT_ICMP" "encapsulatedIcmpType dg = Inr t" "t < 128"
    and "ICMP_sendErrorMessage s pm dg i type code = Inr (s', outs)"
  shows "outs = []"
  using sendErrorMessage_answers [OF assms(4)] assms(1-3) by (auto simp: answerable_def)

text \<open>
  The lookups of an error message only fill the cache of local broadcast addresses.
\<close>

definition bcast_cache_only :: "RoutingTable \<Rightarrow> RoutingTable \<Rightarrow> bool" where
  "bcast_cache_only s s' \<longleftrightarrow> (\<exists>c. s' = s\<lparr>rt_localBroadcastAddresses := c\<rparr>)"

lemma bcast_cache_only_refl [simp]: "bcast_cache_only s s"
  unfolding bcast_cache_only_def by (rule exI [of _ "rt_localBroadcastAddresses s"]) simp

lemma bcast_cache_only_set [simp]: "bcast_cache_only s (s\<lparr>rt_localBroadcastAddresses := c\<rparr>)"
  unfolding bcast_cache_only_def by blast

lemma bcast_cache_only_trans: "bcast_cache_only s s' \<Longrightarrow> bcast_cache_only s' s'' \<Longrightarrow> bcast_cache_only s s''"
  unfolding bcast_cache_only_def by auto

lemma isLocalBroadcastAddress_frame:
  "isLocalBroadcastAddress s a = Inr (s', b) \<Longrightarrow> bcast_cache_only s s'"
  by (auto simp: isLocalBroadcastAddress_def Let_def split: if_splits)

lemma possiblyLocalBroadcast_frame:
  "possiblyLocalBroadcast s a i = Inr (s', b) \<Longrightarrow> bcast_cache_only s s'"
  by (auto simp: possiblyLocalBroadcast_def split: if_splits option.splits
      dest: isLocalBroadcastAddress_frame)

lemma sendErrorMessage_frame:
  assumes "ICMP_sendErrorMessage s pm dg i type code = Inr (s', outs)"
  shows "bcast_cache_only s s'"
  using assms
  by (auto simp: ICMP_sendErrorMessage_def Let_def split: if_splits
      dest!: possiblyLocalBroadcast_frame intro: bcast_cache_only_trans)

end
