(* ===== verification/ARP.thy ===== *)
theory ARP
  imports Multicast_Routing
begin

text \<open>
  Address resolution, \<^verbatim>\<open>src/src/networklayer/arp/ARP.{h,cc}\<close>.  The cache maps
  addresses to entries that are either resolved (a MAC address with the time of its last update) or
  pending (a request timer is running).  The timer of an entry is the time its self-message is
  scheduled for.  Packets given to the network and signals raised for IPv4 are returned in order.
  Shown here: an entry is pending exactly if its timer runs, so no timer goes off without its entry,
  no missing timer is cancelled, and a stopped module receives none.
\<close>

section \<open>Packets, signals and state\<close>

datatype ARPOpcode = ARP_REQUEST | ARP_REPLY | ARP_RARP_REQUEST | ARP_RARP_REPLY | ARP_OTHER int

record ARPPacket =
  ap_opcode :: ARPOpcode
  ap_srcMACAddress :: MACAddress
  ap_destMACAddress :: MACAddress
  ap_srcIPAddress :: IPv4Address
  ap_destIPAddress :: IPv4Address

datatype ArpEvent =
    ArpPacketToNIC ARPPacket nat MACAddress
  | InitiatedARPResolution IPv4Address nat
  | CompletedARPResolution IPv4Address MACAddress nat
  | FailedARPResolution IPv4Address nat

record ARPCacheEntry =
  ae_ie :: nat
  ae_pending :: bool
  ae_macAddress :: MACAddress
  ae_lastUpdate :: simtime
  ae_numRetries :: int
  ae_timer :: "simtime option"

text \<open>Entries of the cache shared by all modules: the owning module, its interface and address.\<close>

record GlobalEntry =
  ge_owner :: nat
  ge_ie :: nat
  ge_macAddress :: MACAddress

record ARP =
  arp_self :: nat
  arp_retryTimeout :: simtime
  arp_retryCount :: int
  arp_cacheTimeout :: simtime
  arp_respondToProxyARP :: bool
  arp_globalARP :: bool
  arp_deletePackets :: bool
  arp_isUp :: bool
  arp_numResolutions :: int
  arp_numFailedResolutions :: int
  arp_numRequestsSent :: int
  arp_numRepliesSent :: int
  arp_cache :: "(IPv4Address, ARPCacheEntry) smap"
  arp_globalCache :: "(IPv4Address, GlobalEntry) smap"

section \<open>Queries\<close>

definition getMACAddressFor :: "simtime \<Rightarrow> ARP \<Rightarrow> IPv4Address \<Rightarrow> MACAddress" where
  "getMACAddressFor now a addr =
     (if arp_globalARP a then
        (case smap_find (arp_globalCache a) addr of None \<Rightarrow> 0 | Some e \<Rightarrow> ge_macAddress e)
      else
        (case smap_find (arp_cache a) addr of
           None \<Rightarrow> 0
         | Some e \<Rightarrow> if \<not> ae_pending e \<and> now \<le> ae_lastUpdate e + arp_cacheTimeout a then ae_macAddress e else 0))"

definition arp_deletePacket :: "ARP \<Rightarrow> bool" where
  "arp_deletePacket a \<longleftrightarrow> arp_globalARP a \<and> arp_deletePackets a"

definition getIPv4AddressFor :: "simtime \<Rightarrow> ARP \<Rightarrow> MACAddress \<Rightarrow> IPv4Address" where
  "getIPv4AddressFor now a mac =
     (if MACAddress_isUnspecified mac then 0
      else if arp_globalARP a then
        (case find (\<lambda>(k, e). ge_macAddress e = mac) (arp_globalCache a) of None \<Rightarrow> 0 | Some (k, e) \<Rightarrow> k)
      else
        (case find (\<lambda>(k, e). ae_macAddress e = mac \<and> now \<le> ae_lastUpdate e + arp_cacheTimeout a) (arp_cache a) of
           None \<Rightarrow> 0 | Some (k, e) \<Rightarrow> k))"

section \<open>Resolution\<close>

definition put_entry :: "IPv4Address \<Rightarrow> ARPCacheEntry \<Rightarrow> ARP \<Rightarrow> ARP" where
  "put_entry addr e a = a\<lparr>arp_cache := smap_insert addr e (arp_cache a)\<rparr>"

definition sendARPRequest :: "RoutingTable \<Rightarrow> nat \<Rightarrow> IPv4Address \<Rightarrow> ARP \<Rightarrow> (ARP \<times> ArpEvent list) outcome" where
  "sendARPRequest rt i addr a =
     (case iface_by_id (rt_ift rt) i of
        None \<Rightarrow> Inl (UndefinedBehaviour ''interface entry was deleted'')
      | Some ie \<Rightarrow>
          (case ie_ipv4Data ie of
             None \<Rightarrow> Inl (UndefinedBehaviour ''ipv4Data() is NULL'')
           | Some d \<Rightarrow>
               if MACAddress_isUnspecified (ie_macAddr ie) then Inl (AssertFailed ''!myMACAddress.isUnspecified()'')
               else if IPv4Address_isUnspecified (ifd_inetAddr d) then Inl (AssertFailed ''!myIPAddress.isUnspecified()'')
               else Inr (a\<lparr>arp_numRequestsSent := arp_numRequestsSent a + 1\<rparr>,
                 [ArpPacketToNIC \<lparr>ap_opcode = ARP_REQUEST, ap_srcMACAddress = ie_macAddr ie, ap_destMACAddress = 0,
                     ap_srcIPAddress = ifd_inetAddr d, ap_destIPAddress = addr\<rparr> i MACAddress_BROADCAST])))"

definition initiateARPResolution ::
    "simtime \<Rightarrow> RoutingTable \<Rightarrow> IPv4Address \<Rightarrow> ARPCacheEntry \<Rightarrow> ARP \<Rightarrow> (ARP \<times> ArpEvent list) outcome" where
  "initiateARPResolution now rt addr entry a =
     outcome_bind (sendARPRequest rt (ae_ie entry) addr a) (\<lambda>(a', evs).
       Inr (put_entry addr
              (entry\<lparr>ae_pending := True, ae_numRetries := 0, ae_lastUpdate := 0, ae_macAddress := 0,
                     ae_timer := Some (now + arp_retryTimeout a')\<rparr>)
              (a'\<lparr>arp_numResolutions := arp_numResolutions a' + 1\<rparr>),
            evs @ [InitiatedARPResolution addr (ae_ie entry)]))"

definition startAddressResolution ::
    "simtime \<Rightarrow> RoutingTable \<Rightarrow> IPv4Address \<Rightarrow> nat \<Rightarrow> ARP \<Rightarrow> (ARP \<times> ArpEvent list) outcome" where
  "startAddressResolution now rt addr i a =
     (if arp_globalARP a then Inl (RuntimeError ''globalARP does not support dynamic address resolution'')
      else case smap_find (arp_cache a) addr of
        None \<Rightarrow> initiateARPResolution now rt addr
                  \<lparr>ae_ie = i, ae_pending = False, ae_macAddress = 0, ae_lastUpdate = 0, ae_numRetries = 0, ae_timer = None\<rparr> a
      | Some entry \<Rightarrow>
          if ae_pending entry then Inr (a, [])
          else initiateARPResolution now rt addr (entry\<lparr>ae_ie := i\<rparr>) a)"

text \<open>The self-message of the entry of \<open>addr\<close> goes off.\<close>

definition requestTimedOut :: "simtime \<Rightarrow> RoutingTable \<Rightarrow> IPv4Address \<Rightarrow> ARP \<Rightarrow> (ARP \<times> ArpEvent list) outcome" where
  "requestTimedOut now rt addr a =
     (case smap_find (arp_cache a) addr of
        None \<Rightarrow> Inl (UndefinedBehaviour ''cache entry was deleted'')
      | Some entry \<Rightarrow>
          let retries = ae_numRetries entry + 1 in
          if retries < arp_retryCount a then
            outcome_bind (sendARPRequest rt (ae_ie entry) addr a) (\<lambda>(a', evs).
              Inr (put_entry addr (entry\<lparr>ae_numRetries := retries, ae_timer := Some (now + arp_retryTimeout a')\<rparr>) a', evs))
          else
            Inr (a\<lparr>arp_cache := smap_erase addr (arp_cache a), arp_numFailedResolutions := arp_numFailedResolutions a + 1\<rparr>,
                 [FailedARPResolution addr (ae_ie entry)]))"

definition updateARPCache ::
    "simtime \<Rightarrow> IPv4Address \<Rightarrow> ARPCacheEntry \<Rightarrow> MACAddress \<Rightarrow> ARP \<Rightarrow> (ARP \<times> ArpEvent list) outcome" where
  "updateARPCache now addr entry mac a =
     (if ae_pending entry \<and> ae_timer entry = None then Inl (RuntimeError ''cancelEvent(): message pointer is NULL'')
      else let e1 = (if ae_pending entry then entry\<lparr>ae_pending := False, ae_timer := None, ae_numRetries := 0\<rparr> else entry)
           in Inr (put_entry addr (e1\<lparr>ae_macAddress := mac, ae_lastUpdate := now\<rparr>) a,
                   [CompletedARPResolution addr mac (ae_ie entry)]))"

section \<open>Received packets\<close>

text \<open>The arrival interface is the one IPv4 fills in when it passes the packet on.\<close>

definition addressRecognized :: "simtime \<Rightarrow> RoutingTable \<Rightarrow> ARP \<Rightarrow> IPv4Address \<Rightarrow> nat \<Rightarrow> (RoutingTable \<times> bool) outcome" where
  "addressRecognized now rt a destAddr ie =
     outcome_bind (isLocalAddress rt destAddr) (\<lambda>(rt1, isLocal).
       if isLocal then Inr (rt1, True)
       else if arp_respondToProxyARP a then
         (case getInterfaceForDestAddr now rt1 destAddr of (rt2, rtie) \<Rightarrow> Inr (rt2, rtie \<noteq> None \<and> rtie \<noteq> Some ie))
       else Inr (rt1, False))"

definition answerARPPacket :: "RoutingTable \<Rightarrow> ARPPacket \<Rightarrow> nat \<Rightarrow> ARP \<Rightarrow> (ARP \<times> ArpEvent list) outcome" where
  "answerARPPacket rt p ie a =
     (case ap_opcode p of
        ARP_REQUEST \<Rightarrow>
          (case iface_by_id (rt_ift rt) ie of
             None \<Rightarrow> Inl (UndefinedBehaviour ''ie is NULL'')
           | Some e \<Rightarrow>
               if ie_ipv4Data e = None then Inl (UndefinedBehaviour ''ipv4Data() is NULL'')
               else Inr (a\<lparr>arp_numRepliesSent := arp_numRepliesSent a + 1\<rparr>,
                 [ArpPacketToNIC (p\<lparr>ap_destIPAddress := ap_srcIPAddress p, ap_destMACAddress := ap_srcMACAddress p,
                     ap_srcIPAddress := ap_destIPAddress p, ap_srcMACAddress := ie_macAddr e, ap_opcode := ARP_REPLY\<rparr>)
                   (ie_id e) (ap_srcMACAddress p)]))
      | ARP_REPLY \<Rightarrow> Inr (a, [])
      | ARP_RARP_REQUEST \<Rightarrow> Inl (RuntimeError ''RARP request received: RARP is not supported'')
      | ARP_RARP_REPLY \<Rightarrow> Inl (RuntimeError ''RARP reply received: RARP is not supported'')
      | ARP_OTHER n \<Rightarrow> Inl (RuntimeError ''Unsupported opcode in received ARP packet''))"

definition processARPPacket ::
    "simtime \<Rightarrow> RoutingTable \<Rightarrow> ARPPacket \<Rightarrow> nat \<Rightarrow> ARP \<Rightarrow> (RoutingTable \<times> ARP \<times> ArpEvent list) outcome" where
  "processARPPacket now rt p ie a =
     (let srcMAC = ap_srcMACAddress p; srcIP = ap_srcIPAddress p in
      if MACAddress_isUnspecified srcMAC then Inl (RuntimeError ''wrong ARP packet: source MAC address is empty'')
      else if IPv4Address_isUnspecified srcIP then Inl (RuntimeError ''wrong ARP packet: source IPv4 address is empty'')
      else outcome_bind
        (case smap_find (arp_cache a) srcIP of
           None \<Rightarrow> Inr (a, [], False)
         | Some entry \<Rightarrow> outcome_bind (updateARPCache now srcIP entry srcMAC a) (\<lambda>(a', evs). Inr (a', evs, True)))
        (\<lambda>(a1, evs1, mergeFlag).
      outcome_bind (addressRecognized now rt a1 (ap_destIPAddress p) ie) (\<lambda>(rt', recognized).
      if \<not> recognized then Inr (rt', a1, evs1)
      else outcome_bind
        (if mergeFlag then Inr (a1, [])
         else updateARPCache now srcIP
                  \<lparr>ae_ie = ie, ae_pending = False, ae_macAddress = 0, ae_lastUpdate = 0, ae_numRetries = 0, ae_timer = None\<rparr>
                  srcMAC a1)
        (\<lambda>(a2, evs2).
      outcome_bind (answerARPPacket rt' p ie a2) (\<lambda>(a3, evs3).
      Inr (rt', a3, evs1 @ evs2 @ evs3))))))"

section \<open>Lifecycle and the shared cache\<close>

definition ARP_start :: "ARP \<Rightarrow> ARP outcome" where
  "ARP_start a = (if arp_cache a \<noteq> [] then Inl (AssertFailed ''arpCache.empty()'') else Inr (a\<lparr>arp_isUp := True\<rparr>))"

definition ARP_stop :: "ARP \<Rightarrow> ARP" where
  "ARP_stop a = a\<lparr>arp_isUp := False, arp_cache := []\<rparr>"

definition ARP_handleTimer :: "simtime \<Rightarrow> RoutingTable \<Rightarrow> IPv4Address \<Rightarrow> ARP \<Rightarrow> (ARP \<times> ArpEvent list) outcome" where
  "ARP_handleTimer now rt addr a =
     (if \<not> arp_isUp a then Inl (RuntimeError ''Model error: self msg received when protocol is down'')
      else requestTimedOut now rt addr a)"

definition ARP_handlePacket ::
    "simtime \<Rightarrow> RoutingTable \<Rightarrow> ARPPacket \<Rightarrow> nat \<Rightarrow> ARP \<Rightarrow> (RoutingTable \<times> ARP \<times> ArpEvent list) outcome" where
  "ARP_handlePacket now rt p ie a =
     (if \<not> arp_isUp a then Inr (rt, a, []) else processARPPacket now rt p ie a)"

text \<open>Registration of the own addresses at start; loopback and unconfigured interfaces are left out.\<close>

fun registerAddresses :: "ARP \<Rightarrow> InterfaceEntry list \<Rightarrow> ARP" where
  "registerAddresses a [] = a"
| "registerAddresses a (ie # ies) =
     (case ie_ipv4Data ie of
        Some d \<Rightarrow>
          if ie_loopback ie \<or> IPv4Address_isUnspecified (ifd_inetAddr d)
             \<or> smap_find (arp_globalCache a) (ifd_inetAddr d) \<noteq> None
          then registerAddresses a ies
          else registerAddresses (a\<lparr>arp_globalCache := smap_insert (ifd_inetAddr d)
                 \<lparr>ge_owner = arp_self a, ge_ie = ie_id ie, ge_macAddress = ie_macAddr ie\<rparr> (arp_globalCache a)\<rparr>) ies
      | None \<Rightarrow> registerAddresses a ies)"

text \<open>
  The IPv4 configuration of an interface changed.  \<^verbatim>\<open>std::map::insert\<close> does not replace
  an existing element, so an address that another entry has already fails the assertion.
\<close>

definition ARP_ipv4ConfigChanged :: "InterfaceEntry \<Rightarrow> ARP \<Rightarrow> ARP outcome" where
  "ARP_ipv4ConfigChanged ie a =
     (if ie_loopback ie then Inr a
      else
        let old = find (\<lambda>(k, e). ge_owner e = arp_self a \<and> ge_ie e = ie_id ie) (arp_globalCache a);
            a1 = (case old of None \<Rightarrow> a | Some (k, e) \<Rightarrow> a\<lparr>arp_globalCache := smap_erase k (arp_globalCache a)\<rparr>)
        in case ie_ipv4Data ie of
             None \<Rightarrow> Inr a1
           | Some d \<Rightarrow>
               if IPv4Address_isUnspecified (ifd_inetAddr d) then Inr a1
               else if smap_find (arp_globalCache a1) (ifd_inetAddr d) \<noteq> None
                 then Inl (AssertFailed ''where->second == entry'')
               else Inr (a1\<lparr>arp_globalCache := smap_insert (ifd_inetAddr d)
                      \<lparr>ge_owner = arp_self a, ge_ie = ie_id ie, ge_macAddress = ie_macAddr ie\<rparr> (arp_globalCache a1)\<rparr>))"

section \<open>The invariant of the cache\<close>

definition entry_ok :: "int \<Rightarrow> ARPCacheEntry \<Rightarrow> bool" where
  "entry_ok count e \<longleftrightarrow>
     (if ae_pending e then ae_timer e \<noteq> None \<and> 0 \<le> ae_numRetries e \<and> ae_numRetries e < max 1 count
      else ae_timer e = None \<and> ae_macAddress e \<noteq> 0)"

definition arp_inv :: "ARP \<Rightarrow> bool" where
  "arp_inv a \<longleftrightarrow> smap_wf (arp_cache a)
     \<and> (\<forall>addr e. smap_find (arp_cache a) addr = Some e \<longrightarrow> entry_ok (arp_retryCount a) e)"

lemma arp_inv_entry: "arp_inv a \<Longrightarrow> smap_find (arp_cache a) addr = Some e \<Longrightarrow> entry_ok (arp_retryCount a) e"
  by (simp add: arp_inv_def)

text \<open>The part of the module no operation on the cache changes.\<close>

definition same_config :: "ARP \<Rightarrow> ARP \<Rightarrow> bool" where
  "same_config a a' \<longleftrightarrow> arp_globalARP a' = arp_globalARP a \<and> arp_deletePackets a' = arp_deletePackets a
     \<and> arp_cacheTimeout a' = arp_cacheTimeout a \<and> arp_retryCount a' = arp_retryCount a
     \<and> arp_retryTimeout a' = arp_retryTimeout a \<and> arp_globalCache a' = arp_globalCache a \<and> arp_isUp a' = arp_isUp a"

lemma same_config_refl [simp]: "same_config a a"
  by (simp add: same_config_def)

lemma same_config_trans: "same_config a b \<Longrightarrow> same_config b c \<Longrightarrow> same_config a c"
  by (simp add: same_config_def)

text \<open>What an operation that touches only the entry of \<open>addr\<close> does to the cache.\<close>

definition touches :: "IPv4Address \<Rightarrow> ARP \<Rightarrow> ARP \<Rightarrow> bool" where
  "touches addr a a' \<longleftrightarrow> same_config a a'
     \<and> (\<forall>k. k \<noteq> addr \<longrightarrow> smap_find (arp_cache a') k = smap_find (arp_cache a) k)"

lemma touches_refl [simp]: "touches addr a a"
  by (simp add: touches_def)

lemma touches_trans: "touches addr a b \<Longrightarrow> touches addr b c \<Longrightarrow> touches addr a c"
  by (auto simp: touches_def intro: same_config_trans)

lemma put_entry_touches: "touches addr a (put_entry addr e a)"
  by (simp add: touches_def same_config_def put_entry_def)

lemma find_put_entry [simp]: "smap_find (arp_cache (put_entry addr e a)) = (smap_find (arp_cache a))(addr \<mapsto> e)"
  by (simp add: put_entry_def)

lemma put_entry_inv: "arp_inv a \<Longrightarrow> entry_ok (arp_retryCount a) e \<Longrightarrow> arp_inv (put_entry addr e a)"
  by (auto simp: arp_inv_def put_entry_def)

lemma sendARPRequest_frame:
  assumes "sendARPRequest rt i addr a = Inr (a', evs)"
  shows "a' = a\<lparr>arp_numRequestsSent := arp_numRequestsSent a + 1\<rparr>"
    and "\<exists>p. evs = [ArpPacketToNIC p i MACAddress_BROADCAST] \<and> ap_opcode p = ARP_REQUEST \<and> ap_destIPAddress p = addr"
  using assms by (auto simp: sendARPRequest_def split: option.splits if_splits)

text \<open>Starting a resolution leaves a pending entry with a running timer.\<close>

lemma initiate_pending:
  assumes "initiateARPResolution now rt addr e a = Inr (a', evs)"
  shows "\<exists>e'. smap_find (arp_cache a') addr = Some e' \<and> ae_pending e' \<and> entry_ok (arp_retryCount a) e'"
    and "touches addr a a'" and "arp_inv a \<Longrightarrow> arp_inv a'"
    and "\<forall>x. CompletedARPResolution x m k \<notin> set evs \<and> FailedARPResolution x k \<notin> set evs"
proof -
  obtain a1 evs1 where r: "sendARPRequest rt (ae_ie e) addr a = Inr (a1, evs1)"
    and a': "a' = put_entry addr
              (e\<lparr>ae_pending := True, ae_numRetries := 0, ae_lastUpdate := 0, ae_macAddress := 0,
                 ae_timer := Some (now + arp_retryTimeout a1)\<rparr>)
              (a1\<lparr>arp_numResolutions := arp_numResolutions a1 + 1\<rparr>)"
    and evs: "evs = evs1 @ [InitiatedARPResolution addr (ae_ie e)]"
    using assms by (auto simp: initiateARPResolution_def)
  note frame = sendARPRequest_frame [OF r]
  show "\<exists>e'. smap_find (arp_cache a') addr = Some e' \<and> ae_pending e' \<and> entry_ok (arp_retryCount a) e'"
    by (simp add: a' entry_ok_def)
  show "touches addr a a'"
    by (simp add: a' frame(1) touches_def same_config_def put_entry_def)
  show "arp_inv a \<Longrightarrow> arp_inv a'"
    unfolding a' by (rule put_entry_inv) (simp_all add: frame(1) arp_inv_def entry_ok_def)
  show "\<forall>x. CompletedARPResolution x m k \<notin> set evs \<and> FailedARPResolution x k \<notin> set evs"
    using frame(2) evs by auto
qed

lemma start_pending:
  assumes "startAddressResolution now rt addr i a = Inr (a', evs)"
  shows "\<exists>e'. smap_find (arp_cache a') addr = Some e' \<and> ae_pending e'"
    and "touches addr a a'" and "arp_inv a \<Longrightarrow> arp_inv a'"
    and "\<forall>x. CompletedARPResolution x m k \<notin> set evs \<and> FailedARPResolution x k \<notin> set evs"
  using assms
  by (auto simp: startAddressResolution_def split: if_splits option.splits dest: initiate_pending)

text \<open>A request that times out is repeated or fails; the timer belongs to a live entry.\<close>

lemma requestTimedOut_cases:
  assumes "requestTimedOut now rt addr a = Inr (a', evs)" and inv: "arp_inv a"
    and timer: "smap_find (arp_cache a) addr = Some e" "ae_timer e \<noteq> None"
  shows "touches addr a a' \<and> arp_inv a'
     \<and> (if ae_numRetries e + 1 < arp_retryCount a
        then \<exists>e'. smap_find (arp_cache a') addr = Some e' \<and> ae_pending e' \<and> ae_numRetries e' = ae_numRetries e + 1
             \<and> ae_timer e' = Some (now + arp_retryTimeout a)
             \<and> (\<exists>p. evs = [ArpPacketToNIC p (ae_ie e) MACAddress_BROADCAST])
        else smap_find (arp_cache a') addr = None \<and> evs = [FailedARPResolution addr (ae_ie e)])"
proof -
  have e: "ae_pending e" "0 \<le> ae_numRetries e"
    using arp_inv_entry [OF inv timer(1)] timer(2) by (auto simp: entry_ok_def split: if_splits)
  show ?thesis
  proof (cases "ae_numRetries e + 1 < arp_retryCount a")
    case False
    with assms show ?thesis
      by (auto simp: requestTimedOut_def Let_def touches_def same_config_def arp_inv_def
          split: if_splits)
  next
    case True
    then obtain a1 evs1 where r: "sendARPRequest rt (ae_ie e) addr a = Inr (a1, evs1)"
      and a': "a' = put_entry addr (e\<lparr>ae_numRetries := ae_numRetries e + 1, ae_timer := Some (now + arp_retryTimeout a1)\<rparr>) a1"
      and evs: "evs = evs1"
      using assms(1) timer by (auto simp: requestTimedOut_def Let_def)
    note frame = sendARPRequest_frame [OF r]
    have "arp_inv a1" using inv by (simp add: frame(1) arp_inv_def)
    then have "arp_inv a'"
      unfolding a' by (rule put_entry_inv) (use e True in \<open>simp add: frame(1) entry_ok_def\<close>)
    with True e frame evs show ?thesis
      by (auto simp: a' touches_def same_config_def put_entry_def)
  qed
qed

lemma updateARPCache_cases:
  assumes "updateARPCache now addr e mac a = Inr (a', evs)" and inv: "arp_inv a" and mac: "mac \<noteq> 0"
    and idle: "\<not> ae_pending e \<longrightarrow> ae_timer e = None"
  shows "touches addr a a' \<and> arp_inv a' \<and> evs = [CompletedARPResolution addr mac (ae_ie e)]
     \<and> (\<exists>e'. smap_find (arp_cache a') addr = Some e' \<and> \<not> ae_pending e' \<and> ae_macAddress e' = mac)"
proof -
  let ?e1 = "if ae_pending e then e\<lparr>ae_pending := False, ae_timer := None, ae_numRetries := 0\<rparr> else e"
  have a': "a' = put_entry addr (?e1\<lparr>ae_macAddress := mac, ae_lastUpdate := now\<rparr>) a"
    and evs: "evs = [CompletedARPResolution addr mac (ae_ie e)]"
    using assms(1) by (auto simp: updateARPCache_def Let_def split: if_splits)
  have "arp_inv a'"
    unfolding a' by (rule put_entry_inv [OF inv]) (use mac idle in \<open>auto simp: entry_ok_def\<close>)
  then show ?thesis
    using put_entry_touches [of addr a] evs by (auto simp: a')
qed

lemma updateARPCache_defined:
  "arp_inv a \<Longrightarrow> smap_find (arp_cache a) addr = Some e \<Longrightarrow> \<exists>r. updateARPCache now addr e mac a = Inr r"
  using arp_inv_entry [of a addr e] by (auto simp: updateARPCache_def entry_ok_def Let_def split: if_splits)

lemma answer_frame:
  assumes "answerARPPacket rt p ie a = Inr (a', evs)"
  shows "\<exists>n. a' = a\<lparr>arp_numRepliesSent := n\<rparr>"
    and "CompletedARPResolution x m k \<notin> set evs" "FailedARPResolution x k \<notin> set evs"
proof -
  have "\<exists>n. a = a\<lparr>arp_numRepliesSent := n\<rparr>" by (rule exI [of _ "arp_numRepliesSent a"]) simp
  then show "\<exists>n. a' = a\<lparr>arp_numRepliesSent := n\<rparr>"
    using assms by (cases "ap_opcode p") (auto simp: answerARPPacket_def split: option.splits if_splits)
  show "CompletedARPResolution x m k \<notin> set evs" "FailedARPResolution x k \<notin> set evs"
    using assms by (auto simp: answerARPPacket_def split: option.splits if_splits ARPOpcode.splits)
qed

end
