(* ===== verification/IPv4_Module.thy ===== *)
theory IPv4_Module
  imports ICMP ARP
begin

text \<open>
  The IPv4 module, \<^verbatim>\<open>src/src/networklayer/ipv4/IPv4.{h,cc}\<close>: datagrams from the
  network and packets from higher layers are routed, fragmented, handed to ARP, reassembled and
  delivered.  The state holds the modules IPv4 calls directly (routing table, ARP cache, fragment
  buffer).  Everything that leaves the module is appended to \<open>ip_out\<close> in order.  Interfaces are
  named by their id; reading one that is not in the interface table is undefined behaviour.  The
  netfilter hooks, the listeners of multicast notifications and the connected output gates are
  parameters of the state.  Times are in milliseconds.
\<close>

section \<open>State\<close>

datatype HookType = PREROUTING | LOCALIN | FORWARD | POSTROUTING | LOCALOUT
datatype HookResult = HOOK_ACCEPT | HOOK_DROP | HOOK_QUEUE | HOOK_STOLEN

text \<open>
  A hook sees the datagram, the input and the output interface and the next hop, and may change all
  but the input interface.
\<close>

record Hook =
  hook_id :: nat
  hook_fun :: "HookType \<Rightarrow> IPv4Datagram \<Rightarrow> nat option \<Rightarrow> nat option \<Rightarrow> IPv4Address
    \<Rightarrow> HookResult \<times> IPv4Datagram \<times> nat option \<times> IPv4Address"

record QueuedDatagramForHook =
  qd_datagram :: IPv4Datagram
  qd_inIE :: "nat option"
  qd_outIE :: "nat option"
  qd_nextHopAddr :: IPv4Address
  qd_hookType :: HookType

datatype IPEvent =
    ToNIC nat "MACAddress option" IPv4Datagram
  | ArpToNIC nat ARPPacket MACAddress
  | ToArp ARPPacket nat
  | ToTransport int Payload IPv4ControlInfo IPv4Datagram
  | IcmpEvent IcmpOut

record IPv4 =
  ip_now :: simtime
  ip_rt :: RoutingTable
  ip_arp :: ARP
  ip_pingMap :: PingMap
  ip_defaultTimeToLive :: int
  ip_defaultMCTimeToLive :: int
  ip_fragmentTimeoutTime :: simtime
  ip_forceBroadcast :: bool
  ip_useProxyARP :: bool
  ip_isDsr :: bool
  ip_isUp :: bool
  ip_curFragmentId :: int
  ip_fragbuf :: IPv4FragBuf
  ip_lastCheckTime :: simtime
  ip_mapping :: "(int \<times> int) list"
  ip_connected :: "int \<Rightarrow> bool"
  ip_pendingPackets :: "(IPv4Address, IPv4Datagram list) smap"
  ip_numMulticast :: int
  ip_numLocalDeliver :: int
  ip_numDropped :: int
  ip_numUnroutable :: int
  ip_numForwarded :: int
  ip_hooks :: "(int \<times> Hook) list"
  ip_queuedDatagramsForHooks :: "QueuedDatagramForHook list"
  ip_onNewMulticast :: "IPv4Datagram \<Rightarrow> RoutingTable \<Rightarrow> RoutingTable"
  ip_out :: "IPEvent list"

definition emit :: "IPEvent \<Rightarrow> IPv4 \<Rightarrow> IPv4" where
  "emit ev s = s\<lparr>ip_out := ip_out s @ [ev]\<rparr>"

definition ifaceOf :: "IPv4 \<Rightarrow> nat \<Rightarrow> InterfaceEntry outcome" where
  "ifaceOf s i =
     (case iface_by_id (rt_ift (ip_rt s)) i of
        None \<Rightarrow> Inl (UndefinedBehaviour ''no such interface entry'')
      | Some ie \<Rightarrow> Inr ie)"

definition ipv4DataOf :: "InterfaceEntry \<Rightarrow> IPv4InterfaceData outcome" where
  "ipv4DataOf ie =
     (case ie_ipv4Data ie of None \<Rightarrow> Inl (UndefinedBehaviour ''ipv4Data() is NULL'') | Some d \<Rightarrow> Inr d)"

definition getSourceInterfaceFrom :: "IPv4 \<Rightarrow> IPv4Datagram \<Rightarrow> nat option" where
  "getSourceInterfaceFrom s dg =
     Option.bind (dg_arrivalGate dg) (\<lambda>g.
       map_option ie_id (find (\<lambda>ie. ie_nwLayerGateIndex ie = g) (rt_ift (ip_rt s))))"

definition getFirstLoopbackInterface :: "IPv4 \<Rightarrow> nat option" where
  "getFirstLoopbackInterface s = map_option ie_id (find ie_loopback (rt_ift (ip_rt s)))"

definition getFirstMulticastInterface :: "IPv4 \<Rightarrow> nat option" where
  "getFirstMulticastInterface s =
     map_option ie_id (find (\<lambda>ie. ie_multicast ie \<and> \<not> ie_loopback ie) (rt_ift (ip_rt s)))"

text \<open>\<^verbatim>\<open>cPacket::decapsulate\<close>: the length shrinks by that of the payload.\<close>

definition dg_decapsulate :: "IPv4Datagram \<Rightarrow> (IPv4Datagram \<times> Payload) outcome" where
  "dg_decapsulate dg =
     (case dg_encapsulatedPacket dg of
        None \<Rightarrow> Inl (UndefinedBehaviour ''decapsulated packet is NULL'')
      | Some p \<Rightarrow>
          if dg_byteLength dg < pl_byteLength p then Inl (RuntimeError ''decapsulate(): packet length became negative'')
          else Inr (dg\<lparr>dg_encapsulatedPacket := None, dg_byteLength := dg_byteLength dg - pl_byteLength p\<rparr>, p))"

definition dg_encapsulate :: "Payload \<Rightarrow> IPv4Datagram \<Rightarrow> IPv4Datagram" where
  "dg_encapsulate p dg = dg\<lparr>dg_encapsulatedPacket := Some p, dg_byteLength := dg_byteLength dg + pl_byteLength p\<rparr>"

definition IPv4_icmpError :: "IPv4Datagram \<Rightarrow> int \<Rightarrow> int \<Rightarrow> int \<Rightarrow> IPv4 \<Rightarrow> IPv4 outcome" where
  "IPv4_icmpError dg i type code s =
     outcome_bind (ICMP_sendErrorMessage (ip_rt s) (ip_pingMap s) dg i type code) (\<lambda>(rt', outs).
       Inr (s\<lparr>ip_rt := rt', ip_out := ip_out s @ map IcmpEvent outs\<rparr>))"

section \<open>Netfilter hooks\<close>

fun runHooks :: "HookType \<Rightarrow> (int \<times> Hook) list \<Rightarrow> IPv4Datagram \<Rightarrow> nat option \<Rightarrow> nat option \<Rightarrow> IPv4Address
    \<Rightarrow> HookResult \<times> IPv4Datagram \<times> nat option \<times> IPv4Address" where
  "runHooks t [] dg inIE outIE nextHop = (HOOK_ACCEPT, dg, outIE, nextHop)"
| "runHooks t ((prio, h) # hs) dg inIE outIE nextHop =
     (case hook_fun h t dg inIE outIE nextHop of
        (HOOK_ACCEPT, dg', outIE', nextHop') \<Rightarrow> runHooks t hs dg' inIE outIE' nextHop'
      | r \<Rightarrow> r)"

text \<open>The result is what to go on with, or nothing when the datagram was dropped, queued or stolen.\<close>

definition datagramHook :: "HookType \<Rightarrow> IPv4Datagram \<Rightarrow> nat option \<Rightarrow> nat option \<Rightarrow> IPv4Address \<Rightarrow> IPv4
    \<Rightarrow> IPv4 \<times> (IPv4Datagram \<times> nat option \<times> IPv4Address) option" where
  "datagramHook t dg inIE outIE nextHop s =
     (case runHooks t (ip_hooks s) dg inIE outIE nextHop of
        (HOOK_ACCEPT, dg', outIE', nextHop') \<Rightarrow> (s, Some (dg', outIE', nextHop'))
      | (HOOK_QUEUE, dg', outIE', nextHop') \<Rightarrow>
          (s\<lparr>ip_queuedDatagramsForHooks := ip_queuedDatagramsForHooks s @
               [\<lparr>qd_datagram = dg', qd_inIE = inIE, qd_outIE = (if t = LOCALIN then None else outIE'),
                 qd_nextHopAddr = (if t = LOCALIN then 0 else nextHop'), qd_hookType = t\<rparr>]\<rparr>, None)
      | _ \<Rightarrow> (s, None))"

definition registerHook :: "int \<Rightarrow> Hook \<Rightarrow> IPv4 \<Rightarrow> IPv4" where
  "registerHook prio h s =
     s\<lparr>ip_hooks := takeWhile (\<lambda>x. fst x \<le> prio) (ip_hooks s) @ [(prio, h)] @ dropWhile (\<lambda>x. fst x \<le> prio) (ip_hooks s)\<rparr>"

fun dropFirst :: "('a \<Rightarrow> bool) \<Rightarrow> 'a list \<Rightarrow> 'a list" where
  "dropFirst P [] = []"
| "dropFirst P (x # xs) = (if P x then xs else x # dropFirst P xs)"

definition unregisterHook :: "int \<Rightarrow> nat \<Rightarrow> IPv4 \<Rightarrow> IPv4" where
  "unregisterHook prio hid s = s\<lparr>ip_hooks := dropFirst (\<lambda>(p, h). p = prio \<and> hook_id h = hid) (ip_hooks s)\<rparr>"

section \<open>Output\<close>

definition sendPacketToNIC :: "IPv4Datagram \<Rightarrow> nat \<Rightarrow> IPv4 \<Rightarrow> IPv4" where
  "sendPacketToNIC dg i s = emit (ToNIC i None dg) s"

definition sendPacketToIeee802NIC :: "IPv4Datagram \<Rightarrow> nat \<Rightarrow> MACAddress \<Rightarrow> IPv4 \<Rightarrow> IPv4" where
  "sendPacketToIeee802NIC dg i mac s = emit (ToNIC i (Some mac) (dg\<lparr>dg_multicastLoop := None\<rparr>)) s"

definition resolveNextHopMacAddress :: "IPv4 \<Rightarrow> IPv4Address \<Rightarrow> InterfaceEntry \<Rightarrow> MACAddress outcome" where
  "resolveNextHopMacAddress s nextHop destIE =
     (if isLimitedBroadcastAddress nextHop then Inr MACAddress_BROADCAST
      else outcome_bind (ipv4DataOf destIE) (\<lambda>d.
        if nextHop = getNetworkBroadcastAddress d then Inr MACAddress_BROADCAST
        else if isMulticast nextHop then makeMulticastAddress nextHop
        else Inr (getMACAddressFor (ip_now s) (ip_arp s) nextHop)))"

text \<open>The handlers of the ARP signals: waiting datagrams are sent in order, or dropped.\<close>

definition arpResolutionCompleted :: "IPv4Address \<Rightarrow> MACAddress \<Rightarrow> nat \<Rightarrow> IPv4 \<Rightarrow> IPv4" where
  "arpResolutionCompleted addr mac i s =
     (case smap_find (ip_pendingPackets s) addr of
        None \<Rightarrow> s
      | Some dgs \<Rightarrow>
          let s' = fold (\<lambda>dg. sendPacketToIeee802NIC dg i mac) dgs s
          in s'\<lparr>ip_pendingPackets := smap_erase addr (ip_pendingPackets s')\<rparr>)"

definition arpResolutionTimedOut :: "IPv4Address \<Rightarrow> IPv4 \<Rightarrow> IPv4" where
  "arpResolutionTimedOut addr s =
     (case smap_find (ip_pendingPackets s) addr of
        None \<Rightarrow> s
      | Some dgs \<Rightarrow> s\<lparr>ip_pendingPackets := smap_erase addr (ip_pendingPackets s)\<rparr>)"

fun receiveSignal :: "ArpEvent \<Rightarrow> IPv4 \<Rightarrow> IPv4" where
  "receiveSignal (CompletedARPResolution addr mac i) s = arpResolutionCompleted addr mac i s"
| "receiveSignal (FailedARPResolution addr i) s = arpResolutionTimedOut addr s"
| "receiveSignal (InitiatedARPResolution addr i) s = s"
| "receiveSignal (ArpPacketToNIC p i mac) s = emit (ArpToNIC i p mac) s"

text \<open>
  The ARP module has run: its packets pass through \<^verbatim>\<open>handlePacketFromARP\<close> to the network
  and its signals reach this module.
\<close>

definition arpRan :: "ARP \<times> ArpEvent list \<Rightarrow> IPv4 \<Rightarrow> IPv4" where
  "arpRan r s = fold receiveSignal (snd r) (s\<lparr>ip_arp := fst r\<rparr>)"

definition pendingInsert :: "IPv4Address \<Rightarrow> IPv4Datagram \<Rightarrow> IPv4 \<Rightarrow> IPv4" where
  "pendingInsert addr dg s =
     s\<lparr>ip_pendingPackets :=
         (case smap_find (ip_pendingPackets s) addr of
            None \<Rightarrow> smap_insert addr [dg] (ip_pendingPackets s)
          | Some dgs \<Rightarrow> smap_insert addr (dgs @ [dg]) (ip_pendingPackets s))\<rparr>"

definition sendDatagramToOutput :: "IPv4Datagram \<Rightarrow> nat \<Rightarrow> IPv4Address \<Rightarrow> IPv4 \<Rightarrow> IPv4 outcome" where
  "sendDatagramToOutput dg i nextHopAddr s =
     outcome_bind (ifaceOf s i) (\<lambda>ie.
       if \<not> (ie_broadcast ie \<and> \<not> MACAddress_isUnspecified (ie_macAddr ie)) then Inr (sendPacketToNIC dg i s)
       else outcome_bind
         (if IPv4Address_isUnspecified nextHopAddr then
            (if ip_useProxyARP s then Inr (dg_destAddress dg)
             else Inl (RuntimeError ''Cannot send datagram on broadcast interface: no next-hop address and Proxy ARP is disabled''))
          else Inr nextHopAddr) (\<lambda>nextHop.
       outcome_bind (resolveNextHopMacAddress s nextHop ie) (\<lambda>mac.
         if MACAddress_isUnspecified mac then
           (if arp_deletePacket (ip_arp s) then Inr s
            else
              let s' = pendingInsert nextHop dg s
              in outcome_bind (startAddressResolution (ip_now s') (ip_rt s') nextHop i (ip_arp s')) (\<lambda>r. Inr (arpRan r s')))
         else if smap_find (ip_pendingPackets s) nextHop \<noteq> None then
           Inl (AssertFailed ''IPv4-ARP error: nextHopAddr found in ARP table, but IPv4 queue for nextHopAddr not empty'')
         else Inr (sendPacketToIeee802NIC dg i mac s))))"

section \<open>Fragmentation\<close>

text \<open>
  One pass of the loop: the fragment that starts at \<open>offset\<close> of the payload.  The datagram \<open>dg\<close> has
  been decapsulated; every fragment carries a copy of the whole payload, with its length set.
\<close>

definition fragmentAt :: "IPv4Datagram \<Rightarrow> Payload \<Rightarrow> int \<Rightarrow> int \<Rightarrow> IPv4Datagram" where
  "fragmentAt dg payload fragmentLength offset =
     (let headerLength = dg_byteLength dg;
          payloadLength = pl_byteLength payload;
          lastFragment = (payloadLength \<le> offset + fragmentLength);
          thisFragmentLength = (if lastFragment then payloadLength - offset else fragmentLength);
          fragment = (if lastFragment then dg else dg\<lparr>dg_moreFragments := True\<rparr>)
      in (dg_encapsulate (payload\<lparr>pl_byteLength := thisFragmentLength\<rparr>) (fragment\<lparr>dg_byteLength := headerLength\<rparr>))
           \<lparr>dg_fragmentOffset := dg_fragmentOffset dg + offset\<rparr>)"

function fragmentLoop ::
    "IPv4Datagram \<Rightarrow> Payload \<Rightarrow> int \<Rightarrow> int \<Rightarrow> nat \<Rightarrow> IPv4Address \<Rightarrow> IPv4 \<Rightarrow> IPv4 outcome" where
  "fragmentLoop dg payload fragmentLength offset i nextHop s =
     (if offset < pl_byteLength payload \<and> 0 < fragmentLength then
        (case sendDatagramToOutput (fragmentAt dg payload fragmentLength offset) i nextHop s of
           Inl e \<Rightarrow> Inl e
         | Inr s' \<Rightarrow> fragmentLoop dg payload fragmentLength (offset + fragmentLength) i nextHop s')
      else Inr s)"
  by pat_completeness auto
termination
  by (relation "measure (\<lambda>(dg, payload, fl, offset, i, nh, s). nat (pl_byteLength payload - offset))") auto

declare fragmentLoop.simps [simp del]

text \<open>
  The test \<^verbatim>\<open>0 < fragmentLength\<close> of the loop is the error check made before it; when it
  fails the sign of the quotient does not matter, so C++ and HOL division agree.
\<close>

definition fragmentAndSend :: "IPv4Datagram \<Rightarrow> nat \<Rightarrow> IPv4Address \<Rightarrow> IPv4 \<Rightarrow> IPv4 outcome" where
  "fragmentAndSend dg0 i nextHop s =
     outcome_bind (ifaceOf s i) (\<lambda>ie.
     outcome_bind
       (if IPv4Address_isUnspecified (dg_srcAddress dg0)
        then outcome_bind (ipv4DataOf ie) (\<lambda>d. Inr (dg0\<lparr>dg_srcAddress := ifd_inetAddr d\<rparr>))
        else Inr dg0) (\<lambda>dg1.
     let dg2 = (if ie_loopback ie then dg1 else dg1\<lparr>dg_timeToLive := dg_timeToLive dg1 - 1\<rparr>) in
     if dg_timeToLive dg2 < 0 then
       outcome_bind (IPv4_icmpError dg2 (-1) ICMP_TIME_EXCEEDED 0 s) (\<lambda>s'.
         Inr (s'\<lparr>ip_numDropped := ip_numDropped s' + 1\<rparr>))
     else if ie_mtu ie = 0 \<or> dg_byteLength dg2 \<le> ie_mtu ie then sendDatagramToOutput dg2 i nextHop s
     else
       let dg3 = (case dg_encapsulatedPacket dg2 of
                    None \<Rightarrow> dg2 | Some p \<Rightarrow> dg2\<lparr>dg_totalPayloadLength := pl_byteLength p\<rparr>) in
       if dg_dontFragment dg3 then
         outcome_bind (IPv4_icmpError dg3 (-1) ICMP_DESTINATION_UNREACHABLE 4 s) (\<lambda>s'.
           Inr (s'\<lparr>ip_numDropped := ip_numDropped s' + 1\<rparr>))
       else outcome_bind (dg_decapsulate dg3) (\<lambda>(dg4, payload).
         let headerLength = dg_byteLength dg4;
             mtu = (if ip_isDsr s then ie_mtu ie - 30 else ie_mtu ie);
             fragmentLength = ((mtu - headerLength) div 8) * 8
         in if fragmentLength \<le> 0 then Inl (RuntimeError ''Cannot fragment datagram: MTU too small for header size'')
            else fragmentLoop dg4 payload fragmentLength 0 i nextHop s)))"

definition fragmentPostRouting :: "IPv4Datagram \<Rightarrow> nat \<Rightarrow> IPv4Address \<Rightarrow> IPv4 \<Rightarrow> IPv4 outcome" where
  "fragmentPostRouting dg i nextHop s =
     (case datagramHook POSTROUTING dg (getSourceInterfaceFrom s dg) (Some i) nextHop s of
        (s', None) \<Rightarrow> Inr s'
      | (s', Some (dg', None, nextHop')) \<Rightarrow> Inl (UndefinedBehaviour ''ie is NULL'')
      | (s', Some (dg', Some i', nextHop')) \<Rightarrow> fragmentAndSend dg' i' nextHop' s')"

section \<open>Local delivery\<close>

definition findOutputGateForProtocol :: "(int \<times> int) list \<Rightarrow> int \<Rightarrow> int" where
  "findOutputGateForProtocol mapping protocol =
     (case find (\<lambda>e. fst e = protocol) mapping of None \<Rightarrow> -2 | Some e \<Rightarrow> snd e)"

definition getOutputGateForProtocol :: "(int \<times> int) list \<Rightarrow> int \<Rightarrow> int outcome" where
  "getOutputGateForProtocol mapping protocol =
     (let ret = findOutputGateForProtocol mapping protocol
      in if -1 \<le> ret then Inr ret else Inl (RuntimeError ''No output gate defined in protocolMapping''))"

definition addProtocolMapping :: "int \<Rightarrow> int \<Rightarrow> (int \<times> int) list \<Rightarrow> (int \<times> int) list outcome" where
  "addProtocolMapping protocol gateIndex mapping =
     (let registered = findOutputGateForProtocol mapping protocol
      in if registered = -2 then Inr (mapping @ [(protocol, gateIndex)])
         else if registered = gateIndex then Inr mapping
         else Inl (RuntimeError ''The protocol already registered''))"

definition IPv4_decapsulate :: "IPv4Datagram \<Rightarrow> IPv4 \<Rightarrow> (Payload \<times> IPv4ControlInfo \<times> IPv4Datagram) outcome" where
  "IPv4_decapsulate dg s =
     outcome_bind (dg_decapsulate dg) (\<lambda>(dg', packet).
       Inr (packet,
            IPv4ControlInfo_new\<lparr>ci_protocol := dg_transportProtocol dg', ci_srcAddr := dg_srcAddress dg',
              ci_destAddr := dg_destAddress dg', ci_typeOfService := dg_typeOfService dg',
              ci_interfaceId := (case getSourceInterfaceFrom s dg of None \<Rightarrow> -1 | Some i \<Rightarrow> int i),
              ci_timeToLive := dg_timeToLive dg'\<rparr>,
            dg'))"

definition handleIncomingICMP :: "Payload \<times> IPv4ControlInfo \<times> IPv4Datagram \<Rightarrow> IPv4 \<Rightarrow> IPv4 outcome" where
  "handleIncomingICMP r s =
     (case r of (packet, ci, orig) \<Rightarrow>
        (case pl_kind packet of
           ICMPMessage t proto \<Rightarrow>
             outcome_bind
               (if t \<in> {ICMP_REDIRECT, ICMP_DESTINATION_UNREACHABLE, ICMP_TIME_EXCEEDED, ICMP_PARAMETER_PROBLEM}
                then (case proto of
                        None \<Rightarrow> Inl (RuntimeError ''check_and_cast(): cannot cast to IPv4Datagram'')
                      | Some p \<Rightarrow> getOutputGateForProtocol (ip_mapping s) p)
                else getOutputGateForProtocol (ip_mapping s) IP_PROT_ICMP)
               (\<lambda>gateindex. Inr (emit (ToTransport gateindex packet ci orig) s))
         | _ \<Rightarrow> Inl (RuntimeError ''check_and_cast(): cannot cast to ICMPMessage'')))"

text \<open>The module has no gate \<^verbatim>\<open>preRoutingOut\<close>, so a tunnelled datagram is an error.\<close>

definition reassembleAndDeliverFinish :: "IPv4Datagram \<Rightarrow> IPv4 \<Rightarrow> IPv4 outcome" where
  "reassembleAndDeliverFinish dg s =
     (let protocol = dg_transportProtocol dg in
      if protocol = IP_PROT_ICMP then
        outcome_bind (IPv4_decapsulate dg s) (\<lambda>r.
        outcome_bind (handleIncomingICMP r s) (\<lambda>s'.
          Inr (s'\<lparr>ip_numLocalDeliver := ip_numLocalDeliver s' + 1\<rparr>)))
      else if protocol = IP_PROT_IP then
        outcome_bind (IPv4_decapsulate dg s) (\<lambda>_. Inl (RuntimeError ''send(): no such gate: preRoutingOut''))
      else
        let gateindex = findOutputGateForProtocol (ip_mapping s) protocol in
        if 0 \<le> gateindex \<and> ip_connected s gateindex then
          outcome_bind (IPv4_decapsulate dg s) (\<lambda>(packet, ci, orig).
            Inr ((emit (ToTransport gateindex packet ci orig) s)\<lparr>ip_numLocalDeliver := ip_numLocalDeliver s + 1\<rparr>))
        else
          (case getSourceInterfaceFrom s dg of
             None \<Rightarrow> Inl (UndefinedBehaviour ''source interface is NULL'')
           | Some i \<Rightarrow> IPv4_icmpError dg (int i) ICMP_DESTINATION_UNREACHABLE 2 s))"

fun reportTimeouts :: "IPv4Datagram option list \<Rightarrow> IPv4 \<Rightarrow> IPv4 outcome" where
  "reportTimeouts [] s = Inr s"
| "reportTimeouts (None # ds) s = Inl (UndefinedBehaviour ''origDatagram is NULL'')"
| "reportTimeouts (Some d # ds) s =
     outcome_bind (IPv4_icmpError d (-1) ICMP_TIME_EXCEEDED 0 s) (reportTimeouts ds)"

text \<open>The length of the whole payload is restored before the fragment enters the buffer.\<close>

definition restorePayload :: "IPv4Datagram \<Rightarrow> IPv4Datagram outcome" where
  "restorePayload dg =
     (if 0 < dg_totalPayloadLength dg then
        (case dg_encapsulatedPacket dg of
           None \<Rightarrow> Inl (UndefinedBehaviour ''getEncapsulatedPacket() is NULL'')
         | Some p0 \<Rightarrow>
             if dg_totalPayloadLength dg = pl_byteLength p0 then Inr dg
             else outcome_bind (dg_decapsulate dg) (\<lambda>(dg1, payload).
               let dg2 = dg1\<lparr>dg_headerLength := dg_byteLength dg1\<rparr>
               in Inr ((dg_encapsulate (payload\<lparr>pl_byteLength := dg_totalPayloadLength dg2\<rparr>) dg2)
                         \<lparr>dg_byteLength := dg_byteLength dg\<rparr>)))
      else Inr dg)"

definition reassemble :: "IPv4Datagram \<Rightarrow> IPv4 \<Rightarrow> (IPv4 \<times> IPv4Datagram option) outcome" where
  "reassemble dg s =
     (if dg_fragmentOffset dg \<noteq> 0 \<or> dg_moreFragments dg then
        outcome_bind
          (if ip_lastCheckTime s + 10000 \<le> ip_now s then
             (case IPv4FragBuf_purgeStaleFragments (ip_fragbuf s) (ip_now s - ip_fragmentTimeoutTime s) of
                (bufs, stale) \<Rightarrow> reportTimeouts stale (s\<lparr>ip_lastCheckTime := ip_now s, ip_fragbuf := bufs\<rparr>))
           else Inr s) (\<lambda>s1.
        outcome_bind (restorePayload dg) (\<lambda>dg1.
        outcome_bind (IPv4FragBuf_addFragment (ip_fragbuf s1) dg1 (ip_now s1)) (\<lambda>(bufs, res).
          Inr (s1\<lparr>ip_fragbuf := bufs\<rparr>, res))))
      else Inr (s, Some dg))"

definition reassembleAndDeliver :: "IPv4Datagram \<Rightarrow> IPv4 \<Rightarrow> IPv4 outcome" where
  "reassembleAndDeliver dg s =
     outcome_bind (reassemble dg s) (\<lambda>(s1, res).
       case res of
         None \<Rightarrow> Inr s1
       | Some dg1 \<Rightarrow>
           (case datagramHook LOCALIN dg1 (getSourceInterfaceFrom s1 dg1) None 0 s1 of
              (s2, None) \<Rightarrow> Inr s2
            | (s2, Some (dg2, x, y)) \<Rightarrow> reassembleAndDeliverFinish dg2 s2))"

section \<open>Filter rules\<close>

text \<open>The ports a rule is matched against; the casts are not checked.\<close>

definition portsOf :: "IPv4Datagram \<Rightarrow> (int \<times> int) outcome" where
  "portsOf dg =
     (let nul = Inl (UndefinedBehaviour ''dynamic_cast of the payload is NULL'') in
      if dg_transportProtocol dg = IP_PROT_UDP then
        (case map_option pl_kind (dg_encapsulatedPacket dg) of Some (UDPPacket sp dp) \<Rightarrow> Inr (sp, dp) | _ \<Rightarrow> nul)
      else if dg_transportProtocol dg = IP_PROT_TCP then
        (case map_option pl_kind (dg_encapsulatedPacket dg) of Some (TCPSegment sp dp) \<Rightarrow> Inr (sp, dp) | _ \<Rightarrow> nul)
      else Inr (-1, -1))"

definition lookupRoute :: "IPv4Address \<Rightarrow> IPv4 \<Rightarrow> IPv4 \<times> IPv4Route option" where
  "lookupRoute dest s =
     (case findBestMatchingRoute (ip_now s) (ip_rt s) dest of
        (rt', None) \<Rightarrow> (s\<lparr>ip_rt := rt'\<rparr>, None)
      | (rt', Some p) \<Rightarrow> (s\<lparr>ip_rt := rt'\<rparr>, Some (deref rt' p)))"

definition checkRule :: "bool \<Rightarrow> IPv4Datagram \<Rightarrow> nat option \<Rightarrow> IPv4 \<Rightarrow> IPv4RouteRule option outcome" where
  "checkRule output dg iface s =
     outcome_bind (portsOf dg) (\<lambda>(sport, dport).
       Inr (map_option (rderef (ip_rt s))
         (findRule (ip_rt s) output (dg_transportProtocol dg) sport (dg_srcAddress dg) dport (dg_destAddress dg) iface)))"

definition checkInputRule :: "IPv4Datagram \<Rightarrow> IPv4 \<Rightarrow> IPv4RouteRule option outcome" where
  "checkInputRule dg s =
     (if 0 < getNumRules (ip_rt s) False then checkRule False dg (getSourceInterfaceFrom s dg) s else Inr None)"

definition checkOutputRule :: "IPv4Datagram \<Rightarrow> nat option \<Rightarrow> IPv4 \<Rightarrow> (IPv4 \<times> IPv4RouteRule option) outcome" where
  "checkOutputRule dg destIE s =
     (if 0 < getNumRules (ip_rt s) True then
        (let (s', iface) =
               (case destIE of
                  Some i \<Rightarrow> (s, Some i)
                | None \<Rightarrow> (case lookupRoute (dg_destAddress dg) s of
                    (s1, None) \<Rightarrow> (s1, None) | (s1, Some re) \<Rightarrow> (s1, r_interface re)))
         in outcome_bind (checkRule True dg iface s') (\<lambda>r. Inr (s', r)))
      else Inr (s, None))"

definition checkOutputRuleMulticast :: "IPv4Datagram \<Rightarrow> IPv4 \<Rightarrow> IPv4RouteRule option outcome" where
  "checkOutputRuleMulticast dg s =
     (if 0 < getNumRules (ip_rt s) True then checkRule True dg None s else Inr None)"

definition isDropRule :: "IPv4RouteRule option \<Rightarrow> bool" where
  "isDropRule r \<longleftrightarrow> (case r of None \<Rightarrow> False | Some e \<Rightarrow> rule_rule e = RULE_DROP)"

section \<open>Routing\<close>

text \<open>
  The route scheduler of the mobility-aware extension returns the forwarder it is given, so it does
  not appear.
\<close>

definition routeUnicastPacketFinish :: "IPv4Datagram \<Rightarrow> nat \<Rightarrow> IPv4Address \<Rightarrow> IPv4 \<Rightarrow> IPv4 outcome" where
  "routeUnicastPacketFinish dg destIE nextHop s =
     fragmentPostRouting dg destIE nextHop (s\<lparr>ip_numForwarded := ip_numForwarded s + 1\<rparr>)"

text \<open>The output interface and the next hop of a unicast datagram.\<close>

definition chooseNextHop ::
    "IPv4Address \<Rightarrow> nat option \<Rightarrow> IPv4Address \<Rightarrow> IPv4 \<Rightarrow> (IPv4 \<times> nat option \<times> IPv4Address) outcome" where
  "chooseNextHop destAddr destIE requestedNextHop s =
     (case destIE of
        Some i \<Rightarrow>
          if \<not> IPv4Address_isUnspecified requestedNextHop then Inr (s, Some i, requestedNextHop)
          else outcome_bind (ifaceOf s i) (\<lambda>ie.
            if ie_broadcast ie then
              (case lookupRoute destAddr s of
                 (s', None) \<Rightarrow> Inr (s', Some i, 0)
               | (s', Some re) \<Rightarrow> Inr (s', Some i, if r_interface re = Some i then r_gateway re else 0))
            else Inr (s, Some i, 0))
      | None \<Rightarrow>
          (case lookupRoute destAddr s of
             (s', None) \<Rightarrow> Inr (s', None, 0)
           | (s', Some re) \<Rightarrow> Inr (s', r_interface re, r_gateway re)))"

definition routeUnicastPacket ::
    "IPv4Datagram \<Rightarrow> nat option \<Rightarrow> nat option \<Rightarrow> IPv4Address \<Rightarrow> IPv4 \<Rightarrow> IPv4 outcome" where
  "routeUnicastPacket dg fromIE destIE requestedNextHop s =
     outcome_bind (checkOutputRule dg destIE s) (\<lambda>(s1, rule).
       if isDropRule rule then Inr (s1\<lparr>ip_numDropped := ip_numDropped s1 + 1\<rparr>)
       else outcome_bind (chooseNextHop (dg_destAddress dg) destIE requestedNextHop s1) (\<lambda>(s2, outIE, nextHop).
         case outIE of
           None \<Rightarrow>
             IPv4_icmpError dg (case fromIE of None \<Rightarrow> -1 | Some i \<Rightarrow> int i) ICMP_DESTINATION_UNREACHABLE 0
               (s2\<lparr>ip_numUnroutable := ip_numUnroutable s2 + 1\<rparr>)
         | Some i \<Rightarrow>
             if fromIE = None then routeUnicastPacketFinish dg i nextHop s2
             else (case datagramHook FORWARD dg fromIE (Some i) nextHop s2 of
                     (s3, None) \<Rightarrow> Inr s3
                   | (s3, Some (dg', None, nextHop')) \<Rightarrow> Inl (UndefinedBehaviour ''destIE is NULL'')
                   | (s3, Some (dg', Some i', nextHop')) \<Rightarrow> routeUnicastPacketFinish dg' i' nextHop' s3)))"

fun broadcastOn :: "IPv4Datagram \<Rightarrow> nat list \<Rightarrow> IPv4 \<Rightarrow> IPv4 outcome" where
  "broadcastOn dg [] s = Inr s"
| "broadcastOn dg (i # is) s = outcome_bind (fragmentPostRouting dg i 0xFFFFFFFF s) (broadcastOn dg is)"

definition routeLocalBroadcastPacket :: "IPv4Datagram \<Rightarrow> nat option \<Rightarrow> IPv4 \<Rightarrow> IPv4 outcome" where
  "routeLocalBroadcastPacket dg destIE s =
     (case destIE of
        Some i \<Rightarrow> fragmentPostRouting dg i 0xFFFFFFFF s
      | None \<Rightarrow>
          if ip_forceBroadcast s then broadcastOn dg (map ie_id (rt_ift (ip_rt s))) s
          else Inr (s\<lparr>ip_numDropped := ip_numDropped s + 1\<rparr>))"

definition getShortestPathInterfaceToSource :: "IPv4Datagram \<Rightarrow> IPv4 \<Rightarrow> IPv4 \<times> nat option" where
  "getShortestPathInterfaceToSource dg s =
     (case getInterfaceForDestAddr (ip_now s) (ip_rt s) (dg_srcAddress dg) of (rt', r) \<Rightarrow> (s\<lparr>ip_rt := rt'\<rparr>, r))"

fun forwardOn :: "IPv4Datagram \<Rightarrow> nat \<Rightarrow> (nat \<times> bool) list \<Rightarrow> IPv4 \<Rightarrow> IPv4 outcome" where
  "forwardOn dg fromIE [] s = Inr s"
| "forwardOn dg fromIE ((i, leaf) # outs) s =
     (if i = fromIE then forwardOn dg fromIE outs s
      else outcome_bind (ifaceOf s i) (\<lambda>ie. outcome_bind (ipv4DataOf ie) (\<lambda>d.
        if dg_timeToLive dg \<le> ifd_multicastTtlThreshold d then forwardOn dg fromIE outs s
        else if leaf \<and> \<not> hasMulticastListener d (dg_destAddress dg) then forwardOn dg fromIE outs s
        else outcome_bind (fragmentPostRouting dg i (dg_destAddress dg) s) (forwardOn dg fromIE outs))))"

text \<open>
  Listeners of \<^verbatim>\<open>NF_IPv4_NEW_MULTICAST\<close> may add a route; the other notifications are
  not recorded.
\<close>

definition forwardMulticastPacket :: "IPv4Datagram \<Rightarrow> nat \<Rightarrow> IPv4 \<Rightarrow> IPv4 outcome" where
  "forwardMulticastPacket dg fromIE s0 =
     (if \<not> isMulticast (dg_destAddress dg) then Inl (AssertFailed ''destAddr.isMulticast()'')
      else if isLinkLocalMulticast (dg_destAddress dg) then Inl (AssertFailed ''!destAddr.isLinkLocalMulticast()'')
      else
        let s1 = s0\<lparr>ip_numMulticast := ip_numMulticast s0 + 1\<rparr>;
            look = (\<lambda>s. findBestMatchingMulticastRoute (ip_rt s) (dg_srcAddress dg) (dg_destAddress dg));
            s2 = (if look s1 = None then s1\<lparr>ip_rt := ip_onNewMulticast s1 dg (ip_rt s1)\<rparr> else s1)
        in case look s2 of
             None \<Rightarrow> Inr (s2\<lparr>ip_numUnroutable := ip_numUnroutable s2 + 1\<rparr>)
           | Some p \<Rightarrow>
               let route = mderef (ip_rt s2) p;
                   dropped = (\<lambda>s. s\<lparr>ip_numDropped := ip_numDropped s + 1\<rparr>);
                   go = (\<lambda>s. forwardOn dg fromIE (m_outInterfaces route) (s\<lparr>ip_numForwarded := ip_numForwarded s + 1\<rparr>))
               in case m_inInterface route of
                    Some i \<Rightarrow> if i \<noteq> fromIE then Inr (dropped s2) else go s2
                  | None \<Rightarrow>
                      (case getShortestPathInterfaceToSource dg s2 of
                         (s3, sp) \<Rightarrow> if sp \<noteq> Some fromIE then Inr (dropped s3) else go s3))"

section \<open>Datagrams from the network\<close>

definition preroutingFinish ::
    "IPv4Datagram \<Rightarrow> nat \<Rightarrow> nat option \<Rightarrow> IPv4Address \<Rightarrow> IPv4 \<Rightarrow> IPv4 outcome" where
  "preroutingFinish dg0 fromIE destIE nextHop s =
     (let dg = dg0\<lparr>dg_multicastLoop := None\<rparr>; destAddr = dg_destAddress dg in
      outcome_bind (ifaceOf s fromIE) (\<lambda>from.
      if ie_loopback from then reassembleAndDeliver dg s
      else if isMulticast destAddr then
        outcome_bind (ipv4DataOf from) (\<lambda>fromData.
        outcome_bind
          (if isMemberOfMulticastGroup fromData destAddr
              \<or> (rt_multicastForward (ip_rt s) \<and> dg_transportProtocol dg = IP_PROT_IGMP)
           then reassembleAndDeliver dg s else Inr s) (\<lambda>s1.
        if \<not> rt_IPForward (ip_rt s1) \<or> isLinkLocalMulticast destAddr then Inr s1
        else if dg_timeToLive dg = 0 then Inr s1
        else forwardMulticastPacket dg fromIE s1))
      else outcome_bind (isLocalAddress (ip_rt s) destAddr) (\<lambda>(rt1, isLocal).
        let s1 = s\<lparr>ip_rt := rt1\<rparr> in
        outcome_bind
          (if isLocal then Inr True
           else outcome_bind (ipv4DataOf from) (\<lambda>fromData. Inr (IPv4Address_isUnspecified (ifd_inetAddr fromData))))
          (\<lambda>accept.
        if accept then reassembleAndDeliver dg s1
        else outcome_bind
          (if isLimitedBroadcastAddress destAddr then Inr None
           else findInterfaceByLocalBroadcastAddress (ip_rt s1) destAddr) (\<lambda>broadcastIE.
        if isLimitedBroadcastAddress destAddr \<or> broadcastIE \<noteq> None then
          outcome_bind
            (case broadcastIE of
               Some b \<Rightarrow> if fromIE \<noteq> b \<and> rt_IPForward (ip_rt s1) then fragmentPostRouting dg b 0xFFFFFFFF s1 else Inr s1
             | None \<Rightarrow> Inr s1)
            (reassembleAndDeliver dg)
        else if \<not> rt_IPForward (ip_rt s1) then Inr (s1\<lparr>ip_numDropped := ip_numDropped s1 + 1\<rparr>)
        else routeUnicastPacket dg (Some fromIE) destIE nextHop s1)))))"

text \<open>
  \<open>headerHit\<close> is the random draw: whether a bit error hits the header.  The branch of rules that accept
  is kept, although \<open>setRule\<close> never makes one.
\<close>

definition handleIncomingDatagram :: "bool \<Rightarrow> IPv4Datagram \<Rightarrow> nat \<Rightarrow> IPv4 \<Rightarrow> IPv4 outcome" where
  "handleIncomingDatagram headerHit dg fromIE s =
     (if dg_bitError dg \<and> headerHit then IPv4_icmpError dg (int fromIE) ICMP_PARAMETER_PROBLEM 0 s
      else outcome_bind (checkInputRule dg s) (\<lambda>rule.
        if isDropRule rule then Inr (s\<lparr>ip_numDropped := ip_numDropped s + 1\<rparr>)
        else case rule of
          Some e \<Rightarrow>
            if rule_rule e = RULE_ACCEPT then
              (let dg' = dg\<lparr>dg_timeToLive := dg_timeToLive dg - 1\<rparr> in
               if \<not> isMulticast (dg_destAddress dg') then preroutingFinish dg' fromIE (rule_interface e) 0 s
               else forwardMulticastPacket dg' fromIE s)
            else
              (case datagramHook PREROUTING dg (Some fromIE) None 0 s of
                 (s', None) \<Rightarrow> Inr s' | (s', Some (dg', out, nh)) \<Rightarrow> preroutingFinish dg' fromIE out nh s')
        | None \<Rightarrow>
            (case datagramHook PREROUTING dg (Some fromIE) None 0 s of
               (s', None) \<Rightarrow> Inr s' | (s', Some (dg', out, nh)) \<Rightarrow> preroutingFinish dg' fromIE out nh s')))"

section \<open>Packets from higher layers\<close>

definition determineOutgoingInterfaceForMulticastDatagram ::
    "IPv4Datagram \<Rightarrow> nat option \<Rightarrow> IPv4 \<Rightarrow> (IPv4 \<times> nat option) outcome" where
  "determineOutgoingInterfaceForMulticastDatagram dg multicastIFOption s =
     (case multicastIFOption of
        Some i \<Rightarrow> Inr (s, Some i)
      | None \<Rightarrow>
          (let (s1, route) = lookupRoute (dg_destAddress dg) s in
           case Option.bind route r_interface of
             Some i \<Rightarrow> Inr (s1, Some i)
           | None \<Rightarrow>
               outcome_bind (getInterfaceByAddress (ip_rt s1) (dg_srcAddress dg)) (\<lambda>ie.
                 Inr (s1, case ie of Some i \<Rightarrow> Some i | None \<Rightarrow> getFirstMulticastInterface s1))))"

definition datagramLocalOut :: "IPv4Datagram \<Rightarrow> nat option \<Rightarrow> IPv4Address \<Rightarrow> IPv4 \<Rightarrow> IPv4 outcome" where
  "datagramLocalOut dg0 destIE requestedNextHop s =
     (let multicastLoop = (case dg_multicastLoop dg0 of None \<Rightarrow> True | Some b \<Rightarrow> b);
          dg = dg0\<lparr>dg_multicastLoop := None\<rparr>; destAddr = dg_destAddress dg;
          loopbackId = (\<lambda>s i. case iface_by_id (rt_ift (ip_rt s)) i of None \<Rightarrow> False | Some ie \<Rightarrow> ie_loopback ie)
      in if isMulticast destAddr then
           outcome_bind (determineOutgoingInterfaceForMulticastDatagram dg destIE s) (\<lambda>(s1, outIE).
           outcome_bind
             (if multicastLoop \<and> (case outIE of None \<Rightarrow> True | Some i \<Rightarrow> \<not> loopbackId s1 i) then
                (case getFirstLoopbackInterface s1 of
                   None \<Rightarrow> Inr s1 | Some lo \<Rightarrow> fragmentPostRouting dg lo destAddr s1)
              else Inr s1) (\<lambda>s2.
           case outIE of
             Some i \<Rightarrow> fragmentPostRouting dg i destAddr (s2\<lparr>ip_numMulticast := ip_numMulticast s2 + 1\<rparr>)
           | None \<Rightarrow> Inr (s2\<lparr>ip_numUnroutable := ip_numUnroutable s2 + 1\<rparr>)))
         else outcome_bind (isLocalAddress (ip_rt s) destAddr) (\<lambda>(rt1, isLocal).
           let s1 = s\<lparr>ip_rt := rt1\<rparr> in
           if isLocal then
             (let kept = (case destIE of None \<Rightarrow> None | Some i \<Rightarrow> if loopbackId s1 i then Some i else None);
                  outIE = (case kept of None \<Rightarrow> getFirstLoopbackInterface s1 | Some i \<Rightarrow> Some i)
              in if outIE = None then Inl (AssertFailed ''destIE'')
                 else routeUnicastPacket dg None outIE destAddr s1)
           else outcome_bind
             (if isLimitedBroadcastAddress destAddr then Inr (ip_rt s1, True)
              else isLocalBroadcastAddress (ip_rt s1) destAddr) (\<lambda>(rt2, isBroadcast).
             let s2 = s1\<lparr>ip_rt := rt2\<rparr> in
             if isBroadcast then routeLocalBroadcastPacket dg destIE s2
             else routeUnicastPacket dg None destIE requestedNextHop s2)))"

definition IPv4_encapsulate :: "Payload \<Rightarrow> IPv4ControlInfo \<Rightarrow> IPv4 \<Rightarrow> (IPv4 \<times> IPv4Datagram) outcome" where
  "IPv4_encapsulate packet ci s =
     outcome_bind
       (if IPv4Address_isUnspecified (ci_srcAddr ci) then Inr ()
        else outcome_bind (getInterfaceByAddress (ip_rt s) (ci_srcAddr ci)) (\<lambda>ie.
          if ie = None then Inl (RuntimeError ''Wrong source address: no interface with such address'') else Inr ())) (\<lambda>_.
     let dest = ci_destAddr ci;
         ttl = (if 0 < ci_timeToLive ci then ci_timeToLive ci
                else if isLinkLocalMulticast dest then 1
                else if isMulticast dest then ip_defaultMCTimeToLive s
                else ip_defaultTimeToLive s);
         blank = \<lparr>dg_byteLength = 20, dg_headerLength = 20, dg_srcAddress = ci_srcAddr ci, dg_destAddress = dest,
                  dg_transportProtocol = ci_protocol ci, dg_timeToLive = ttl, dg_identification = ip_curFragmentId s,
                  dg_moreFragments = False, dg_dontFragment = ci_dontFragment ci, dg_fragmentOffset = 0,
                  dg_typeOfService = ci_typeOfService ci, dg_totalPayloadLength = 0, dg_encapsulatedPacket = None,
                  dg_bitError = False, dg_arrivalGate = None, dg_multicastLoop = None\<rparr>
     in Inr (s\<lparr>ip_curFragmentId := ip_curFragmentId s + 1\<rparr>, dg_encapsulate packet blank))"

text \<open>A higher layer sends a packet with control info, or a datagram that is routed as it is.\<close>

datatype HLPacket = HL_Datagram IPv4Datagram | HL_Packet Payload IPv4ControlInfo

definition handlePacketFromHL :: "HLPacket \<Rightarrow> IPv4 \<Rightarrow> IPv4 outcome" where
  "handlePacketFromHL packet s =
     (if rt_ift (ip_rt s) = [] then Inr (s\<lparr>ip_numDropped := ip_numDropped s + 1\<rparr>)
      else outcome_bind
        (case packet of
           HL_Datagram dg \<Rightarrow> Inr (s, dg, None)
         | HL_Packet p ci \<Rightarrow>
             outcome_bind (IPv4_encapsulate p ci s) (\<lambda>(s', dg).
               Inr (s', dg\<lparr>dg_multicastLoop := Some (ci_multicastLoop ci)\<rparr>,
                    map_option ie_id (getInterfaceById (ip_rt s') (ci_interfaceId ci))))) (\<lambda>(s1, dg, destIE).
        case datagramHook LOCALOUT dg None destIE 0 s1 of
          (s2, None) \<Rightarrow> Inr s2
        | (s2, Some (dg', destIE', nextHop)) \<Rightarrow> datagramLocalOut dg' destIE' nextHop s2))"

section \<open>Queued datagrams, dispatch and lifecycle\<close>

text \<open>A queued datagram is named by its position in the queue instead of its pointer.\<close>

definition dropQueuedDatagram :: "nat \<Rightarrow> IPv4 \<Rightarrow> IPv4" where
  "dropQueuedDatagram k s =
     (if k < length (ip_queuedDatagramsForHooks s)
      then s\<lparr>ip_queuedDatagramsForHooks := erase_at k (ip_queuedDatagramsForHooks s)\<rparr> else s)"

definition continueQueued :: "QueuedDatagramForHook \<Rightarrow> IPv4 \<Rightarrow> IPv4 outcome" where
  "continueQueued q s =
     (let need = (\<lambda>ie f. case ie of None \<Rightarrow> Inl (UndefinedBehaviour ''interface is NULL'') | Some i \<Rightarrow> f i) in
      case qd_hookType q of
        LOCALOUT \<Rightarrow> datagramLocalOut (qd_datagram q) (qd_outIE q) (qd_nextHopAddr q) s
      | PREROUTING \<Rightarrow> need (qd_inIE q) (\<lambda>i. preroutingFinish (qd_datagram q) i (qd_outIE q) (qd_nextHopAddr q) s)
      | POSTROUTING \<Rightarrow> need (qd_outIE q) (\<lambda>i. fragmentAndSend (qd_datagram q) i (qd_nextHopAddr q) s)
      | LOCALIN \<Rightarrow> reassembleAndDeliverFinish (qd_datagram q) s
      | FORWARD \<Rightarrow> need (qd_outIE q) (\<lambda>i. routeUnicastPacketFinish (qd_datagram q) i (qd_nextHopAddr q) s))"

definition reinjectQueuedDatagram :: "nat \<Rightarrow> IPv4 \<Rightarrow> IPv4 outcome" where
  "reinjectQueuedDatagram k s =
     (if k < length (ip_queuedDatagramsForHooks s)
      then outcome_bind (continueQueued (ip_queuedDatagramsForHooks s ! k) s) (\<lambda>s'. Inr (dropQueuedDatagram k s'))
      else Inr s)"

datatype IPMessage = FromTransport HLPacket | FromARP ARPPacket nat MACAddress
  | ArpFromNetwork ARPPacket nat | FromNetwork bool IPv4Datagram

definition endService :: "IPMessage \<Rightarrow> IPv4 \<Rightarrow> IPv4 outcome" where
  "endService msg s =
     (if \<not> ip_isUp s then Inr s
      else case msg of
        FromTransport p \<Rightarrow> handlePacketFromHL p s
      | FromARP p i mac \<Rightarrow> Inr (emit (ArpToNIC i p mac) s)
      | ArpFromNetwork p i \<Rightarrow> Inr (emit (ToArp p i) s)
      | FromNetwork hit dg \<Rightarrow>
          (case getSourceInterfaceFrom s dg of
             None \<Rightarrow> Inl (AssertFailed ''fromIE'')
           | Some i \<Rightarrow> handleIncomingDatagram hit dg i s))"

definition IPv4_registerProtocol :: "int \<Rightarrow> int \<Rightarrow> IPv4 \<Rightarrow> IPv4 outcome" where
  "IPv4_registerProtocol protocol gateIndex s =
     outcome_bind (addProtocolMapping protocol gateIndex (ip_mapping s)) (\<lambda>m. Inr (s\<lparr>ip_mapping := m\<rparr>))"

definition IPv4_start :: "IPv4 \<Rightarrow> IPv4" where
  "IPv4_start s = s\<lparr>ip_isUp := True\<rparr>"

definition IPv4_stop :: "IPv4 \<Rightarrow> IPv4" where
  "IPv4_stop s = s\<lparr>ip_isUp := False, ip_pendingPackets := []\<rparr>"

definition IPv4_arpPacket :: "ARPPacket \<Rightarrow> nat \<Rightarrow> IPv4 \<Rightarrow> IPv4 outcome" where
  "IPv4_arpPacket p i s =
     outcome_bind (ARP_handlePacket (ip_now s) (ip_rt s) p i (ip_arp s)) (\<lambda>(rt', r). Inr (arpRan r (s\<lparr>ip_rt := rt'\<rparr>)))"

definition IPv4_arpTimer :: "IPv4Address \<Rightarrow> IPv4 \<Rightarrow> IPv4 outcome" where
  "IPv4_arpTimer addr s =
     outcome_bind (ARP_handleTimer (ip_now s) (ip_rt s) addr (ip_arp s)) (\<lambda>r. Inr (arpRan r s))"

section \<open>A small node for examples\<close>

definition example_iface :: "int \<Rightarrow> InterfaceEntry" where
  "example_iface mtu = \<lparr>ie_id = 1, ie_nwLayerGateIndex = 0, ie_mtu = mtu, ie_broadcast = False,
     ie_multicast = False, ie_loopback = False, ie_macAddr = 0,
     ie_ipv4Data = Some (IPv4InterfaceData_new\<lparr>ifd_inetAddr := 0x0A000001\<rparr>)\<rparr>"

definition example_arp :: ARP where
  "example_arp = \<lparr>arp_self = 0, arp_retryTimeout = 1000, arp_retryCount = 3, arp_cacheTimeout = 120000,
     arp_respondToProxyARP = False, arp_globalARP = False, arp_deletePackets = False, arp_isUp = True,
     arp_numResolutions = 0, arp_numFailedResolutions = 0, arp_numRequestsSent = 0, arp_numRepliesSent = 0,
     arp_cache = [], arp_globalCache = []\<rparr>"

definition example_node :: "InterfaceEntry list \<Rightarrow> IPv4" where
  "example_node ift = \<lparr>ip_now = 0, ip_rt = rt_empty ift, ip_arp = example_arp, ip_pingMap = [],
     ip_defaultTimeToLive = 32, ip_defaultMCTimeToLive = 32, ip_fragmentTimeoutTime = 60000,
     ip_forceBroadcast = False, ip_useProxyARP = True, ip_isDsr = False, ip_isUp = True,
     ip_curFragmentId = 0, ip_fragbuf = [], ip_lastCheckTime = 0, ip_mapping = [], ip_connected = (\<lambda>_. True),
     ip_pendingPackets = [], ip_numMulticast = 0, ip_numLocalDeliver = 0, ip_numDropped = 0,
     ip_numUnroutable = 0, ip_numForwarded = 0, ip_hooks = [], ip_queuedDatagramsForHooks = [],
     ip_onNewMulticast = (\<lambda>_ rt. rt), ip_out = []\<rparr>"

end
