(* ===== verification/IPv4_Fragmentation.thy ===== *)
theory IPv4_Fragmentation
  imports IPv4_Module
begin

text \<open>
  Fragmentation by \<^verbatim>\<open>IPv4::fragmentAndSend\<close> and reassembly by
  \<^verbatim>\<open>IPv4::reassembleAndDeliver\<close> taken together: the fragments of a datagram, received in
  any order and with repetitions, give the datagram back.
\<close>

section \<open>The fragments that are sent\<close>

function offsetsFrom :: "int \<Rightarrow> int \<Rightarrow> int \<Rightarrow> int list" where
  "offsetsFrom n fl off = (if off < n \<and> 0 < fl then off # offsetsFrom n fl (off + fl) else [])"
  by pat_completeness auto
termination
  by (relation "measure (\<lambda>(n, fl, off). nat (n - off))") auto

declare offsetsFrom.simps [simp del]

lemma set_offsetsFrom:
  "0 < fl \<Longrightarrow> set (offsetsFrom n fl off) = {b. off \<le> b \<and> b < n \<and> fl dvd b - off}"
proof (induction n fl off rule: offsetsFrom.induct)
  case (1 n fl off)
  show ?case
  proof (cases "off < n")
    case True
    have "off \<le> b \<and> fl dvd b - off \<longleftrightarrow> b = off \<or> off + fl \<le> b \<and> fl dvd b - (off + fl)" for b
    proof -
      have *: "fl dvd b - (off + fl) \<longleftrightarrow> fl dvd b - off"
        using dvd_diff_left_iff [of fl fl "b - off"] by (simp add: diff_diff_eq)
      have "b = off \<or> off + fl \<le> b" if "off \<le> b" "fl dvd b - off"
        using zdvd_imp_le [OF that(2)] that(1) by linarith
      with * 1(2) show ?thesis by auto
    qed
    with 1 True show ?thesis
      by (subst offsetsFrom.simps) auto
  next
    case False
    then show ?thesis by (subst offsetsFrom.simps) auto
  qed
qed

definition fragments :: "IPv4Datagram \<Rightarrow> Payload \<Rightarrow> int \<Rightarrow> IPv4Datagram list" where
  "fragments dg p fl = map (fragmentAt dg p fl) (offsetsFrom (pl_byteLength p) fl 0)"

definition point_to_point :: "InterfaceEntry \<Rightarrow> bool" where
  "point_to_point ie \<longleftrightarrow> \<not> (ie_broadcast ie \<and> \<not> MACAddress_isUnspecified (ie_macAddr ie))"

lemma ifaceOf_out [simp]: "ifaceOf (s\<lparr>ip_out := out\<rparr>) i = ifaceOf s i"
  by (simp add: ifaceOf_def)

lemma fragmentLoop_sends:
  assumes "point_to_point ie"
  shows "ifaceOf s i = Inr ie \<Longrightarrow> 0 < fl \<Longrightarrow> fragmentLoop dg p fl off i nextHop s =
    Inr (s\<lparr>ip_out := ip_out s @ map (\<lambda>b. ToNIC i None (fragmentAt dg p fl b)) (offsetsFrom (pl_byteLength p) fl off)\<rparr>)"
proof (induction "pl_byteLength p" fl off arbitrary: s rule: offsetsFrom.induct)
  case (1 fl off)
  have send: "sendDatagramToOutput d i nextHop s = Inr (s\<lparr>ip_out := ip_out s @ [ToNIC i None d]\<rparr>)" for d
    using 1(2) assms
    by (simp add: sendDatagramToOutput_def point_to_point_def sendPacketToNIC_def emit_def)
  show ?case
    using 1(1) [of "s\<lparr>ip_out := ip_out s @ [ToNIC i None (fragmentAt dg p fl off)]\<rparr>"] 1(2,3) send
    by (cases "off < pl_byteLength p")
      (simp_all add: fragmentLoop.simps [of dg p fl off] offsetsFrom.simps [of _ fl off])
qed

text \<open>The datagram that a fragment gives once the length of its payload is restored.\<close>

definition whole :: "IPv4Datagram \<Rightarrow> Payload \<Rightarrow> bool" where
  "whole dg p \<longleftrightarrow> dg_encapsulatedPacket dg = Some p \<and> dg_byteLength dg = dg_headerLength dg + pl_byteLength p
     \<and> dg_fragmentOffset dg = 0 \<and> \<not> dg_moreFragments dg
     \<and> dg_totalPayloadLength dg = pl_byteLength p \<and> 0 \<le> dg_headerLength dg \<and> 0 < pl_byteLength p \<and> pl_byteLength p < 2 ^ 16"

definition stripped :: "IPv4Datagram \<Rightarrow> IPv4Datagram" where
  "stripped dg = dg\<lparr>dg_encapsulatedPacket := None, dg_byteLength := dg_headerLength dg\<rparr>"

definition piece :: "IPv4Datagram \<Rightarrow> Payload \<Rightarrow> int \<Rightarrow> int \<Rightarrow> IPv4Datagram" where
  "piece dg p fl b =
     dg\<lparr>dg_byteLength := dg_headerLength dg + min fl (pl_byteLength p - b),
        dg_moreFragments := (b + fl < pl_byteLength p), dg_fragmentOffset := b\<rparr>"

lemma restorePayload_fragment:
  assumes "whole dg p" "0 \<le> b" "b < pl_byteLength p" "0 < fl" "fl < pl_byteLength p"
  shows "restorePayload (fragmentAt (stripped dg) p fl b) = Inr (piece dg p fl b)"
  using assms
  by (cases dg, cases p)
    (auto simp: restorePayload_def fragmentAt_def stripped_def piece_def whole_def dg_encapsulate_def
      dg_decapsulate_def Let_def min_def)

lemma piece_fields [simp]:
  "dg_fragmentOffset (piece dg p fl b) = b" "dg_headerLength (piece dg p fl b) = dg_headerLength dg"
  "frag_key (piece dg p fl b) = frag_key dg"
  by (simp_all add: piece_def frag_key_def)

lemma piece_region:
  "frag_region (piece dg p fl b) =
     \<lparr>reg_beg = word_of_int b, reg_end = word_of_int (min (b + fl) (pl_byteLength p)),
      reg_islast = (pl_byteLength p \<le> b + fl)\<rparr>"
  by (auto simp: frag_region_def piece_def min_def Let_def)

lemma genuine_piece:
  assumes "whole dg p" "0 \<le> b" "b < pl_byteLength p" "0 < fl" "fl < pl_byteLength p"
  shows "genuine_fragment (piece dg p fl b)"
  using assms by (auto simp: genuine_fragment_def piece_def whole_def min_def)

lemma word_of_int_le:
  "0 \<le> a \<Longrightarrow> a \<le> b \<Longrightarrow> b < 2 ^ LENGTH('a) \<Longrightarrow> (word_of_int a :: 'a::len word) \<le> word_of_int b"
  by (simp add: word_le_def uint_word_of_int_eq take_bit_int_eq_self)

lemma multiples_apart:
  fixes a b fl :: int
  assumes "fl dvd a" "fl dvd b" "a < b" "0 < fl"
  shows "a + fl \<le> b"
  using zdvd_imp_le [of fl "b - a"] assms by (simp add: dvd_diff)

definition offset_in :: "int \<Rightarrow> int \<Rightarrow> int \<Rightarrow> bool" where
  "offset_in n fl b \<longleftrightarrow> 0 \<le> b \<and> b < n \<and> fl dvd b"

lemma pieces_fragmentation:
  assumes w: "whole dg p" and fl: "0 < fl" and B: "\<And>b. b \<in> B \<Longrightarrow> offset_in (pl_byteLength p) fl b"
  shows "fragmentation (word_of_int (pl_byteLength p)) ((\<lambda>b. frag_region (piece dg p fl b)) ` B)"
proof -
  let ?n = "pl_byteLength p"
  have n: "0 < ?n" "?n < 2 ^ LENGTH(16)" using w by (auto simp: whole_def)
  have f: "fragment_of (word_of_int ?n) (frag_region (piece dg p fl b))" if "b \<in> B" for b
  proof -
    have b: "0 \<le> b" "b < ?n" using B [OF that] by (auto simp: offset_in_def)
    then have e: "b < min (b + fl) ?n" using fl by auto
    have "(word_of_int (min (b + fl) ?n) :: u16) = word_of_int ?n \<longleftrightarrow> ?n \<le> b + fl"
      using word_of_int_less [of "min (b + fl) ?n" ?n, where 'a = 16] b n fl e by (cases "?n \<le> b + fl") auto
    then show ?thesis
      using word_of_int_less [of b "min (b + fl) ?n", where 'a = 16]
        word_of_int_le [of "min (b + fl) ?n" ?n, where 'a = 16] b e n fl
      by (auto simp: fragment_of_def piece_region)
  qed
  have a: "aligned (frag_region (piece dg p fl b)) (frag_region (piece dg p fl c))" if "b \<in> B" "c \<in> B" for b c
  proof -
    have le: "(word_of_int (min (x + fl) ?n) :: u16) \<le> word_of_int y"
      if "offset_in ?n fl x" "offset_in ?n fl y" "x < y" for x y
      using that multiples_apart [of fl x y] word_of_int_le [of "min (x + fl) ?n" y, where 'a = 16] n fl
      by (auto simp: offset_in_def min_def)
    show ?thesis
      using le B that by (cases b c rule: linorder_cases) (auto simp: aligned_def piece_region)
  qed
  show ?thesis
    using f a word_of_int_less [of 0 ?n, where 'a = 16] n by (auto simp: fragmentation_def)
qed

lemma piece_covers:
  assumes w: "whole dg p" and fl: "0 < fl" and b: "offset_in (pl_byteLength p) fl b"
    and x: "uint x < pl_byteLength p"
  shows "x \<in> region_bytes (frag_region (piece dg p fl b)) \<longleftrightarrow> b = uint x div fl * fl"
proof -
  let ?n = "pl_byteLength p"
  have n: "?n < 2 ^ LENGTH(16)" using w by (auto simp: whole_def)
  have "x \<in> region_bytes (frag_region (piece dg p fl b)) \<longleftrightarrow> b \<le> uint x \<and> uint x < min (b + fl) ?n"
    using b n fl by (auto simp: region_bytes_def piece_region word_le_def word_less_def uint_word_of_int_eq
        take_bit_int_eq_self offset_in_def)
  also have "\<dots> \<longleftrightarrow> b \<le> uint x \<and> uint x < b + fl" using x by auto
  also have "\<dots> \<longleftrightarrow> b = uint x div fl * fl"
  proof -
    obtain c where c: "b = c * fl" using b by (auto simp: offset_in_def dvd_def mult.commute)
    have "uint x div fl = c" if "c * fl \<le> uint x \<and> uint x < c * fl + fl"
      using that by (intro int_div_pos_eq [of _ _ _ "uint x - c * fl"]) (auto simp: mult.commute)
    moreover have "uint x div fl * fl \<le> uint x \<and> uint x < uint x div fl * fl + fl"
      using div_mult_mod_eq [of "uint x" fl] pos_mod_bound [OF fl, of "uint x"] pos_mod_sign [OF fl, of "uint x"]
      by linarith
    ultimately show ?thesis using c fl by auto
  qed
  finally show ?thesis .
qed


section \<open>Reception\<close>

text \<open>A list of datagrams handed to reassembly, each at its time.\<close>

fun reassembleAll :: "(IPv4Datagram \<times> simtime) list \<Rightarrow> IPv4 \<Rightarrow> (IPv4 \<times> IPv4Datagram option list) outcome" where
  "reassembleAll [] s = Inr (s, [])"
| "reassembleAll ((dg, t) # es) s =
     outcome_bind (reassemble dg (s\<lparr>ip_now := t\<rparr>)) (\<lambda>(s1, out).
       outcome_bind (reassembleAll es s1) (\<lambda>(s2, outs). Inr (s2, out # outs)))"

text \<open>Without a purge on the way, reassembly is the fragment buffer on the restored fragments.\<close>

lemma reassembleAll_fb_run:
  assumes "\<And>dg t. (dg, t) \<in> set es \<Longrightarrow>
      restorePayload dg = Inr (g dg) \<and> genuine_fragment (g dg) \<and> t < ip_lastCheckTime s + 10000
      \<and> dg_fragmentOffset dg = dg_fragmentOffset (g dg) \<and> dg_moreFragments dg = dg_moreFragments (g dg)"
    and "fb_run (ip_fragbuf s) (map (\<lambda>(dg, t). (g dg, t)) es) = Inr (b, outs)"
  shows "\<exists>s'. reassembleAll es s = Inr (s', outs) \<and> ip_fragbuf s' = b"
  using assms
proof (induction es arbitrary: s outs)
  case (Cons e es)
  obtain dg t where e: "e = (dg, t)" by fastforce
  obtain b1 o1 outs1 where step: "IPv4FragBuf_addFragment (ip_fragbuf s) (g dg) t = Inr (b1, o1)"
    and rest: "fb_run b1 (map (\<lambda>(dg, t). (g dg, t)) es) = Inr (b, outs1)" and outs: "outs = o1 # outs1"
    using Cons.prems(2) e by auto
  let ?s = "s\<lparr>ip_now := t, ip_fragbuf := b1\<rparr>"
  have "reassemble dg (s\<lparr>ip_now := t\<rparr>) = Inr (?s, o1)"
    using Cons.prems(1) [of dg t] step e by (auto simp: reassemble_def genuine_fragment_def)
  with Cons.IH [of ?s outs1] Cons.prems(1) rest e outs show ?case by auto
qed simp

lemma set_fragments: "0 < fl \<Longrightarrow> set (fragments dg p fl) = fragmentAt dg p fl ` {b. offset_in (pl_byteLength p) fl b}"
  by (auto simp: fragments_def set_offsetsFrom offset_in_def)

lemma fragmentAt_fields [simp]:
  "dg_fragmentOffset (fragmentAt dg p fl b) = dg_fragmentOffset dg + b"
  "dg_moreFragments (fragmentAt dg p fl b) \<longleftrightarrow> b + fl < pl_byteLength p \<or> dg_moreFragments dg"
  by (auto simp: fragmentAt_def dg_encapsulate_def Let_def)

lemma uint_below: "0 \<le> n \<Longrightarrow> n < 2 ^ 16 \<Longrightarrow> (x :: u16) < word_of_int n \<longleftrightarrow> uint x < n"
  by (simp add: word_less_def uint_word_of_int_eq take_bit_int_eq_self)

lemma pieces_cover:
  assumes w: "whole dg p" and fl: "0 < fl" and B: "B \<subseteq> {b. offset_in (pl_byteLength p) fl b}"
  shows "covered ((\<lambda>b. frag_region (piece dg p fl b)) ` B) = {0 ..< word_of_int (pl_byteLength p)}
    \<longleftrightarrow> B = {b. offset_in (pl_byteLength p) fl b}"
proof -
  let ?n = "pl_byteLength p" and ?r = "\<lambda>b. frag_region (piece dg p fl b)"
  have n: "0 \<le> ?n" "?n < 2 ^ 16" using w by (auto simp: whole_def)
  have sub: "covered (?r ` B) \<subseteq> {0 ..< word_of_int ?n}"
    using B by (intro covered_bound [OF pieces_fragmentation [OF w fl]]) auto
  have x: "x \<in> covered (?r ` B) \<longleftrightarrow> uint x div fl * fl \<in> B" if "uint x < ?n" for x
    using piece_covers [OF w fl _ that] B by (auto simp: covered_def)
  have off: "offset_in ?n fl (uint x div fl * fl)" if "uint x < ?n" for x :: u16
  proof -
    have "uint x div fl * fl \<le> uint x"
      using div_mult_mod_eq [of "uint x" fl] pos_mod_sign [OF fl, of "uint x"] by linarith
    with that fl show ?thesis by (auto simp: offset_in_def pos_imp_zdiv_nonneg_iff)
  qed
  show ?thesis
  proof
    assume c: "covered (?r ` B) = {0 ..< word_of_int ?n}"
    have "b \<in> B" if b: "offset_in ?n fl b" for b
    proof -
      have u: "uint (word_of_int b :: u16) = b"
        using b n by (simp add: offset_in_def uint_word_of_int_eq take_bit_int_eq_self)
      have "word_of_int b \<in> covered (?r ` B)"
        unfolding c using b u n uint_below [of ?n "word_of_int b"] by (auto simp: offset_in_def)
      then show ?thesis using x [of "word_of_int b"] b u by (auto simp: offset_in_def)
    qed
    with B show "B = {b. offset_in ?n fl b}" by auto
  next
    assume "B = {b. offset_in ?n fl b}"
    then have "y \<in> covered (?r ` B)" if "y \<in> {0 ..< word_of_int ?n}" for y
      using that off [of y] x [of y] uint_below [OF n, of y] by auto
    with sub show "covered (?r ` B) = {0 ..< word_of_int ?n}" by blast
  qed
qed

abbreviation pieces :: "IPv4Datagram \<Rightarrow> Payload \<Rightarrow> int \<Rightarrow> (int \<times> simtime) list \<Rightarrow> (IPv4Datagram \<times> simtime) list" where
  "pieces dg p fl es \<equiv> map (\<lambda>(b, t). (piece dg p fl b, t)) es"

lemma regions_of_pieces:
  "regions_of_key (frag_key dg) (pieces dg p fl es) = (\<lambda>b. frag_region (piece dg p fl b)) ` fst ` set es"
proof (induction es)
  case (Cons e es)
  then show ?case by (cases e) simp
qed simp

lemma all_None: "length outs = length es \<Longrightarrow> \<forall>(e, out) \<in> set (zip es outs). out = None \<Longrightarrow> outs = replicate (length es) None"
  by (induction outs es rule: list_induct2) auto

lemma piece_completed:
  assumes "whole dg p" "uint (word_of_int (pl_byteLength p) :: u16) = pl_byteLength p"
    and "completes_one_of (range (piece dg p fl)) (Some r)" "reassembled k (word_of_int (pl_byteLength p)) r"
  shows "r = dg"
  using assms by (cases dg) (auto simp: completes_one_of_def reassembled_def piece_def whole_def)

text \<open>The restored fragments, in any order and with repetitions, until none is missing.\<close>

lemma pieces_delivered:
  assumes w: "whole dg p" and fl: "0 < fl" "fl < pl_byteLength p"
    and all: "insert b (fst ` set es) = {b. offset_in (pl_byteLength p) fl b}" and last: "b \<notin> fst ` set es"
    and absent: "smap_find bufs (frag_key dg) = None"
  shows "\<exists>bufs'. fb_run bufs (pieces dg p fl (es @ [(b, t)])) = Inr (bufs', replicate (length es) None @ [Some dg])
    \<and> smap_find bufs' (frag_key dg) = None"
proof -
  let ?L = "word_of_int (pl_byteLength p) :: u16" and ?es = "pieces dg p fl es" and ?k = "frag_key dg"
  let ?O = "{b. offset_in (pl_byteLength p) fl b}" and ?D = "range (piece dg p fl)"
  have r': "regions_of_key ?k (?es @ [(piece dg p fl b, t)]) = (\<lambda>b. frag_region (piece dg p fl b)) ` ?O"
    unfolding all [symmetric] by (simp add: regions_of_pieces)
  have "offset_in (pl_byteLength p) fl b'" if "b' \<in> insert b (fst ` set es)" for b'
    using that unfolding all by simp
  then have "genuine_fragment (piece dg p fl b')" if "b' \<in> insert b (fst ` set es)" for b'
    using that genuine_piece [OF w _ _ fl] unfolding offset_in_def by blast
  then have gen: "\<forall>e \<in> set (?es @ [(piece dg p fl b, t)]). genuine_fragment (fst e)"
    by (fastforce simp: image_iff)
  have missing: "covered (regions_of_key ?k ?es) \<noteq> {0 ..< ?L}"
    using pieces_cover [OF w fl(1), of "fst ` set es"] all last unfolding regions_of_pieces by blast
  have complete: "covered (regions_of_key ?k (?es @ [(piece dg p fl b, t)])) = {0 ..< ?L}"
    using pieces_cover [OF w fl(1), of ?O] unfolding r' by simp
  have frag: "fragmentation ?L (regions_of_key ?k (?es @ [(piece dg p fl b, t)]))"
    unfolding r' by (rule pieces_fragmentation [OF w fl(1)]) simp
  obtain bufs' outs r where run: "fb_run bufs (?es @ [(piece dg p fl b, t)]) = Inr (bufs', outs @ [Some r])"
    and none: "\<forall>(e, out') \<in> set (zip ?es outs). frag_key (fst e) = ?k \<longrightarrow> out' = None"
    and len: "length outs = length ?es" and res: "reassembled ?k ?L r" and gone: "smap_find bufs' ?k = None"
    using fb_run_delivers [OF absent gen piece_fields(3) frag missing complete] by blast
  have "\<forall>(e, out') \<in> set (zip ?es outs). out' = None"
  proof clarify
    fix d t' out' assume z: "((d, t'), out') \<in> set (zip ?es outs)"
    then have "(d, t') \<in> set ?es" by (rule set_zip_leftD)
    then have "frag_key d = ?k" by auto
    with none z show "out' = None" by fastforce
  qed
  then have outs: "outs = replicate (length es) None"
    using all_None [OF len] by simp
  have "\<forall>e \<in> set (?es @ [(piece dg p fl b, t)]). fst e \<in> ?D" by auto
  then have "completes_one_of ?D (Some r)"
    using fb_run_holds [OF run, of ?D ?k] absent len by (simp add: holds_one_of_def)
  then have "r = dg"
    using piece_completed [OF w _ _ res] w by (simp add: whole_def uint_word_of_int_eq take_bit_int_eq_self)
  with run outs gone show ?thesis by auto
qed

text \<open>
  The fragments of a datagram, in any order and with repetitions, up to the first moment at which
  each has been received.
\<close>

lemma fragment_restored:
  assumes w: "whole dg p" and fl: "0 < fl" "fl < pl_byteLength p"
    and d: "d \<in> set (fragments (stripped dg) p fl)"
  shows "restorePayload d = Inr (piece dg p fl (dg_fragmentOffset d))
    \<and> genuine_fragment (piece dg p fl (dg_fragmentOffset d))
    \<and> dg_moreFragments d = dg_moreFragments (piece dg p fl (dg_fragmentOffset d))
    \<and> d = fragmentAt (stripped dg) p fl (dg_fragmentOffset d)"
proof -
  have "dg_fragmentOffset (stripped dg) = 0" "\<not> dg_moreFragments (stripped dg)"
    using w by (auto simp: stripped_def whole_def)
  then show ?thesis
    using d restorePayload_fragment [OF w _ _ fl] genuine_piece [OF w _ _ fl]
    unfolding set_fragments [OF fl(1)] by (auto simp: offset_in_def piece_def)
qed

lemma fragments_reassemble:
  assumes w: "whole dg p" and fl: "0 < fl" "fl < pl_byteLength p"
    and all: "set (map fst es @ [f]) = set (fragments (stripped dg) p fl)" and last: "f \<notin> set (map fst es)"
    and absent: "smap_find (ip_fragbuf s) (frag_key dg) = None"
    and time: "\<And>e. e \<in> set (es @ [(f, t)]) \<Longrightarrow> snd e < ip_lastCheckTime s + 10000"
  shows "\<exists>s'. reassembleAll (es @ [(f, t)]) s = Inr (s', replicate (length es) None @ [Some dg])
    \<and> smap_find (ip_fragbuf s') (frag_key dg) = None"
proof -
  let ?o = "dg_fragmentOffset" and ?os = "map (\<lambda>(d, t). (dg_fragmentOffset d, t)) es"
  note g = fragment_restored [OF w fl, folded all]
  have "?o (stripped dg) = 0" using w by (simp add: stripped_def whole_def)
  then have "?o ` set (map fst es @ [f]) = {b. offset_in (pl_byteLength p) fl b}"
    unfolding all set_fragments [OF fl(1)] by (auto simp: image_image)
  then have offs: "insert (?o f) (fst ` set ?os) = {b. offset_in (pl_byteLength p) fl b}"
    by (simp add: image_image case_prod_unfold)
  have new: "?o f \<notin> fst ` set ?os"
  proof
    assume "?o f \<in> fst ` set ?os"
    then obtain d where d: "d \<in> set (map fst es)" "?o f = ?o d" by force
    then have "f = d" using g [of f] g [of d] by simp
    with d last show False by simp
  qed
  obtain bufs where run: "fb_run (ip_fragbuf s) (pieces dg p fl (?os @ [(?o f, t)]))
      = Inr (bufs, replicate (length es) None @ [Some dg])" and gone: "smap_find bufs (frag_key dg) = None"
    using pieces_delivered [OF w fl offs new absent, of t] by auto
  have "\<exists>s'. reassembleAll (es @ [(f, t)]) s = Inr (s', replicate (length es) None @ [Some dg]) \<and> ip_fragbuf s' = bufs"
  proof (rule reassembleAll_fb_run [where g = "\<lambda>d. piece dg p fl (?o d)"])
    fix d t' assume "(d, t') \<in> set (es @ [(f, t)])"
    then have "d \<in> set (map fst es @ [f])" and "t' < ip_lastCheckTime s + 10000"
      using time [of "(d, t')"] by force+
    then show "restorePayload d = Inr (piece dg p fl (?o d)) \<and> genuine_fragment (piece dg p fl (?o d))
        \<and> t' < ip_lastCheckTime s + 10000 \<and> ?o d = ?o (piece dg p fl (?o d))
        \<and> dg_moreFragments d = dg_moreFragments (piece dg p fl (?o d))"
      using g by simp
  qed (use run in \<open>simp add: comp_def case_prod_unfold\<close>)
  with gone show ?thesis by auto
qed


section \<open>Round trip\<close>

text \<open>What a datagram looks like when it leaves a node that sends it on an interface.\<close>

definition leaving :: "IPv4Datagram \<Rightarrow> InterfaceEntry \<Rightarrow> Payload \<Rightarrow> IPv4Datagram" where
  "leaving dg ie p = dg\<lparr>dg_timeToLive := dg_timeToLive dg - (if ie_loopback ie then 0 else 1),
     dg_totalPayloadLength := pl_byteLength p\<rparr>"

definition payloadPerFragment :: "IPv4 \<Rightarrow> InterfaceEntry \<Rightarrow> IPv4Datagram \<Rightarrow> int" where
  "payloadPerFragment s ie dg =
     ((if ip_isDsr s then ie_mtu ie - 30 else ie_mtu ie) - dg_headerLength dg) div 8 * 8"

lemma fragmentAndSend_fragments:
  assumes ie: "ifaceOf s i = Inr ie" "point_to_point ie" "ie_mtu ie \<noteq> 0"
    and dg: "whole (leaving dg ie p) p" "\<not> dg_dontFragment dg" "dg_srcAddress dg \<noteq> 0" "0 \<le> dg_timeToLive (leaving dg ie p)"
    and len: "ie_mtu ie < dg_byteLength dg" "0 < payloadPerFragment s ie dg"
  shows "fragmentAndSend dg i nextHop s = Inr (s\<lparr>ip_out := ip_out s @
    map (ToNIC i None) (fragments (stripped (leaving dg ie p)) p (payloadPerFragment s ie dg))\<rparr>)"
proof -
  have enc: "dg_encapsulatedPacket dg = Some p" "dg_byteLength dg = dg_headerLength dg + pl_byteLength p"
    "0 \<le> dg_headerLength dg"
    using dg(1) by (auto simp: whole_def leaving_def)
  have strip: "dg_decapsulate (leaving dg ie p) = Inr (stripped (leaving dg ie p), p)"
    using enc by (simp add: dg_decapsulate_def leaving_def stripped_def)
  have eq: "(if ie_loopback ie then dg else dg\<lparr>dg_timeToLive := dg_timeToLive dg - 1\<rparr>)\<lparr>dg_totalPayloadLength := pl_byteLength p\<rparr>
      = leaving dg ie p"
    by (simp add: leaving_def)
  have "fragmentAndSend dg i nextHop s =
      fragmentLoop (stripped (leaving dg ie p)) p (payloadPerFragment s ie dg) 0 i nextHop s"
    using ie dg(2-4) len enc strip eq
    by (auto simp: fragmentAndSend_def IPv4Address_isUnspecified_def Let_def leaving_def stripped_def
        payloadPerFragment_def)
  then show ?thesis
    using fragmentLoop_sends [OF ie(2,1) len(2)] by (simp add: fragments_def comp_def)
qed

text \<open>
  C7: a datagram larger than the MTU of a point-to-point interface is sent as fragments no larger than
  the MTU.  Received elsewhere in any order and with any repetitions, at times at which no purge is
  due, the fragments give nothing until the last one that is missing, which gives exactly the datagram
  that was sent (its hop count decremented and the length of the payload noted) and leaves no trace in
  the buffer.
\<close>

theorem fragmentation_roundtrip:
  assumes "ifaceOf s i = Inr ie" "point_to_point ie" "ie_mtu ie \<noteq> 0"
    and "whole (leaving dg ie p) p" "\<not> dg_dontFragment dg" "dg_srcAddress dg \<noteq> 0" "0 \<le> dg_timeToLive (leaving dg ie p)"
    and "ie_mtu ie < dg_byteLength dg" "0 < payloadPerFragment s ie dg"
  shows "\<exists>fs. fragmentAndSend dg i nextHop s = Inr (s\<lparr>ip_out := ip_out s @ map (ToNIC i None) fs\<rparr>)
    \<and> (\<forall>f \<in> set fs. dg_byteLength f \<le> ie_mtu ie)
    \<and> (\<forall>es f t s2. set (map fst es @ [f]) = set fs \<longrightarrow> f \<notin> set (map fst es) \<longrightarrow>
        smap_find (ip_fragbuf s2) (frag_key dg) = None \<longrightarrow>
        (\<forall>e \<in> set (es @ [(f, t)]). snd e < ip_lastCheckTime s2 + 10000) \<longrightarrow>
        (\<exists>s3. reassembleAll (es @ [(f, t)]) s2 = Inr (s3, replicate (length es) None @ [Some (leaving dg ie p)])
          \<and> smap_find (ip_fragbuf s3) (frag_key dg) = None))"
proof -
  let ?dg = "leaving dg ie p" and ?fl = "payloadPerFragment s ie dg"
  have "dg_headerLength dg + ?fl \<le> ie_mtu ie"
    unfolding payloadPerFragment_def by (auto split: if_splits)
  moreover have "dg_byteLength dg = dg_headerLength dg + pl_byteLength p"
    using assms(4) by (simp add: whole_def leaving_def)
  ultimately have fl: "?fl < pl_byteLength p" and mtu: "dg_headerLength dg + ?fl \<le> ie_mtu ie"
    using assms(8) by linarith+
  have "dg_byteLength f \<le> ie_mtu ie" if "f \<in> set (fragments (stripped ?dg) p ?fl)" for f
    using that mtu unfolding set_fragments [OF assms(9)]
    by (auto simp: fragmentAt_def stripped_def leaving_def dg_encapsulate_def Let_def)
  moreover have key: "frag_key ?dg = frag_key dg"
    by (simp add: frag_key_def leaving_def)
  ultimately show ?thesis
    using fragmentAndSend_fragments [OF assms, of nextHop] fragments_reassemble [OF assms(4,9) fl, unfolded key]
    by (intro exI [of _ "fragments (stripped ?dg) p ?fl"] conjI allI impI ballI) blast+
qed

definition example_datagram :: "int \<Rightarrow> IPv4Datagram" where
  "example_datagram n = \<lparr>dg_byteLength = 20 + n, dg_headerLength = 20, dg_srcAddress = 0x0A000001,
     dg_destAddress = 0x0A000002, dg_transportProtocol = 17, dg_timeToLive = 32, dg_identification = 7,
     dg_moreFragments = False, dg_dontFragment = False, dg_fragmentOffset = 0, dg_typeOfService = 0,
     dg_totalPayloadLength = 0,
     dg_encapsulatedPacket = Some \<lparr>pl_byteLength = n, pl_kind = UDPPacket 1000 1000, pl_content = 5\<rparr>,
     dg_bitError = False, dg_arrivalGate = None, dg_multicastLoop = None\<rparr>"

theorem fragmentation_roundtrip_witness:
  "\<exists>fs. fragmentAndSend (example_datagram 100) 1 0 (example_node [example_iface 64]) =
      Inr ((example_node [example_iface 64])\<lparr>ip_out := map (ToNIC 1 None) fs\<rparr>)
    \<and> (\<forall>f \<in> set fs. dg_byteLength f \<le> 64)"
  using fragmentation_roundtrip [of "example_node [example_iface 64]" 1 "example_iface 64" "example_datagram 100"
      "\<lparr>pl_byteLength = 100, pl_kind = UDPPacket 1000 1000, pl_content = 5\<rparr>" 0]
  by (auto simp: example_node_def example_iface_def example_datagram_def ifaceOf_def rt_empty_def iface_by_id_def
      point_to_point_def whole_def leaving_def payloadPerFragment_def)

section \<open>Fragmenting a fragment\<close>

text \<open>A datagram through a chain of routers: what each puts on its outgoing interface goes to the next.\<close>

fun datagramsOut :: "IPEvent list \<Rightarrow> IPv4Datagram list" where
  "datagramsOut [] = []"
| "datagramsOut (ToNIC i m d # evs) = d # datagramsOut evs"
| "datagramsOut (ev # evs) = datagramsOut evs"

fun forwardAll :: "IPv4Datagram list \<Rightarrow> IPv4 \<Rightarrow> IPv4 outcome" where
  "forwardAll [] s = Inr s"
| "forwardAll (d # ds) s = outcome_bind (fragmentAndSend d 1 0 s) (forwardAll ds)"

fun throughRouters :: "int list \<Rightarrow> IPv4Datagram list \<Rightarrow> IPv4Datagram list outcome" where
  "throughRouters [] ds = Inr ds"
| "throughRouters (mtu # mtus) ds =
     outcome_bind (forwardAll ds (example_node [example_iface mtu])) (\<lambda>s. throughRouters mtus (datagramsOut (ip_out s)))"

definition receivedLengths :: "int list \<Rightarrow> int \<Rightarrow> (int \<times> int option) option list outcome" where
  "receivedLengths mtus n =
     outcome_bind (throughRouters mtus [example_datagram n]) (\<lambda>ds.
     outcome_bind (reassembleAll (map (\<lambda>d. (d, 0)) ds) (example_node [example_iface 0])) (\<lambda>(s, outs).
       Inr (map (map_option (\<lambda>d. (dg_byteLength d, map_option pl_byteLength (dg_encapsulatedPacket d)))) outs)))"


end
