(* ===== verification/IPv4_Resolution.thy ===== *)
theory IPv4_Resolution
  imports IPv4_Module
begin

text \<open>
  IPv4 and ARP together.  Datagrams whose next hop has no known MAC address wait in the IPv4 module for
  the resolution that ARP carries out.  A node is a step relation: messages, reinjected datagrams, ARP
  packets and timers, changes of the routing table and of the configuration, shutdown and start, and
  the passage of time.
\<close>

section \<open>Conditions on the result of an operation\<close>

definition ok :: "('a \<Rightarrow> bool) \<Rightarrow> 'a outcome \<Rightarrow> bool" where
  "ok P r \<longleftrightarrow> (\<forall>x. r = Inr x \<longrightarrow> P x)"

named_theorems ok_rules \<open>conditions on the result, one rule per construct\<close>

lemma ok_Inr [ok_rules]: "P x \<Longrightarrow> ok P (Inr x)"
  by (simp add: ok_def)

lemma ok_Inl [ok_rules]: "ok P (Inl e)"
  by (simp add: ok_def)

lemma ok_bind: "ok Q r \<Longrightarrow> (\<And>x. Q x \<Longrightarrow> ok P (f x)) \<Longrightarrow> ok P (outcome_bind r f)"
  by (auto simp: ok_def)

lemma ok_if [ok_rules]: "(b \<Longrightarrow> ok P x) \<Longrightarrow> (\<not> b \<Longrightarrow> ok P y) \<Longrightarrow> ok P (if b then x else y)"
  by simp

lemma ok_prod [ok_rules]: "(\<And>a b. p = (a, b) \<Longrightarrow> ok P (f a b)) \<Longrightarrow> ok P (case p of (a, b) \<Rightarrow> f a b)"
  by (cases p) simp

lemma ok_option [ok_rules]:
  "(r = None \<Longrightarrow> ok P x) \<Longrightarrow> (\<And>y. r = Some y \<Longrightarrow> ok P (f y)) \<Longrightarrow> ok P (case r of None \<Rightarrow> x | Some y \<Rightarrow> f y)"
  by (cases r) simp_all

lemma ok_Let [ok_rules]: "ok P (f x) \<Longrightarrow> ok P (Let x f)"
  by simp

lemma ok_any: "ok (\<lambda>_. True) r"
  by (simp add: ok_def)

text \<open>A step whose result does not matter.\<close>

lemma ok_skip: "(\<And>x. ok P (f x)) \<Longrightarrow> ok P (outcome_bind r f)"
  by (auto simp: ok_def)

lemma okD: "ok P r \<Longrightarrow> r = Inr x \<Longrightarrow> P x"
  by (simp add: ok_def)

section \<open>What the datapath leaves to the output operation\<close>

text \<open>
  A condition on the ARP cache and the waiting datagrams that sending a datagram keeps, is kept by the
  whole datapath: nothing else in it touches the two.
\<close>

locale output_condition =
  fixes J :: "IPv4 \<Rightarrow> bool"
  assumes local: "J s \<Longrightarrow> ip_arp s' = ip_arp s \<Longrightarrow> ip_pendingPackets s' = ip_pendingPackets s \<Longrightarrow> J s'"
    and send: "sendDatagramToOutput dg i nextHop s = Inr s' \<Longrightarrow> J s \<Longrightarrow> J s'"
begin

lemma keep:
  "J s \<Longrightarrow> J (s\<lparr>ip_rt := rt\<rparr>)" "J s \<Longrightarrow> J (s\<lparr>ip_out := evs\<rparr>)" "J s \<Longrightarrow> J (s\<lparr>ip_now := t\<rparr>)"
  "J s \<Longrightarrow> J (s\<lparr>ip_numDropped := n\<rparr>)" "J s \<Longrightarrow> J (s\<lparr>ip_numForwarded := n\<rparr>)"
  "J s \<Longrightarrow> J (s\<lparr>ip_numUnroutable := n\<rparr>)" "J s \<Longrightarrow> J (s\<lparr>ip_numMulticast := n\<rparr>)"
  "J s \<Longrightarrow> J (s\<lparr>ip_numLocalDeliver := n\<rparr>)" "J s \<Longrightarrow> J (s\<lparr>ip_queuedDatagramsForHooks := q\<rparr>)"
  "J s \<Longrightarrow> J (s\<lparr>ip_lastCheckTime := t\<rparr>)" "J s \<Longrightarrow> J (s\<lparr>ip_fragbuf := b\<rparr>)"
  "J s \<Longrightarrow> J (s\<lparr>ip_curFragmentId := n\<rparr>)" "J s \<Longrightarrow> J (s\<lparr>ip_hooks := h\<rparr>)" "J s \<Longrightarrow> J (s\<lparr>ip_mapping := m\<rparr>)"
  "J s \<Longrightarrow> J (s\<lparr>ip_isUp := u\<rparr>)" "J s \<Longrightarrow> J (emit ev s)"
  by (erule local; simp add: emit_def)+

lemma icmpError: "J s \<Longrightarrow> ok J (IPv4_icmpError dg i ty c s)"
  by (auto simp: ok_def IPv4_icmpError_def intro: local)

lemma to_output: "J s \<Longrightarrow> ok J (sendDatagramToOutput dg i nextHop s)"
  by (auto simp: ok_def intro: send)

lemma fragmentLoop: "J s \<Longrightarrow> ok J (fragmentLoop dg p fl off i nextHop s)"
proof (induction dg p fl off i nextHop s rule: fragmentLoop.induct)
  case (1 dg p fl off i nextHop s)
  show ?case
    using 1 okD [OF to_output [OF 1(2)]]
    by (subst fragmentLoop.simps) (auto intro!: ok_rules split: sum.split)
qed

lemma fragmentAndSend: "J s \<Longrightarrow> ok J (fragmentAndSend dg i nextHop s)"
  unfolding fragmentAndSend_def Let_def
  by (intro ok_bind [of J] ok_skip ok_rules to_output fragmentLoop icmpError keep)

lemma hook: "datagramHook t dg inIE outIE nextHop s = (s', r) \<Longrightarrow> J s \<Longrightarrow> J s'"
  by (auto simp: datagramHook_def split: prod.splits HookResult.splits intro: keep)

lemma postRouting: "J s \<Longrightarrow> ok J (fragmentPostRouting dg i nextHop s)"
  unfolding fragmentPostRouting_def
  by (intro ok_rules fragmentAndSend) (auto dest: hook)

lemma handleICMP: "J s \<Longrightarrow> ok J (handleIncomingICMP r s)"
  unfolding handleIncomingICMP_def
  by (rule ok_rules, rule ok_rules, cases "pl_kind (fst r)") (auto intro!: ok_rules ok_skip intro: keep)

lemma deliverFinish: "J s \<Longrightarrow> ok J (reassembleAndDeliverFinish dg s)"
  unfolding reassembleAndDeliverFinish_def Let_def
  by (intro ok_bind [of J] ok_skip ok_rules handleICMP icmpError keep)

lemma reportTimeouts: "J s \<Longrightarrow> ok J (reportTimeouts ds s)"
  by (induction ds s rule: reportTimeouts.induct) (auto intro!: ok_rules ok_bind [of J] icmpError)

lemma reassemble: "J s \<Longrightarrow> ok (\<lambda>r. J (fst r)) (reassemble dg s)"
  unfolding reassemble_def
  by (intro ok_bind [of J] ok_skip ok_rules reportTimeouts) (auto intro!: keep)

lemma deliver: "J s \<Longrightarrow> ok J (reassembleAndDeliver dg s)"
  unfolding reassembleAndDeliver_def
  by (rule ok_bind [OF reassemble], assumption) (auto intro!: ok_rules deliverFinish dest: hook)

lemma lookup: "lookupRoute dest s = (s', r) \<Longrightarrow> J s \<Longrightarrow> J s'"
  by (auto simp: lookupRoute_def split: prod.splits option.splits intro: keep)

lemma outputRule: "J s \<Longrightarrow> ok (\<lambda>r. J (fst r)) (checkOutputRule dg destIE s)"
  unfolding checkOutputRule_def Let_def
  by (intro ok_skip ok_rules) (auto split: option.splits prod.splits dest: lookup)

lemma nextHop: "J s \<Longrightarrow> ok (\<lambda>r. J (fst r)) (chooseNextHop dest destIE req s)"
  unfolding chooseNextHop_def
  by (intro ok_skip ok_rules) (auto dest: lookup)

lemma unicastFinish: "J s \<Longrightarrow> ok J (routeUnicastPacketFinish dg i nh s)"
  unfolding routeUnicastPacketFinish_def by (intro postRouting keep)

lemma unicast: "J s \<Longrightarrow> ok J (routeUnicastPacket dg fromIE destIE req s)"
  unfolding routeUnicastPacket_def
  by (auto intro!: ok_bind [OF outputRule] ok_bind [OF nextHop] ok_rules icmpError keep unicastFinish dest: hook)

lemma broadcastOn: "J s \<Longrightarrow> ok J (broadcastOn dg is s)"
  by (induction dg "is" s rule: broadcastOn.induct) (auto intro!: ok_rules ok_bind [of J] postRouting)

lemma localBroadcast: "J s \<Longrightarrow> ok J (routeLocalBroadcastPacket dg destIE s)"
  unfolding routeLocalBroadcastPacket_def by (intro ok_rules postRouting broadcastOn keep)

lemma forwardOn: "J s \<Longrightarrow> ok J (forwardOn dg fromIE outs s)"
  by (induction dg fromIE outs s rule: forwardOn.induct)
    (auto intro!: ok_rules ok_bind [of J "fragmentPostRouting dg i nh s" for dg i nh s] ok_skip [of _ _ "ifaceOf s i" for s i] ok_skip [of _ _ "ipv4DataOf ie" for ie] postRouting)

lemma forwardMulticast: "J s \<Longrightarrow> ok J (forwardMulticastPacket dg fromIE s)"
  unfolding forwardMulticastPacket_def Let_def getShortestPathInterfaceToSource_def
  by (intro ok_rules forwardOn keep) (auto split: prod.splits intro!: keep)

lemma prerouting: "J s \<Longrightarrow> ok J (preroutingFinish dg fromIE destIE nh s)"
  unfolding preroutingFinish_def Let_def
  by (intro ok_bind [of J] ok_skip ok_rules deliver forwardMulticast postRouting unicast keep)

lemma incoming: "J s \<Longrightarrow> ok J (handleIncomingDatagram hit dg fromIE s)"
  unfolding handleIncomingDatagram_def Let_def
  by (intro ok_skip ok_rules icmpError prerouting forwardMulticast keep) (auto dest: hook)

lemma multicastOut: "J s \<Longrightarrow> ok (\<lambda>r. J (fst r)) (determineOutgoingInterfaceForMulticastDatagram dg opt s)"
  unfolding determineOutgoingInterfaceForMulticastDatagram_def Let_def
  by (intro ok_skip ok_rules) (auto dest: lookup)

lemma localOut: "J s \<Longrightarrow> ok J (datagramLocalOut dg destIE req s)"
  unfolding datagramLocalOut_def Let_def
  by (intro ok_bind [OF multicastOut] ok_bind [of J] ok_skip ok_rules postRouting unicast localBroadcast keep) auto

lemma fromHL: "J s \<Longrightarrow> ok J (handlePacketFromHL packet s)"
  unfolding handlePacketFromHL_def
  by (intro ok_rules keep ok_bind [of "\<lambda>r. J (fst r)"])
    (auto simp: ok_def IPv4_encapsulate_def Let_def split: HLPacket.splits prod.splits option.splits
      intro: keep dest: hook okD [OF localOut])

lemma continueQueued: "J s \<Longrightarrow> ok J (continueQueued q s)"
  unfolding continueQueued_def Let_def
  by (cases "qd_hookType q")
    (auto intro!: ok_rules localOut prerouting fragmentAndSend deliverFinish unicastFinish)

lemma reinject: "J s \<Longrightarrow> ok J (reinjectQueuedDatagram k s)"
  unfolding reinjectQueuedDatagram_def dropQueuedDatagram_def
  by (intro ok_bind [of J] ok_rules continueQueued) (auto intro: keep)

lemma endService_keeps: "J s \<Longrightarrow> ok J (endService msg s)"
  unfolding endService_def
  by (cases msg) (auto intro!: ok_rules fromHL incoming keep)

end

section \<open>Waiting datagrams\<close>

definition awaiting :: "IPv4 \<Rightarrow> IPv4Address \<Rightarrow> bool" where
  "awaiting s addr \<longleftrightarrow> (\<exists>e. smap_find (arp_cache (ip_arp s)) addr = Some e \<and> ae_pending e)"

definition waiting_ok :: "IPv4 \<Rightarrow> bool" where
  "waiting_ok s \<longleftrightarrow> arp_inv (ip_arp s) \<and> smap_wf (ip_pendingPackets s)
     \<and> (\<forall>addr dgs. smap_find (ip_pendingPackets s) addr = Some dgs \<longrightarrow>
          dgs \<noteq> [] \<and> awaiting s addr \<and> \<not> isLimitedBroadcastAddress addr \<and> \<not> isMulticast addr)"

text \<open>The group bit of the first byte survives the later bytes.\<close>

lemma setAddressByte_keeps:
  assumes "setAddressByte k b a = Inr a'" "1 \<le> k" "bit a 40"
  shows "bit a' 40"
proof -
  have "k \<in> {1, 2, 3, 4, 5}" using assms(1,2) by (auto simp: setAddressByte_def split: if_splits)
  moreover have "a' = (a AND NOT (push_bit ((6 - k - 1) * 8) 0xFF)) OR push_bit ((6 - k - 1) * 8) (ucast b)"
    using assms(1) by (auto simp: setAddressByte_def Let_def split: if_splits)
  ultimately show ?thesis
    using assms(3) by (auto simp: bit_simps)
qed

lemma setAddressByte_group: "setAddressByte 0 1 a = Inr a' \<Longrightarrow> bit a' 40"
  by (auto simp: setAddressByte_def Let_def bit_simps)

lemma makeMulticastAddress_specified:
  assumes "makeMulticastAddress addr = Inr mac"
  shows "mac \<noteq> 0"
proof -
  have "bit mac 40"
    using assms unfolding makeMulticastAddress_def
    by (auto split: if_splits elim!: setAddressByte_keeps setAddressByte_group)
  then show ?thesis by auto
qed

text \<open>Events of ARP that neither complete nor fail a resolution change nothing here.\<close>

lemma receiveSignal_quiet:
  "\<forall>x m k. CompletedARPResolution x m k \<notin> set evs \<Longrightarrow> \<forall>x k. FailedARPResolution x k \<notin> set evs \<Longrightarrow>
   ip_arp (fold receiveSignal evs s) = ip_arp s \<and> ip_pendingPackets (fold receiveSignal evs s) = ip_pendingPackets s"
proof (induction evs arbitrary: s)
  case (Cons ev evs)
  then show ?case by (cases ev) (auto simp: emit_def)
qed simp

lemma sendDatagramToOutput_cases:
  assumes "sendDatagramToOutput dg i nextHop s = Inr s'"
  obtains (sent) m where "s' = emit (ToNIC i m dg) s"
    | (sent802) m where "s' = emit (ToNIC i m (dg\<lparr>dg_multicastLoop := None\<rparr>)) s"
    | (deleted) "s' = s"
    | (waits) ie nh a evs where "ifaceOf s i = Inr ie" "resolveNextHopMacAddress s nh ie = Inr 0"
        "startAddressResolution (ip_now s) (ip_rt s) nh i (ip_arp s) = Inr (a, evs)"
        "s' = arpRan (a, evs) (pendingInsert nh dg s)"
proof -
  have fields: "ip_now (pendingInsert nh dg s) = ip_now s" "ip_rt (pendingInsert nh dg s) = ip_rt s"
    "ip_arp (pendingInsert nh dg s) = ip_arp s" for nh
    by (simp_all add: pendingInsert_def)
  obtain ie where ie: "ifaceOf s i = Inr ie"
    using assms by (auto simp: sendDatagramToOutput_def)
  show thesis
  proof (cases "ie_broadcast ie \<and> \<not> MACAddress_isUnspecified (ie_macAddr ie)")
    case False
    with assms ie sent [of None] show thesis
      by (simp add: sendDatagramToOutput_def sendPacketToNIC_def)
  next
    case True
    then obtain nh mac where nh: "resolveNextHopMacAddress s nh ie = Inr mac"
      and rest: "(if MACAddress_isUnspecified mac then
           (if arp_deletePacket (ip_arp s) then Inr s
            else outcome_bind (startAddressResolution (ip_now s) (ip_rt s) nh i (ip_arp s))
              (\<lambda>r. Inr (arpRan r (pendingInsert nh dg s))))
         else if smap_find (ip_pendingPackets s) nh \<noteq> None then
           Inl (AssertFailed ''IPv4-ARP error: nextHopAddr found in ARP table, but IPv4 queue for nextHopAddr not empty'')
         else Inr (sendPacketToIeee802NIC dg i mac s)) = Inr s'"
      using assms ie by (simp add: sendDatagramToOutput_def Let_def fields cong: if_cong) blast
    consider "mac \<noteq> 0" | "mac = 0" "arp_deletePacket (ip_arp s)" | "mac = 0" "\<not> arp_deletePacket (ip_arp s)"
      by blast
    then show thesis
    proof cases
      case 1
      then have "s' = sendPacketToIeee802NIC dg i mac s"
        using rest by (simp add: MACAddress_isUnspecified_def split: if_splits)
      then show thesis by (intro sent802 [of "Some mac"]) (simp add: sendPacketToIeee802NIC_def)
    next
      case 2
      then show thesis using rest deleted by (simp add: MACAddress_isUnspecified_def)
    next
      case 3
      then obtain r where "startAddressResolution (ip_now s) (ip_rt s) nh i (ip_arp s) = Inr r"
        "s' = arpRan r (pendingInsert nh dg s)"
        using rest by (auto simp: MACAddress_isUnspecified_def)
      then show thesis using waits [OF ie nh [unfolded 3(1)], of "fst r" "snd r"] by simp
    qed
  qed
qed

lemma output_waiting:
  assumes "sendDatagramToOutput dg i nextHop s = Inr s'" and inv: "waiting_ok s"
  shows "waiting_ok s'"
  using assms(1)
proof (cases rule: sendDatagramToOutput_cases)
  case (waits ie nh a evs)
  note mac = waits(2) and r = waits(3) and s' = waits(4)
  note p = start_pending [OF r]
  have fields: "ip_arp s' = a" "ip_pendingPackets s' = ip_pendingPackets (pendingInsert nh dg s)"
    using receiveSignal_quiet [of evs] p(4) unfolding s' arpRan_def by (simp_all add: pendingInsert_def)
  have kind: "\<not> isLimitedBroadcastAddress nh \<and> \<not> isMulticast nh"
    using mac makeMulticastAddress_specified
    by (auto simp: resolveNextHopMacAddress_def MACAddress_BROADCAST_def split: if_splits)
  have others: "awaiting s addr \<Longrightarrow> awaiting s' addr" for addr
    using p(1,2) fields(1) by (cases "addr = nh") (auto simp: awaiting_def touches_def)
  have "awaiting s' nh" using p(1) fields(1) by (auto simp: awaiting_def)
  with kind others inv p(3) show ?thesis
    unfolding waiting_ok_def fields by (auto simp: pendingInsert_def split: option.splits if_splits)
qed (use inv in \<open>simp_all add: waiting_ok_def awaiting_def emit_def\<close>)

interpretation datapath: output_condition waiting_ok
proof
  show "waiting_ok s'" if "waiting_ok s" "ip_arp s' = ip_arp s" "ip_pendingPackets s' = ip_pendingPackets s" for s s'
    using that by (simp add: waiting_ok_def awaiting_def)
qed (rule output_waiting)

section \<open>ARP runs\<close>

definition quiet :: "ArpEvent list \<Rightarrow> bool" where
  "quiet evs \<longleftrightarrow> (\<forall>x m k. CompletedARPResolution x m k \<notin> set evs) \<and> (\<forall>x k. FailedARPResolution x k \<notin> set evs)"

lemma quiet_fold:
  "quiet evs \<Longrightarrow> ip_arp (fold receiveSignal evs s) = ip_arp s \<and> ip_pendingPackets (fold receiveSignal evs s) = ip_pendingPackets s"
  using receiveSignal_quiet by (simp add: quiet_def)

lemma sent_all:
  "fold (\<lambda>dg. sendPacketToIeee802NIC dg i mac) dgs s =
     s\<lparr>ip_out := ip_out s @ map (\<lambda>dg. ToNIC i (Some mac) (dg\<lparr>dg_multicastLoop := None\<rparr>)) dgs\<rparr>"
  by (induction dgs arbitrary: s) (simp_all add: sendPacketToIeee802NIC_def emit_def)

text \<open>The end of a resolution takes the waiting datagrams of its address, and only those.\<close>

definition settles :: "IPv4Address \<Rightarrow> IPv4 \<Rightarrow> IPv4 \<Rightarrow> bool" where
  "settles addr s s' \<longleftrightarrow> ip_arp s' = ip_arp s
     \<and> smap_find (ip_pendingPackets s') = (smap_find (ip_pendingPackets s))(addr := None)
     \<and> (smap_wf (ip_pendingPackets s) \<longrightarrow> smap_wf (ip_pendingPackets s'))"

lemma completed_settles: "settles addr s (arpResolutionCompleted addr mac i s)"
  by (auto simp: settles_def arpResolutionCompleted_def sent_all Let_def split: option.splits)

lemma failed_settles: "settles addr s (arpResolutionTimedOut addr s)"
  by (auto simp: settles_def arpResolutionTimedOut_def split: option.splits)

text \<open>After a run of ARP that ends the resolution of one address and keeps the others.\<close>

lemma settled_waiting:
  assumes inv: "waiting_ok s" and a: "touches addr (ip_arp s) a" "arp_inv a"
    and s': "settles addr s1 s'" and s1: "ip_arp s1 = a" "ip_pendingPackets s1 = ip_pendingPackets s"
  shows "waiting_ok s'"
proof -
  have "smap_find (ip_pendingPackets s') k = Some dgs \<Longrightarrow> k \<noteq> addr \<and> smap_find (ip_pendingPackets s) k = Some dgs" for k dgs
    using s' s1 by (auto simp: settles_def split: if_splits)
  moreover have "k \<noteq> addr \<Longrightarrow> awaiting s k \<Longrightarrow> awaiting s' k" for k
    using a(1) s' s1 by (auto simp: awaiting_def touches_def settles_def)
  ultimately show ?thesis
    using inv a(2) s' s1 unfolding waiting_ok_def settles_def by fastforce
qed

definition only_packets :: "ArpEvent list \<Rightarrow> bool" where
  "only_packets evs \<longleftrightarrow> (\<forall>ev \<in> set evs. \<exists>q i m. ev = ArpPacketToNIC q i m)"

lemma only_packets_quiet: "only_packets evs \<Longrightarrow> quiet evs"
  by (auto simp: only_packets_def quiet_def)

lemma answer_packets: "answerARPPacket rt p ie a = Inr (a', evs) \<Longrightarrow> only_packets evs"
  by (auto simp: answerARPPacket_def only_packets_def split: option.splits if_splits ARPOpcode.splits)

lemma processARPPacket_cases:
  assumes "processARPPacket now rt p ie a = Inr (rt', a', evs)" and inv: "arp_inv a"
  shows "a' = a \<and> evs = [] \<and> smap_find (arp_cache a) (ap_srcIPAddress p) = None \<or>
    touches (ap_srcIPAddress p) a a' \<and> arp_inv a' \<and>
    (\<exists>k evs'. evs = CompletedARPResolution (ap_srcIPAddress p) (ap_srcMACAddress p) k # evs' \<and> only_packets evs'
      \<and> (\<forall>e. smap_find (arp_cache a) (ap_srcIPAddress p) = Some e \<longrightarrow> k = ae_ie e))"
proof -
  let ?ip = "ap_srcIPAddress p" and ?mac = "ap_srcMACAddress p"
  let ?new = "\<lparr>ae_ie = ie, ae_pending = False, ae_macAddress = 0, ae_lastUpdate = 0, ae_numRetries = 0, ae_timer = None\<rparr>"
  have mac: "?mac \<noteq> 0"
    using assms(1) by (auto simp: processARPPacket_def MACAddress_isUnspecified_def Let_def split: if_splits)
  have tail: "touches ?ip a a3 \<and> arp_inv a3 \<and> (\<exists>evs'. evs1 @ evs3 = CompletedARPResolution ?ip ?mac (ae_ie e) # evs' \<and> only_packets evs')"
    if u: "updateARPCache now ?ip e ?mac a = Inr (a1, evs1)" "\<not> ae_pending e \<longrightarrow> ae_timer e = None"
      and r: "answerARPPacket rt'' p ie a1 = Inr (a3, evs3)" for e a1 evs1 rt'' a3 evs3
  proof -
    note c = updateARPCache_cases [OF u(1) inv mac u(2)]
    obtain n where "a3 = a1\<lparr>arp_numRepliesSent := n\<rparr>" using answer_frame(1) [OF r] by blast
    then have "touches ?ip a a3 \<and> arp_inv a3"
      using c by (auto simp: touches_def same_config_def arp_inv_def)
    with answer_packets [OF r] c show ?thesis by auto
  qed
  show ?thesis
  proof (cases "smap_find (arp_cache a) ?ip")
    case None
    then consider "a' = a" "evs = []" | a1 evs1 rt'' evs3 where "updateARPCache now ?ip ?new ?mac a = Inr (a1, evs1)"
        "answerARPPacket rt'' p ie a1 = Inr (a', evs3)" "evs = evs1 @ evs3"
      using assms(1) by (auto simp: processARPPacket_def Let_def split: if_splits)
    then show ?thesis
      using None tail [of ?new] by cases fastforce+
  next
    case (Some e)
    have idle: "\<not> ae_pending e \<longrightarrow> ae_timer e = None"
      using arp_inv_entry [OF inv Some] by (simp add: entry_ok_def)
    obtain a1 evs1 where u: "updateARPCache now ?ip e ?mac a = Inr (a1, evs1)"
      using assms(1) Some by (auto simp: processARPPacket_def Let_def split: if_splits)
    note c = updateARPCache_cases [OF u inv mac idle]
    have "a' = a1 \<and> evs = evs1 \<or> (\<exists>rt'' evs3. answerARPPacket rt'' p ie a1 = Inr (a', evs3) \<and> evs = evs1 @ evs3)"
      using assms(1) Some u by (auto simp: processARPPacket_def Let_def split: if_splits)
    then show ?thesis using c tail [OF u idle] Some by (auto simp: only_packets_def)
  qed
qed

lemma arpPacket_waiting:
  assumes "IPv4_arpPacket p i s = Inr s'" and inv: "waiting_ok s"
  shows "waiting_ok s'"
proof -
  obtain rt' a evs where h: "ARP_handlePacket (ip_now s) (ip_rt s) p i (ip_arp s) = Inr (rt', a, evs)"
    and s': "s' = arpRan (a, evs) (s\<lparr>ip_rt := rt'\<rparr>)"
    using assms(1) by (auto simp: IPv4_arpPacket_def)
  let ?s1 = "s\<lparr>ip_rt := rt', ip_arp := a\<rparr>"
  have "a = ip_arp s \<and> evs = [] \<or> touches (ap_srcIPAddress p) (ip_arp s) a \<and> arp_inv a \<and>
      (\<exists>k evs'. evs = CompletedARPResolution (ap_srcIPAddress p) (ap_srcMACAddress p) k # evs' \<and> quiet evs')"
    using h processARPPacket_cases [of "ip_now s" "ip_rt s" p i "ip_arp s" rt' a evs] inv only_packets_quiet
    by (auto simp: ARP_handlePacket_def waiting_ok_def split: if_splits)
  then show ?thesis
  proof (elim disjE exE conjE)
    assume "a = ip_arp s" "evs = []"
    with s' inv show ?thesis by (simp add: arpRan_def waiting_ok_def awaiting_def)
  next
    fix k evs' assume t: "touches (ap_srcIPAddress p) (ip_arp s) a" "arp_inv a"
      and evs: "evs = CompletedARPResolution (ap_srcIPAddress p) (ap_srcMACAddress p) k # evs'" "quiet evs'"
    have "settles (ap_srcIPAddress p) ?s1 s'"
      using completed_settles [of "ap_srcIPAddress p" ?s1 "ap_srcMACAddress p" k] evs quiet_fold [OF evs(2)]
      by (simp add: s' arpRan_def settles_def)
    then show ?thesis using settled_waiting [OF inv t] by simp
  qed
qed

lemma arpTimer_waiting:
  assumes "IPv4_arpTimer addr s = Inr s'" and inv: "waiting_ok s"
    and timer: "smap_find (arp_cache (ip_arp s)) addr = Some e" "ae_timer e \<noteq> None"
  shows "waiting_ok s'"
proof -
  obtain a evs where h: "requestTimedOut (ip_now s) (ip_rt s) addr (ip_arp s) = Inr (a, evs)"
    and s': "s' = arpRan (a, evs) s"
    using assms(1) by (auto simp: IPv4_arpTimer_def ARP_handleTimer_def split: if_splits)
  have ai: "arp_inv (ip_arp s)" using inv by (simp add: waiting_ok_def)
  note c = requestTimedOut_cases [OF h ai timer]
  show ?thesis
  proof (cases "ae_numRetries e + 1 < arp_retryCount (ip_arp s)")
    case True
    then obtain e' q where e': "smap_find (arp_cache a) addr = Some e'" "ae_pending e'"
      and evs: "evs = [ArpPacketToNIC q (ae_ie e) MACAddress_BROADCAST]"
      using c by auto
    have "ip_arp s' = a" "ip_pendingPackets s' = ip_pendingPackets s"
      by (simp_all add: s' arpRan_def evs emit_def)
    moreover have "awaiting s k \<Longrightarrow> awaiting s' k" for k
      using c e' calculation(1) by (cases "k = addr") (auto simp: awaiting_def touches_def)
    ultimately show ?thesis using inv c by (auto simp: waiting_ok_def)
  next
    case False
    then have "settles addr (s\<lparr>ip_arp := a\<rparr>) s'"
      using c failed_settles [of addr "s\<lparr>ip_arp := a\<rparr>"] by (simp add: s' arpRan_def)
    then show ?thesis using settled_waiting [OF inv, of addr a "s\<lparr>ip_arp := a\<rparr>"] c by simp
  qed
qed

section \<open>The node as a step relation\<close>

text \<open>
  The routing table, with the interface table in it, may change in any way; the modules that change it
  do not touch ARP or the waiting datagrams.  Time passes up to the next timer.  Shutdown and crash stop
  both modules, start starts both.
\<close>

inductive node_step :: "IPv4 \<Rightarrow> IPv4 \<Rightarrow> bool" where
  message: "endService msg s = Inr s' \<Longrightarrow> node_step s s'"
| reinjected: "reinjectQueuedDatagram k s = Inr s' \<Longrightarrow> node_step s s'"
| dropped: "node_step s (dropQueuedDatagram k s)"
| hooked: "node_step s (registerHook prio h s)"
| unhooked: "node_step s (unregisterHook prio k s)"
| protocol: "IPv4_registerProtocol pr g s = Inr s' \<Longrightarrow> node_step s s'"
| arp_packet: "IPv4_arpPacket p i s = Inr s' \<Longrightarrow> node_step s s'"
| arp_timer: "smap_find (arp_cache (ip_arp s)) addr = Some e \<Longrightarrow> ae_timer e = Some (ip_now s) \<Longrightarrow>
    IPv4_arpTimer addr s = Inr s' \<Longrightarrow> node_step s s'"
| table_change: "node_step s (s\<lparr>ip_rt := rt\<rparr>)"
| config_change: "ARP_ipv4ConfigChanged ie (ip_arp s) = Inr a \<Longrightarrow> node_step s (s\<lparr>ip_arp := a\<rparr>)"
| time: "ip_now s \<le> t \<Longrightarrow>
    \<forall>addr e t'. smap_find (arp_cache (ip_arp s)) addr = Some e \<longrightarrow> ae_timer e = Some t' \<longrightarrow> t \<le> t' \<Longrightarrow>
    node_step s (s\<lparr>ip_now := t\<rparr>)"
| stopped: "node_step s (IPv4_stop (s\<lparr>ip_arp := ARP_stop (ip_arp s)\<rparr>))"
| started: "ARP_start (ip_arp s) = Inr a \<Longrightarrow> node_step s (IPv4_start (s\<lparr>ip_arp := a\<rparr>))"

inductive node_reachable :: "IPv4 \<Rightarrow> bool" where
  initial: "arp_cache (ip_arp s) = [] \<Longrightarrow> ip_pendingPackets s = [] \<Longrightarrow> node_reachable s"
| step: "node_reachable s \<Longrightarrow> node_step s s' \<Longrightarrow> node_reachable s'"

lemma configChanged_cache:
  "ARP_ipv4ConfigChanged ie a = Inr a' \<Longrightarrow> arp_cache a' = arp_cache a \<and> arp_retryCount a' = arp_retryCount a"
  by (auto simp: ARP_ipv4ConfigChanged_def Let_def split: if_splits option.splits)

lemma waiting_ok_cache:
  assumes "waiting_ok s" "arp_cache a = arp_cache (ip_arp s)" "arp_retryCount a = arp_retryCount (ip_arp s)"
    and "ip_arp s' = a" "ip_pendingPackets s' = ip_pendingPackets s"
  shows "waiting_ok s'"
  using assms by (simp add: waiting_ok_def awaiting_def arp_inv_def)

lemma node_step_waiting: "node_step s s' \<Longrightarrow> waiting_ok s \<Longrightarrow> waiting_ok s'"
proof (induction rule: node_step.induct)
  case (message msg s s')
  then show ?case using okD [OF datapath.endService_keeps] by blast
next
  case (reinjected k s s')
  then show ?case using okD [OF datapath.reinject] by blast
next
  case (arp_packet p i s s')
  then show ?case by (rule arpPacket_waiting)
next
  case (arp_timer s addr e s')
  then show ?case using arpTimer_waiting by simp
next
  case (config_change ie s a)
  then show ?case using waiting_ok_cache [of s a "s\<lparr>ip_arp := a\<rparr>"] configChanged_cache by simp
next
  case (started s a)
  then have a: "a = ip_arp s\<lparr>arp_isUp := True\<rparr>" by (simp add: ARP_start_def split: if_splits)
  show ?case
    by (rule waiting_ok_cache [OF started(2), of a]) (simp_all add: a IPv4_start_def)
next
  case (stopped s)
  show ?case by (simp add: waiting_ok_def IPv4_stop_def ARP_stop_def arp_inv_def smap_wf_def smap_find_def)
qed (auto simp: dropQueuedDatagram_def registerHook_def unregisterHook_def IPv4_registerProtocol_def
    intro: datapath.keep)

lemma node_reachable_waiting: "node_reachable s \<Longrightarrow> waiting_ok s"
proof (induction rule: node_reachable.induct)
  case (initial s)
  then show ?case by (simp add: waiting_ok_def arp_inv_def smap_wf_def smap_find_def)
next
  case (step s s')
  then show ?case by (simp add: node_step_waiting)
qed

section \<open>Properties\<close>

lemma resolved_address:
  assumes "resolveNextHopMacAddress s nh ie = Inr mac" "mac \<noteq> 0"
    and wait: "awaiting s nh" "\<not> isLimitedBroadcastAddress nh" "\<not> isMulticast nh"
    and global: "\<not> arp_globalARP (ip_arp s)"
  shows "\<exists>d. ie_ipv4Data ie = Some d \<and> nh = getNetworkBroadcastAddress d"
proof (rule ccontr)
  assume "\<not> ?thesis"
  with assms have "mac = getMACAddressFor (ip_now s) (ip_arp s) nh"
    by (auto simp: resolveNextHopMacAddress_def ipv4DataOf_def split: option.splits if_splits)
  with assms show False by (auto simp: getMACAddressFor_def awaiting_def)
qed

lemma assert_origin:
  assumes "sendDatagramToOutput dg i nextHop s = Inl (AssertFailed
    ''IPv4-ARP error: nextHopAddr found in ARP table, but IPv4 queue for nextHopAddr not empty'')"
  shows "\<exists>ie nh mac. ifaceOf s i = Inr ie \<and> nh = (if IPv4Address_isUnspecified nextHop then dg_destAddress dg else nextHop)
    \<and> resolveNextHopMacAddress s nh ie = Inr mac \<and> mac \<noteq> 0 \<and> smap_find (ip_pendingPackets s) nh \<noteq> None"
proof -
  let ?m = "''IPv4-ARP error: nextHopAddr found in ARP table, but IPv4 queue for nextHopAddr not empty''"
  have multi: "makeMulticastAddress nh \<noteq> Inl (AssertFailed ?m)" if "isMulticast nh" for nh
    using that by (auto simp: makeMulticastAddress_def setAddressByte_def Let_def)
  have iface: "ifaceOf s i \<noteq> Inl (AssertFailed ?m)" for s
    by (simp add: ifaceOf_def split: option.splits)
  have data: "ipv4DataOf ie \<noteq> Inl (AssertFailed ?m)" for ie
    by (simp add: ipv4DataOf_def split: option.splits)
  have res: "resolveNextHopMacAddress s nh ie \<noteq> Inl (AssertFailed ?m)" for nh ie
    using multi data by (auto simp: resolveNextHopMacAddress_def outcome_bind_Inl)
  have start: "startAddressResolution t rt nh i a \<noteq> Inl (AssertFailed ?m)" for t rt nh a
    by (auto simp: startAddressResolution_def initiateARPResolution_def sendARPRequest_def outcome_bind_Inl
        split: option.splits)
  show ?thesis
    using assms res start iface
    by (auto simp: sendDatagramToOutput_def outcome_bind_Inl Let_def MACAddress_isUnspecified_def split: if_splits)
qed

text \<open>
  C35: in every reachable state of the node, with whatever hooks, rules and routes, the datagrams that
  wait for an address have a pending entry of the ARP cache with a running timer, so each of them will
  be sent or given up; and the assertion that no datagram waits for a resolved address can fail only
  where the next hop is the broadcast address of the outgoing interface's network.
\<close>

theorem waiting_datagrams_safe:
  assumes reach: "node_reachable s" and global: "\<not> arp_globalARP (ip_arp s)"
  shows "(\<forall>addr dgs. smap_find (ip_pendingPackets s) addr = Some dgs \<longrightarrow> dgs \<noteq> [] \<and>
      (\<exists>e t. smap_find (arp_cache (ip_arp s)) addr = Some e \<and> ae_pending e \<and> ae_timer e = Some t))
    \<and> (sendDatagramToOutput dg i nextHop s = Inl (AssertFailed
        ''IPv4-ARP error: nextHopAddr found in ARP table, but IPv4 queue for nextHopAddr not empty'') \<longrightarrow>
      (\<exists>ie d. ifaceOf s i = Inr ie \<and> ie_ipv4Data ie = Some d \<and>
        getNetworkBroadcastAddress d = (if IPv4Address_isUnspecified nextHop then dg_destAddress dg else nextHop)))"
proof (intro conjI allI impI)
  note inv = node_reachable_waiting [OF reach]
  fix addr dgs assume f: "smap_find (ip_pendingPackets s) addr = Some dgs"
  then show "dgs \<noteq> []" using inv by (simp add: waiting_ok_def)
  obtain e where "smap_find (arp_cache (ip_arp s)) addr = Some e" "ae_pending e"
    using f inv by (auto simp: waiting_ok_def awaiting_def)
  then show "\<exists>e t. smap_find (arp_cache (ip_arp s)) addr = Some e \<and> ae_pending e \<and> ae_timer e = Some t"
    using inv arp_inv_entry [of "ip_arp s" addr e] by (auto simp: waiting_ok_def entry_ok_def)
next
  note inv = node_reachable_waiting [OF reach]
  assume "sendDatagramToOutput dg i nextHop s = Inl (AssertFailed
      ''IPv4-ARP error: nextHopAddr found in ARP table, but IPv4 queue for nextHopAddr not empty'')"
  note o = assert_origin [OF this]
  obtain ie nh mac where r: "ifaceOf s i = Inr ie"
    "nh = (if IPv4Address_isUnspecified nextHop then dg_destAddress dg else nextHop)"
    "resolveNextHopMacAddress s nh ie = Inr mac" "mac \<noteq> 0" "smap_find (ip_pendingPackets s) nh \<noteq> None"
    using o by (elim exE conjE)
  then have "awaiting s nh" "\<not> isLimitedBroadcastAddress nh" "\<not> isMulticast nh"
    using inv by (auto simp: waiting_ok_def)
  from resolved_address [OF r(3,4) this global] r(1,2)
  show "\<exists>ie d. ifaceOf s i = Inr ie \<and> ie_ipv4Data ie = Some d \<and>
      getNetworkBroadcastAddress d = (if IPv4Address_isUnspecified nextHop then dg_destAddress dg else nextHop)"
    by auto
qed

definition example_lan :: InterfaceEntry where
  "example_lan = (example_iface 1500)\<lparr>ie_broadcast := True, ie_macAddr := 0x0A0000000001,
     ie_ipv4Data := Some (IPv4InterfaceData_new\<lparr>ifd_inetAddr := 0x0A000001, ifd_netmask := 0xFFFFFF00\<rparr>)\<rparr>"

definition example_message :: IPMessage where
  "example_message = FromTransport (HL_Packet \<lparr>pl_byteLength = 100, pl_kind = OtherPacket, pl_content = 3\<rparr>
     (IPv4ControlInfo_new\<lparr>ci_destAddr := 0x0A000002, ci_interfaceId := 1, ci_protocol := 17\<rparr>))"

definition example_sent :: IPv4 where
  "example_sent = (case endService example_message (example_node [example_lan]) of Inr s \<Rightarrow> s | Inl e \<Rightarrow> example_node [])"

definition example_entry :: ARPCacheEntry where
  "example_entry = \<lparr>ae_ie = 1, ae_pending = True, ae_macAddress = 0, ae_lastUpdate = 0, ae_numRetries = 0,
     ae_timer = Some 1000\<rparr>"

lemma example_sent_result:
  "case endService example_message (example_node [example_lan]) of
     Inl e \<Rightarrow> False
   | Inr s \<Rightarrow> map fst (ip_pendingPackets s) = [0x0A000002] \<and> \<not> arp_globalARP (ip_arp s)
       \<and> arp_cache (ip_arp s) = [(0x0A000002, example_entry)] \<and> arp_isUp (ip_arp s)
       \<and> arp_retryCount (ip_arp s) = 3 \<and> arp_retryTimeout (ip_arp s) = 1000 \<and> rt_ift (ip_rt s) = [example_lan]"
  by code_simp

lemma example_sent:
  "endService example_message (example_node [example_lan]) = Inr example_sent"
  "map fst (ip_pendingPackets example_sent) = [0x0A000002]" "\<not> arp_globalARP (ip_arp example_sent)"
  "arp_cache (ip_arp example_sent) = [(0x0A000002, example_entry)]" "arp_isUp (ip_arp example_sent)"
  "arp_retryCount (ip_arp example_sent) = 3" "arp_retryTimeout (ip_arp example_sent) = 1000"
  "rt_ift (ip_rt example_sent) = [example_lan]"
  using example_sent_result by (auto simp: example_sent_def split: sum.splits)

lemma example_sent_reachable: "node_reachable example_sent"
  by (rule node_reachable.step [OF node_reachable.initial node_step.message [OF example_sent(1)]])
    (simp_all add: example_node_def example_arp_def)

lemma example_sent_waits: "\<exists>dgs. smap_find (ip_pendingPackets example_sent) 0x0A000002 = Some dgs"
  using example_sent(2) by (cases "ip_pendingPackets example_sent") (auto simp: smap_find_def)

theorem waiting_datagrams_safe_witness:
  "\<exists>e t. smap_find (arp_cache (ip_arp example_sent)) 0x0A000002 = Some e \<and> ae_pending e \<and> ae_timer e = Some t"
  using waiting_datagrams_safe [OF example_sent_reachable example_sent(3)] example_sent_waits by blast

section \<open>The end of a resolution\<close>

text \<open>The timer of an address goes off \<open>n\<close> times, each time at the moment it is set to.\<close>

fun unanswered :: "nat \<Rightarrow> IPv4Address \<Rightarrow> IPv4 \<Rightarrow> IPv4 outcome" where
  "unanswered 0 addr s = Inr s"
| "unanswered (Suc n) addr s =
     (case Option.bind (smap_find (arp_cache (ip_arp s)) addr) ae_timer of
        None \<Rightarrow> Inl (RuntimeError ''no timer is running'')
      | Some t \<Rightarrow> outcome_bind (IPv4_arpTimer addr (s\<lparr>ip_now := t\<rparr>)) (unanswered n addr))"

definition requestFor :: "InterfaceEntry \<Rightarrow> IPv4InterfaceData \<Rightarrow> IPv4Address \<Rightarrow> ARPPacket" where
  "requestFor ie d addr = \<lparr>ap_opcode = ARP_REQUEST, ap_srcMACAddress = ie_macAddr ie, ap_destMACAddress = 0,
     ap_srcIPAddress = ifd_inetAddr d, ap_destIPAddress = addr\<rparr>"

definition can_ask :: "IPv4 \<Rightarrow> nat \<Rightarrow> InterfaceEntry \<Rightarrow> IPv4InterfaceData \<Rightarrow> bool" where
  "can_ask s i ie d \<longleftrightarrow> iface_by_id (rt_ift (ip_rt s)) i = Some ie \<and> ie_ipv4Data ie = Some d
     \<and> ie_macAddr ie \<noteq> 0 \<and> ifd_inetAddr d \<noteq> 0 \<and> arp_isUp (ip_arp s)"

lemma unanswered_gives_up:
  assumes e: "smap_find (arp_cache (ip_arp s)) addr = Some e" "ae_timer e = Some t"
    and ask: "can_ask s (ae_ie e) ie d" and n: "n = nat (arp_retryCount (ip_arp s) - ae_numRetries e - 1)"
  shows "\<exists>s'. unanswered (Suc n) addr s = Inr s'
    \<and> ip_out s' = ip_out s @ replicate n (ArpToNIC (ae_ie e) (requestFor ie d addr) MACAddress_BROADCAST)
    \<and> smap_find (ip_pendingPackets s') = (smap_find (ip_pendingPackets s))(addr := None)
    \<and> smap_find (arp_cache (ip_arp s')) = (smap_find (arp_cache (ip_arp s)))(addr := None)
    \<and> ip_now s' = t + int n * arp_retryTimeout (ip_arp s)"
  using assms
proof (induction n arbitrary: s e t)
  case 0
  let ?a = "(ip_arp s)\<lparr>arp_cache := smap_erase addr (arp_cache (ip_arp s)),
    arp_numFailedResolutions := arp_numFailedResolutions (ip_arp s) + 1\<rparr>"
  have "IPv4_arpTimer addr (s\<lparr>ip_now := t\<rparr>) = Inr (arpResolutionTimedOut addr (s\<lparr>ip_now := t, ip_arp := ?a\<rparr>))"
    using 0 by (simp add: IPv4_arpTimer_def ARP_handleTimer_def requestTimedOut_def can_ask_def arpRan_def Let_def)
  then show ?case
    using 0 failed_settles [of addr "s\<lparr>ip_now := t, ip_arp := ?a\<rparr>"]
    by (auto simp: settles_def arpResolutionTimedOut_def split: option.splits)
next
  case (Suc n)
  let ?e = "e\<lparr>ae_numRetries := ae_numRetries e + 1, ae_timer := Some (t + arp_retryTimeout (ip_arp s))\<rparr>"
  let ?a = "put_entry addr ?e ((ip_arp s)\<lparr>arp_numRequestsSent := arp_numRequestsSent (ip_arp s) + 1\<rparr>)"
  let ?s = "s\<lparr>ip_now := t, ip_arp := ?a, ip_out := ip_out s @ [ArpToNIC (ae_ie e) (requestFor ie d addr) MACAddress_BROADCAST]\<rparr>"
  have step: "IPv4_arpTimer addr (s\<lparr>ip_now := t\<rparr>) = Inr ?s"
    using Suc.prems
    by (simp add: IPv4_arpTimer_def ARP_handleTimer_def requestTimedOut_def can_ask_def arpRan_def Let_def
        sendARPRequest_def MACAddress_isUnspecified_def IPv4Address_isUnspecified_def requestFor_def emit_def)
  have "\<exists>s'. unanswered (Suc n) addr ?s = Inr s'
    \<and> ip_out s' = ip_out ?s @ replicate n (ArpToNIC (ae_ie ?e) (requestFor ie d addr) MACAddress_BROADCAST)
    \<and> smap_find (ip_pendingPackets s') = (smap_find (ip_pendingPackets ?s))(addr := None)
    \<and> smap_find (arp_cache (ip_arp s')) = (smap_find (arp_cache (ip_arp ?s)))(addr := None)
    \<and> ip_now s' = (t + arp_retryTimeout (ip_arp s)) + int n * arp_retryTimeout (ip_arp ?s)"
    by (rule Suc.IH) (use Suc.prems in \<open>simp_all add: can_ask_def put_entry_def\<close>)
  then obtain s' where s': "unanswered (Suc n) addr ?s = Inr s'"
    "ip_out s' = ip_out ?s @ replicate n (ArpToNIC (ae_ie ?e) (requestFor ie d addr) MACAddress_BROADCAST)"
    "smap_find (ip_pendingPackets s') = (smap_find (ip_pendingPackets ?s))(addr := None)"
    "smap_find (arp_cache (ip_arp s')) = (smap_find (arp_cache (ip_arp ?s)))(addr := None)"
    "ip_now s' = (t + arp_retryTimeout (ip_arp s)) + int n * arp_retryTimeout (ip_arp ?s)" by blast
  have "unanswered (Suc (Suc n)) addr s = Inr s'"
    using Suc.prems(1,2) step s'(1) by simp
  then show ?case
    using s'(2-5) by (intro exI [of _ s']) (simp add: put_entry_def algebra_simps)
qed

lemma packets_out:
  "only_packets evs \<Longrightarrow> \<exists>out. ip_out (fold receiveSignal evs s) = ip_out s @ out \<and> (\<forall>ev \<in> set out. \<exists>i q m. ev = ArpToNIC i q m)"
proof (induction evs arbitrary: s)
  case (Cons ev evs)
  then obtain q i m where ev: "ev = ArpPacketToNIC q i m" and only: "only_packets evs"
    by (auto simp: only_packets_def)
  obtain out where "ip_out (fold receiveSignal evs (emit (ArpToNIC i q m) s)) = ip_out (emit (ArpToNIC i q m) s) @ out"
    "\<forall>ev \<in> set out. \<exists>i q m. ev = ArpToNIC i q m"
    using Cons.IH [OF only] by blast
  then show ?case
    by (intro exI [of _ "ArpToNIC i q m # out"]) (simp add: ev emit_def)
qed simp

definition released :: "nat \<Rightarrow> MACAddress \<Rightarrow> IPv4Datagram list \<Rightarrow> IPEvent list" where
  "released i mac dgs = map (\<lambda>dg. ToNIC i (Some mac) (dg\<lparr>dg_multicastLoop := None\<rparr>)) dgs"

lemma arpPacket_answers:
  assumes r: "IPv4_arpPacket p k s = Inr s'" and up: "arp_isUp (ip_arp s)" and inv: "waiting_ok s"
    and e: "smap_find (arp_cache (ip_arp s)) (ap_srcIPAddress p) = Some e"
    and dgs: "smap_find (ip_pendingPackets s) (ap_srcIPAddress p) = Some dgs"
  shows "\<exists>evs. ip_out s' = ip_out s @ released (ae_ie e) (ap_srcMACAddress p) dgs @ evs
      \<and> (\<forall>ev \<in> set evs. \<exists>i q m. ev = ArpToNIC i q m)"
    and "smap_find (ip_pendingPackets s') = (smap_find (ip_pendingPackets s))(ap_srcIPAddress p := None)"
proof -
  let ?ip = "ap_srcIPAddress p" and ?mac = "ap_srcMACAddress p"
  obtain rt' a evs where h: "processARPPacket (ip_now s) (ip_rt s) p k (ip_arp s) = Inr (rt', a, evs)"
    and s': "s' = arpRan (a, evs) (s\<lparr>ip_rt := rt'\<rparr>)"
    using r up by (auto simp: IPv4_arpPacket_def ARP_handlePacket_def)
  have ai: "arp_inv (ip_arp s)" using inv by (simp add: waiting_ok_def)
  obtain evs' where evs: "evs = CompletedARPResolution ?ip ?mac (ae_ie e) # evs'" and only: "only_packets evs'"
    using processARPPacket_cases [OF h ai] e by auto
  let ?s2 = "arpResolutionCompleted ?ip ?mac (ae_ie e) (s\<lparr>ip_rt := rt', ip_arp := a\<rparr>)"
  have "ip_out ?s2 = ip_out s @ released (ae_ie e) ?mac dgs"
    using dgs by (simp add: arpResolutionCompleted_def sent_all Let_def released_def)
  moreover have s2: "s' = fold receiveSignal evs' ?s2" by (simp add: s' arpRan_def evs)
  ultimately show "\<exists>evs. ip_out s' = ip_out s @ released (ae_ie e) ?mac dgs @ evs
      \<and> (\<forall>ev \<in> set evs. \<exists>i q m. ev = ArpToNIC i q m)"
    using packets_out [OF only, of ?s2] by auto
  show "smap_find (ip_pendingPackets s') = (smap_find (ip_pendingPackets s))(?ip := None)"
    using completed_settles [of ?ip "s\<lparr>ip_rt := rt', ip_arp := a\<rparr>" ?mac "ae_ie e"]
      quiet_fold [OF only_packets_quiet [OF only], of ?s2] by (simp add: settles_def s2)
qed



end
