(* ===== verification/IPv4_Forwarding.thy ===== *)
theory IPv4_Forwarding
  imports IPv4_Module
begin

text \<open>
  The IPv4 module on top of the routing table: a unicast datagram from the network leaves on the
  interface and for the gateway of the best route.
\<close>

section \<open>Lookups\<close>

definition caches_only :: "RoutingTable \<Rightarrow> RoutingTable \<Rightarrow> bool" where
  "caches_only rt rt' \<longleftrightarrow>
     rt'\<lparr>rt_routingCache := [], rt_localAddresses := [], rt_localBroadcastAddresses := []\<rparr>
       = rt\<lparr>rt_routingCache := [], rt_localAddresses := [], rt_localBroadcastAddresses := []\<rparr>"

lemma caches_only_trans: "caches_only a b \<Longrightarrow> caches_only b c \<Longrightarrow> caches_only a c"
  by (simp add: caches_only_def)

lemma caches_only_fields:
  "caches_only rt rt' \<Longrightarrow> rt_ift rt' = rt_ift rt \<and> rt_IPForward rt' = rt_IPForward rt \<and> rt_outputRules rt' = rt_outputRules rt
     \<and> rt_inputRules rt' = rt_inputRules rt \<and> rt_heap rt' = rt_heap rt \<and> rt_routes rt' = rt_routes rt \<and> deref rt' = deref rt"
  by (cases rt, cases rt') (auto simp: caches_only_def deref_def fun_eq_iff)

lemma findBest_caches: "findBestMatchingRoute now rt dest = (rt', r) \<Longrightarrow> caches_only rt rt'"
  by (auto simp: findBestMatchingRoute_def caches_only_def Let_def split: option.splits if_splits)

lemma isLocal_caches:
  assumes "isLocalAddress rt dest = Inr (rt', b)"
  shows "caches_only rt rt'" and "rt_routingCache rt' = rt_routingCache rt"
  using assms by (auto simp: isLocalAddress_def caches_only_def Let_def split: if_splits)

text \<open>In a table that satisfies its invariant the lookup of the module finds the best route.\<close>

lemma lookupRoute_best:
  assumes inv: "rt_inv (ip_now s) (ip_rt s)"
  obtains rt' r where "best_route (ip_now s) (ip_rt s) dest r" "caches_only (ip_rt s) rt'"
    "lookupRoute dest s = (s\<lparr>ip_rt := rt'\<rparr>, map_option (deref (ip_rt s)) r)"
proof -
  obtain rt' r where f: "findBestMatchingRoute (ip_now s) (ip_rt s) dest = (rt', r)" by fastforce
  have r: "r = table_lookup (ip_now s) (ip_rt s) dest"
    using findBest_eq_lookup [of "ip_now s" "ip_rt s" dest] inv f by (simp add: rt_inv_def)
  have "best_route (ip_now s) (ip_rt s) dest r"
    unfolding r using inv by (intro table_lookup_best [where X = "{}"]) (simp add: rt_inv_def)
  moreover have c: "caches_only (ip_rt s) rt'" using f by (rule findBest_caches)
  moreover have "lookupRoute dest s = (s\<lparr>ip_rt := rt'\<rparr>, map_option (deref (ip_rt s)) r)"
    using f caches_only_fields [OF c] by (simp add: lookupRoute_def split: option.splits)
  ultimately show thesis by (rule that)
qed

section \<open>Forwarding\<close>

definition no_filters :: "IPv4 \<Rightarrow> bool" where
  "no_filters s \<longleftrightarrow> ip_hooks s = [] \<and> rt_inputRules (ip_rt s) = [] \<and> rt_outputRules (ip_rt s) = []"

text \<open>What becomes of a datagram for which the lookup gives route \<open>r\<close>.\<close>

definition forwarded :: "IPv4Datagram \<Rightarrow> nat \<Rightarrow> nat option \<Rightarrow> IPv4 \<Rightarrow> IPv4 outcome" where
  "forwarded dg fromIE r s =
     (case Option.bind r (\<lambda>p. map_option (\<lambda>i. (i, r_gateway (deref (ip_rt s) p))) (r_interface (deref (ip_rt s) p))) of
        None \<Rightarrow> IPv4_icmpError dg (int fromIE) ICMP_DESTINATION_UNREACHABLE 0
                  (s\<lparr>ip_numUnroutable := ip_numUnroutable s + 1\<rparr>)
      | Some (i, gateway) \<Rightarrow> fragmentAndSend dg i gateway (s\<lparr>ip_numForwarded := ip_numForwarded s + 1\<rparr>))"

lemma routeUnicastPacket_forwarded:
  assumes inv: "rt_inv (ip_now s) (ip_rt s)" and nf: "no_filters s"
  shows "\<exists>r rt'. best_route (ip_now s) (ip_rt s) (dg_destAddress dg) r \<and> caches_only (ip_rt s) rt'
    \<and> routeUnicastPacket dg (Some fromIE) None 0 s = forwarded dg fromIE r (s\<lparr>ip_rt := rt'\<rparr>)"
proof -
  obtain rt' r where b: "best_route (ip_now s) (ip_rt s) (dg_destAddress dg) r" and c: "caches_only (ip_rt s) rt'"
    and l: "lookupRoute (dg_destAddress dg) s = (s\<lparr>ip_rt := rt'\<rparr>, map_option (deref (ip_rt s)) r)"
    using lookupRoute_best [OF inv, of "dg_destAddress dg"] by blast
  have "routeUnicastPacket dg (Some fromIE) None 0 s = forwarded dg fromIE r (s\<lparr>ip_rt := rt'\<rparr>)"
    using l nf caches_only_fields [OF c]
    by (auto simp: routeUnicastPacket_def checkOutputRule_def getNumRules_def rules_of_def no_filters_def isDropRule_def
        chooseNextHop_def datagramHook_def routeUnicastPacketFinish_def fragmentPostRouting_def forwarded_def
        split: option.splits)
  with b c show ?thesis by blast
qed

text \<open>
  C8: a datagram from the network for a unicast address that is not one of the node's, in a node without
  hooks and rules whose table is in any reachable state: if the node does not forward it is dropped;
  otherwise it is sent by the interface and to the gateway of a best matching route (longest prefix, then
  least distance, then least metric), and if there is none, or it has no interface, answered with the
  error message.  The table changes in its caches only.
\<close>

theorem forwards_by_best_route:
  assumes reach: "rt_reachable ift (ip_now s, ip_rt s)" and nf: "no_filters s"
    and sound: "\<not> (dg_bitError dg \<and> hit)"
    and from_ie: "ifaceOf s fromIE = Inr ie" "\<not> ie_loopback ie" "ie_ipv4Data ie = Some d" "ifd_inetAddr d \<noteq> 0"
    and dest: "\<not> isMulticast (dg_destAddress dg)" "\<not> isLimitedBroadcastAddress (dg_destAddress dg)"
      "isLocalAddress (ip_rt s) (dg_destAddress dg) = Inr (rt1, False)"
      "findInterfaceByLocalBroadcastAddress (ip_rt s) (dg_destAddress dg) = Inr None"
  shows "if \<not> rt_IPForward (ip_rt s)
     then handleIncomingDatagram hit dg fromIE s = Inr (s\<lparr>ip_rt := rt1, ip_numDropped := ip_numDropped s + 1\<rparr>)
     else \<exists>r rt'. best_route (ip_now s) (ip_rt s) (dg_destAddress dg) r \<and> caches_only (ip_rt s) rt'
       \<and> handleIncomingDatagram hit dg fromIE s
         = forwarded (dg\<lparr>dg_multicastLoop := None\<rparr>) fromIE r (s\<lparr>ip_rt := rt'\<rparr>)"
proof -
  let ?s = "s\<lparr>ip_rt := rt1\<rparr>" and ?dg = "dg\<lparr>dg_multicastLoop := None\<rparr>"
  note loc = isLocal_caches [OF dest(3)]
  note same = caches_only_fields [OF loc(1)]
  have run: "handleIncomingDatagram hit dg fromIE s =
      (if \<not> rt_IPForward (ip_rt s) then Inr (?s\<lparr>ip_numDropped := ip_numDropped s + 1\<rparr>)
       else routeUnicastPacket ?dg (Some fromIE) None 0 ?s)"
    using nf sound from_ie dest same
    by (auto simp: handleIncomingDatagram_def checkInputRule_def getNumRules_def rules_of_def no_filters_def
        isDropRule_def datagramHook_def preroutingFinish_def ipv4DataOf_def IPv4Address_isUnspecified_def
        findInterfaceByLocalBroadcastAddress_def Let_def)
  have inv: "rt_inv (ip_now s) (ip_rt s)" using rt_reachable_inv [OF reach] by simp
  have inv1: "rt_inv (ip_now ?s) (ip_rt ?s)"
    using other_inv [OF inv, of rt1] loc(2) same by simp
  have best: "best_route (ip_now s) rt1 dest' r = best_route (ip_now s) (ip_rt s) dest' r" for dest' r
    by (cases r) (simp_all add: best_route_def same)
  obtain r rt' where "best_route (ip_now s) (ip_rt s) (dg_destAddress dg) r" "caches_only rt1 rt'"
    "routeUnicastPacket ?dg (Some fromIE) None 0 ?s = forwarded ?dg fromIE r (s\<lparr>ip_rt := rt'\<rparr>)"
    using routeUnicastPacket_forwarded [OF inv1, of ?dg fromIE] nf loc(1)
    by (auto simp: best no_filters_def same)
  with run caches_only_trans [OF loc(1)] show ?thesis by auto
qed

definition example_router :: IPv4 where
  "example_router =
     (let ift = [example_iface 1500, (example_iface 1500)\<lparr>ie_id := 2\<rparr>]
      in (example_node ift)\<lparr>ip_rt := demo_table\<lparr>rt_ift := ift, rt_IPForward := True\<rparr>\<rparr>)"

definition example_transit :: IPv4Datagram where
  "example_transit = \<lparr>dg_byteLength = 120, dg_headerLength = 20, dg_srcAddress = 0x0B000001,
     dg_destAddress = 0x0A010203, dg_transportProtocol = 17, dg_timeToLive = 32, dg_identification = 7,
     dg_moreFragments = False, dg_dontFragment = False, dg_fragmentOffset = 0, dg_typeOfService = 0,
     dg_totalPayloadLength = 0, dg_encapsulatedPacket = None, dg_bitError = False, dg_arrivalGate = Some 0,
     dg_multicastLoop = None\<rparr>"

text \<open>Adding a route changes neither the rules nor, when it is empty, the cache of local addresses.\<close>

definition unfiltered :: "RoutingTable \<Rightarrow> bool" where
  "unfiltered rt \<longleftrightarrow> rt_localAddresses rt = [] \<and> rt_inputRules rt = [] \<and> rt_outputRules rt = []"

lemma addRoute_unfiltered:
  assumes "addRoute now s p = Inr s'" "unfiltered s"
  shows "unfiltered s'"
proof -
  have "unfiltered s1" if "deleteRoute s q = Inr (s1, b)" for q s1 b
    using that assms(2) by (auto simp: deleteRoute_def internalRemoveRoute_def unfiltered_def free_route_def fire_def
        invalidateCache_def split: if_splits)
  with assms show ?thesis
    by (auto simp: addRoute_def internalAddRoute_def unfiltered_def insertSorted_def store_route_def fire_def
        invalidateCache_def Let_def split: if_splits option.splits)
qed

lemma demo_table_fields:
  "rt_localAddresses demo_table = []" "rt_inputRules demo_table = []" "rt_outputRules demo_table = []"
proof -
  have "unfiltered (demo_add p r s)" if "unfiltered s" for p r s
    using that addRoute_unfiltered [of 0 "store_route p r s" p]
    by (auto simp: demo_add_def unfiltered_def store_route_def split: sum.splits)
  then have "unfiltered demo_table"
    by (simp add: demo_table_def) (simp add: unfiltered_def rt_empty_def)
  then show "rt_localAddresses demo_table = []" "rt_inputRules demo_table = []" "rt_outputRules demo_table = []"
    by (simp_all add: unfiltered_def)
qed

theorem forwards_by_best_route_witness:
  "\<exists>r rt'. best_route 0 (ip_rt example_router) 0x0A010203 r
     \<and> handleIncomingDatagram False example_transit 2 example_router
       = forwarded example_transit 2 r (example_router\<lparr>ip_rt := rt'\<rparr>)"
proof -
  have "rt_reachable [] (0, ip_rt example_router)"
    by (rule rt_next [OF demo_table_reachable], rule st_other) (simp_all add: example_router_def Let_def)
  moreover have "ip_now example_router = 0" by (simp add: example_router_def example_node_def Let_def)
  moreover have "no_filters example_router"
    by (simp add: no_filters_def example_router_def example_node_def demo_table_fields Let_def)
  moreover have "ifaceOf example_router 2 = Inr ((example_iface 1500)\<lparr>ie_id := 2\<rparr>)"
    by (simp add: ifaceOf_def iface_by_id_def example_router_def Let_def example_iface_def)
  moreover have "isLocalAddress (ip_rt example_router) 0x0A010203
      = Inr ((ip_rt example_router)\<lparr>rt_localAddresses := [(0x0A000001, ())]\<rparr>, False)"
    by (simp add: isLocalAddress_def example_router_def Let_def example_iface_def address_set_def smap_find_def
        demo_table_fields)
  moreover have "findInterfaceByLocalBroadcastAddress (ip_rt example_router) 0x0A010203 = Inr None"
    by (simp add: findInterfaceByLocalBroadcastAddress_def example_router_def Let_def example_iface_def
        makeBroadcastAddress_def IPv4InterfaceData_new_def)
  moreover have "\<not> isMulticast 0x0A010203" "\<not> isLimitedBroadcastAddress 0x0A010203" by code_simp+
  moreover have "rt_IPForward (ip_rt example_router)" by (simp add: example_router_def Let_def)
  ultimately show ?thesis
    using forwards_by_best_route [of "[]" example_router example_transit False 2 "(example_iface 1500)\<lparr>ie_id := 2\<rparr>"
        "IPv4InterfaceData_new\<lparr>ifd_inetAddr := 0x0A000001\<rparr>" "(ip_rt example_router)\<lparr>rt_localAddresses := [(0x0A000001, ())]\<rparr>"]
    by (auto simp: example_transit_def example_iface_def)
qed

end
