(* ===== verification/IGMP.thy ===== *)
theory IGMP
  imports ICMP
begin

text \<open>
  Group membership, \<^verbatim>\<open>src/src/networklayer/ipv4/IGMPv2.{h,cc}\<close>: the host part keeps an
  entry per interface and joined group and reports it, the router part queries, and keeps an entry per
  interface and group that somebody on the link has reported.  A timer is absent (a null pointer),
  allocated, or scheduled.  Times are milliseconds; the response time of a message is in tenths of a
  second.  The delay drawn by \<^verbatim>\<open>uniform(0, max)\<close> is the next value of \<open>ig_uniform\<close>.
  Messages and notifications are appended to \<open>ig_out\<close>.  The robustness variable and the
  startup query count are read from the configuration and then never used.
\<close>

section \<open>State\<close>

datatype RouterState = IGMP_RS_INITIAL | IGMP_RS_QUERIER | IGMP_RS_NON_QUERIER
datatype RouterGroupState = IGMP_RGS_NO_MEMBERS_PRESENT | IGMP_RGS_MEMBERS_PRESENT
  | IGMP_RGS_V1_MEMBERS_PRESENT | IGMP_RGS_CHECKING_MEMBERSHIP
datatype HostGroupState = IGMP_HGS_NON_MEMBER | IGMP_HGS_DELAYING_MEMBER | IGMP_HGS_IDLE_MEMBER

datatype IgmpTimer = NoTimer | Unscheduled | Scheduled simtime

record HostGroupData =
  hg_state :: HostGroupState
  hg_flag :: bool
  hg_timer :: IgmpTimer

record RouterGroupData =
  rg_state :: RouterGroupState
  rg_timer :: IgmpTimer
  rg_rexmtTimer :: IgmpTimer

record RouterInterfaceData =
  ri_groups :: "(IPv4Address, RouterGroupData) smap"
  ri_igmpRouterState :: RouterState
  ri_igmpQueryTimer :: IgmpTimer

datatype IGMPType = IGMP_MEMBERSHIP_QUERY | IGMPV2_MEMBERSHIP_REPORT | IGMPV2_LEAVE_GROUP | IGMP_OTHER int

record IGMPMessage =
  igm_type :: IGMPType
  igm_maxRespTime :: int
  igm_groupAddress :: IPv4Address

datatype IgmpEvent =
    IgmpToIP IGMPMessage nat IPv4Address
  | IgmpToRouter IGMPMessage
  | IgmpFromRouter IGMPMessage
  | McastRegistered nat IPv4Address
  | McastUnregistered nat IPv4Address
  | IgmpConfigChanged nat

record IGMPv2 =
  ig_now :: simtime
  ig_rt :: RoutingTable
  ig_enabled :: bool
  ig_externalRouter :: bool
  ig_queryInterval :: simtime
  ig_queryResponseInterval :: simtime
  ig_groupMembershipInterval :: simtime
  ig_otherQuerierPresentInterval :: simtime
  ig_startupQueryInterval :: simtime
  ig_lastMemberQueryInterval :: simtime
  ig_lastMemberQueryCount :: int
  ig_unsolicitedReportInterval :: simtime
  ig_uniform :: "nat \<Rightarrow> simtime \<Rightarrow> simtime"
  ig_draws :: nat
  ig_hostData :: "(nat, (IPv4Address, HostGroupData) smap) smap"
  ig_routerData :: "(nat, RouterInterfaceData) smap"
  ig_numGroups :: int
  ig_numHostGroups :: int
  ig_numRouterGroups :: int
  ig_numQueriesSent :: int
  ig_numQueriesRecv :: int
  ig_numGeneralQueriesSent :: int
  ig_numGeneralQueriesRecv :: int
  ig_numGroupSpecificQueriesSent :: int
  ig_numGroupSpecificQueriesRecv :: int
  ig_numReportsSent :: int
  ig_numReportsRecv :: int
  ig_numLeavesSent :: int
  ig_numLeavesRecv :: int
  ig_out :: "IgmpEvent list"

abbreviation "ALL_HOSTS_MCAST \<equiv> (0xE0000001 :: IPv4Address)"
abbreviation "ALL_ROUTERS_MCAST \<equiv> (0xE0000002 :: IPv4Address)"

definition ig_emit :: "IgmpEvent \<Rightarrow> IGMPv2 \<Rightarrow> IGMPv2" where
  "ig_emit ev s = s\<lparr>ig_out := ig_out s @ [ev]\<rparr>"

section \<open>The data of interfaces and groups\<close>

text \<open>Looking up the data of an interface creates them when they are missing.\<close>

definition HostGroupData_new :: HostGroupData where
  "HostGroupData_new = \<lparr>hg_state = IGMP_HGS_NON_MEMBER, hg_flag = False, hg_timer = NoTimer\<rparr>"

definition RouterGroupData_new :: RouterGroupData where
  "RouterGroupData_new = \<lparr>rg_state = IGMP_RGS_NO_MEMBERS_PRESENT, rg_timer = NoTimer, rg_rexmtTimer = NoTimer\<rparr>"

definition RouterInterfaceData_new :: RouterInterfaceData where
  "RouterInterfaceData_new = \<lparr>ri_groups = [], ri_igmpRouterState = IGMP_RS_INITIAL, ri_igmpQueryTimer = NoTimer\<rparr>"

definition hostGroups :: "IGMPv2 \<Rightarrow> nat \<Rightarrow> (IPv4Address, HostGroupData) smap" where
  "hostGroups s i = (case smap_find (ig_hostData s) i of None \<Rightarrow> [] | Some gs \<Rightarrow> gs)"

definition routerInterface :: "IGMPv2 \<Rightarrow> nat \<Rightarrow> RouterInterfaceData" where
  "routerInterface s i = (case smap_find (ig_routerData s) i of None \<Rightarrow> RouterInterfaceData_new | Some r \<Rightarrow> r)"

definition putHostGroups :: "nat \<Rightarrow> (IPv4Address, HostGroupData) smap \<Rightarrow> IGMPv2 \<Rightarrow> IGMPv2" where
  "putHostGroups i gs s = s\<lparr>ig_hostData := smap_insert i gs (ig_hostData s)\<rparr>"

definition putRouterInterface :: "nat \<Rightarrow> RouterInterfaceData \<Rightarrow> IGMPv2 \<Rightarrow> IGMPv2" where
  "putRouterInterface i r s = s\<lparr>ig_routerData := smap_insert i r (ig_routerData s)\<rparr>"

definition getHostInterfaceData :: "nat \<Rightarrow> IGMPv2 \<Rightarrow> IGMPv2 \<times> (IPv4Address, HostGroupData) smap" where
  "getHostInterfaceData i s = (putHostGroups i (hostGroups s i) s, hostGroups s i)"

definition getRouterInterfaceData :: "nat \<Rightarrow> IGMPv2 \<Rightarrow> IGMPv2 \<times> RouterInterfaceData" where
  "getRouterInterfaceData i s = (putRouterInterface i (routerInterface s i) s, routerInterface s i)"

definition putHostGroup :: "nat \<Rightarrow> IPv4Address \<Rightarrow> HostGroupData \<Rightarrow> IGMPv2 \<Rightarrow> IGMPv2" where
  "putHostGroup i g d s = putHostGroups i (smap_insert g d (hostGroups s i)) s"

definition putRouterGroup :: "nat \<Rightarrow> IPv4Address \<Rightarrow> RouterGroupData \<Rightarrow> IGMPv2 \<Rightarrow> IGMPv2" where
  "putRouterGroup i g d s =
     (let r = routerInterface s i in putRouterInterface i (r\<lparr>ri_groups := smap_insert g d (ri_groups r)\<rparr>) s)"

definition createHostGroupData :: "nat \<Rightarrow> IPv4Address \<Rightarrow> IGMPv2 \<Rightarrow> (IGMPv2 \<times> HostGroupData) outcome" where
  "createHostGroupData i g s =
     (if smap_find (hostGroups s i) g \<noteq> None
      then Inl (AssertFailed ''interfaceData->groups.find(group) == interfaceData->groups.end()'')
      else if \<not> isMulticast g then Inl (AssertFailed ''groupAddr.isMulticast()'')
      else Inr (putHostGroup i g HostGroupData_new s, HostGroupData_new))"

definition createRouterGroupData :: "nat \<Rightarrow> IPv4Address \<Rightarrow> IGMPv2 \<Rightarrow> (IGMPv2 \<times> RouterGroupData) outcome" where
  "createRouterGroupData i g s =
     (if smap_find (ri_groups (routerInterface s i)) g \<noteq> None
      then Inl (AssertFailed ''interfaceData->groups.find(group) == interfaceData->groups.end()'')
      else if \<not> isMulticast g then Inl (AssertFailed ''groupAddr.isMulticast()'')
      else Inr (putRouterGroup i g RouterGroupData_new s, RouterGroupData_new))"

definition deleteHostGroupData :: "nat \<Rightarrow> IPv4Address \<Rightarrow> IGMPv2 \<Rightarrow> IGMPv2" where
  "deleteHostGroupData i g s = putHostGroups i (smap_erase g (hostGroups s i)) s"

definition deleteRouterGroupData :: "nat \<Rightarrow> IPv4Address \<Rightarrow> IGMPv2 \<Rightarrow> IGMPv2" where
  "deleteRouterGroupData i g s =
     (let r = routerInterface s i in putRouterInterface i (r\<lparr>ri_groups := smap_erase g (ri_groups r)\<rparr>) s)"

section \<open>Sending\<close>

definition igmpIface :: "IGMPv2 \<Rightarrow> nat \<Rightarrow> InterfaceEntry outcome" where
  "igmpIface s i =
     (case iface_by_id (rt_ift (ig_rt s)) i of
        None \<Rightarrow> Inl (UndefinedBehaviour ''no such interface entry'') | Some ie \<Rightarrow> Inr ie)"

definition igmpMulticastIface :: "IGMPv2 \<Rightarrow> nat \<Rightarrow> InterfaceEntry outcome" where
  "igmpMulticastIface s i =
     outcome_bind (igmpIface s i) (\<lambda>ie. if ie_multicast ie then Inr ie else Inl (AssertFailed ''ie->isMulticast()''))"

definition IGMP_sendToIP :: "IGMPMessage \<Rightarrow> nat \<Rightarrow> IPv4Address \<Rightarrow> IGMPv2 \<Rightarrow> IGMPv2 outcome" where
  "IGMP_sendToIP m i dest s = outcome_bind (igmpMulticastIface s i) (\<lambda>ie. Inr (ig_emit (IgmpToIP m i dest) s))"

definition sendQuery :: "nat \<Rightarrow> IPv4Address \<Rightarrow> simtime \<Rightarrow> IGMPv2 \<Rightarrow> IGMPv2 outcome" where
  "sendQuery i g maxRespTime s =
     (if \<not> (IPv4Address_isUnspecified g \<or> (isMulticast g \<and> \<not> isLinkLocalMulticast g))
      then Inl (AssertFailed ''groupAddr.isUnspecified() || (groupAddr.isMulticast() && !groupAddr.isLinkLocalMulticast())'')
      else
        let (s1, r) = getRouterInterfaceData i s in
        if ri_igmpRouterState r = IGMP_RS_QUERIER then
          outcome_bind
            (IGMP_sendToIP \<lparr>igm_type = IGMP_MEMBERSHIP_QUERY, igm_maxRespTime = maxRespTime div 100, igm_groupAddress = g\<rparr>
               i (if IPv4Address_isUnspecified g then ALL_HOSTS_MCAST else g) s1) (\<lambda>s2.
            let s3 = s2\<lparr>ig_numQueriesSent := ig_numQueriesSent s2 + 1\<rparr>
            in Inr (if IPv4Address_isUnspecified g
                    then s3\<lparr>ig_numGeneralQueriesSent := ig_numGeneralQueriesSent s3 + 1\<rparr>
                    else s3\<lparr>ig_numGroupSpecificQueriesSent := ig_numGroupSpecificQueriesSent s3 + 1\<rparr>))
        else Inr s1)"

definition sendReport :: "nat \<Rightarrow> IPv4Address \<Rightarrow> IGMPv2 \<Rightarrow> IGMPv2 outcome" where
  "sendReport i g s =
     (if \<not> (isMulticast g \<and> \<not> isLinkLocalMulticast g)
      then Inl (AssertFailed ''groupAddr.isMulticast() && !groupAddr.isLinkLocalMulticast()'')
      else outcome_bind
        (IGMP_sendToIP \<lparr>igm_type = IGMPV2_MEMBERSHIP_REPORT, igm_maxRespTime = 0, igm_groupAddress = g\<rparr> i g s) (\<lambda>s1.
        Inr (s1\<lparr>ig_numReportsSent := ig_numReportsSent s1 + 1\<rparr>)))"

definition sendLeave :: "nat \<Rightarrow> IPv4Address \<Rightarrow> IGMPv2 \<Rightarrow> IGMPv2 outcome" where
  "sendLeave i g s =
     (if \<not> (isMulticast g \<and> \<not> isLinkLocalMulticast g)
      then Inl (AssertFailed ''groupAddr.isMulticast() && !groupAddr.isLinkLocalMulticast()'')
      else outcome_bind
        (IGMP_sendToIP \<lparr>igm_type = IGMPV2_LEAVE_GROUP, igm_maxRespTime = 0, igm_groupAddress = g\<rparr> i ALL_ROUTERS_MCAST s) (\<lambda>s1.
        Inr (s1\<lparr>ig_numLeavesSent := ig_numLeavesSent s1 + 1\<rparr>)))"

section \<open>Timers\<close>

definition startTimer :: "IgmpTimer \<Rightarrow> simtime \<Rightarrow> IGMPv2 \<Rightarrow> IgmpTimer outcome" where
  "startTimer t interval s =
     (if t = NoTimer then Inl (AssertFailed ''timer'')
      else if interval < 0 then Inl (RuntimeError ''scheduleAt(): cannot schedule a message to the past'')
      else Inr (Scheduled (ig_now s + interval)))"

text \<open>\<^verbatim>\<open>cancelEvent\<close> takes no null pointer.\<close>

definition cancelTimer :: "IgmpTimer \<Rightarrow> IgmpTimer outcome" where
  "cancelTimer t = (if t = NoTimer then Inl (RuntimeError ''cancelEvent(): message pointer is NULL'') else Inr Unscheduled)"

definition startHostTimer :: "HostGroupData \<Rightarrow> simtime \<Rightarrow> IGMPv2 \<Rightarrow> (IGMPv2 \<times> HostGroupData) outcome" where
  "startHostTimer d maxRespTime s =
     (let delay = ig_uniform s (ig_draws s) maxRespTime; s1 = s\<lparr>ig_draws := ig_draws s + 1\<rparr>
      in outcome_bind (startTimer (if hg_timer d = NoTimer then Unscheduled else hg_timer d) delay s1) (\<lambda>t.
           Inr (s1, d\<lparr>hg_timer := t\<rparr>)))"

section \<open>Groups joined and left on this node\<close>

definition multicastGroupJoined :: "nat \<Rightarrow> IPv4Address \<Rightarrow> IGMPv2 \<Rightarrow> IGMPv2 outcome" where
  "multicastGroupJoined i g s =
     outcome_bind (igmpMulticastIface s i) (\<lambda>ie.
     if \<not> isMulticast g then Inl (AssertFailed ''groupAddr.isMulticast()'')
     else if ig_enabled s \<and> \<not> isLinkLocalMulticast g then
       outcome_bind (createHostGroupData i g s) (\<lambda>(s1, d).
       outcome_bind (sendReport i g (s1\<lparr>ig_numGroups := ig_numGroups s1 + 1, ig_numHostGroups := ig_numHostGroups s1 + 1\<rparr>)) (\<lambda>s2.
       outcome_bind (startHostTimer (d\<lparr>hg_flag := True\<rparr>) (ig_unsolicitedReportInterval s2) s2) (\<lambda>(s3, d').
         Inr (putHostGroup i g (d'\<lparr>hg_state := IGMP_HGS_DELAYING_MEMBER\<rparr>) s3))))
     else Inr s)"

definition multicastGroupLeft :: "nat \<Rightarrow> IPv4Address \<Rightarrow> IGMPv2 \<Rightarrow> IGMPv2 outcome" where
  "multicastGroupLeft i g s =
     outcome_bind (igmpMulticastIface s i) (\<lambda>ie.
     if \<not> isMulticast g then Inl (AssertFailed ''groupAddr.isMulticast()'')
     else if ig_enabled s \<and> \<not> isLinkLocalMulticast g then
       outcome_bind
         (case smap_find (hostGroups s i) g of
            None \<Rightarrow> Inr s
          | Some d \<Rightarrow>
              outcome_bind (if hg_state d = IGMP_HGS_DELAYING_MEMBER then cancelTimer (hg_timer d) else Inr (hg_timer d)) (\<lambda>t.
                if hg_flag d then sendLeave i g (putHostGroup i g (d\<lparr>hg_timer := t\<rparr>) s) else Inr (putHostGroup i g (d\<lparr>hg_timer := t\<rparr>) s)))
         (\<lambda>s1. Inr ((deleteHostGroupData i g s1)\<lparr>ig_numHostGroups := ig_numHostGroups s1 - 1, ig_numGroups := ig_numGroups s1 - 1\<rparr>))
     else Inr s)"

section \<open>Interfaces\<close>

definition configureInterface :: "nat \<Rightarrow> IGMPv2 \<Rightarrow> IGMPv2 outcome" where
  "configureInterface i s =
     (if ig_enabled s \<and> rt_multicastForward (ig_rt s) \<and> \<not> ig_externalRouter s then
        outcome_bind
          (sendQuery i 0 (ig_queryResponseInterval s)
             (putRouterInterface i ((routerInterface s i)\<lparr>ri_igmpQueryTimer := Unscheduled, ri_igmpRouterState := IGMP_RS_QUERIER\<rparr>) s)) (\<lambda>s1.
        outcome_bind (startTimer Unscheduled (ig_startupQueryInterval s1) s1) (\<lambda>t.
          Inr (putRouterInterface i ((routerInterface s1 i)\<lparr>ri_igmpQueryTimer := t\<rparr>) s1)))
      else Inr s)"

definition deleteInterfaceData :: "nat \<Rightarrow> IGMPv2 \<Rightarrow> IGMPv2" where
  "deleteInterfaceData i s =
     s\<lparr>ig_hostData := smap_erase i (ig_hostData s), ig_routerData := smap_erase i (ig_routerData s)\<rparr>"

datatype IgmpNotification = IF_CREATED nat | IF_DELETED nat bool | GROUP_JOINED nat IPv4Address | GROUP_LEFT nat IPv4Address

text \<open>The interface of a deletion is no longer in the table; its multicast flag is passed.\<close>

definition IGMP_receiveChangeNotification :: "IgmpNotification \<Rightarrow> IGMPv2 \<Rightarrow> IGMPv2 outcome" where
  "IGMP_receiveChangeNotification n s =
     (case n of
        IF_CREATED i \<Rightarrow> outcome_bind (igmpIface s i) (\<lambda>ie. if ie_multicast ie then configureInterface i s else Inr s)
      | IF_DELETED i multicast \<Rightarrow> Inr (if multicast then deleteInterfaceData i s else s)
      | GROUP_JOINED i g \<Rightarrow> multicastGroupJoined i g s
      | GROUP_LEFT i g \<Rightarrow> multicastGroupLeft i g s)"

definition IGMP_initialize :: "IGMPv2 \<Rightarrow> IGMPv2 outcome" where
  "IGMP_initialize s =
     foldl (\<lambda>r ie. if ie_multicast ie then outcome_bind r (configureInterface (ie_id ie)) else r)
       (Inr s) (rt_ift (ig_rt s))"

section \<open>Timers that go off\<close>

text \<open>A self-message is delivered when its time has come; it is no longer scheduled then.\<close>

definition processQueryTimer :: "nat \<Rightarrow> IGMPv2 \<Rightarrow> IGMPv2 outcome" where
  "processQueryTimer i s0 =
     (let (s, r) = getRouterInterfaceData i s0 in
      if ri_igmpRouterState r \<in> {IGMP_RS_QUERIER, IGMP_RS_NON_QUERIER} then
        outcome_bind
          (sendQuery i 0 (ig_queryResponseInterval s) (putRouterInterface i (r\<lparr>ri_igmpRouterState := IGMP_RS_QUERIER\<rparr>) s)) (\<lambda>s1.
        outcome_bind (startTimer Unscheduled (ig_queryInterval s1) s1) (\<lambda>t.
          Inr (putRouterInterface i ((routerInterface s1 i)\<lparr>ri_igmpQueryTimer := t\<rparr>) s1)))
      else Inr (putRouterInterface i (r\<lparr>ri_igmpQueryTimer := Unscheduled\<rparr>) s))"

definition processHostGroupTimer :: "nat \<Rightarrow> IPv4Address \<Rightarrow> IGMPv2 \<Rightarrow> IGMPv2 outcome" where
  "processHostGroupTimer i g s =
     (case smap_find (hostGroups s i) g of
        None \<Rightarrow> Inl (UndefinedBehaviour ''host group was deleted'')
      | Some d \<Rightarrow> outcome_bind (sendReport i g s) (\<lambda>s1.
          Inr (putHostGroup i g (d\<lparr>hg_timer := Unscheduled, hg_flag := True, hg_state := IGMP_HGS_IDLE_MEMBER\<rparr>) s1)))"

definition igmpPutInterface :: "nat \<Rightarrow> IPv4InterfaceData \<Rightarrow> IGMPv2 \<Rightarrow> IGMPv2" where
  "igmpPutInterface i d s =
     s\<lparr>ig_rt := (ig_rt s)\<lparr>rt_ift := map (\<lambda>ie. if ie_id ie = i then ie\<lparr>ie_ipv4Data := Some d\<rparr> else ie) (rt_ift (ig_rt s))\<rparr>\<rparr>"

definition igmpData :: "IGMPv2 \<Rightarrow> nat \<Rightarrow> IPv4InterfaceData outcome" where
  "igmpData s i =
     outcome_bind (igmpIface s i) (\<lambda>ie.
       case ie_ipv4Data ie of None \<Rightarrow> Inl (UndefinedBehaviour ''ipv4Data() is NULL'') | Some d \<Rightarrow> Inr d)"

definition configNotes :: "nat \<Rightarrow> GroupNote list \<Rightarrow> IgmpEvent list" where
  "configNotes i ns = map (\<lambda>_. IgmpConfigChanged i) ns"

definition processLeaveTimer :: "nat \<Rightarrow> IPv4Address \<Rightarrow> IGMPv2 \<Rightarrow> IGMPv2 outcome" where
  "processLeaveTimer i g s =
     (case smap_find (ri_groups (routerInterface s i)) g of
        None \<Rightarrow> Inl (UndefinedBehaviour ''router group was deleted'')
      | Some gd \<Rightarrow> outcome_bind (igmpData s i) (\<lambda>d.
          let (d', ns) = removeMulticastListener g d;
              s1 = igmpPutInterface i d' s;
              s2 = s1\<lparr>ig_out := ig_out s1 @ configNotes i ns @ [McastUnregistered i g], ig_numRouterGroups := ig_numRouterGroups s1 - 1\<rparr>
          in outcome_bind
               (if rg_state gd = IGMP_RGS_CHECKING_MEMBERSHIP then cancelTimer (rg_rexmtTimer gd) else Inr (rg_rexmtTimer gd)) (\<lambda>_.
             Inr ((deleteRouterGroupData i g s2)\<lparr>ig_numGroups := ig_numGroups s2 - 1\<rparr>))))"

definition processRexmtTimer :: "nat \<Rightarrow> IPv4Address \<Rightarrow> IGMPv2 \<Rightarrow> IGMPv2 outcome" where
  "processRexmtTimer i g s =
     (case smap_find (ri_groups (routerInterface s i)) g of
        None \<Rightarrow> Inl (UndefinedBehaviour ''router group was deleted'')
      | Some gd \<Rightarrow>
          outcome_bind (sendQuery i g (ig_lastMemberQueryInterval s) s) (\<lambda>s1.
          outcome_bind (startTimer (rg_rexmtTimer gd) (ig_lastMemberQueryInterval s1) s1) (\<lambda>t.
            Inr (putRouterGroup i g (gd\<lparr>rg_rexmtTimer := t, rg_state := IGMP_RGS_CHECKING_MEMBERSHIP\<rparr>) s1))))"

section \<open>Messages\<close>

definition processGroupQuery :: "nat \<Rightarrow> IPv4Address \<Rightarrow> int \<Rightarrow> IGMPv2 \<Rightarrow> IGMPv2 outcome" where
  "processGroupQuery i g maxRespTime s =
     (case smap_find (hostGroups s i) g of
        None \<Rightarrow> Inr s
      | Some d \<Rightarrow>
          let maxResp = maxRespTime * 100 in
          (case hg_state d of
             IGMP_HGS_DELAYING_MEMBER \<Rightarrow>
               (case hg_timer d of
                  NoTimer \<Rightarrow> Inl (UndefinedBehaviour ''timer is NULL'')
                | Unscheduled \<Rightarrow> Inr s
                | Scheduled t \<Rightarrow>
                    if ig_now s + maxResp < t
                    then outcome_bind (startHostTimer d maxResp s) (\<lambda>(s1, d'). Inr (putHostGroup i g d' s1))
                    else Inr s)
           | IGMP_HGS_IDLE_MEMBER \<Rightarrow>
               outcome_bind (startHostTimer d maxResp s) (\<lambda>(s1, d').
                 Inr (putHostGroup i g (d'\<lparr>hg_state := IGMP_HGS_DELAYING_MEMBER\<rparr>) s1))
           | IGMP_HGS_NON_MEMBER \<Rightarrow> Inr s))"

fun processGroupQueries :: "nat \<Rightarrow> IPv4Address list \<Rightarrow> int \<Rightarrow> IGMPv2 \<Rightarrow> IGMPv2 outcome" where
  "processGroupQueries i [] maxRespTime s = Inr s"
| "processGroupQueries i (g # gs) maxRespTime s =
     outcome_bind (processGroupQuery i g maxRespTime s) (processGroupQueries i gs maxRespTime)"

definition queryAsRouter :: "nat \<Rightarrow> IPv4Address \<Rightarrow> IGMPMessage \<Rightarrow> IGMPv2 \<Rightarrow> IGMPv2 outcome" where
  "queryAsRouter i sender m s0 =
     (let g = igm_groupAddress m; (s, r) = getRouterInterfaceData i s0 in
      outcome_bind (igmpData s i) (\<lambda>d.
      outcome_bind
        (if sender < ifd_inetAddr d then
           outcome_bind (startTimer (ri_igmpQueryTimer r) (ig_otherQuerierPresentInterval s) s) (\<lambda>t.
             Inr (putRouterInterface i (r\<lparr>ri_igmpQueryTimer := t, ri_igmpRouterState := IGMP_RS_NON_QUERIER\<rparr>) s))
         else Inr s) (\<lambda>s1.
      if \<not> IPv4Address_isUnspecified g \<and> ri_igmpRouterState (routerInterface s1 i) = IGMP_RS_NON_QUERIER then
        (case smap_find (ri_groups (routerInterface s1 i)) g of
           None \<Rightarrow> Inl (UndefinedBehaviour ''groupData is NULL'')
         | Some gd \<Rightarrow>
             if rg_state gd = IGMP_RGS_MEMBERS_PRESENT then
               outcome_bind (startTimer (rg_timer gd) (igm_maxRespTime m * 100 * ig_lastMemberQueryCount s1) s1) (\<lambda>t.
                 Inr (putRouterGroup i g (gd\<lparr>rg_timer := t, rg_state := IGMP_RGS_CHECKING_MEMBERSHIP\<rparr>) s1))
             else Inr s1)
      else Inr s1)))"

definition processQuery :: "nat \<Rightarrow> IPv4Address \<Rightarrow> IGMPMessage \<Rightarrow> IGMPv2 \<Rightarrow> IGMPv2 outcome" where
  "processQuery i sender m s0 =
     outcome_bind (igmpMulticastIface s0 i) (\<lambda>ie.
     let (s1, groups) = getHostInterfaceData i s0;
         s2 = s1\<lparr>ig_numQueriesRecv := ig_numQueriesRecv s1 + 1\<rparr>;
         g = igm_groupAddress m
     in outcome_bind
          (if IPv4Address_isUnspecified g
           then processGroupQueries i (map fst groups) (igm_maxRespTime m)
                  (s2\<lparr>ig_numGeneralQueriesRecv := ig_numGeneralQueriesRecv s2 + 1\<rparr>)
           else processGroupQuery i g (igm_maxRespTime m)
                  (s2\<lparr>ig_numGroupSpecificQueriesRecv := ig_numGroupSpecificQueriesRecv s2 + 1\<rparr>)) (\<lambda>s3.
        if rt_multicastForward (ig_rt s3) then
          (if ig_externalRouter s3 then Inr (ig_emit (IgmpToRouter m) s3) else queryAsRouter i sender m s3)
        else Inr s3))"

definition reportAsHost :: "nat \<Rightarrow> IPv4Address \<Rightarrow> IGMPv2 \<Rightarrow> IGMPv2 outcome" where
  "reportAsHost i g s0 =
     (let (s, groups) = getHostInterfaceData i s0 in
      case smap_find groups g of
        None \<Rightarrow> Inr s
      | Some d \<Rightarrow>
          if hg_state d = IGMP_HGS_DELAYING_MEMBER then
            outcome_bind (cancelTimer (hg_timer d)) (\<lambda>t.
              Inr (putHostGroup i g (d\<lparr>hg_timer := t, hg_flag := False, hg_state := IGMP_HGS_IDLE_MEMBER\<rparr>) s))
          else Inr s)"

definition allocated :: "IgmpTimer \<Rightarrow> IgmpTimer" where
  "allocated t = (if t = NoTimer then Unscheduled else t)"

definition reportAsRouter :: "nat \<Rightarrow> IPv4Address \<Rightarrow> IGMPv2 \<Rightarrow> IGMPv2 outcome" where
  "reportAsRouter i g s0 =
     (let s = fst (getRouterInterfaceData i s0) in
      outcome_bind
        (case smap_find (ri_groups (routerInterface s i)) g of
           Some gd \<Rightarrow> Inr (s, gd)
         | None \<Rightarrow> outcome_bind (createRouterGroupData i g s) (\<lambda>(s', gd). Inr (s'\<lparr>ig_numGroups := ig_numGroups s' + 1\<rparr>, gd)))
        (\<lambda>(s1, gd0).
      let gd = gd0\<lparr>rg_timer := allocated (rg_timer gd0), rg_rexmtTimer := allocated (rg_rexmtTimer gd0)\<rparr> in
      outcome_bind
        (if rg_state gd = IGMP_RGS_NO_MEMBERS_PRESENT then
           outcome_bind (igmpData s1 i) (\<lambda>d.
           outcome_bind (addMulticastListener g d) (\<lambda>(d', ns).
             let s2 = igmpPutInterface i d' s1
             in Inr (s2\<lparr>ig_out := ig_out s2 @ configNotes i ns @ [McastRegistered i g],
                        ig_numRouterGroups := ig_numRouterGroups s2 + 1\<rparr>, rg_rexmtTimer gd)))
         else if rg_state gd = IGMP_RGS_CHECKING_MEMBERSHIP then
           outcome_bind (cancelTimer (rg_rexmtTimer gd)) (\<lambda>t. Inr (s1, t))
         else Inr (s1, rg_rexmtTimer gd)) (\<lambda>(s3, rexmt).
      outcome_bind (startTimer (rg_timer gd) (ig_groupMembershipInterval s3) s3) (\<lambda>t.
        Inr (putRouterGroup i g (gd\<lparr>rg_timer := t, rg_rexmtTimer := rexmt, rg_state := IGMP_RGS_MEMBERS_PRESENT\<rparr>) s3)))))"

definition processV2Report :: "nat \<Rightarrow> IGMPMessage \<Rightarrow> IGMPv2 \<Rightarrow> IGMPv2 outcome" where
  "processV2Report i m s =
     outcome_bind (igmpMulticastIface s i) (\<lambda>ie.
     outcome_bind (reportAsHost i (igm_groupAddress m) (s\<lparr>ig_numReportsRecv := ig_numReportsRecv s + 1\<rparr>)) (\<lambda>s1.
       if rt_multicastForward (ig_rt s1) then
         (if ig_externalRouter s1 then Inr (ig_emit (IgmpToRouter m) s1) else reportAsRouter i (igm_groupAddress m) s1)
       else Inr s1))"

definition processLeave :: "nat \<Rightarrow> IGMPMessage \<Rightarrow> IGMPv2 \<Rightarrow> IGMPv2 outcome" where
  "processLeave i m s0 =
     outcome_bind (igmpMulticastIface s0 i) (\<lambda>ie.
     let s = s0\<lparr>ig_numLeavesRecv := ig_numLeavesRecv s0 + 1\<rparr>; g = igm_groupAddress m in
     if rt_multicastForward (ig_rt s) then
       (if ig_externalRouter s then Inr (ig_emit (IgmpToRouter m) s)
        else
          let (s1, r) = getRouterInterfaceData i s in
          case smap_find (ri_groups r) g of
            None \<Rightarrow> Inr s1
          | Some gd \<Rightarrow>
              if rg_state gd = IGMP_RGS_MEMBERS_PRESENT \<and> ri_igmpRouterState r = IGMP_RS_QUERIER then
                outcome_bind (startTimer (rg_timer gd) (ig_lastMemberQueryInterval s1 * ig_lastMemberQueryCount s1) s1) (\<lambda>t.
                outcome_bind (startTimer (rg_rexmtTimer gd) (ig_lastMemberQueryInterval s1) s1) (\<lambda>rexmt.
                outcome_bind (sendQuery i g (ig_lastMemberQueryInterval s1) s1) (\<lambda>s2.
                  Inr (putRouterGroup i g
                    (gd\<lparr>rg_timer := t, rg_rexmtTimer := rexmt, rg_state := IGMP_RGS_CHECKING_MEMBERSHIP\<rparr>) s2))))
              else Inr s1)
     else Inr s)"

definition processIgmpMessage :: "nat \<Rightarrow> IPv4Address \<Rightarrow> IGMPMessage \<Rightarrow> IGMPv2 \<Rightarrow> IGMPv2 outcome" where
  "processIgmpMessage i sender m s =
     (case igm_type m of
        IGMP_MEMBERSHIP_QUERY \<Rightarrow> processQuery i sender m s
      | IGMPV2_MEMBERSHIP_REPORT \<Rightarrow> processV2Report i m s
      | IGMPV2_LEAVE_GROUP \<Rightarrow> processLeave i m s
      | IGMP_OTHER n \<Rightarrow>
          if ig_externalRouter s then Inr (ig_emit (IgmpToRouter m) s)
          else Inl (RuntimeError ''IGMPv2: Unhandled message type''))"

datatype IgmpInput = QueryTimer nat | HostGroupTimer nat IPv4Address | LeaveTimer nat IPv4Address
  | RexmtTimer nat IPv4Address | FromRouterGate IGMPMessage | FromIp nat IPv4Address IGMPMessage

definition IGMP_handleMessage :: "IgmpInput \<Rightarrow> IGMPv2 \<Rightarrow> IGMPv2 outcome" where
  "IGMP_handleMessage msg s =
     (if \<not> ig_enabled s then Inr s
      else case msg of
        QueryTimer i \<Rightarrow> processQueryTimer i s
      | HostGroupTimer i g \<Rightarrow> processHostGroupTimer i g s
      | LeaveTimer i g \<Rightarrow> processLeaveTimer i g s
      | RexmtTimer i g \<Rightarrow> processRexmtTimer i g s
      | FromRouterGate m \<Rightarrow> Inr (ig_emit (IgmpFromRouter m) s)
      | FromIp i sender m \<Rightarrow> processIgmpMessage i sender m s)"

end
