(* ===== verification/IGMP_Invariant.thy ===== *)
theory IGMP_Invariant
  imports IGMP IPv4_Resolution
begin

text \<open>
  The IGMP module as a state machine, and what holds of it in every reachable state: the entries of an
  interface are kept in step with their timers and with the listeners that the IPv4 module forwards
  multicast datagrams to.
\<close>

section \<open>Listeners of an interface\<close>

definition reported :: "InterfaceEntry \<Rightarrow> IPv4Address list" where
  "reported ie = (case ie_ipv4Data ie of None \<Rightarrow> [] | Some d \<Rightarrow> ifd_reportedGroups d)"

definition listeners :: "RoutingTable \<Rightarrow> nat \<Rightarrow> IPv4Address list" where
  "listeners rt i =
     (case iface_by_id (rt_ift rt) i of None \<Rightarrow> [] | Some ie \<Rightarrow> reported ie)"

definition mcast_iface :: "RoutingTable \<Rightarrow> nat \<Rightarrow> bool" where
  "mcast_iface rt i \<longleftrightarrow> (\<exists>ie. iface_by_id (rt_ift rt) i = Some ie \<and> ie_multicast ie)"

lemma iface_by_id_map:
  assumes "\<And>ie. ie_id (f ie) = ie_id ie"
  shows "iface_by_id (map (\<lambda>ie. if ie_id ie = i then f ie else ie) ift) j =
           (if j = i then map_option f (iface_by_id ift j) else iface_by_id ift j)"
  unfolding iface_by_id_def using assms by (induction ift) auto

lemma iface_by_id_remove:
  "iface_by_id (filter (\<lambda>ie. ie_id ie \<noteq> i) ift) j = (if j = i then None else iface_by_id ift j)"
  unfolding iface_by_id_def by (induction ift) (auto simp: find_None_iff)

lemma iface_by_id_append:
  "iface_by_id (ift @ [ie]) j =
     (case iface_by_id ift j of Some ie' \<Rightarrow> Some ie' | None \<Rightarrow> if ie_id ie = j then Some ie else None)"
  unfolding iface_by_id_def by (induction ift) auto

lemma addMulticastListener_reported:
  "addMulticastListener g d = Inr (d', ns) \<Longrightarrow>
     set (ifd_reportedGroups d') = insert g (set (ifd_reportedGroups d)) \<and>
     (distinct (ifd_reportedGroups d) \<longrightarrow> distinct (ifd_reportedGroups d'))"
  by (auto simp: addMulticastListener_def hasMulticastListener_def split: if_splits)

lemma removeMulticastListener_reported:
  assumes "removeMulticastListener g d = (d', ns)" "distinct (ifd_reportedGroups d)"
  shows "set (ifd_reportedGroups d') = set (ifd_reportedGroups d) - {g} \<and> distinct (ifd_reportedGroups d')"
proof (cases "groupIndex g (ifd_reportedGroups d)")
  case None
  then show ?thesis using assms by (auto simp: removeMulticastListener_def)
next
  case (Some k)
  let ?gs = "ifd_reportedGroups d"
  have k: "k < length ?gs" "?gs ! k = g" using groupIndex_Some [OF Some] by auto
  have split: "?gs = take k ?gs @ g # drop (Suc k) ?gs" using id_take_nth_drop [OF k(1)] k(2) by simp
  have "distinct (take k ?gs @ g # drop (Suc k) ?gs)" using assms(2) split by simp
  then have "g \<notin> set (erase_at k ?gs)" "distinct (erase_at k ?gs)" by (auto simp: erase_at_def)
  moreover have "set ?gs = insert g (set (erase_at k ?gs))"
    by (subst split) (auto simp: erase_at_def)
  ultimately show ?thesis using assms(1) Some by (auto simp: removeMulticastListener_def)
qed

section \<open>The invariant\<close>

definition timer_runs :: "simtime \<Rightarrow> IgmpTimer \<Rightarrow> bool" where
  "timer_runs now t \<longleftrightarrow> (\<exists>u. t = Scheduled u \<and> now \<le> u)"

lemma runs_Scheduled [simp]: "timer_runs now (Scheduled u) \<longleftrightarrow> now \<le> u"
  by (simp add: timer_runs_def)

definition host_entry_ok :: "simtime \<Rightarrow> IPv4Address \<Rightarrow> HostGroupData \<Rightarrow> bool" where
  "host_entry_ok now g d \<longleftrightarrow> isMulticast g \<and> \<not> isLinkLocalMulticast g \<and>
     (hg_state d = IGMP_HGS_DELAYING_MEMBER \<and> timer_runs now (hg_timer d)
      \<or> hg_state d = IGMP_HGS_IDLE_MEMBER \<and> hg_timer d = Unscheduled)"

definition router_entry_ok :: "simtime \<Rightarrow> IPv4Address \<Rightarrow> RouterGroupData \<Rightarrow> bool" where
  "router_entry_ok now g d \<longleftrightarrow> isMulticast g \<and> timer_runs now (rg_timer d) \<and>
     (rg_state d = IGMP_RGS_MEMBERS_PRESENT \<and> rg_rexmtTimer d = Unscheduled
      \<or> rg_state d = IGMP_RGS_CHECKING_MEMBERSHIP \<and>
          (rg_rexmtTimer d = Unscheduled \<or> \<not> isLinkLocalMulticast g \<and> timer_runs now (rg_rexmtTimer d)))"

definition querier_ok :: "simtime \<Rightarrow> RouterInterfaceData \<Rightarrow> bool" where
  "querier_ok now r \<longleftrightarrow>
     (if ri_igmpRouterState r = IGMP_RS_INITIAL then ri_igmpQueryTimer r = NoTimer else timer_runs now (ri_igmpQueryTimer r))"

definition igmp_inv ::
    "simtime \<Rightarrow> RoutingTable \<Rightarrow> bool \<Rightarrow> (nat \<Rightarrow> (IPv4Address, HostGroupData) smap) \<Rightarrow>
     (nat \<Rightarrow> RouterInterfaceData) \<Rightarrow> bool" where
  "igmp_inv now rt active H R \<longleftrightarrow>
     (\<forall>i g d. smap_find (H i) g = Some d \<longrightarrow> host_entry_ok now g d) \<and>
     (\<forall>i g d. smap_find (ri_groups (R i)) g = Some d \<longrightarrow> router_entry_ok now g d) \<and>
     (\<forall>i. querier_ok now (R i)) \<and>
     (\<forall>i. \<not> mcast_iface rt i \<longrightarrow> H i = [] \<and> R i = RouterInterfaceData_new) \<and>
     (\<forall>i. distinct (listeners rt i) \<and> set (listeners rt i) = dom (smap_find (ri_groups (R i)))) \<and>
     (\<forall>i. mcast_iface rt i \<and> active \<longrightarrow> ri_igmpRouterState (R i) \<noteq> IGMP_RS_INITIAL)"

text \<open>The router part is at work when the node forwards multicasts and no other module does the job.\<close>

definition ig_routing :: "IGMPv2 \<Rightarrow> bool" where
  "ig_routing s \<longleftrightarrow> ig_enabled s \<and> rt_multicastForward (ig_rt s) \<and> \<not> ig_externalRouter s"

definition igmp_ok :: "IGMPv2 \<Rightarrow> bool" where
  "igmp_ok s \<longleftrightarrow> igmp_inv (ig_now s) (ig_rt s) (ig_routing s) (hostGroups s) (routerInterface s)"

lemma igmp_invD:
  assumes "igmp_inv now rt a H R"
  shows "smap_find (H i) g = Some e \<Longrightarrow> host_entry_ok now g e"
    and "smap_find (ri_groups (R i)) g = Some d \<Longrightarrow> router_entry_ok now g d"
    and "querier_ok now (R i)"
    and "\<not> mcast_iface rt i \<Longrightarrow> H i = []"
    and "\<not> mcast_iface rt i \<Longrightarrow> R i = RouterInterfaceData_new"
    and "distinct (listeners rt i)" "set (listeners rt i) = dom (smap_find (ri_groups (R i)))"
    and "mcast_iface rt i \<Longrightarrow> a \<Longrightarrow> ri_igmpRouterState (R i) \<noteq> IGMP_RS_INITIAL"
  using assms unfolding igmp_inv_def by blast+

lemma inv_host_put:
  assumes "igmp_inv now rt a H R" "mcast_iface rt i" "\<And>g d. smap_find gs g = Some d \<Longrightarrow> host_entry_ok now g d"
  shows "igmp_inv now rt a (H(i := gs)) R"
  using assms unfolding igmp_inv_def by simp

lemma inv_router_put:
  assumes "igmp_inv now rt a H R" "mcast_iface rt i" "querier_ok now r"
    and "\<And>g d. smap_find (ri_groups r) g = Some d \<Longrightarrow> router_entry_ok now g d"
    and "\<And>j. mcast_iface rt' j = mcast_iface rt j"
    and "\<And>j. j \<noteq> i \<Longrightarrow> listeners rt' j = listeners rt j"
    and "distinct (listeners rt' i)" "set (listeners rt' i) = dom (smap_find (ri_groups r))"
    and "a \<Longrightarrow> ri_igmpRouterState r \<noteq> IGMP_RS_INITIAL"
  shows "igmp_inv now rt' a H (R(i := r))"
  using assms unfolding igmp_inv_def by simp

lemma inv_host_insert:
  assumes "igmp_inv now rt a H R" "mcast_iface rt i" "host_entry_ok now g d"
  shows "igmp_inv now rt a (H(i := smap_insert g d (H i))) R"
  using assms(1,2) by (rule inv_host_put) (use igmp_invD(1) [OF assms(1)] assms(3) in \<open>auto simp: smap_find_insert split: if_splits\<close>)

lemma inv_host_erase:
  assumes "igmp_inv now rt a H R" "mcast_iface rt i"
  shows "igmp_inv now rt a (H(i := smap_erase g (H i))) R"
  using assms by (rule inv_host_put) (use igmp_invD(1) [OF assms(1)] in \<open>auto simp: smap_find_erase split: if_splits\<close>)

lemma inv_router_update:
  assumes "igmp_inv now rt a H R" "mcast_iface rt i" "smap_find (ri_groups (R i)) g = Some d" "router_entry_ok now g d'"
  shows "igmp_inv now rt a H (R(i := (R i)\<lparr>ri_groups := smap_insert g d' (ri_groups (R i))\<rparr>))"
  using assms(1,2) igmp_invD [OF assms(1)] assms(3,4)
  by (intro inv_router_put) (auto simp: smap_find_insert querier_ok_def split: if_splits)

lemma inv_querier:
  assumes "igmp_inv now rt a H R" "mcast_iface rt i" "ri_igmpRouterState r \<noteq> IGMP_RS_INITIAL"
    and "timer_runs now (ri_igmpQueryTimer r)" "ri_groups r = ri_groups (R i)"
  shows "igmp_inv now rt a H (R(i := r))"
  using assms igmp_invD [OF assms(1)]
  by (intro inv_router_put) (auto simp: querier_ok_def)

lemma smap_find_Nil [simp]: "smap_find [] g = None"
  by (simp add: smap_find_def)

lemma listeners_iface:
  assumes "igmp_inv now rt a H R" "smap_find (ri_groups (R i)) g = Some d"
  shows "mcast_iface rt i" "g \<in> set (listeners rt i)"
proof -
  show "mcast_iface rt i"
    using igmp_invD(5) [OF assms(1), of i] assms(2) by (cases "mcast_iface rt i") (auto simp: RouterInterfaceData_new_def)
  show "g \<in> set (listeners rt i)" using igmp_invD(7) [OF assms(1), of i] assms(2) by auto
qed

lemma host_iface:
  "igmp_inv now rt a H R \<Longrightarrow> smap_find (H i) g = Some d \<Longrightarrow> mcast_iface rt i"
  using igmp_invD(4) [of now rt a H R i] by (cases "mcast_iface rt i") auto

section \<open>What the operations leave unchanged\<close>

lemma hostGroups_frame [simp]:
  "hostGroups (s\<lparr>ig_now := v\<rparr>) = hostGroups s"
  "hostGroups (s\<lparr>ig_rt := rt\<rparr>) = hostGroups s"
  "hostGroups (s\<lparr>ig_draws := k\<rparr>) = hostGroups s"
  "hostGroups (s\<lparr>ig_numGroups := v\<rparr>) = hostGroups s"
  "hostGroups (s\<lparr>ig_numHostGroups := v\<rparr>) = hostGroups s"
  "hostGroups (s\<lparr>ig_numRouterGroups := v\<rparr>) = hostGroups s"
  "hostGroups (s\<lparr>ig_numQueriesSent := v\<rparr>) = hostGroups s"
  "hostGroups (s\<lparr>ig_numQueriesRecv := v\<rparr>) = hostGroups s"
  "hostGroups (s\<lparr>ig_numGeneralQueriesSent := v\<rparr>) = hostGroups s"
  "hostGroups (s\<lparr>ig_numGeneralQueriesRecv := v\<rparr>) = hostGroups s"
  "hostGroups (s\<lparr>ig_numGroupSpecificQueriesSent := v\<rparr>) = hostGroups s"
  "hostGroups (s\<lparr>ig_numGroupSpecificQueriesRecv := v\<rparr>) = hostGroups s"
  "hostGroups (s\<lparr>ig_numReportsSent := v\<rparr>) = hostGroups s"
  "hostGroups (s\<lparr>ig_numReportsRecv := v\<rparr>) = hostGroups s"
  "hostGroups (s\<lparr>ig_numLeavesSent := v\<rparr>) = hostGroups s"
  "hostGroups (s\<lparr>ig_numLeavesRecv := v\<rparr>) = hostGroups s"
  "hostGroups (s\<lparr>ig_out := evs\<rparr>) = hostGroups s"
  by (simp_all add: hostGroups_def fun_eq_iff)

lemma routerInterface_frame [simp]:
  "routerInterface (s\<lparr>ig_now := v\<rparr>) = routerInterface s"
  "routerInterface (s\<lparr>ig_rt := rt\<rparr>) = routerInterface s"
  "routerInterface (s\<lparr>ig_draws := k\<rparr>) = routerInterface s"
  "routerInterface (s\<lparr>ig_numGroups := v\<rparr>) = routerInterface s"
  "routerInterface (s\<lparr>ig_numHostGroups := v\<rparr>) = routerInterface s"
  "routerInterface (s\<lparr>ig_numRouterGroups := v\<rparr>) = routerInterface s"
  "routerInterface (s\<lparr>ig_numQueriesSent := v\<rparr>) = routerInterface s"
  "routerInterface (s\<lparr>ig_numQueriesRecv := v\<rparr>) = routerInterface s"
  "routerInterface (s\<lparr>ig_numGeneralQueriesSent := v\<rparr>) = routerInterface s"
  "routerInterface (s\<lparr>ig_numGeneralQueriesRecv := v\<rparr>) = routerInterface s"
  "routerInterface (s\<lparr>ig_numGroupSpecificQueriesSent := v\<rparr>) = routerInterface s"
  "routerInterface (s\<lparr>ig_numGroupSpecificQueriesRecv := v\<rparr>) = routerInterface s"
  "routerInterface (s\<lparr>ig_numReportsSent := v\<rparr>) = routerInterface s"
  "routerInterface (s\<lparr>ig_numReportsRecv := v\<rparr>) = routerInterface s"
  "routerInterface (s\<lparr>ig_numLeavesSent := v\<rparr>) = routerInterface s"
  "routerInterface (s\<lparr>ig_numLeavesRecv := v\<rparr>) = routerInterface s"
  "routerInterface (s\<lparr>ig_out := evs\<rparr>) = routerInterface s"
  by (simp_all add: routerInterface_def fun_eq_iff)

lemma ig_routing_frame [simp]:
  "ig_routing (s\<lparr>ig_now := v\<rparr>) = ig_routing s"
  "ig_routing (s\<lparr>ig_draws := k\<rparr>) = ig_routing s"
  "ig_routing (s\<lparr>ig_numGroups := v\<rparr>) = ig_routing s"
  "ig_routing (s\<lparr>ig_numHostGroups := v\<rparr>) = ig_routing s"
  "ig_routing (s\<lparr>ig_numRouterGroups := v\<rparr>) = ig_routing s"
  "ig_routing (s\<lparr>ig_numQueriesSent := v\<rparr>) = ig_routing s"
  "ig_routing (s\<lparr>ig_numQueriesRecv := v\<rparr>) = ig_routing s"
  "ig_routing (s\<lparr>ig_numGeneralQueriesSent := v\<rparr>) = ig_routing s"
  "ig_routing (s\<lparr>ig_numGeneralQueriesRecv := v\<rparr>) = ig_routing s"
  "ig_routing (s\<lparr>ig_numGroupSpecificQueriesSent := v\<rparr>) = ig_routing s"
  "ig_routing (s\<lparr>ig_numGroupSpecificQueriesRecv := v\<rparr>) = ig_routing s"
  "ig_routing (s\<lparr>ig_numReportsSent := v\<rparr>) = ig_routing s"
  "ig_routing (s\<lparr>ig_numReportsRecv := v\<rparr>) = ig_routing s"
  "ig_routing (s\<lparr>ig_numLeavesSent := v\<rparr>) = ig_routing s"
  "ig_routing (s\<lparr>ig_numLeavesRecv := v\<rparr>) = ig_routing s"
  "ig_routing (s\<lparr>ig_out := evs\<rparr>) = ig_routing s"
  by (simp_all add: ig_routing_def)

lemma putHostGroups_frame [simp]:
  "ig_now (putHostGroups i gs s) = ig_now s"
  "ig_rt (putHostGroups i gs s) = ig_rt s"
  "ig_enabled (putHostGroups i gs s) = ig_enabled s"
  "ig_externalRouter (putHostGroups i gs s) = ig_externalRouter s"
  "ig_queryInterval (putHostGroups i gs s) = ig_queryInterval s"
  "ig_queryResponseInterval (putHostGroups i gs s) = ig_queryResponseInterval s"
  "ig_groupMembershipInterval (putHostGroups i gs s) = ig_groupMembershipInterval s"
  "ig_otherQuerierPresentInterval (putHostGroups i gs s) = ig_otherQuerierPresentInterval s"
  "ig_startupQueryInterval (putHostGroups i gs s) = ig_startupQueryInterval s"
  "ig_lastMemberQueryInterval (putHostGroups i gs s) = ig_lastMemberQueryInterval s"
  "ig_lastMemberQueryCount (putHostGroups i gs s) = ig_lastMemberQueryCount s"
  "ig_unsolicitedReportInterval (putHostGroups i gs s) = ig_unsolicitedReportInterval s"
  "ig_uniform (putHostGroups i gs s) = ig_uniform s"
  "ig_draws (putHostGroups i gs s) = ig_draws s"
  "ig_numGroups (putHostGroups i gs s) = ig_numGroups s"
  "ig_numHostGroups (putHostGroups i gs s) = ig_numHostGroups s"
  "ig_numRouterGroups (putHostGroups i gs s) = ig_numRouterGroups s"
  "ig_numQueriesSent (putHostGroups i gs s) = ig_numQueriesSent s"
  "ig_numQueriesRecv (putHostGroups i gs s) = ig_numQueriesRecv s"
  "ig_numGeneralQueriesSent (putHostGroups i gs s) = ig_numGeneralQueriesSent s"
  "ig_numGeneralQueriesRecv (putHostGroups i gs s) = ig_numGeneralQueriesRecv s"
  "ig_numGroupSpecificQueriesSent (putHostGroups i gs s) = ig_numGroupSpecificQueriesSent s"
  "ig_numGroupSpecificQueriesRecv (putHostGroups i gs s) = ig_numGroupSpecificQueriesRecv s"
  "ig_numReportsSent (putHostGroups i gs s) = ig_numReportsSent s"
  "ig_numReportsRecv (putHostGroups i gs s) = ig_numReportsRecv s"
  "ig_numLeavesSent (putHostGroups i gs s) = ig_numLeavesSent s"
  "ig_numLeavesRecv (putHostGroups i gs s) = ig_numLeavesRecv s"
  "ig_out (putHostGroups i gs s) = ig_out s"
  "ig_routerData (putHostGroups i gs s) = ig_routerData s"
  by (simp_all add: putHostGroups_def)

lemma putRouterInterface_frame [simp]:
  "ig_now (putRouterInterface i r s) = ig_now s"
  "ig_rt (putRouterInterface i r s) = ig_rt s"
  "ig_enabled (putRouterInterface i r s) = ig_enabled s"
  "ig_externalRouter (putRouterInterface i r s) = ig_externalRouter s"
  "ig_queryInterval (putRouterInterface i r s) = ig_queryInterval s"
  "ig_queryResponseInterval (putRouterInterface i r s) = ig_queryResponseInterval s"
  "ig_groupMembershipInterval (putRouterInterface i r s) = ig_groupMembershipInterval s"
  "ig_otherQuerierPresentInterval (putRouterInterface i r s) = ig_otherQuerierPresentInterval s"
  "ig_startupQueryInterval (putRouterInterface i r s) = ig_startupQueryInterval s"
  "ig_lastMemberQueryInterval (putRouterInterface i r s) = ig_lastMemberQueryInterval s"
  "ig_lastMemberQueryCount (putRouterInterface i r s) = ig_lastMemberQueryCount s"
  "ig_unsolicitedReportInterval (putRouterInterface i r s) = ig_unsolicitedReportInterval s"
  "ig_uniform (putRouterInterface i r s) = ig_uniform s"
  "ig_draws (putRouterInterface i r s) = ig_draws s"
  "ig_numGroups (putRouterInterface i r s) = ig_numGroups s"
  "ig_numHostGroups (putRouterInterface i r s) = ig_numHostGroups s"
  "ig_numRouterGroups (putRouterInterface i r s) = ig_numRouterGroups s"
  "ig_numQueriesSent (putRouterInterface i r s) = ig_numQueriesSent s"
  "ig_numQueriesRecv (putRouterInterface i r s) = ig_numQueriesRecv s"
  "ig_numGeneralQueriesSent (putRouterInterface i r s) = ig_numGeneralQueriesSent s"
  "ig_numGeneralQueriesRecv (putRouterInterface i r s) = ig_numGeneralQueriesRecv s"
  "ig_numGroupSpecificQueriesSent (putRouterInterface i r s) = ig_numGroupSpecificQueriesSent s"
  "ig_numGroupSpecificQueriesRecv (putRouterInterface i r s) = ig_numGroupSpecificQueriesRecv s"
  "ig_numReportsSent (putRouterInterface i r s) = ig_numReportsSent s"
  "ig_numReportsRecv (putRouterInterface i r s) = ig_numReportsRecv s"
  "ig_numLeavesSent (putRouterInterface i r s) = ig_numLeavesSent s"
  "ig_numLeavesRecv (putRouterInterface i r s) = ig_numLeavesRecv s"
  "ig_out (putRouterInterface i r s) = ig_out s"
  "ig_hostData (putRouterInterface i r s) = ig_hostData s"
  by (simp_all add: putRouterInterface_def)

lemma hostGroups_put [simp]:
  "hostGroups (putHostGroups i gs s) = (hostGroups s)(i := gs)"
  "hostGroups (putRouterInterface i r s) = hostGroups s"
  by (auto simp: hostGroups_def fun_eq_iff putHostGroups_def putRouterInterface_def smap_find_insert)

lemma routerInterface_put [simp]:
  "routerInterface (putRouterInterface i r s) = (routerInterface s)(i := r)"
  "routerInterface (putHostGroups i gs s) = routerInterface s"
  by (auto simp: routerInterface_def fun_eq_iff putHostGroups_def putRouterInterface_def smap_find_insert)

lemma ig_routing_put [simp]:
  "ig_routing (putHostGroups i gs s) = ig_routing s" "ig_routing (putRouterInterface i r s) = ig_routing s"
  by (simp_all add: ig_routing_def)

text \<open>Looking up the data of an interface changes nothing that can be read.\<close>

definition igmp_same :: "IGMPv2 \<Rightarrow> IGMPv2 \<Rightarrow> bool" where
  "igmp_same s s' \<longleftrightarrow> hostGroups s' = hostGroups s \<and> routerInterface s' = routerInterface s \<and>
     ig_routing s' = ig_routing s \<and> ig_now s' = ig_now s \<and> ig_rt s' = ig_rt s \<and> ig_enabled s' = ig_enabled s \<and> ig_externalRouter s' = ig_externalRouter s \<and> ig_queryInterval s' = ig_queryInterval s \<and> ig_queryResponseInterval s' = ig_queryResponseInterval s \<and> ig_groupMembershipInterval s' = ig_groupMembershipInterval s \<and> ig_otherQuerierPresentInterval s' = ig_otherQuerierPresentInterval s \<and> ig_startupQueryInterval s' = ig_startupQueryInterval s \<and> ig_lastMemberQueryInterval s' = ig_lastMemberQueryInterval s \<and> ig_lastMemberQueryCount s' = ig_lastMemberQueryCount s \<and> ig_unsolicitedReportInterval s' = ig_unsolicitedReportInterval s \<and> ig_uniform s' = ig_uniform s"

lemma sendQuery_same: "sendQuery i g u s = Inr s' \<Longrightarrow> igmp_same s s'"
  by (auto simp: sendQuery_def IGMP_sendToIP_def getRouterInterfaceData_def ig_emit_def igmp_same_def Let_def split: if_splits)

lemma sendReport_same: "sendReport i g s = Inr s' \<Longrightarrow> igmp_same s s'"
  by (auto simp: sendReport_def IGMP_sendToIP_def ig_emit_def igmp_same_def Let_def split: if_splits)

lemma sendLeave_same: "sendLeave i g s = Inr s' \<Longrightarrow> igmp_same s s'"
  by (auto simp: sendLeave_def IGMP_sendToIP_def ig_emit_def igmp_same_def Let_def split: if_splits)

lemma igmp_same_ok: "igmp_same s s' \<Longrightarrow> igmp_ok s' = igmp_ok s"
  by (simp add: igmp_same_def igmp_ok_def)

lemma startTimer_Inr:
  "startTimer t u s = Inr t' \<longleftrightarrow> t \<noteq> NoTimer \<and> 0 \<le> u \<and> t' = Scheduled (ig_now s + u)"
  by (auto simp: startTimer_def)

section \<open>Every operation keeps the invariant\<close>

lemma smap_insert_insert [simp]: "smap_insert k v (smap_insert k v' m) = smap_insert k v m"
  by (induction k v m rule: smap_insert.induct) auto

lemma smap_erase_insert [simp]: "smap_erase k (smap_insert k v m) = smap_erase k m"
  by (induction k v m rule: smap_insert.induct) (auto simp: smap_erase_def)

lemma igmpMulticastIface_Inr: "igmpMulticastIface s i = Inr ie \<Longrightarrow> mcast_iface (ig_rt s) i"
  by (auto simp: igmpMulticastIface_def igmpIface_def mcast_iface_def split: option.splits if_splits)

lemma startHostTimer_Inr:
  "startHostTimer d u s = Inr (s', d') \<longleftrightarrow>
     (let delay = ig_uniform s (ig_draws s) u
      in 0 \<le> delay \<and> s' = s\<lparr>ig_draws := ig_draws s + 1\<rparr> \<and> d' = d\<lparr>hg_timer := Scheduled (ig_now s + delay)\<rparr>)"
  by (auto simp: startHostTimer_def startTimer_Inr Let_def)

lemma joined_ok: "multicastGroupJoined i g s = Inr s' \<Longrightarrow> igmp_ok s \<Longrightarrow> igmp_ok s'"
  unfolding multicastGroupJoined_def igmp_ok_def
  by (auto simp: createHostGroupData_def putHostGroup_def igmp_same_def startHostTimer_Inr Let_def host_entry_ok_def timer_runs_def
      split: if_splits dest!: igmpMulticastIface_Inr sendReport_same intro!: inv_host_insert)

lemma left_ok: "multicastGroupLeft i g s = Inr s' \<Longrightarrow> igmp_ok s \<Longrightarrow> igmp_ok s'"
  unfolding multicastGroupLeft_def igmp_ok_def
  by (auto simp: deleteHostGroupData_def putHostGroup_def igmp_same_def
      split: if_splits option.splits dest!: igmpMulticastIface_Inr sendLeave_same intro!: inv_host_erase)

lemma configureInterface_ok:
  assumes "configureInterface i s = Inr s'" "mcast_iface (ig_rt s) i"
    and "igmp_inv (ig_now s) (ig_rt s) a (hostGroups s) (routerInterface s)"
  shows "ig_now s' = ig_now s \<and> ig_rt s' = ig_rt s \<and> ig_routing s' = ig_routing s \<and>
     igmp_inv (ig_now s) (ig_rt s) a (hostGroups s') (routerInterface s') \<and>
     (ig_routing s \<longrightarrow> ri_igmpRouterState (routerInterface s' i) \<noteq> IGMP_RS_INITIAL) \<and>
     (\<forall>j. ri_igmpRouterState (routerInterface s j) \<noteq> IGMP_RS_INITIAL \<longrightarrow>
        ri_igmpRouterState (routerInterface s' j) \<noteq> IGMP_RS_INITIAL)"
proof (cases "ig_routing s")
  case True
  then have "ig_enabled s \<and> rt_multicastForward (ig_rt s) \<and> \<not> ig_externalRouter s" by (simp add: ig_routing_def)
  then show ?thesis
    using assms unfolding configureInterface_def
    by (auto simp: igmp_same_def startTimer_Inr timer_runs_def dest!: sendQuery_same intro!: inv_querier split: if_splits)
next
  case False
  then have "\<not> (ig_enabled s \<and> rt_multicastForward (ig_rt s) \<and> \<not> ig_externalRouter s)" by (simp add: ig_routing_def)
  then show ?thesis using assms False unfolding configureInterface_def by auto
qed

lemma queryTimer_ok:
  assumes "processQueryTimer i s = Inr s'" "ri_igmpQueryTimer (routerInterface s i) \<noteq> NoTimer" "igmp_ok s"
  shows "igmp_ok s'"
proof -
  note inv = assms(3) [unfolded igmp_ok_def]
  have init: "ri_igmpRouterState (routerInterface s i) \<noteq> IGMP_RS_INITIAL"
    using igmp_invD(3) [OF inv, of i] assms(2) by (auto simp: querier_ok_def split: if_splits)
  then have m: "mcast_iface (ig_rt s) i"
    using igmp_invD(5) [OF inv, of i] by (cases "mcast_iface (ig_rt s) i") (auto simp: RouterInterfaceData_new_def)
  from init have "ri_igmpRouterState (routerInterface s i) \<in> {IGMP_RS_QUERIER, IGMP_RS_NON_QUERIER}"
    by (cases "ri_igmpRouterState (routerInterface s i)") auto
  then show ?thesis
    using assms(1) inv m unfolding processQueryTimer_def igmp_ok_def
    by (auto simp: getRouterInterfaceData_def igmp_same_def startTimer_Inr timer_runs_def simp del: insert_iff
        dest!: sendQuery_same intro!: inv_querier)
qed

lemma host_found:
  assumes "igmp_ok s" "smap_find (hostGroups s i) g = Some d"
  shows "mcast_iface (ig_rt s) i" "isMulticast g" "\<not> isLinkLocalMulticast g"
    "hg_state d = IGMP_HGS_DELAYING_MEMBER \<and> timer_runs (ig_now s) (hg_timer d)
     \<or> hg_state d = IGMP_HGS_IDLE_MEMBER \<and> hg_timer d = Unscheduled"
  using host_iface [OF assms [unfolded igmp_ok_def]] igmp_invD(1) [OF assms [unfolded igmp_ok_def]]
  by (auto simp: host_entry_ok_def)

lemma router_found:
  assumes "igmp_ok s" "smap_find (ri_groups (routerInterface s i)) g = Some d"
  shows "mcast_iface (ig_rt s) i" "isMulticast g" "timer_runs (ig_now s) (rg_timer d)" "g \<in> set (listeners (ig_rt s) i)"
    "rg_state d = IGMP_RGS_MEMBERS_PRESENT \<and> rg_rexmtTimer d = Unscheduled
     \<or> rg_state d = IGMP_RGS_CHECKING_MEMBERSHIP \<and>
         (rg_rexmtTimer d = Unscheduled \<or> \<not> isLinkLocalMulticast g \<and> timer_runs (ig_now s) (rg_rexmtTimer d))"
  using listeners_iface [OF assms [unfolded igmp_ok_def]] igmp_invD(2) [OF assms [unfolded igmp_ok_def]]
  by (auto simp: router_entry_ok_def)

text \<open>A host entry is replaced by one whose timer and state agree.\<close>

lemma putHostGroup_ok:
  assumes "igmp_ok s" "smap_find (hostGroups s i) g = Some d"
    and "hg_state d' = IGMP_HGS_DELAYING_MEMBER \<and> timer_runs (ig_now s) (hg_timer d')
         \<or> hg_state d' = IGMP_HGS_IDLE_MEMBER \<and> hg_timer d' = Unscheduled"
  shows "igmp_ok (putHostGroup i g d' s)"
  using host_found [OF assms(1,2)] assms(1,3) unfolding igmp_ok_def
  by (auto simp: putHostGroup_def host_entry_ok_def intro!: inv_host_insert)

lemma putRouterGroup_ok:
  assumes "igmp_ok s" "smap_find (ri_groups (routerInterface s i)) g = Some d" "router_entry_ok (ig_now s) g d'"
  shows "igmp_ok (putRouterGroup i g d' s)"
  using router_found(1) [OF assms(1,2)] assms unfolding igmp_ok_def
  by (auto simp: putRouterGroup_def Let_def intro!: inv_router_update)

lemma igmp_ok_frame [simp]:
  "igmp_ok (s\<lparr>ig_draws := k\<rparr>) = igmp_ok s" "igmp_ok (s\<lparr>ig_out := evs\<rparr>) = igmp_ok s"
  "igmp_ok (s\<lparr>ig_numGroups := v\<rparr>) = igmp_ok s"
  "igmp_ok (s\<lparr>ig_numHostGroups := v\<rparr>) = igmp_ok s"
  "igmp_ok (s\<lparr>ig_numRouterGroups := v\<rparr>) = igmp_ok s"
  "igmp_ok (s\<lparr>ig_numQueriesSent := v\<rparr>) = igmp_ok s"
  "igmp_ok (s\<lparr>ig_numQueriesRecv := v\<rparr>) = igmp_ok s"
  "igmp_ok (s\<lparr>ig_numGeneralQueriesSent := v\<rparr>) = igmp_ok s"
  "igmp_ok (s\<lparr>ig_numGeneralQueriesRecv := v\<rparr>) = igmp_ok s"
  "igmp_ok (s\<lparr>ig_numGroupSpecificQueriesSent := v\<rparr>) = igmp_ok s"
  "igmp_ok (s\<lparr>ig_numGroupSpecificQueriesRecv := v\<rparr>) = igmp_ok s"
  "igmp_ok (s\<lparr>ig_numReportsSent := v\<rparr>) = igmp_ok s"
  "igmp_ok (s\<lparr>ig_numReportsRecv := v\<rparr>) = igmp_ok s"
  "igmp_ok (s\<lparr>ig_numLeavesSent := v\<rparr>) = igmp_ok s"
  "igmp_ok (s\<lparr>ig_numLeavesRecv := v\<rparr>) = igmp_ok s"
  "igmp_ok (putHostGroups i (hostGroups s i) s) = igmp_ok s" "igmp_ok (putRouterInterface i (routerInterface s i) s) = igmp_ok s"
  by (simp_all add: igmp_ok_def)

lemma hostTimer_ok:
  assumes "processHostGroupTimer i g s = Inr s'" "igmp_ok s"
  shows "igmp_ok s'"
proof (cases "smap_find (hostGroups s i) g")
  case (Some d)
  then obtain s1 where s1: "igmp_same s s1"
    and s': "s' = putHostGroup i g (d\<lparr>hg_timer := Unscheduled, hg_flag := True, hg_state := IGMP_HGS_IDLE_MEMBER\<rparr>) s1"
    using assms(1) by (auto simp: processHostGroupTimer_def dest: sendReport_same)
  show ?thesis
    using igmp_same_ok [OF s1] s1 assms(2) Some unfolding s' by (intro putHostGroup_ok) (auto simp: igmp_same_def)
qed (use assms in \<open>simp add: processHostGroupTimer_def\<close>)

lemma groupQuery_ok:
  assumes "processGroupQuery i g u s = Inr s'" "igmp_ok s"
  shows "igmp_ok s'"
proof (cases "smap_find (hostGroups s i) g")
  case (Some d)
  show ?thesis
    using assms(1) Some host_found(4) [OF assms(2) Some] assms(2)
    by (auto simp: processGroupQuery_def startHostTimer_Inr Let_def timer_runs_def
        split: if_splits IgmpTimer.splits intro!: putHostGroup_ok [where s = "s\<lparr>ig_draws := k\<rparr>" for k])
qed (use assms in \<open>simp add: processGroupQuery_def\<close>)

lemma groupQuery_keeps:
  "processGroupQuery i g u s = Inr s' \<Longrightarrow> ig_now s' = ig_now s \<and> ig_rt s' = ig_rt s \<and> ig_routing s' = ig_routing s \<and>
     ig_externalRouter s' = ig_externalRouter s \<and> routerInterface s' = routerInterface s"
  unfolding processGroupQuery_def
  by (auto simp: putHostGroup_def startHostTimer_Inr Let_def
      split: option.splits HostGroupState.splits IgmpTimer.splits if_splits)

lemma groupQueries_ok: "processGroupQueries i gs u s = Inr s' \<Longrightarrow> igmp_ok s \<Longrightarrow> igmp_ok s'"
  by (induction gs arbitrary: s) (auto dest: groupQuery_ok)

lemma router_entry_okI:
  assumes "isMulticast g" "timer_runs now (rg_timer d)"
    and "rg_state d = IGMP_RGS_MEMBERS_PRESENT \<and> rg_rexmtTimer d = Unscheduled
      \<or> rg_state d = IGMP_RGS_CHECKING_MEMBERSHIP \<and>
          (rg_rexmtTimer d = Unscheduled \<or> \<not> isLinkLocalMulticast g \<and> timer_runs now (rg_rexmtTimer d))"
  shows "router_entry_ok now g d"
  using assms by (simp add: router_entry_ok_def)

lemma sendQuery_group: "sendQuery i g u s = Inr s' \<Longrightarrow> g \<noteq> 0 \<Longrightarrow> \<not> isLinkLocalMulticast g"
  by (auto simp: sendQuery_def IPv4Address_isUnspecified_def split: if_splits)

lemma isMulticast_nonzero: "isMulticast g \<Longrightarrow> g \<noteq> 0"
  by (auto simp: isMulticast_def)

lemma rexmtTimer_ok:
  assumes "processRexmtTimer i g s = Inr s'" "igmp_ok s"
  shows "igmp_ok s'"
proof (cases "smap_find (ri_groups (routerInterface s i)) g")
  case (Some d)
  note found = router_found [OF assms(2) Some]
  obtain s1 where s1: "sendQuery i g (ig_lastMemberQueryInterval s) s = Inr s1" and l: "0 \<le> ig_lastMemberQueryInterval s1"
    and s': "s' = putRouterGroup i g (d\<lparr>rg_rexmtTimer := Scheduled (ig_now s1 + ig_lastMemberQueryInterval s1),
                rg_state := IGMP_RGS_CHECKING_MEMBERSHIP\<rparr>) s1"
    using assms(1) Some by (auto simp: processRexmtTimer_def startTimer_Inr)
  note same = sendQuery_same [OF s1]
  have "\<not> isLinkLocalMulticast g" using sendQuery_group [OF s1] isMulticast_nonzero [OF found(2)] by blast
  then show ?thesis
    using igmp_same_ok [OF same] same assms(2) Some found l unfolding s'
    by (intro putRouterGroup_ok [of _ _ _ d]) (auto simp: igmp_same_def timer_runs_def intro!: router_entry_okI)
qed (use assms in \<open>simp add: processRexmtTimer_def\<close>)

lemma reportAsHost_ok:
  assumes "reportAsHost i g s = Inr s'" "igmp_ok s"
  shows "igmp_ok s'"
proof -
  have fetched: "igmp_ok (putHostGroups i (hostGroups s i) s)" using assms(2) by (simp add: igmp_ok_def)
  show ?thesis
  proof (cases "smap_find (hostGroups s i) g")
    case (Some d)
    then show ?thesis
      using assms(1) fetched
      by (auto simp: reportAsHost_def getHostInterfaceData_def cancelTimer_def split: if_splits intro!: putHostGroup_ok)
  qed (use assms(1) fetched in \<open>simp add: reportAsHost_def getHostInterfaceData_def\<close>)
qed

lemma leave_ok:
  assumes "processLeave i m s = Inr s'" "igmp_ok s"
  shows "igmp_ok s'"
proof -
  let ?s = "s\<lparr>ig_numLeavesRecv := ig_numLeavesRecv s + 1\<rparr>" and ?g = "igm_groupAddress m"
  let ?s1 = "putRouterInterface i (routerInterface s i) ?s"
  have k: "igmp_ok ?s" "igmp_ok ?s1" using assms(2) by (simp_all add: igmp_ok_def)
  show ?thesis
  proof (cases "smap_find (ri_groups (routerInterface s i)) ?g")
    case None
    then show ?thesis using assms k
      by (auto simp: processLeave_def getRouterInterfaceData_def ig_emit_def igmp_ok_def Let_def split: if_splits)
  next
    case (Some d)
    note found = router_found [OF assms(2) Some]
    have put: "igmp_ok (putRouterGroup i ?g (d\<lparr>rg_timer := Scheduled (ig_now s + u), rg_rexmtTimer := Scheduled (ig_now s + v),
        rg_state := IGMP_RGS_CHECKING_MEMBERSHIP\<rparr>) s2)"
      if q: "sendQuery i ?g w ?s1 = Inr s2" and "0 \<le> u" "0 \<le> v" for u v w s2
    proof -
      note same = sendQuery_same [OF q]
      have "\<not> isLinkLocalMulticast ?g" using sendQuery_group [OF q] isMulticast_nonzero [OF found(2)] by blast
      then show ?thesis
        using igmp_same_ok [OF same] same k Some found that(2,3)
        by (intro putRouterGroup_ok [of _ _ _ d]) (auto simp: igmp_same_def timer_runs_def intro!: router_entry_okI)
    qed
    show ?thesis using assms k Some put
      by (auto simp: processLeave_def getRouterInterfaceData_def ig_emit_def startTimer_Inr igmp_ok_def Let_def split: if_splits)
  qed
qed

text \<open>The two halves of \<^verbatim>\<open>queryAsRouter\<close>: give way to a querier with a lower address, then treat a query for a group.\<close>

definition giveWay :: "nat \<Rightarrow> bool \<Rightarrow> IGMPv2 \<Rightarrow> IGMPv2 outcome" where
  "giveWay i lower s =
     (let r = routerInterface s i in
      if lower then
        outcome_bind (startTimer (ri_igmpQueryTimer r) (ig_otherQuerierPresentInterval s) s) (\<lambda>t.
          Inr (putRouterInterface i (r\<lparr>ri_igmpQueryTimer := t, ri_igmpRouterState := IGMP_RS_NON_QUERIER\<rparr>) s))
      else Inr s)"

definition groupQueried :: "nat \<Rightarrow> IGMPMessage \<Rightarrow> IGMPv2 \<Rightarrow> IGMPv2 outcome" where
  "groupQueried i m s =
     (let g = igm_groupAddress m in
      if \<not> IPv4Address_isUnspecified g \<and> ri_igmpRouterState (routerInterface s i) = IGMP_RS_NON_QUERIER then
        (case smap_find (ri_groups (routerInterface s i)) g of
           None \<Rightarrow> Inl (UndefinedBehaviour ''groupData is NULL'')
         | Some gd \<Rightarrow>
             if rg_state gd = IGMP_RGS_MEMBERS_PRESENT then
               outcome_bind (startTimer (rg_timer gd) (igm_maxRespTime m * 100 * ig_lastMemberQueryCount s) s) (\<lambda>t.
                 Inr (putRouterGroup i g (gd\<lparr>rg_timer := t, rg_state := IGMP_RGS_CHECKING_MEMBERSHIP\<rparr>) s))
             else Inr s)
      else Inr s)"

lemma queryAsRouter_parts:
  "queryAsRouter i sender m s =
     (let s1 = putRouterInterface i (routerInterface s i) s in
      outcome_bind (igmpData s1 i) (\<lambda>d. outcome_bind (giveWay i (sender < ifd_inetAddr d) s1) (groupQueried i m)))"
  by (simp add: queryAsRouter_def giveWay_def groupQueried_def [abs_def] getRouterInterfaceData_def Let_def cong: if_cong)

lemma giveWay_ok: "giveWay i lower s = Inr s' \<Longrightarrow> igmp_ok s \<Longrightarrow> mcast_iface (ig_rt s) i \<Longrightarrow> igmp_ok s'"
  by (auto simp: giveWay_def Let_def startTimer_Inr igmp_ok_def timer_runs_def split: if_splits intro!: inv_querier)

lemma groupQueried_ok:
  assumes "groupQueried i m s = Inr s'" "igmp_ok s"
  shows "igmp_ok s'"
proof (cases "smap_find (ri_groups (routerInterface s i)) (igm_groupAddress m)")
  case (Some d)
  then show ?thesis using assms router_found [OF assms(2) Some]
    by (auto simp: groupQueried_def Let_def startTimer_Inr timer_runs_def split: if_splits
        intro!: putRouterGroup_ok router_entry_okI)
qed (use assms in \<open>auto simp: groupQueried_def Let_def split: if_splits\<close>)

lemma queryAsRouter_ok:
  assumes "queryAsRouter i sender m s = Inr s'" "igmp_ok s" "mcast_iface (ig_rt s) i"
  shows "igmp_ok s'"
proof -
  have "igmp_ok (putRouterInterface i (routerInterface s i) s)" using assms(2) by (simp add: igmp_ok_def)
  then show ?thesis
    using assms(1,3) by (auto simp: queryAsRouter_parts Let_def intro: groupQueried_ok dest!: giveWay_ok)
qed

lemma igmpPutInterface_frame [simp]:
  "hostGroups (igmpPutInterface i d s) = hostGroups s" "routerInterface (igmpPutInterface i d s) = routerInterface s"
  "ig_now (igmpPutInterface i d s) = ig_now s" "ig_routing (igmpPutInterface i d s) = ig_routing s"
  "ig_groupMembershipInterval (igmpPutInterface i d s) = ig_groupMembershipInterval s"
  "ig_out (igmpPutInterface i d s) = ig_out s" "ig_numGroups (igmpPutInterface i d s) = ig_numGroups s"
  "ig_numRouterGroups (igmpPutInterface i d s) = ig_numRouterGroups s"
  by (simp_all add: igmpPutInterface_def ig_routing_def)

lemma mcast_iface_put [simp]: "mcast_iface (ig_rt (igmpPutInterface i d s)) j = mcast_iface (ig_rt s) j"
  by (auto simp: mcast_iface_def igmpPutInterface_def iface_by_id_map)

lemma igmpData_Inr:
  "igmpData s i = Inr d \<longleftrightarrow> (\<exists>ie. iface_by_id (rt_ift (ig_rt s)) i = Some ie \<and> ie_ipv4Data ie = Some d)"
  by (auto simp: igmpData_def igmpIface_def split: option.splits)

lemma listeners_put:
  "igmpData s i = Inr d \<Longrightarrow>
   listeners (ig_rt (igmpPutInterface i d' s)) j = (if j = i then ifd_reportedGroups d' else listeners (ig_rt s) j)"
  by (auto simp: igmpData_Inr listeners_def reported_def igmpPutInterface_def iface_by_id_map)

lemma listeners_data: "igmpData s i = Inr d \<Longrightarrow> listeners (ig_rt s) i = ifd_reportedGroups d"
  by (auto simp: igmpData_Inr listeners_def reported_def)

lemma leaveTimer_ok:
  assumes "processLeaveTimer i g s = Inr s'" "igmp_ok s"
  shows "igmp_ok s'"
proof (cases "smap_find (ri_groups (routerInterface s i)) g")
  case (Some gd)
  note inv = assms(2) [unfolded igmp_ok_def] and found = router_found [OF assms(2) Some]
  obtain d d' ns where d: "igmpData s i = Inr d" and r: "removeMulticastListener g d = (d', ns)"
    and s': "hostGroups s' = hostGroups s" "ig_now s' = ig_now s" "ig_routing s' = ig_routing s"
      "routerInterface s' = (routerInterface s)(i := (routerInterface s i)\<lparr>ri_groups := smap_erase g (ri_groups (routerInterface s i))\<rparr>)"
      "ig_rt s' = ig_rt (igmpPutInterface i d' s)"
    using assms(1) Some
    by (cases "igmpData s i"; cases "removeMulticastListener g (projr (igmpData s i))")
       (auto simp: processLeaveTimer_def Let_def deleteRouterGroupData_def)
  have dist: "distinct (ifd_reportedGroups d)" "set (ifd_reportedGroups d) = dom (smap_find (ri_groups (routerInterface s i)))"
    using igmp_invD(6,7) [OF inv, of i] listeners_data [OF d] by auto
  show ?thesis
    unfolding igmp_ok_def s' using removeMulticastListener_reported [OF r dist(1)] dist(2) igmp_invD [OF inv] found
    by (intro inv_router_put [OF inv]) (auto simp: listeners_put [OF d] smap_find_erase querier_ok_def split: if_splits)
qed (use assms in \<open>simp add: processLeaveTimer_def\<close>)

lemma igmpData_frame [simp]:
  "igmpData (putRouterInterface j r s) i = igmpData s i" "igmpData (putHostGroups j gs s) i = igmpData s i"
  "igmpData (s\<lparr>ig_numGroups := n\<rparr>) i = igmpData s i"
  by (simp_all add: igmpData_def igmpIface_def)

lemma listeners_put_frame [simp]:
  "ig_rt (igmpPutInterface i d (putRouterInterface j r s)) = ig_rt (igmpPutInterface i d s)"
  "ig_rt (igmpPutInterface i d (s\<lparr>ig_numGroups := n\<rparr>)) = ig_rt (igmpPutInterface i d s)"
  by (simp_all add: igmpPutInterface_def)

text \<open>A report for a group on record restarts its timer, a report for another group makes a record of it.\<close>

lemma report_known:
  assumes "reportAsRouter i g s = Inr s'" "igmp_ok s" "smap_find (ri_groups (routerInterface s i)) g = Some gd"
  shows "0 \<le> ig_groupMembershipInterval s \<and>
     s' = putRouterGroup i g (gd\<lparr>rg_timer := Scheduled (ig_now s + ig_groupMembershipInterval s), rg_rexmtTimer := Unscheduled,
            rg_state := IGMP_RGS_MEMBERS_PRESENT\<rparr>) (putRouterInterface i (routerInterface s i) s)"
  using assms(1,3) router_found [OF assms(2,3)]
  by (auto simp: reportAsRouter_def getRouterInterfaceData_def Let_def startTimer_Inr allocated_def cancelTimer_def timer_runs_def
      split: if_splits)

lemma report_new:
  assumes "reportAsRouter i g s = Inr s'" "smap_find (ri_groups (routerInterface s i)) g = None"
  shows "isMulticast g \<and> 0 \<le> ig_groupMembershipInterval s \<and>
     (\<exists>d d' ns. igmpData s i = Inr d \<and> addMulticastListener g d = Inr (d', ns) \<and>
        hostGroups s' = hostGroups s \<and> ig_now s' = ig_now s \<and> ig_routing s' = ig_routing s \<and>
        ig_rt s' = ig_rt (igmpPutInterface i d' s) \<and>
        routerInterface s' = (routerInterface s)(i := (routerInterface s i)\<lparr>ri_groups := smap_insert g
          \<lparr>rg_state = IGMP_RGS_MEMBERS_PRESENT, rg_timer = Scheduled (ig_now s + ig_groupMembershipInterval s),
           rg_rexmtTimer = Unscheduled\<rparr> (ri_groups (routerInterface s i))\<rparr>))"
  using assms
  by (auto simp: reportAsRouter_def getRouterInterfaceData_def Let_def startTimer_Inr allocated_def
      createRouterGroupData_def putRouterGroup_def RouterGroupData_new_def split: if_splits)

lemma reportAsRouter_ok:
  assumes "reportAsRouter i g s = Inr s'" "igmp_ok s" "mcast_iface (ig_rt s) i"
  shows "igmp_ok s'"
proof (cases "smap_find (ri_groups (routerInterface s i)) g")
  case (Some gd)
  have "igmp_ok (putRouterInterface i (routerInterface s i) s)" using assms(2) by (simp add: igmp_ok_def)
  then show ?thesis
    using report_known [OF assms(1,2) Some] Some router_found [OF assms(2) Some]
    by (auto simp: timer_runs_def intro!: putRouterGroup_ok router_entry_okI)
next
  case None
  note inv = assms(2) [unfolded igmp_ok_def]
  obtain d d' ns where "isMulticast g" "0 \<le> ig_groupMembershipInterval s"
    and d: "igmpData s i = Inr d" and add: "addMulticastListener g d = Inr (d', ns)"
    and s': "hostGroups s' = hostGroups s" "ig_now s' = ig_now s" "ig_routing s' = ig_routing s"
      "ig_rt s' = ig_rt (igmpPutInterface i d' s)"
      "routerInterface s' = (routerInterface s)(i := (routerInterface s i)\<lparr>ri_groups := smap_insert g
          \<lparr>rg_state = IGMP_RGS_MEMBERS_PRESENT, rg_timer = Scheduled (ig_now s + ig_groupMembershipInterval s),
           rg_rexmtTimer = Unscheduled\<rparr> (ri_groups (routerInterface s i))\<rparr>)"
    using report_new [OF assms(1) None] by blast
  have dist: "distinct (ifd_reportedGroups d)" "set (ifd_reportedGroups d) = dom (smap_find (ri_groups (routerInterface s i)))"
    using igmp_invD(6,7) [OF inv, of i] listeners_data [OF d] by auto
  show ?thesis
    unfolding igmp_ok_def s'
    using addMulticastListener_reported [OF add] dist igmp_invD [OF inv] assms(3) \<open>isMulticast g\<close> \<open>0 \<le> ig_groupMembershipInterval s\<close>
    by (intro inv_router_put [OF inv])
       (auto simp: listeners_put [OF d] smap_find_insert querier_ok_def split: if_splits intro!: router_entry_okI)
qed

text \<open>What a message does, put together.\<close>

lemma groupQueries_keeps:
  "processGroupQueries i gs u s = Inr s' \<Longrightarrow> ig_now s' = ig_now s \<and> ig_rt s' = ig_rt s \<and> ig_routing s' = ig_routing s \<and>
     ig_externalRouter s' = ig_externalRouter s \<and> routerInterface s' = routerInterface s"
proof (induction gs arbitrary: s)
  case (Cons g gs)
  obtain s1 where s1: "processGroupQuery i g u s = Inr s1" "processGroupQueries i gs u s1 = Inr s'" using Cons.prems by auto
  then show ?case using groupQuery_keeps [OF s1(1)] Cons.IH [OF s1(2)] by simp
qed simp

definition hostQueried :: "nat \<Rightarrow> IGMPMessage \<Rightarrow> IGMPv2 \<Rightarrow> IGMPv2 outcome" where
  "hostQueried i m s0 =
     (let g = igm_groupAddress m; s = (fst (getHostInterfaceData i s0))\<lparr>ig_numQueriesRecv := ig_numQueriesRecv s0 + 1\<rparr>
      in if IPv4Address_isUnspecified g
         then processGroupQueries i (map fst (hostGroups s0 i)) (igm_maxRespTime m)
                (s\<lparr>ig_numGeneralQueriesRecv := ig_numGeneralQueriesRecv s + 1\<rparr>)
         else processGroupQuery i g (igm_maxRespTime m)
                (s\<lparr>ig_numGroupSpecificQueriesRecv := ig_numGroupSpecificQueriesRecv s + 1\<rparr>))"

lemma processQuery_parts:
  "processQuery i sender m s0 =
     outcome_bind (igmpMulticastIface s0 i) (\<lambda>ie. outcome_bind (hostQueried i m s0) (\<lambda>s.
       if rt_multicastForward (ig_rt s) then
         (if ig_externalRouter s then Inr (ig_emit (IgmpToRouter m) s) else queryAsRouter i sender m s)
       else Inr s))"
  by (simp add: processQuery_def hostQueried_def getHostInterfaceData_def Let_def cong: if_cong)

lemma hostQueried_cases:
  assumes "hostQueried i m s = Inr s'"
  obtains s1 where "igmp_ok s1 = igmp_ok s" "ig_rt s1 = ig_rt s" "ig_routing s1 = ig_routing s" "ig_now s1 = ig_now s"
    "routerInterface s1 = routerInterface s" "ig_externalRouter s1 = ig_externalRouter s"
    "(\<exists>gs u. processGroupQueries i gs u s1 = Inr s') \<or> (\<exists>g u. processGroupQuery i g u s1 = Inr s')"
proof (cases "IPv4Address_isUnspecified (igm_groupAddress m)")
  case True
  show thesis
    by (rule that [of "putHostGroups i (hostGroups s i) s\<lparr>ig_numQueriesRecv := ig_numQueriesRecv s + 1,
          ig_numGeneralQueriesRecv := ig_numGeneralQueriesRecv s + 1\<rparr>"])
       (use assms True in \<open>auto simp: hostQueried_def getHostInterfaceData_def Let_def\<close>)
next
  case False
  show thesis
    by (rule that [of "putHostGroups i (hostGroups s i) s\<lparr>ig_numQueriesRecv := ig_numQueriesRecv s + 1,
          ig_numGroupSpecificQueriesRecv := ig_numGroupSpecificQueriesRecv s + 1\<rparr>"])
       (use assms False in \<open>auto simp: hostQueried_def getHostInterfaceData_def Let_def\<close>)
qed

lemma hostQueried_ok:
  assumes "hostQueried i m s = Inr s'"
  shows "igmp_ok s \<Longrightarrow> igmp_ok s'" "ig_rt s' = ig_rt s" "ig_routing s' = ig_routing s" "ig_now s' = ig_now s"
    "routerInterface s' = routerInterface s" "ig_externalRouter s' = ig_externalRouter s"
  by (rule hostQueried_cases [OF assms]; elim disjE exE; metis groupQuery_ok groupQueries_ok groupQuery_keeps groupQueries_keeps)+

lemma query_ok:
  assumes "processQuery i sender m s = Inr s'" "igmp_ok s"
  shows "igmp_ok s'"
proof -
  obtain ie s1 where ie: "igmpMulticastIface s i = Inr ie" and s1: "hostQueried i m s = Inr s1"
    and s': "(if rt_multicastForward (ig_rt s1) then
         (if ig_externalRouter s1 then Inr (ig_emit (IgmpToRouter m) s1) else queryAsRouter i sender m s1)
       else Inr s1) = Inr s'"
    using assms(1) by (auto simp: processQuery_parts)
  have "igmp_ok s1" "mcast_iface (ig_rt s1) i"
    using hostQueried_ok [OF s1] igmpMulticastIface_Inr [OF ie] assms(2) by simp_all
  then show ?thesis using s' by (auto simp: ig_emit_def split: if_splits intro: queryAsRouter_ok)
qed

lemma reportAsHost_keeps:
  "reportAsHost i g s = Inr s' \<Longrightarrow> ig_rt s' = ig_rt s \<and> ig_routing s' = ig_routing s \<and> ig_now s' = ig_now s \<and>
     routerInterface s' = routerInterface s \<and> ig_groupMembershipInterval s' = ig_groupMembershipInterval s \<and>
     ig_externalRouter s' = ig_externalRouter s"
  by (auto simp: reportAsHost_def getHostInterfaceData_def putHostGroup_def split: option.splits if_splits)

lemma report_ok:
  assumes "processV2Report i m s = Inr s'" "igmp_ok s"
  shows "igmp_ok s'"
proof -
  obtain ie s1 where ie: "igmpMulticastIface s i = Inr ie"
    and s1: "reportAsHost i (igm_groupAddress m) (s\<lparr>ig_numReportsRecv := ig_numReportsRecv s + 1\<rparr>) = Inr s1"
    and s': "(if rt_multicastForward (ig_rt s1) then
         (if ig_externalRouter s1 then Inr (ig_emit (IgmpToRouter m) s1) else reportAsRouter i (igm_groupAddress m) s1)
       else Inr s1) = Inr s'"
    using assms(1) by (auto simp: processV2Report_def)
  have "igmp_ok s1" "mcast_iface (ig_rt s1) i"
    using reportAsHost_ok [OF s1] reportAsHost_keeps [OF s1] igmpMulticastIface_Inr [OF ie] assms(2) by simp_all
  then show ?thesis using s' by (auto simp: ig_emit_def split: if_splits intro: reportAsRouter_ok)
qed

section \<open>Reachable states\<close>

text \<open>
  The module runs in a node: interfaces come and go, groups are joined and left, messages arrive, due
  timers go off, time passes up to the next timer, and the other modules change the routing table, but
  neither the reported groups of an interface nor the multicast flags.  The messages and timers taken
  into account are a parameter; a reachable state is one after any of them.
\<close>

definition igmp_timers :: "IGMPv2 \<Rightarrow> IgmpTimer set" where
  "igmp_timers s =
     {t. \<exists>i. t = ri_igmpQueryTimer (routerInterface s i)}
     \<union> {t. \<exists>i g d. smap_find (hostGroups s i) g = Some d \<and> t = hg_timer d}
     \<union> {t. \<exists>i g d. smap_find (ri_groups (routerInterface s i)) g = Some d \<and> (t = rg_timer d \<or> t = rg_rexmtTimer d)}"

definition igmp_due :: "IgmpInput \<Rightarrow> IGMPv2 \<Rightarrow> bool" where
  "igmp_due msg s \<longleftrightarrow>
     (case msg of
        QueryTimer i \<Rightarrow> ri_igmpQueryTimer (routerInterface s i) = Scheduled (ig_now s)
      | HostGroupTimer i g \<Rightarrow> (\<exists>d. smap_find (hostGroups s i) g = Some d \<and> hg_timer d = Scheduled (ig_now s))
      | LeaveTimer i g \<Rightarrow>
          (\<exists>d. smap_find (ri_groups (routerInterface s i)) g = Some d \<and> rg_timer d = Scheduled (ig_now s))
      | RexmtTimer i g \<Rightarrow>
          (\<exists>d. smap_find (ri_groups (routerInterface s i)) g = Some d \<and> rg_rexmtTimer d = Scheduled (ig_now s))
      | _ \<Rightarrow> True)"

definition igmp_with_ift :: "InterfaceEntry list \<Rightarrow> IGMPv2 \<Rightarrow> IGMPv2" where
  "igmp_with_ift ift s = s\<lparr>ig_rt := (ig_rt s)\<lparr>rt_ift := ift\<rparr>\<rparr>"

inductive igmp_step :: "(IgmpInput \<Rightarrow> bool) \<Rightarrow> IGMPv2 \<Rightarrow> IGMPv2 \<Rightarrow> bool" for allowed where
  message: "allowed msg \<Longrightarrow> igmp_due msg s \<Longrightarrow> IGMP_handleMessage msg s = Inr s' \<Longrightarrow> igmp_step allowed s s'"
| joined: "IGMP_receiveChangeNotification (GROUP_JOINED i g) s = Inr s' \<Longrightarrow> igmp_step allowed s s'"
| left: "IGMP_receiveChangeNotification (GROUP_LEFT i g) s = Inr s' \<Longrightarrow> igmp_step allowed s s'"
| created: "iface_by_id (rt_ift (ig_rt s)) (ie_id ie) = None \<Longrightarrow> reported ie = [] \<Longrightarrow>
    IGMP_receiveChangeNotification (IF_CREATED (ie_id ie)) (igmp_with_ift (rt_ift (ig_rt s) @ [ie]) s) = Inr s' \<Longrightarrow>
    igmp_step allowed s s'"
| deleted: "iface_by_id (rt_ift (ig_rt s)) i = Some ie \<Longrightarrow>
    IGMP_receiveChangeNotification (IF_DELETED i (ie_multicast ie)) s = Inr s' \<Longrightarrow>
    igmp_step allowed s (igmp_with_ift (filter (\<lambda>ie. ie_id ie \<noteq> i) (rt_ift (ig_rt s'))) s')"
| table_change: "rt_multicastForward rt = rt_multicastForward (ig_rt s) \<Longrightarrow>
    (\<And>i. map_option (\<lambda>ie. (ie_multicast ie, reported ie)) (iface_by_id (rt_ift rt) i)
      = map_option (\<lambda>ie. (ie_multicast ie, reported ie)) (iface_by_id (rt_ift (ig_rt s)) i)) \<Longrightarrow>
    igmp_step allowed s (s\<lparr>ig_rt := rt\<rparr>)"
| time: "ig_now s \<le> t \<Longrightarrow> (\<And>u. Scheduled u \<in> igmp_timers s \<Longrightarrow> t \<le> u) \<Longrightarrow> igmp_step allowed s (s\<lparr>ig_now := t\<rparr>)"

inductive igmp_reachable :: "IGMPv2 \<Rightarrow> bool" where
  initial: "ig_hostData s0 = [] \<Longrightarrow> ig_routerData s0 = [] \<Longrightarrow> distinct (map ie_id (rt_ift (ig_rt s0))) \<Longrightarrow>
    (\<forall>ie \<in> set (rt_ift (ig_rt s0)). reported ie = []) \<Longrightarrow> IGMP_initialize s0 = Inr s \<Longrightarrow> igmp_reachable s"
| step: "igmp_reachable s \<Longrightarrow> igmp_step (\<lambda>_. True) s s' \<Longrightarrow> igmp_reachable s'"

lemma table_change_view:
  assumes "\<And>i. map_option (\<lambda>ie. (ie_multicast ie, reported ie)) (iface_by_id (rt_ift rt) i)
      = map_option (\<lambda>ie. (ie_multicast ie, reported ie)) (iface_by_id (rt_ift rt') i)"
  shows "listeners rt i = listeners rt' i" "mcast_iface rt i = mcast_iface rt' i"
  using assms [of i]
  by (cases "iface_by_id (rt_ift rt) i"; cases "iface_by_id (rt_ift rt') i"; simp add: listeners_def mcast_iface_def)+

lemma inv_table:
  assumes "igmp_inv now rt a H R" "\<And>i. listeners rt' i = listeners rt i" "\<And>i. mcast_iface rt' i = mcast_iface rt i"
  shows "igmp_inv now rt' a H R"
  using assms unfolding igmp_inv_def by simp

lemma igmp_timersI:
  "ri_igmpQueryTimer (routerInterface s i) \<in> igmp_timers s"
  "smap_find (hostGroups s i) g = Some hg \<Longrightarrow> hg_timer hg \<in> igmp_timers s"
  "smap_find (ri_groups (routerInterface s i)) g = Some d \<Longrightarrow> rg_timer d \<in> igmp_timers s"
  "smap_find (ri_groups (routerInterface s i)) g = Some d \<Longrightarrow> rg_rexmtTimer d \<in> igmp_timers s"
  unfolding igmp_timers_def by blast+

lemma inv_time:
  assumes inv: "igmp_ok s" and due: "\<And>u. Scheduled u \<in> igmp_timers s \<Longrightarrow> t \<le> u"
  shows "igmp_ok (s\<lparr>ig_now := t\<rparr>)"
proof -
  note d = igmp_invD [OF inv [unfolded igmp_ok_def]]
  have later: "timer_runs t x" if "timer_runs (ig_now s) x" "x \<in> igmp_timers s" for x
    using that due by (auto simp: timer_runs_def)
  have "host_entry_ok t g e" if "smap_find (hostGroups s i) g = Some e" for i g e
    using d(1) [OF that] igmp_timersI(2) [OF that] later by (auto simp: host_entry_ok_def)
  moreover have "router_entry_ok t g e" if "smap_find (ri_groups (routerInterface s i)) g = Some e" for i g e
    using d(2) [OF that] igmp_timersI(3,4) [OF that] later by (auto simp: router_entry_ok_def)
  moreover have "querier_ok t (routerInterface s i)" for i
    using d(3) [of i] igmp_timersI(1) later by (simp add: querier_ok_def)
  ultimately show ?thesis using inv unfolding igmp_ok_def igmp_inv_def by simp
qed

text \<open>The start.\<close>

lemma initialize_fold:
  assumes "foldl (\<lambda>r ie. if ie_multicast ie then outcome_bind r (configureInterface (ie_id ie)) else r) (Inr s) xs = Inr s'"
    and "igmp_inv (ig_now s) (ig_rt s) False (hostGroups s) (routerInterface s)"
    and "\<And>ie. ie \<in> set xs \<Longrightarrow> ie_multicast ie \<Longrightarrow> mcast_iface (ig_rt s) (ie_id ie)"
  shows "ig_now s' = ig_now s \<and> ig_rt s' = ig_rt s \<and> ig_routing s' = ig_routing s \<and>
     igmp_inv (ig_now s) (ig_rt s) False (hostGroups s') (routerInterface s') \<and>
     (\<forall>i. ri_igmpRouterState (routerInterface s i) \<noteq> IGMP_RS_INITIAL
        \<or> i \<in> ie_id ` {ie \<in> set xs. ie_multicast ie} \<and> ig_routing s \<longrightarrow>
        ri_igmpRouterState (routerInterface s' i) \<noteq> IGMP_RS_INITIAL)"
  using assms
proof (induction xs arbitrary: s)
  case (Cons ie xs)
  show ?case
  proof (cases "ie_multicast ie")
    case True
    have fail: "foldl (\<lambda>r ie. if ie_multicast ie then outcome_bind r (configureInterface (ie_id ie)) else r) (Inl e) xs = Inl e" for e
      by (induction xs) auto
    obtain s1 where s1: "configureInterface (ie_id ie) s = Inr s1"
      using Cons.prems(1) True fail by (cases "configureInterface (ie_id ie) s") auto
    have conf: "ig_now s1 = ig_now s" "ig_rt s1 = ig_rt s" "ig_routing s1 = ig_routing s"
      "igmp_inv (ig_now s) (ig_rt s) False (hostGroups s1) (routerInterface s1)"
      "ig_routing s \<Longrightarrow> ri_igmpRouterState (routerInterface s1 (ie_id ie)) \<noteq> IGMP_RS_INITIAL"
      "\<And>j. ri_igmpRouterState (routerInterface s j) \<noteq> IGMP_RS_INITIAL \<Longrightarrow>
         ri_igmpRouterState (routerInterface s1 j) \<noteq> IGMP_RS_INITIAL"
      using configureInterface_ok [OF s1 Cons.prems(3) Cons.prems(2)] True by auto
    have "ig_now s' = ig_now s1 \<and> ig_rt s' = ig_rt s1 \<and> ig_routing s' = ig_routing s1 \<and>
     igmp_inv (ig_now s1) (ig_rt s1) False (hostGroups s') (routerInterface s') \<and>
     (\<forall>i. ri_igmpRouterState (routerInterface s1 i) \<noteq> IGMP_RS_INITIAL
        \<or> i \<in> ie_id ` {ie \<in> set xs. ie_multicast ie} \<and> ig_routing s1 \<longrightarrow>
        ri_igmpRouterState (routerInterface s' i) \<noteq> IGMP_RS_INITIAL)"
      by (rule Cons.IH) (use Cons.prems True s1 conf in auto)
    then show ?thesis using conf by auto
  next
    case False
    have "{e \<in> set (ie # xs). ie_multicast e} = {e \<in> set xs. ie_multicast e}" using False by auto
    then show ?thesis using Cons.IH [of s] Cons.prems False by simp
  qed
qed simp

lemma iface_by_id_distinct:
  "distinct (map ie_id ift) \<Longrightarrow> ie \<in> set ift \<Longrightarrow> iface_by_id ift (ie_id ie) = Some ie"
  unfolding iface_by_id_def by (induction ift) force+

lemma iface_by_id_set: "iface_by_id ift i = Some ie \<Longrightarrow> ie \<in> set ift \<and> ie_id ie = i"
  unfolding iface_by_id_def by (auto simp: find_Some_iff)

lemma initialize_ok:
  assumes "ig_hostData s0 = []" "ig_routerData s0 = []" "distinct (map ie_id (rt_ift (ig_rt s0)))"
    and "\<forall>ie \<in> set (rt_ift (ig_rt s0)). reported ie = []" "IGMP_initialize s0 = Inr s"
  shows "igmp_ok s"
proof -
  have H: "hostGroups s0 = (\<lambda>_. [])" and R: "routerInterface s0 = (\<lambda>_. RouterInterfaceData_new)"
    using assms(1,2) by (simp_all add: fun_eq_iff hostGroups_def routerInterface_def)
  have L: "listeners (ig_rt s0) i = []" for i
    using assms(4) iface_by_id_set by (fastforce simp: listeners_def split: option.splits)
  have inv: "igmp_inv (ig_now s0) (ig_rt s0) False (hostGroups s0) (routerInterface s0)"
    unfolding igmp_inv_def H R by (simp add: L querier_ok_def RouterInterfaceData_new_def dom_def)
  have m: "mcast_iface (ig_rt s0) (ie_id ie)" if "ie \<in> set (rt_ift (ig_rt s0))" "ie_multicast ie" for ie
    using iface_by_id_distinct [OF assms(3) that(1)] that(2) by (simp add: mcast_iface_def)
  note fold = initialize_fold [OF assms(5) [unfolded IGMP_initialize_def] inv m]
  have "ri_igmpRouterState (routerInterface s i) \<noteq> IGMP_RS_INITIAL" if "mcast_iface (ig_rt s0) i" "ig_routing s0" for i
    using fold that iface_by_id_set by (fastforce simp: mcast_iface_def)
  then show ?thesis using fold unfolding igmp_ok_def igmp_inv_def by simp
qed

section \<open>The steps keep the invariant\<close>

lemma handle_ok:
  assumes "igmp_due msg s" "IGMP_handleMessage msg s = Inr s'" "igmp_ok s"
  shows "igmp_ok s'"
proof (cases "ig_enabled s")
  case True
  then show ?thesis
  proof (cases msg)
    case (QueryTimer i)
    then show ?thesis using assms True by (auto simp: IGMP_handleMessage_def igmp_due_def intro: queryTimer_ok)
  next
    case (FromIp i sender m)
    then show ?thesis using assms True
      by (auto simp: IGMP_handleMessage_def processIgmpMessage_def ig_emit_def split: IGMPType.splits if_splits
          intro: query_ok report_ok leave_ok)
  qed (use assms True in \<open>auto simp: IGMP_handleMessage_def ig_emit_def intro: hostTimer_ok leaveTimer_ok rexmtTimer_ok\<close>)
qed (use assms in \<open>simp add: IGMP_handleMessage_def\<close>)

lemma igmp_with_ift_frame [simp]:
  "hostGroups (igmp_with_ift ift s) = hostGroups s" "routerInterface (igmp_with_ift ift s) = routerInterface s"
  "ig_now (igmp_with_ift ift s) = ig_now s" "ig_routing (igmp_with_ift ift s) = ig_routing s"
  "rt_ift (ig_rt (igmp_with_ift ift s)) = ift"
  by (simp_all add: igmp_with_ift_def ig_routing_def)

lemma created_ok:
  assumes new: "iface_by_id (rt_ift (ig_rt s)) (ie_id ie) = None" "reported ie = []"
    and conf: "IGMP_receiveChangeNotification (IF_CREATED (ie_id ie)) (igmp_with_ift (rt_ift (ig_rt s) @ [ie]) s) = Inr s'"
    and ok: "igmp_ok s"
  shows "igmp_ok s'"
proof -
  let ?s = "igmp_with_ift (rt_ift (ig_rt s) @ [ie]) s"
  note inv = ok [unfolded igmp_ok_def]
  have find: "iface_by_id (rt_ift (ig_rt ?s)) j = (if j = ie_id ie then Some ie else iface_by_id (rt_ift (ig_rt s)) j)" for j
    using new(1) by (auto simp: iface_by_id_append split: option.splits)
  have absent: "\<not> mcast_iface (ig_rt s) (ie_id ie)" using new(1) by (simp add: mcast_iface_def)
  have empty: "hostGroups s (ie_id ie) = []" "routerInterface s (ie_id ie) = RouterInterfaceData_new"
    using igmp_invD(4,5) [OF inv absent] .
  have L: "listeners (ig_rt ?s) j = listeners (ig_rt s) j" for j using new find [of j] by (simp add: listeners_def)
  have M: "mcast_iface (ig_rt ?s) j \<longleftrightarrow> (if j = ie_id ie then ie_multicast ie else mcast_iface (ig_rt s) j)" for j
    using find [of j] by (simp add: mcast_iface_def)
  have inv': "igmp_inv (ig_now ?s) (ig_rt ?s) False (hostGroups ?s) (routerInterface ?s)"
    using inv absent unfolding igmp_inv_def by (auto simp: L M empty split: if_splits)
  show ?thesis
  proof (cases "ie_multicast ie")
    case True
    then have "configureInterface (ie_id ie) ?s = Inr s'"
      using conf find [of "ie_id ie"] by (auto simp: IGMP_receiveChangeNotification_def igmpIface_def)
    note c = configureInterface_ok [OF this _ inv']
    have "ri_igmpRouterState (routerInterface s' j) \<noteq> IGMP_RS_INITIAL" if "mcast_iface (ig_rt ?s) j" "ig_routing s" for j
      using c igmp_invD(8) [OF inv, of j] that True by (cases "j = ie_id ie") (auto simp: M)
    then show ?thesis using c True unfolding igmp_ok_def igmp_inv_def by (simp add: M)
  next
    case False
    then have "s' = ?s" using conf find [of "ie_id ie"] by (auto simp: IGMP_receiveChangeNotification_def igmpIface_def)
    moreover have "ri_igmpRouterState (routerInterface s j) \<noteq> IGMP_RS_INITIAL" if "mcast_iface (ig_rt ?s) j" "ig_routing s" for j
      using igmp_invD(8) [OF inv, of j] that False by (auto simp: M split: if_splits)
    ultimately show ?thesis using inv' unfolding igmp_ok_def igmp_inv_def by simp
  qed
qed

lemma deleted_ok:
  assumes "iface_by_id (rt_ift (ig_rt s)) i = Some ie"
    and "IGMP_receiveChangeNotification (IF_DELETED i (ie_multicast ie)) s = Inr s'" "igmp_ok s"
  shows "igmp_ok (igmp_with_ift (filter (\<lambda>ie. ie_id ie \<noteq> i) (rt_ift (ig_rt s'))) s')"
proof -
  let ?s = "igmp_with_ift (filter (\<lambda>ie. ie_id ie \<noteq> i) (rt_ift (ig_rt s'))) s'"
  note inv = assms(3) [unfolded igmp_ok_def]
  have s': "s' = (if ie_multicast ie then deleteInterfaceData i s else s)"
    using assms(2) by (simp add: IGMP_receiveChangeNotification_def)
  have keep: "ig_now s' = ig_now s" "ig_rt s' = ig_rt s" "ig_routing s' = ig_routing s"
    by (simp_all add: s' deleteInterfaceData_def ig_routing_def)
  have H: "hostGroups s' j = (if j = i then [] else hostGroups s j)"
    and R: "routerInterface s' j = (if j = i then RouterInterfaceData_new else routerInterface s j)" for j
    using igmp_invD(4,5) [OF inv, of i] assms(1)
    by (auto simp: s' deleteInterfaceData_def hostGroups_def routerInterface_def smap_find_erase mcast_iface_def)
  have L: "listeners (ig_rt ?s) j = (if j = i then [] else listeners (ig_rt s) j)"
    and M: "mcast_iface (ig_rt ?s) j \<longleftrightarrow> j \<noteq> i \<and> mcast_iface (ig_rt s) j" for j
    by (auto simp: listeners_def mcast_iface_def iface_by_id_remove keep)
  have new: "querier_ok n RouterInterfaceData_new" "ri_groups RouterInterfaceData_new = []" for n
    by (simp_all add: querier_ok_def RouterInterfaceData_new_def)
  show ?thesis using inv unfolding igmp_ok_def igmp_inv_def by (auto simp: H R L [unfolded keep] M [unfolded keep] keep new dom_def)
qed

lemma igmp_step_ok: "igmp_step allowed s s' \<Longrightarrow> igmp_ok s \<Longrightarrow> igmp_ok s'"
proof (induction rule: igmp_step.induct)
  case (message msg s s')
  then show ?case using handle_ok by blast
next
  case (joined i g s s')
  then show ?case using joined_ok by (simp add: IGMP_receiveChangeNotification_def)
next
  case (left i g s s')
  then show ?case using left_ok by (simp add: IGMP_receiveChangeNotification_def)
next
  case (created s ie s')
  then show ?case using created_ok by blast
next
  case (deleted s i ie s')
  then show ?case using deleted_ok by blast
next
  case (table_change rt s)
  then show ?case
    using inv_table [of "ig_now s" "ig_rt s" _ _ _ rt] table_change_view [of rt "ig_rt s"] unfolding igmp_ok_def
    by (simp add: ig_routing_def)
next
  case (time s t)
  then show ?case using inv_time by blast
qed

lemma reachable_ok: "igmp_reachable s \<Longrightarrow> igmp_ok s"
  by (induction rule: igmp_reachable.induct) (use initialize_ok igmp_step_ok in blast)+

end
