(* ===== verification/IGMP_Props.thy ===== *)
theory IGMP_Props
  imports IGMP_Invariant
begin

text \<open>
  Consequences of the invariant of the IGMP module: which messages make it fail, that no timer does, and
  what becomes of a group after the last Leave.
\<close>

section \<open>Which messages fail\<close>

text \<open>
  What the configuration and the random numbers are relied on for: intervals and the query count are not
  negative, and a draw from an interval lies in it.
\<close>

definition igmp_config_ok :: "IGMPv2 \<Rightarrow> bool" where
  "igmp_config_ok s \<longleftrightarrow>
     0 \<le> ig_queryInterval s \<and> 0 \<le> ig_groupMembershipInterval s \<and> 0 \<le> ig_otherQuerierPresentInterval s
     \<and> 0 \<le> ig_lastMemberQueryInterval s \<and> 0 \<le> ig_lastMemberQueryCount s
     \<and> (\<forall>k u. 0 \<le> u \<longrightarrow> 0 \<le> ig_uniform s k u \<and> ig_uniform s k u \<le> u)"

definition fails :: "'a outcome \<Rightarrow> bool" where
  "fails r \<longleftrightarrow> (\<exists>e. r = Inl e)"

lemma fails_simps [simp]:
  "fails (Inl e)" "\<not> fails (Inr x)"
  "fails (outcome_bind r f) \<longleftrightarrow> fails r \<or> (\<exists>x. r = Inr x \<and> fails (f x))"
  by (cases r; simp add: fails_def)+

lemma not_fails: "\<not> fails r \<longleftrightarrow> (\<exists>x. r = Inr x)"
  by (cases r) simp_all

lemma startTimer_fails [simp]: "fails (startTimer t u s) \<longleftrightarrow> t = NoTimer \<or> u < 0"
  by (simp add: startTimer_def)

lemma cancelTimer_fails [simp]: "fails (cancelTimer t) \<longleftrightarrow> t = NoTimer"
  by (simp add: cancelTimer_def)

lemma startHostTimer_fails [simp]:
  "fails (startHostTimer d u s) \<longleftrightarrow> ig_uniform s (ig_draws s) u < 0"
  by (simp add: startHostTimer_def Let_def)

lemma igmpMulticastIface_mcast:
  "fails (igmpMulticastIface s i) \<longleftrightarrow> \<not> mcast_iface (ig_rt s) i"
  by (auto simp: igmpMulticastIface_def igmpIface_def mcast_iface_def split: option.splits)

lemma sendReport_fails [simp]:
  "fails (sendReport i g s) \<longleftrightarrow> \<not> (isMulticast g \<and> \<not> isLinkLocalMulticast g) \<or> \<not> mcast_iface (ig_rt s) i"
  by (auto simp: sendReport_def IGMP_sendToIP_def igmpMulticastIface_mcast)

lemma sendQuery_fails [simp]:
  "fails (sendQuery i g u s) \<longleftrightarrow> g \<noteq> 0 \<and> \<not> (isMulticast g \<and> \<not> isLinkLocalMulticast g)
     \<or> ri_igmpRouterState (routerInterface s i) = IGMP_RS_QUERIER \<and> \<not> mcast_iface (ig_rt s) i"
  by (auto simp: sendQuery_def IGMP_sendToIP_def igmpMulticastIface_mcast getRouterInterfaceData_def
      IPv4Address_isUnspecified_def Let_def)

lemma runs_started: "timer_runs now t \<Longrightarrow> t \<noteq> NoTimer"
  by (auto simp: timer_runs_def)

lemma groupQuery_config: "processGroupQuery i g u s = Inr s' \<Longrightarrow> igmp_config_ok s \<Longrightarrow> igmp_config_ok s'"
  unfolding processGroupQuery_def
  by (auto simp: putHostGroup_def startHostTimer_Inr igmp_config_ok_def Let_def
      split: option.splits HostGroupState.splits IgmpTimer.splits if_splits)

lemma groupQuery_succeeds:
  assumes "igmp_ok s" "igmp_config_ok s" "0 \<le> u"
  shows "\<not> fails (processGroupQuery i g u s)"
proof (cases "smap_find (hostGroups s i) g")
  case (Some d)
  have "0 \<le> ig_uniform s k (u * 100)" for k using assms(2,3) by (simp add: igmp_config_ok_def)
  then show ?thesis
    using host_found(4) [OF assms(1) Some] Some by (auto simp: processGroupQuery_def Let_def timer_runs_def leD split: if_splits)
qed (simp add: processGroupQuery_def)

lemma groupQueries_config: "processGroupQueries i gs u s = Inr s' \<Longrightarrow> igmp_config_ok s \<Longrightarrow> igmp_config_ok s'"
  by (induction gs arbitrary: s) (auto dest: groupQuery_config)

lemma groupQueries_succeed:
  "igmp_ok s \<Longrightarrow> igmp_config_ok s \<Longrightarrow> 0 \<le> u \<Longrightarrow> \<not> fails (processGroupQueries i gs u s)"
  by (induction gs arbitrary: s) (auto simp: groupQuery_succeeds dest: groupQuery_ok groupQuery_config)

lemma hostQueried_succeeds:
  assumes "igmp_ok s" "igmp_config_ok s" "0 \<le> igm_maxRespTime m"
  shows "\<not> fails (hostQueried i m s) \<and> (\<forall>s'. hostQueried i m s = Inr s' \<longrightarrow> igmp_config_ok s')"
proof -
  let ?s = "putHostGroups i (hostGroups s i) s\<lparr>ig_numQueriesRecv := ig_numQueriesRecv s + 1\<rparr>"
  have "igmp_ok (?s\<lparr>ig_numGeneralQueriesRecv := n\<rparr>)" "igmp_config_ok (?s\<lparr>ig_numGeneralQueriesRecv := n\<rparr>)"
    "igmp_ok (?s\<lparr>ig_numGroupSpecificQueriesRecv := n\<rparr>)" "igmp_config_ok (?s\<lparr>ig_numGroupSpecificQueriesRecv := n\<rparr>)" for n
    using assms(1,2) by (simp_all add: igmp_config_ok_def)
  then show ?thesis
    using assms(3) by (auto simp: hostQueried_def getHostInterfaceData_def Let_def
        groupQueries_succeed groupQuery_succeeds dest: groupQuery_config groupQueries_config)
qed

lemma reachable_started:
  assumes "igmp_ok s" "ig_routing s" "mcast_iface (ig_rt s) i"
  shows "ri_igmpQueryTimer (routerInterface s i) \<noteq> NoTimer" "ri_igmpRouterState (routerInterface s i) \<noteq> IGMP_RS_INITIAL"
  using igmp_invD(3,8) [OF assms(1) [unfolded igmp_ok_def], of i] assms(2,3)
  by (auto simp: querier_ok_def dest: runs_started split: if_splits)

lemma giveWay_succeeds:
  "igmp_ok s \<Longrightarrow> igmp_config_ok s \<Longrightarrow> ig_routing s \<Longrightarrow> mcast_iface (ig_rt s) i \<Longrightarrow> \<not> fails (giveWay i lower s)"
  using reachable_started [of s i] by (auto simp: giveWay_def Let_def igmp_config_ok_def)

lemma giveWay_effect:
  "giveWay i lower s = Inr s' \<Longrightarrow>
     ri_groups (routerInterface s' i) = ri_groups (routerInterface s i) \<and>
     (ri_igmpRouterState (routerInterface s' i) = IGMP_RS_NON_QUERIER \<longleftrightarrow>
        lower \<or> ri_igmpRouterState (routerInterface s i) = IGMP_RS_NON_QUERIER) \<and>
     (igmp_config_ok s \<longrightarrow> igmp_config_ok s')"
  by (auto simp: giveWay_def Let_def igmp_config_ok_def split: if_splits)

lemma groupQueried_fails:
  assumes "igmp_ok s" "igmp_config_ok s" "0 \<le> igm_maxRespTime m"
  shows "fails (groupQueried i m s) \<longleftrightarrow>
     igm_groupAddress m \<noteq> 0 \<and> ri_igmpRouterState (routerInterface s i) = IGMP_RS_NON_QUERIER
     \<and> smap_find (ri_groups (routerInterface s i)) (igm_groupAddress m) = None"
proof (cases "smap_find (ri_groups (routerInterface s i)) (igm_groupAddress m)")
  case (Some d)
  have "\<not> igm_maxRespTime m * 100 * ig_lastMemberQueryCount s < 0"
    using assms(2,3) by (simp add: igmp_config_ok_def not_less)
  then show ?thesis
    using runs_started [OF router_found(3) [OF assms(1) Some]] Some by (simp add: groupQueried_def Let_def)
qed (simp add: groupQueried_def Let_def IPv4Address_isUnspecified_def)

lemma routing_flags: "ig_routing s \<longleftrightarrow> ig_enabled s \<and> rt_multicastForward (ig_rt s) \<and> \<not> ig_externalRouter s"
  by (simp add: ig_routing_def)

lemma query_fails:
  assumes ok: "igmp_ok s" "igmp_config_ok s" "ig_enabled s" "mcast_iface (ig_rt s) i" "0 \<le> igm_maxRespTime m"
    and d: "igmpData s i = Inr d"
  shows "fails (processQuery i sender m s) \<longleftrightarrow>
     ig_routing s \<and> igm_groupAddress m \<noteq> 0
     \<and> (sender < ifd_inetAddr d \<or> ri_igmpRouterState (routerInterface s i) = IGMP_RS_NON_QUERIER)
     \<and> smap_find (ri_groups (routerInterface s i)) (igm_groupAddress m) = None"
proof -
  obtain ie where ie: "igmpMulticastIface s i = Inr ie" using igmpMulticastIface_mcast [of s i] ok(4) by (auto simp: not_fails)
  have "\<not> fails (hostQueried i m s)" and config: "hostQueried i m s = Inr s1 \<Longrightarrow> igmp_config_ok s1" for s1
    using hostQueried_succeeds [OF ok(1,2,5)] by simp_all
  then obtain s1 where s1: "hostQueried i m s = Inr s1" by (auto simp: not_fails)
  note c1 = config [OF s1]
  note h = hostQueried_ok [OF s1]
  have d1: "igmpData s1 i = Inr d" using d h(2) by (simp add: igmpData_Inr)
  have flags: "rt_multicastForward (ig_rt s1) \<and> \<not> ig_externalRouter s1 \<longleftrightarrow> ig_routing s"
    using ok(3) h(2,6) by (simp add: routing_flags)
  have router: "fails (queryAsRouter i sender m s1) \<longleftrightarrow> igm_groupAddress m \<noteq> 0
     \<and> (sender < ifd_inetAddr d \<or> ri_igmpRouterState (routerInterface s i) = IGMP_RS_NON_QUERIER)
     \<and> smap_find (ri_groups (routerInterface s i)) (igm_groupAddress m) = None" if "ig_routing s"
  proof -
    let ?s = "putRouterInterface i (routerInterface s1 i) s1"
    have "igmp_ok ?s" using h(1) [OF ok(1)] by simp
    moreover have "igmp_config_ok ?s" using c1 by (simp add: igmp_config_ok_def)
    moreover have "ig_routing ?s" "mcast_iface (ig_rt ?s) i" using ok(4) h(2,3) that by simp_all
    ultimately have k: "igmp_ok ?s" "igmp_config_ok ?s" "ig_routing ?s" "mcast_iface (ig_rt ?s) i" .
    obtain s2 where s2: "giveWay i (sender < ifd_inetAddr d) ?s = Inr s2" using giveWay_succeeds [OF k] by (auto simp: not_fails)
    have "igmp_ok s2" "igmp_config_ok s2" using giveWay_ok [OF s2 k(1,4)] giveWay_effect [OF s2] k(2) by auto
    then show ?thesis
      using groupQueried_fails [of s2 m i] giveWay_effect [OF s2] ok(5) d1 s2 h(5) by (auto simp: queryAsRouter_parts Let_def)
  qed
  show ?thesis using ie s1 flags router by (auto simp: processQuery_parts)
qed

lemma reportAsHost_external: "reportAsHost i g s = Inr s' \<Longrightarrow> ig_externalRouter s' = ig_externalRouter s"
  by (auto simp: reportAsHost_def getHostInterfaceData_def putHostGroup_def split: option.splits if_splits)

lemma report_fails:
  assumes ok: "igmp_ok s" "igmp_config_ok s" "ig_enabled s" "mcast_iface (ig_rt s) i" and d: "igmpData s i = Inr d"
  shows "fails (processV2Report i m s) \<longleftrightarrow> ig_routing s \<and> \<not> isMulticast (igm_groupAddress m)"
proof -
  let ?s = "s\<lparr>ig_numReportsRecv := ig_numReportsRecv s + 1\<rparr>" and ?g = "igm_groupAddress m"
  obtain ie where ie: "igmpMulticastIface s i = Inr ie" using igmpMulticastIface_mcast [of s i] ok(4) by (auto simp: not_fails)
  have "\<not> fails (reportAsHost i ?g ?s)"
    using host_found(4) [OF ok(1), of i ?g]
    by (auto simp: reportAsHost_def getHostInterfaceData_def dest!: runs_started split: option.splits)
  then obtain s1 where s1: "reportAsHost i ?g ?s = Inr s1" by (auto simp: not_fails)
  note keeps = reportAsHost_keeps [OF s1, simplified] reportAsHost_external [OF s1, simplified]
  have ok1: "igmp_ok s1" using reportAsHost_ok [OF s1] ok(1) by simp
  have d1: "igmpData s1 i = Inr d" using d keeps by (simp add: igmpData_Inr)
  have flags: "rt_multicastForward (ig_rt s1) \<and> \<not> ig_externalRouter s1 \<longleftrightarrow> ig_routing s"
    using ok(3) keeps by (simp add: routing_flags)
  have int: "\<not> ig_groupMembershipInterval s1 < 0" using ok(2) keeps by (simp add: igmp_config_ok_def)
  have router: "fails (reportAsRouter i ?g s1) \<longleftrightarrow> \<not> isMulticast ?g"
  proof (cases "smap_find (ri_groups (routerInterface s1 i)) ?g")
    case (Some gd)
    then show ?thesis using router_found [OF ok1 Some] int
      by (auto simp: reportAsRouter_def getRouterInterfaceData_def allocated_def Let_def dest: runs_started split: if_splits)
  next
    case None
    then show ?thesis using int d1
      by (auto simp: reportAsRouter_def getRouterInterfaceData_def createRouterGroupData_def putRouterGroup_def
          RouterGroupData_new_def allocated_def addMulticastListener_def Let_def split: if_splits)
  qed
  show ?thesis using ie s1 flags router by (auto simp: processV2Report_def)
qed

lemma leave_fails:
  assumes ok: "igmp_ok s" "igmp_config_ok s" "ig_enabled s" "mcast_iface (ig_rt s) i"
  shows "fails (processLeave i m s) \<longleftrightarrow>
     ig_routing s \<and> ri_igmpRouterState (routerInterface s i) = IGMP_RS_QUERIER \<and> isLinkLocalMulticast (igm_groupAddress m)
     \<and> (\<exists>gd. smap_find (ri_groups (routerInterface s i)) (igm_groupAddress m) = Some gd
            \<and> rg_state gd = IGMP_RGS_MEMBERS_PRESENT)"
proof -
  let ?g = "igm_groupAddress m"
  obtain ie where ie: "igmpMulticastIface s i = Inr ie" using igmpMulticastIface_mcast [of s i] ok(4) by (auto simp: not_fails)
  have flags: "rt_multicastForward (ig_rt s) \<and> \<not> ig_externalRouter s \<longleftrightarrow> ig_routing s" using ok(3) by (simp add: routing_flags)
  have int: "\<not> ig_lastMemberQueryInterval s * ig_lastMemberQueryCount s < 0" "\<not> ig_lastMemberQueryInterval s < 0"
    using ok(2) by (simp_all add: igmp_config_ok_def not_less)
  show ?thesis
  proof (cases "smap_find (ri_groups (routerInterface s i)) ?g")
    case None
    then show ?thesis using ie flags by (auto simp: processLeave_def getRouterInterfaceData_def Let_def)
  next
    case (Some gd)
    note found = router_found [OF ok(1) Some]
    have "?g \<noteq> 0" using isMulticast_nonzero found(2) by blast
    then show ?thesis
      using ie flags int ok(4) Some found runs_started [OF found(3)]
      by (auto simp: processLeave_def getRouterInterfaceData_def startTimer_Inr Let_def dest: runs_started)
  qed
qed

text \<open>Timers of the module, as opposed to messages from outside.\<close>

fun is_timer :: "IgmpInput \<Rightarrow> bool" where
  "is_timer (FromRouterGate m) = False"
| "is_timer (FromIp i sender m) = False"
| "is_timer _ = True"

lemma listener_data:
  assumes "g \<in> set (listeners (ig_rt s) i)"
  shows "\<not> fails (igmpData s i)"
proof (cases "iface_by_id (rt_ift (ig_rt s)) i")
  case (Some ie)
  then show ?thesis using assms
    by (cases "ie_ipv4Data ie") (simp_all add: listeners_def reported_def igmpData_def igmpIface_def)
qed (use assms in \<open>simp add: listeners_def\<close>)

lemma leaveTimer_succeeds:
  assumes "igmp_ok s" "smap_find (ri_groups (routerInterface s i)) g = Some gd"
  shows "\<not> fails (processLeaveTimer i g s)"
proof -
  note found = router_found [OF assms]
  show ?thesis using listener_data [OF found(4)] assms(2) found(5)
    by (auto simp: processLeaveTimer_def Let_def dest: runs_started split: prod.splits)
qed

lemma timers_succeed:
  assumes ok: "igmp_ok s" "igmp_config_ok s" and due: "is_timer msg" "igmp_due msg s"
  shows "\<not> fails (IGMP_handleMessage msg s)"
proof (cases "ig_enabled s")
  case True
  have int: "\<not> ig_queryInterval s < 0" "\<not> ig_lastMemberQueryInterval s < 0" using ok(2) by (simp_all add: igmp_config_ok_def)
  show ?thesis
  proof (cases msg)
    case (QueryTimer i)
    have "ri_igmpQueryTimer (routerInterface s i) \<noteq> NoTimer" using due QueryTimer by (simp add: igmp_due_def)
    then have m: "mcast_iface (ig_rt s) i"
      using igmp_invD(5) [OF ok(1) [unfolded igmp_ok_def], of i]
      by (cases "mcast_iface (ig_rt s) i") (auto simp: RouterInterfaceData_new_def)
    then show ?thesis using QueryTimer True int
      by (auto simp: IGMP_handleMessage_def processQueryTimer_def getRouterInterfaceData_def igmp_same_def dest!: sendQuery_same)
  next
    case (HostGroupTimer i g)
    then obtain d where d: "smap_find (hostGroups s i) g = Some d" using due by (auto simp: igmp_due_def)
    show ?thesis using HostGroupTimer True d host_found [OF ok(1) d]
      by (auto simp: IGMP_handleMessage_def processHostGroupTimer_def)
  next
    case (LeaveTimer i g)
    then obtain gd where "smap_find (ri_groups (routerInterface s i)) g = Some gd" using due by (auto simp: igmp_due_def)
    then show ?thesis using LeaveTimer True leaveTimer_succeeds [OF ok(1)] by (simp add: IGMP_handleMessage_def)
  next
    case (RexmtTimer i g)
    then obtain gd where d: "smap_find (ri_groups (routerInterface s i)) g = Some gd" "rg_rexmtTimer gd = Scheduled (ig_now s)"
      using due by (auto simp: igmp_due_def)
    note found = router_found [OF ok(1) d(1)]
    have "\<not> isLinkLocalMulticast g" using found(5) d(2) by auto
    then show ?thesis using RexmtTimer True d int found
      by (auto simp: IGMP_handleMessage_def processRexmtTimer_def igmp_same_def dest!: sendQuery_same)
  qed (use due in auto)
qed (simp add: IGMP_handleMessage_def)

text \<open>The messages that are rejected, or that the module cannot digest.\<close>

definition igmp_rejects :: "IGMPv2 \<Rightarrow> nat \<Rightarrow> IPv4InterfaceData \<Rightarrow> IPv4Address \<Rightarrow> IGMPMessage \<Rightarrow> bool" where
  "igmp_rejects s i d sender m \<longleftrightarrow>
     (let g = igm_groupAddress m; r = routerInterface s i; entry = smap_find (ri_groups r) g in
      case igm_type m of
        IGMP_MEMBERSHIP_QUERY \<Rightarrow> ig_routing s \<and> g \<noteq> 0 \<and> entry = None
          \<and> (sender < ifd_inetAddr d \<or> ri_igmpRouterState r = IGMP_RS_NON_QUERIER)
      | IGMPV2_MEMBERSHIP_REPORT \<Rightarrow> ig_routing s \<and> \<not> isMulticast g
      | IGMPV2_LEAVE_GROUP \<Rightarrow> ig_routing s \<and> ri_igmpRouterState r = IGMP_RS_QUERIER \<and> isLinkLocalMulticast g
          \<and> (\<exists>gd. entry = Some gd \<and> rg_state gd = IGMP_RGS_MEMBERS_PRESENT)
      | IGMP_OTHER n \<Rightarrow> \<not> ig_externalRouter s)"

text \<open>
  C22: in every reachable state no timer of the module fails, and a message on a configured interface fails
  exactly in these cases: a query for a group at a router that is or becomes a non-querier and has no
  record of the group (a null pointer is read), a report for an address that is not a multicast address, a
  Leave at the querier for a group of the link-local block that has been reported, and, unless another
  module does the routing, a message of another type.
\<close>

theorem igmp_fails_exactly:
  assumes "igmp_reachable s" "igmp_config_ok s" "ig_enabled s"
  shows "(\<forall>msg. is_timer msg \<and> igmp_due msg s \<longrightarrow> (\<exists>s'. IGMP_handleMessage msg s = Inr s')) \<and>
    (\<forall>i ie d sender m.
      iface_by_id (rt_ift (ig_rt s)) i = Some ie \<and> ie_multicast ie \<and> ie_ipv4Data ie = Some d \<and> 0 \<le> igm_maxRespTime m \<longrightarrow>
      ((\<exists>e. IGMP_handleMessage (FromIp i sender m) s = Inl e) \<longleftrightarrow> igmp_rejects s i d sender m))"
proof -
  note ok = reachable_ok [OF assms(1)]
  have "fails (IGMP_handleMessage (FromIp i sender m) s) \<longleftrightarrow> igmp_rejects s i d sender m"
    if "iface_by_id (rt_ift (ig_rt s)) i = Some ie" "ie_multicast ie" "ie_ipv4Data ie = Some d" "0 \<le> igm_maxRespTime m"
    for i ie d sender m
  proof -
    have m: "mcast_iface (ig_rt s) i" and d: "igmpData s i = Inr d" using that by (auto simp: mcast_iface_def igmpData_Inr)
    show ?thesis
      using query_fails [OF ok assms(2,3) m that(4) d] report_fails [OF ok assms(2,3) m d] leave_fails [OF ok assms(2,3) m] assms(3)
      by (auto simp: igmp_rejects_def IGMP_handleMessage_def processIgmpMessage_def Let_def split: IGMPType.splits)
  qed
  moreover have "\<exists>s'. IGMP_handleMessage msg s = Inr s'" if "is_timer msg" "igmp_due msg s" for msg
    using timers_succeed [OF ok assms(2) that] not_fails by metis
  ultimately show ?thesis unfolding fails_def by blast
qed

section \<open>After the last Leave\<close>

text \<open>
  A group for which a Leave has been received is checked until its timer goes off at time \<open>dl\<close>, unless a
  report for it arrives first.
\<close>

definition being_left :: "nat \<Rightarrow> IPv4Address \<Rightarrow> simtime \<Rightarrow> IGMPv2 \<Rightarrow> bool" where
  "being_left i g dl s \<longleftrightarrow>
     (\<forall>gd. smap_find (ri_groups (routerInterface s i)) g = Some gd \<longrightarrow>
        rg_state gd = IGMP_RGS_CHECKING_MEMBERSHIP \<and> rg_timer gd = Scheduled dl)"

definition no_report :: "nat \<Rightarrow> IPv4Address \<Rightarrow> IgmpInput \<Rightarrow> bool" where
  "no_report i g msg \<longleftrightarrow>
     (case msg of FromIp j sender m \<Rightarrow> \<not> (j = i \<and> igm_type m = IGMPV2_MEMBERSHIP_REPORT \<and> igm_groupAddress m = g) | _ \<Rightarrow> True)"

lemma leaving_groups:
  "(\<And>j. ri_groups (routerInterface s' j) = ri_groups (routerInterface s j)) \<Longrightarrow> being_left i g dl s' = being_left i g dl s"
  by (simp add: being_left_def)

lemma putRouterGroup_find:
  "smap_find (ri_groups (routerInterface (putRouterGroup j h d s) i)) g =
     (if i = j \<and> g = h then Some d else smap_find (ri_groups (routerInterface s i)) g)"
  by (simp add: putRouterGroup_def Let_def smap_find_insert)

text \<open>Operations that leave the groups on record alone.\<close>

lemma joined_groups: "multicastGroupJoined j h s = Inr s' \<Longrightarrow> routerInterface s' = routerInterface s"
  unfolding multicastGroupJoined_def
  by (auto simp: createHostGroupData_def putHostGroup_def igmp_same_def startHostTimer_Inr Let_def split: if_splits dest!: sendReport_same)

lemma left_groups: "multicastGroupLeft j h s = Inr s' \<Longrightarrow> routerInterface s' = routerInterface s"
  unfolding multicastGroupLeft_def
  by (auto simp: deleteHostGroupData_def putHostGroup_def igmp_same_def split: if_splits option.splits dest!: sendLeave_same)

lemma configure_groups:
  "configureInterface j s = Inr s' \<Longrightarrow> ri_groups (routerInterface s' k) = ri_groups (routerInterface s k)"
  by (auto simp: configureInterface_def igmp_same_def split: if_splits dest!: sendQuery_same)

lemma queryTimer_groups:
  "processQueryTimer j s = Inr s' \<Longrightarrow> ri_groups (routerInterface s' k) = ri_groups (routerInterface s k)"
  by (auto simp: processQueryTimer_def getRouterInterfaceData_def igmp_same_def simp del: insert_iff split: if_splits dest!: sendQuery_same)

lemma hostTimer_groups: "processHostGroupTimer j h s = Inr s' \<Longrightarrow> routerInterface s' = routerInterface s"
  by (auto simp: processHostGroupTimer_def putHostGroup_def igmp_same_def split: option.splits dest!: sendReport_same)

lemma giveWay_groups: "giveWay j lower s = Inr s' \<Longrightarrow> ri_groups (routerInterface s' k) = ri_groups (routerInterface s k)"
  by (auto simp: giveWay_def Let_def split: if_splits)

text \<open>The others, in a group that is being left.\<close>

lemma leaveTimer_leaving:
  assumes "processLeaveTimer j h s = Inr s'" "being_left i g dl s"
  shows "being_left i g dl s'"
  using assms
  by (auto simp: processLeaveTimer_def deleteRouterGroupData_def being_left_def Let_def smap_find_erase case_prod_unfold
      split: option.splits if_splits)

lemma rexmtTimer_leaving:
  assumes "processRexmtTimer j h s = Inr s'" "being_left i g dl s"
  shows "being_left i g dl s'"
  using assms
  by (auto simp: processRexmtTimer_def being_left_def putRouterGroup_find igmp_same_def split: option.splits if_splits dest!: sendQuery_same)

lemma groupQueried_leaving:
  assumes "groupQueried j m s = Inr s'" "being_left i g dl s"
  shows "being_left i g dl s'"
  using assms
  by (auto simp: groupQueried_def Let_def being_left_def putRouterGroup_find split: option.splits if_splits)

lemma queryAsRouter_leaving:
  assumes "queryAsRouter j sender m s = Inr s'" "being_left i g dl s"
  shows "being_left i g dl s'"
proof -
  have k: "being_left i g dl (putRouterInterface j (routerInterface s j) s)" using assms(2) by (simp add: being_left_def)
  obtain s1 lower where s1: "giveWay j lower (putRouterInterface j (routerInterface s j) s) = Inr s1" "groupQueried j m s1 = Inr s'"
    using assms(1) by (auto simp: queryAsRouter_parts Let_def)
  show ?thesis using groupQueried_leaving [OF s1(2)] leaving_groups [OF giveWay_groups [OF s1(1)]] k by simp
qed

lemma query_leaving:
  assumes "processQuery j sender m s = Inr s'" "being_left i g dl s"
  shows "being_left i g dl s'"
proof -
  obtain s1 where s1: "hostQueried j m s = Inr s1"
    and s': "(if rt_multicastForward (ig_rt s1) then
         (if ig_externalRouter s1 then Inr (ig_emit (IgmpToRouter m) s1) else queryAsRouter j sender m s1)
       else Inr s1) = Inr s'"
    using assms(1) by (auto simp: processQuery_parts)
  have "being_left i g dl s1" using hostQueried_ok(5) [OF s1] assms(2) by (simp add: being_left_def)
  then show ?thesis using s' by (auto simp: ig_emit_def being_left_def [of _ _ _ "s\<lparr>ig_out := evs\<rparr>" for s evs] being_left_def [symmetric]
      split: if_splits intro: queryAsRouter_leaving)
qed

lemma report_leaving:
  assumes "processV2Report j m s = Inr s'" "being_left i g dl s" "igmp_ok s" "\<not> (j = i \<and> igm_groupAddress m = g)"
  shows "being_left i g dl s'"
proof -
  let ?h = "igm_groupAddress m"
  obtain s1 where s1: "reportAsHost j ?h (s\<lparr>ig_numReportsRecv := ig_numReportsRecv s + 1\<rparr>) = Inr s1"
    and s': "(if rt_multicastForward (ig_rt s1) then
         (if ig_externalRouter s1 then Inr (ig_emit (IgmpToRouter m) s1) else reportAsRouter j ?h s1)
       else Inr s1) = Inr s'"
    using assms(1) by (auto simp: processV2Report_def)
  have k: "being_left i g dl s1" using reportAsHost_keeps [OF s1] assms(2) by (simp add: being_left_def)
  have ok1: "igmp_ok s1" using reportAsHost_ok [OF s1] assms(3) by simp
  have "being_left i g dl s'" if "reportAsRouter j ?h s1 = Inr s'"
  proof (cases "smap_find (ri_groups (routerInterface s1 j)) ?h")
    case (Some gd)
    then show ?thesis using report_known [OF that ok1 Some] k assms(4)
      by (auto simp: being_left_def putRouterGroup_find split: if_splits)
  next
    case None
    then show ?thesis using report_new [OF that None] k assms(4)
      by (auto simp: being_left_def smap_find_insert split: if_splits)
  qed
  then show ?thesis using s' k by (auto simp: ig_emit_def being_left_def split: if_splits)
qed

lemma leave_leaving:
  assumes "processLeave j m s = Inr s'" "being_left i g dl s"
  shows "being_left i g dl s'"
  using assms
  by (auto simp: processLeave_def getRouterInterfaceData_def ig_emit_def being_left_def putRouterGroup_find Let_def igmp_same_def
      split: option.splits if_splits dest!: sendQuery_same)

lemma handle_leaving:
  assumes "no_report i g msg" "IGMP_handleMessage msg s = Inr s'" "being_left i g dl s" "igmp_ok s"
  shows "being_left i g dl s'"
proof (cases "ig_enabled s")
  case True
  show ?thesis
  proof (cases msg)
    case (QueryTimer j)
    then show ?thesis using assms True leaving_groups [OF queryTimer_groups] by (auto simp: IGMP_handleMessage_def)
  next
    case (HostGroupTimer j h)
    then show ?thesis using assms True leaving_groups [of s' s] hostTimer_groups [of j h s s'] by (auto simp: IGMP_handleMessage_def)
  next
    case (FromRouterGate m)
    then show ?thesis using assms True by (auto simp: IGMP_handleMessage_def ig_emit_def being_left_def)
  next
    case (FromIp j sender m)
    then have msg: "processIgmpMessage j sender m s = Inr s'" using assms(2) True by (simp add: IGMP_handleMessage_def)
    show ?thesis
    proof (cases "igm_type m")
      case IGMP_MEMBERSHIP_QUERY
      then show ?thesis using msg query_leaving [OF _ assms(3)] by (simp add: processIgmpMessage_def)
    next
      case IGMPV2_MEMBERSHIP_REPORT
      then have "\<not> (j = i \<and> igm_groupAddress m = g)" using assms(1) FromIp by (simp add: no_report_def)
      then show ?thesis using msg IGMPV2_MEMBERSHIP_REPORT report_leaving [OF _ assms(3,4)] by (simp add: processIgmpMessage_def)
    next
      case IGMPV2_LEAVE_GROUP
      then show ?thesis using msg leave_leaving [OF _ assms(3)] by (simp add: processIgmpMessage_def)
    next
      case (IGMP_OTHER n)
      then show ?thesis using msg assms(3) by (auto simp: processIgmpMessage_def ig_emit_def being_left_def split: if_splits)
    qed
  qed (use assms True in \<open>auto simp: IGMP_handleMessage_def intro: leaveTimer_leaving rexmtTimer_leaving\<close>)
qed (use assms in \<open>simp add: IGMP_handleMessage_def\<close>)

lemma step_leaving: "igmp_step (no_report i g) s s' \<Longrightarrow> igmp_ok s \<Longrightarrow> being_left i g dl s \<Longrightarrow> being_left i g dl s'"
proof (induction rule: igmp_step.induct)
  case (message msg s s')
  then show ?case using handle_leaving by blast
next
  case (joined j h s s')
  then show ?case using joined_groups by (simp add: IGMP_receiveChangeNotification_def being_left_def)
next
  case (left j h s s')
  then show ?case using left_groups by (simp add: IGMP_receiveChangeNotification_def being_left_def)
next
  case (created s ie s')
  have "ri_groups (routerInterface s' k) = ri_groups (routerInterface s k)" for k
    using created(3) configure_groups [of "ie_id ie" "igmp_with_ift (rt_ift (ig_rt s) @ [ie]) s" s' k]
    by (auto simp: IGMP_receiveChangeNotification_def split: if_splits)
  then show ?case using created leaving_groups by blast
next
  case (deleted s j ie s')
  then show ?case
    by (auto simp: IGMP_receiveChangeNotification_def being_left_def deleteInterfaceData_def routerInterface_def smap_find_erase
        RouterInterfaceData_new_def split: if_splits)
next
  case (table_change rt s)
  then show ?case by (simp add: being_left_def)
next
  case (time s t)
  then show ?case by (simp add: being_left_def)
qed

text \<open>What the Leave itself does at the querier.\<close>

lemma leave_effect:
  assumes "processLeave i m s = Inr s1" "ig_routing s" "ri_igmpRouterState (routerInterface s i) = IGMP_RS_QUERIER"
    and "smap_find (ri_groups (routerInterface s i)) (igm_groupAddress m) = Some gd" "rg_state gd = IGMP_RGS_MEMBERS_PRESENT"
    and "igm_groupAddress m \<noteq> 0"
  shows "being_left i (igm_groupAddress m) (ig_now s + ig_lastMemberQueryInterval s * ig_lastMemberQueryCount s) s1"
    and "ig_out s1 = ig_out s @ [IgmpToIP \<lparr>igm_type = IGMP_MEMBERSHIP_QUERY, igm_maxRespTime = ig_lastMemberQueryInterval s div 100,
                   igm_groupAddress = igm_groupAddress m\<rparr> i (igm_groupAddress m)]"
  using assms
  by (auto simp: processLeave_def routing_flags getRouterInterfaceData_def sendQuery_def IGMP_sendToIP_def ig_emit_def being_left_def
      IPv4Address_isUnspecified_def startTimer_Inr putRouterGroup_def smap_find_insert Let_def split: if_splits)

lemma run_leaving:
  "(igmp_step (no_report i g))\<^sup>*\<^sup>* s s' \<Longrightarrow> igmp_ok s \<Longrightarrow> being_left i g dl s \<Longrightarrow> igmp_ok s' \<and> being_left i g dl s'"
  by (induction rule: rtranclp_induct) (auto dest: step_leaving igmp_step_ok)

text \<open>
  C16: when the querier receives a Leave for a group with members it queries the group, and with whatever
  else happens on the node, unless a report for the group arrives on the interface, the group is neither on
  record nor listened to once the last member query time is over.
\<close>

theorem left_group_is_dropped:
  assumes "igmp_reachable s" "ig_routing s"
    and "ri_igmpRouterState (routerInterface s i) = IGMP_RS_QUERIER" "igm_type m = IGMPV2_LEAVE_GROUP"
    and "smap_find (ri_groups (routerInterface s i)) (igm_groupAddress m) = Some gd" "rg_state gd = IGMP_RGS_MEMBERS_PRESENT"
    and "IGMP_handleMessage (FromIp i sender m) s = Inr s1"
    and "(igmp_step (no_report i (igm_groupAddress m)))\<^sup>*\<^sup>* s1 s'"
  shows "ig_out s1 = ig_out s @ [IgmpToIP \<lparr>igm_type = IGMP_MEMBERSHIP_QUERY, igm_maxRespTime = ig_lastMemberQueryInterval s div 100,
                   igm_groupAddress = igm_groupAddress m\<rparr> i (igm_groupAddress m)] \<and>
     (ig_now s + ig_lastMemberQueryInterval s * ig_lastMemberQueryCount s < ig_now s' \<longrightarrow>
       smap_find (ri_groups (routerInterface s' i)) (igm_groupAddress m) = None \<and>
       igm_groupAddress m \<notin> set (listeners (ig_rt s') i))"
proof -
  note ok = reachable_ok [OF assms(1)]
  let ?g = "igm_groupAddress m" and ?dl = "ig_now s + ig_lastMemberQueryInterval s * ig_lastMemberQueryCount s"
  have leave: "processLeave i m s = Inr s1"
    using assms(2,4,7) by (simp add: routing_flags IGMP_handleMessage_def processIgmpMessage_def)
  note effect = leave_effect [OF leave assms(2,3,5,6) isMulticast_nonzero [OF router_found(2) [OF ok assms(5)]]]
  have end_state: "igmp_ok s'" "being_left i ?g ?dl s'"
    using run_leaving [OF assms(8) leave_ok [OF leave ok] effect(1)] by auto
  have "smap_find (ri_groups (routerInterface s' i)) ?g = None" if "?dl < ig_now s'"
    using router_found(3) [OF end_state(1), of i ?g] end_state(2) that
    by (cases "smap_find (ri_groups (routerInterface s' i)) ?g") (auto simp: being_left_def)
  moreover have "set (listeners (ig_rt s') i) = dom (smap_find (ri_groups (routerInterface s' i)))"
    using igmp_invD(7) [OF end_state(1) [unfolded igmp_ok_def]] .
  ultimately show ?thesis using effect(2) by auto
qed

section \<open>The entries and their timers\<close>

text \<open>
  C6: in every reachable state a group joined on an interface is being reported, with its timer running, or
  idle; a group on record has its membership timer running and retransmits queries only while it is
  checked; an interface that has a role as a router has its query timer running; and the listeners for
  which the IPv4 module forwards multicast datagrams to an interface are exactly the groups on record.
\<close>

theorem igmp_entries_in_step:
  assumes "igmp_reachable s"
  shows "(\<forall>i g d. smap_find (hostGroups s i) g = Some d \<longrightarrow>
      isMulticast g \<and> \<not> isLinkLocalMulticast g \<and>
      (hg_state d = IGMP_HGS_DELAYING_MEMBER \<and> (\<exists>u \<ge> ig_now s. hg_timer d = Scheduled u)
       \<or> hg_state d = IGMP_HGS_IDLE_MEMBER \<and> hg_timer d = Unscheduled)) \<and>
    (\<forall>i g d. smap_find (ri_groups (routerInterface s i)) g = Some d \<longrightarrow>
      isMulticast g \<and> (\<exists>u \<ge> ig_now s. rg_timer d = Scheduled u) \<and>
      (rg_state d = IGMP_RGS_MEMBERS_PRESENT \<and> rg_rexmtTimer d = Unscheduled
       \<or> rg_state d = IGMP_RGS_CHECKING_MEMBERSHIP \<and> rg_rexmtTimer d \<noteq> NoTimer)) \<and>
    (\<forall>i. ri_igmpRouterState (routerInterface s i) \<noteq> IGMP_RS_INITIAL \<longrightarrow>
      (\<exists>u \<ge> ig_now s. ri_igmpQueryTimer (routerInterface s i) = Scheduled u)) \<and>
    (\<forall>i ie d g. iface_by_id (rt_ift (ig_rt s)) i = Some ie \<and> ie_ipv4Data ie = Some d \<longrightarrow>
      (hasMulticastListener d g \<longleftrightarrow> smap_find (ri_groups (routerInterface s i)) g \<noteq> None))"
proof (intro conjI allI impI; (elim conjE)?)
  note ok = reachable_ok [OF assms]
  note inv = ok [unfolded igmp_ok_def]
  fix i g
  show "isMulticast g" "\<not> isLinkLocalMulticast g"
    "hg_state d = IGMP_HGS_DELAYING_MEMBER \<and> (\<exists>u \<ge> ig_now s. hg_timer d = Scheduled u)
       \<or> hg_state d = IGMP_HGS_IDLE_MEMBER \<and> hg_timer d = Unscheduled"
    if "smap_find (hostGroups s i) g = Some d" for d
    using host_found [OF ok that] by (auto simp: timer_runs_def)
  show "isMulticast g" "\<exists>u \<ge> ig_now s. rg_timer d = Scheduled u"
    "rg_state d = IGMP_RGS_MEMBERS_PRESENT \<and> rg_rexmtTimer d = Unscheduled
       \<or> rg_state d = IGMP_RGS_CHECKING_MEMBERSHIP \<and> rg_rexmtTimer d \<noteq> NoTimer"
    if "smap_find (ri_groups (routerInterface s i)) g = Some d" for d
    using router_found [OF ok that] by (auto simp: timer_runs_def)
  show "\<exists>u \<ge> ig_now s. ri_igmpQueryTimer (routerInterface s i) = Scheduled u"
    if "ri_igmpRouterState (routerInterface s i) \<noteq> IGMP_RS_INITIAL"
    using igmp_invD(3) [OF inv, of i] that by (auto simp: querier_ok_def timer_runs_def)
  show "hasMulticastListener d g \<longleftrightarrow> smap_find (ri_groups (routerInterface s i)) g \<noteq> None"
    if "iface_by_id (rt_ift (ig_rt s)) i = Some ie" "ie_ipv4Data ie = Some d" for ie d
    using igmp_invD(7) [OF inv, of i] that by (auto simp: hasMulticastListener_def listeners_def reported_def)
qed

section \<open>A querier for examples\<close>

definition example_igmp :: IGMPv2 where
  "example_igmp = \<lparr>ig_now = 0,
     ig_rt = (rt_empty [(example_iface 1500)\<lparr>ie_multicast := True\<rparr>])\<lparr>rt_multicastForward := True\<rparr>,
     ig_enabled = True, ig_externalRouter = False, ig_queryInterval = 125000, ig_queryResponseInterval = 10000,
     ig_groupMembershipInterval = 260000, ig_otherQuerierPresentInterval = 255000, ig_startupQueryInterval = 31250,
     ig_lastMemberQueryInterval = 1000, ig_lastMemberQueryCount = 2, ig_unsolicitedReportInterval = 10000,
     ig_uniform = (\<lambda>k u. u), ig_draws = 0, ig_hostData = [], ig_routerData = [], ig_numGroups = 0,
     ig_numHostGroups = 0, ig_numRouterGroups = 0, ig_numQueriesSent = 0, ig_numQueriesRecv = 0,
     ig_numGeneralQueriesSent = 0, ig_numGeneralQueriesRecv = 0, ig_numGroupSpecificQueriesSent = 0,
     ig_numGroupSpecificQueriesRecv = 0, ig_numReportsSent = 0, ig_numReportsRecv = 0, ig_numLeavesSent = 0,
     ig_numLeavesRecv = 0, ig_out = []\<rparr>"

definition example_igmp_message :: "IGMPType \<Rightarrow> IgmpInput" where
  "example_igmp_message ty = FromIp 1 0x0A000002 \<lparr>igm_type = ty, igm_maxRespTime = 10, igm_groupAddress = 0xE8000001\<rparr>"

definition example_at :: "simtime \<Rightarrow> IGMPv2 \<Rightarrow> IGMPv2" where
  "example_at t s = s\<lparr>ig_now := t\<rparr>"

definition example_after :: "IgmpInput \<Rightarrow> IGMPv2 \<Rightarrow> IGMPv2" where
  "example_after msg s = (case IGMP_handleMessage msg s of Inl e \<Rightarrow> s | Inr s' \<Rightarrow> s')"

definition example_started :: IGMPv2 where
  "example_started = (case IGMP_initialize example_igmp of Inl e \<Rightarrow> example_igmp | Inr s \<Rightarrow> s)"

definition example_member :: IGMPv2 where
  "example_member = example_after (example_igmp_message IGMPV2_MEMBERSHIP_REPORT) example_started"

definition example_left :: "nat \<Rightarrow> IGMPv2" where
  "example_left k =
     (let s0 = example_after (example_igmp_message IGMPV2_LEAVE_GROUP) example_member;
          s1 = example_at 1000 s0; s2 = example_after (RexmtTimer 1 0xE8000001) s1;
          s3 = example_at 2000 s2; s4 = example_after (LeaveTimer 1 0xE8000001) s3
      in [s0, s1, s2, s3, s4, example_at 2001 s4] ! k)"

definition succeeds :: "IgmpInput \<Rightarrow> IGMPv2 \<Rightarrow> bool" where
  "succeeds msg s \<longleftrightarrow> (case IGMP_handleMessage msg s of Inl e \<Rightarrow> False | Inr s' \<Rightarrow> True)"

lemma example_runs:
  "IGMP_initialize example_igmp = Inr example_started"
  "succeeds (example_igmp_message IGMPV2_MEMBERSHIP_REPORT) example_started"
  "succeeds (example_igmp_message IGMPV2_LEAVE_GROUP) example_member"
  "succeeds (RexmtTimer 1 0xE8000001) (example_left 1)"
  "succeeds (LeaveTimer 1 0xE8000001) (example_left 3)"
proof -
  have "\<not> isl (IGMP_initialize example_igmp)" by code_simp
  then show "IGMP_initialize example_igmp = Inr example_started" unfolding example_started_def
    by (cases "IGMP_initialize example_igmp") simp_all
qed code_simp+

lemma example_data:
  "(ig_now (example_left 0), ig_hostData (example_left 0), ig_routerData (example_left 0)) =
     (0, [(1, [])], [(1, \<lparr>ri_groups = [(0xE8000001, \<lparr>rg_state = IGMP_RGS_CHECKING_MEMBERSHIP, rg_timer = Scheduled 2000,
        rg_rexmtTimer = Scheduled 1000\<rparr>)], ri_igmpRouterState = IGMP_RS_QUERIER, ri_igmpQueryTimer = Scheduled 31250\<rparr>)])"
  "(ig_now (example_left 2), ig_hostData (example_left 2), ig_routerData (example_left 2)) =
     (1000, [(1, [])], [(1, \<lparr>ri_groups = [(0xE8000001, \<lparr>rg_state = IGMP_RGS_CHECKING_MEMBERSHIP, rg_timer = Scheduled 2000,
        rg_rexmtTimer = Scheduled 2000\<rparr>)], ri_igmpRouterState = IGMP_RS_QUERIER, ri_igmpQueryTimer = Scheduled 31250\<rparr>)])"
  "(ig_now (example_left 4), ig_hostData (example_left 4), ig_routerData (example_left 4)) =
     (2000, [(1, [])], [(1, \<lparr>ri_groups = [], ri_igmpRouterState = IGMP_RS_QUERIER, ri_igmpQueryTimer = Scheduled 31250\<rparr>)])"
  by code_simp+

lemma example_timers:
  assumes "Scheduled u \<in> igmp_timers s" "(ig_now s, ig_hostData s, ig_routerData s) = (now, [(i, [])], [(i, r)])"
  shows "Scheduled u = ri_igmpQueryTimer r \<or>
    (\<exists>g d. (g, d) \<in> set (ri_groups r) \<and> (Scheduled u = rg_timer d \<or> Scheduled u = rg_rexmtTimer d))"
proof -
  have "hostGroups s j = []" "routerInterface s j = (if j = i then r else RouterInterfaceData_new)" for j
    using assms(2) by (simp_all add: hostGroups_def routerInterface_def smap_find_def)
  then show ?thesis using assms(1)
    by (auto simp: igmp_timers_def RouterInterfaceData_new_def smap_find_def split: if_splits dest!: map_of_SomeD)
qed

lemma example_steps:
  "igmp_due msg s \<Longrightarrow> succeeds msg s \<Longrightarrow> no_report 1 0xE8000001 msg \<Longrightarrow>
     igmp_step (no_report 1 0xE8000001) s (example_after msg s)"
  "ig_now s \<le> t \<Longrightarrow> (\<And>u. Scheduled u \<in> igmp_timers s \<Longrightarrow> t \<le> u) \<Longrightarrow> igmp_step (no_report 1 0xE8000001) s (example_at t s)"
  by (auto simp: succeeds_def example_after_def example_at_def split: sum.splits intro: igmp_step.message igmp_step.time)

lemma example_left_eqs:
  "example_left 0 = example_after (example_igmp_message IGMPV2_LEAVE_GROUP) example_member"
  "example_left 1 = example_at 1000 (example_left 0)"
  "example_left 2 = example_after (RexmtTimer 1 0xE8000001) (example_left 1)"
  "example_left 3 = example_at 2000 (example_left 2)"
  "example_left 4 = example_after (LeaveTimer 1 0xE8000001) (example_left 3)"
  "example_left 5 = example_at 2001 (example_left 4)"
  by (simp_all add: example_left_def Let_def)

lemma example_due: "igmp_due (RexmtTimer 1 0xE8000001) (example_left 1)" "igmp_due (LeaveTimer 1 0xE8000001) (example_left 3)"
  unfolding example_left_eqs(2,4) using example_data(1,2)
  by (simp_all add: igmp_due_def example_at_def routerInterface_def smap_find_def)

lemma example_run: "(igmp_step (no_report 1 0xE8000001))\<^sup>*\<^sup>* (example_left 0) (example_left 5)"
proof -
  have "igmp_step (no_report 1 0xE8000001) (example_left 0) (example_left 1)" unfolding example_left_eqs(2)
    using example_data(1) by (intro example_steps(2)) (auto dest!: example_timers)
  moreover have "igmp_step (no_report 1 0xE8000001) (example_left 1) (example_left 2)" unfolding example_left_eqs(3)
    using example_due(1) example_runs(4) by (intro example_steps(1)) (simp_all add: no_report_def)
  moreover have "igmp_step (no_report 1 0xE8000001) (example_left 2) (example_left 3)" unfolding example_left_eqs(4)
    using example_data(2) by (intro example_steps(2)) (auto dest!: example_timers)
  moreover have "igmp_step (no_report 1 0xE8000001) (example_left 3) (example_left 4)" unfolding example_left_eqs(5)
    using example_due(2) example_runs(5) by (intro example_steps(1)) (simp_all add: no_report_def)
  moreover have "igmp_step (no_report 1 0xE8000001) (example_left 4) (example_left 5)" unfolding example_left_eqs(6)
    using example_data(3) by (intro example_steps(2)) (auto dest!: example_timers)
  ultimately show ?thesis by (meson converse_rtranclp_into_rtranclp rtranclp.rtrancl_refl)
qed

lemma example_reachable: "igmp_reachable example_member"
proof (rule igmp_reachable.step)
  show "igmp_reachable example_started"
    by (rule igmp_reachable.initial [OF _ _ _ _ example_runs(1)])
       (simp_all add: example_igmp_def rt_empty_def example_iface_def reported_def IPv4InterfaceData_new_def)
  show "igmp_step (\<lambda>_. True) example_started example_member"
    using example_runs(2)
    by (auto simp: example_member_def succeeds_def example_after_def igmp_due_def example_igmp_message_def split: sum.splits
        intro!: igmp_step.message)
qed

lemma example_member_data:
  "ig_enabled example_member" "ig_routing example_member" "iface_by_id (rt_ift (ig_rt example_member)) 1 =
     Some ((example_iface 1500)\<lparr>ie_multicast := True, ie_ipv4Data :=
       Some (IPv4InterfaceData_new\<lparr>ifd_inetAddr := 0x0A000001, ifd_reportedGroups := [0xE8000001]\<rparr>)\<rparr>)"
  "routerInterface example_member 1 = \<lparr>ri_groups = [(0xE8000001, \<lparr>rg_state = IGMP_RGS_MEMBERS_PRESENT, rg_timer = Scheduled 260000,
        rg_rexmtTimer = Unscheduled\<rparr>)], ri_igmpRouterState = IGMP_RS_QUERIER, ri_igmpQueryTimer = Scheduled 31250\<rparr>"
  "(ig_queryInterval example_member, ig_groupMembershipInterval example_member, ig_otherQuerierPresentInterval example_member,
     ig_lastMemberQueryInterval example_member, ig_lastMemberQueryCount example_member) = (125000, 260000, 255000, 1000, 2)"
  by code_simp+

lemma example_uniform: "ig_uniform example_member k u = u"
  by code_simp

lemma example_config: "igmp_config_ok example_member"
  using example_member_data(5) by (simp add: igmp_config_ok_def example_uniform)

section \<open>Witnesses\<close>

theorem igmp_entries_in_step_witness:
  "igmp_reachable example_member \<and> smap_find (ri_groups (routerInterface example_member 1)) 0xE8000001 \<noteq> None
   \<and> hasMulticastListener (IPv4InterfaceData_new\<lparr>ifd_inetAddr := 0x0A000001, ifd_reportedGroups := [0xE8000001]\<rparr>) 0xE8000001
   \<and> (\<exists>u \<ge> ig_now example_member. ri_igmpQueryTimer (routerInterface example_member 1) = Scheduled u)"
proof -
  have "smap_find (ri_groups (routerInterface example_member 1)) 0xE8000001 \<noteq> None"
    and q: "ri_igmpRouterState (routerInterface example_member 1) \<noteq> IGMP_RS_INITIAL"
    unfolding example_member_data(4) by (simp_all add: smap_find_def)
  then show ?thesis
    using igmp_entries_in_step [OF example_reachable, THEN conjunct2, THEN conjunct2, THEN conjunct2, rule_format,
        OF conjI [OF example_member_data(3)],
        of "IPv4InterfaceData_new\<lparr>ifd_inetAddr := 0x0A000001, ifd_reportedGroups := [0xE8000001]\<rparr>" "0xE8000001"]
      igmp_entries_in_step [OF example_reachable, THEN conjunct2, THEN conjunct2, THEN conjunct1, rule_format, OF q]
      example_reachable by simp
qed

theorem igmp_fails_exactly_witness:
  "(\<exists>e. IGMP_handleMessage (FromIp 1 0x09000001 \<lparr>igm_type = IGMP_MEMBERSHIP_QUERY, igm_maxRespTime = 10,
       igm_groupAddress = 0xE8000002\<rparr>) example_member = Inl e)
   \<and> (\<exists>s'. IGMP_handleMessage (FromIp 1 0x09000001 \<lparr>igm_type = IGMP_MEMBERSHIP_QUERY, igm_maxRespTime = 10,
       igm_groupAddress = 0xE8000001\<rparr>) example_member = Inr s')"
proof -
  let ?d = "IPv4InterfaceData_new\<lparr>ifd_inetAddr := 0x0A000001, ifd_reportedGroups := [0xE8000001]\<rparr>"
  have exact: "(\<exists>e. IGMP_handleMessage (FromIp 1 0x09000001 \<lparr>igm_type = IGMP_MEMBERSHIP_QUERY, igm_maxRespTime = 10,
       igm_groupAddress = g\<rparr>) example_member = Inl e) \<longleftrightarrow>
     igmp_rejects example_member 1 ?d 0x09000001 \<lparr>igm_type = IGMP_MEMBERSHIP_QUERY, igm_maxRespTime = 10, igm_groupAddress = g\<rparr>"
    for g
    by (rule igmp_fails_exactly [OF example_reachable example_config example_member_data(1), THEN conjunct2, rule_format,
        OF conjI [OF example_member_data(3)]]) simp
  have "igmp_rejects example_member 1 ?d 0x09000001 \<lparr>igm_type = IGMP_MEMBERSHIP_QUERY, igm_maxRespTime = 10, igm_groupAddress = 0xE8000002\<rparr>"
    "\<not> igmp_rejects example_member 1 ?d 0x09000001 \<lparr>igm_type = IGMP_MEMBERSHIP_QUERY, igm_maxRespTime = 10, igm_groupAddress = 0xE8000001\<rparr>"
    unfolding igmp_rejects_def example_member_data(4) using example_member_data(2) by (simp_all add: smap_find_def)
  then show ?thesis
    unfolding exact [symmetric]
    by (metis not_fails fails_def)
qed

theorem left_group_is_dropped_witness:
  "smap_find (ri_groups (routerInterface (example_left 5) 1)) 0xE8000001 = None
   \<and> 0xE8000001 \<notin> set (listeners (ig_rt (example_left 5)) 1)
   \<and> ig_out (example_left 0) = ig_out example_member @ [IgmpToIP \<lparr>igm_type = IGMP_MEMBERSHIP_QUERY, igm_maxRespTime = 10,
        igm_groupAddress = 0xE8000001\<rparr> 1 0xE8000001]"
proof -
  let ?m = "\<lparr>igm_type = IGMPV2_LEAVE_GROUP, igm_maxRespTime = 10, igm_groupAddress = 0xE8000001\<rparr>"
  have run: "IGMP_handleMessage (FromIp 1 0x0A000002 ?m) example_member = Inr (example_left 0)"
    using example_runs(3) by (auto simp: example_left_eqs(1) example_after_def succeeds_def example_igmp_message_def split: sum.splits)
  have now: "ig_now (example_left 5) = 2001" "ig_now example_member = 0" by code_simp+
  have entry: "smap_find (ri_groups (routerInterface example_member 1)) (igm_groupAddress ?m) =
      Some \<lparr>rg_state = IGMP_RGS_MEMBERS_PRESENT, rg_timer = Scheduled 260000, rg_rexmtTimer = Unscheduled\<rparr>"
    and querier: "ri_igmpRouterState (routerInterface example_member 1) = IGMP_RS_QUERIER"
    unfolding example_member_data(4) by (simp_all add: smap_find_def)
  show ?thesis
    using left_group_is_dropped [OF example_reachable example_member_data(2) querier _ entry _ run, of "example_left 5"]
      example_run example_member_data(5) now by simp
qed

end
