(* ===== verification/TCP_Seq.thy ===== *)
theory TCP_Seq
  imports Net_Prelude
begin

text \<open>
  TCP sequence numbers and segments, \<^verbatim>\<open>src/src/transport/tcp_common/TCPSegment.{h,cc}\<close>.
  The comparisons are modular on 32 bits.  Relative to a base sequence number \<open>b\<close>, the numbers less
  than \<open>2 ^ 31\<close> ahead of \<open>b\<close> form a window on which the comparisons are those of the offsets; the
  TCP components below all work inside such a window, and their proofs use the offsets only.
\<close>

section \<open>Comparing sequence numbers\<close>

definition seqLess :: "u32 \<Rightarrow> u32 \<Rightarrow> bool" where
  "seqLess a b \<longleftrightarrow> a \<noteq> b \<and> b - a < 0x80000000"

definition seqLE :: "u32 \<Rightarrow> u32 \<Rightarrow> bool" where
  "seqLE a b \<longleftrightarrow> b - a < 0x80000000"

definition seqGreater :: "u32 \<Rightarrow> u32 \<Rightarrow> bool" where
  "seqGreater a b \<longleftrightarrow> a \<noteq> b \<and> a - b < 0x80000000"

definition seqGE :: "u32 \<Rightarrow> u32 \<Rightarrow> bool" where
  "seqGE a b \<longleftrightarrow> a - b < 0x80000000"

definition seqMin :: "u32 \<Rightarrow> u32 \<Rightarrow> u32" where
  "seqMin a b = (if b - a < 0x80000000 then a else b)"

definition seqMax :: "u32 \<Rightarrow> u32 \<Rightarrow> u32" where
  "seqMax a b = (if a - b < 0x80000000 then a else b)"

section \<open>Segments\<close>

text \<open>The payload list holds the messages whose last byte the segment carries, with the sequence
  number after that byte; a message is a name here.\<close>

record TCPSegment =
  sequenceNo :: u32
  ackNo :: u32
  payloadLength :: u32
  synBit :: bool
  finBit :: bool
  ackBit :: bool
  rstBit :: bool
  payloadList :: "(nat \<times> u32) list"

definition getSegLen :: "TCPSegment \<Rightarrow> u32" where
  "getSegLen g = payloadLength g + (if finBit g then 1 else 0) + (if synBit g then 1 else 0)"

definition truncateData :: "TCPSegment \<Rightarrow> u32 \<Rightarrow> u32 \<Rightarrow> TCPSegment outcome" where
  "truncateData g truncleft truncright =
     (if \<not> truncleft + truncright \<le> payloadLength g
      then Inl (AssertFailed ''payloadLength_var >= truncleft + truncright'')
      else
        let l1 = dropWhile (\<lambda>m. snd m - sequenceNo g \<le> truncleft) (payloadList g);
            seqNo = sequenceNo g + truncleft;
            len' = payloadLength g - (truncleft + truncright);
            l2 = rev (dropWhile (\<lambda>m. snd m - seqNo > len') (rev l1))
        in Inr (g\<lparr>sequenceNo := seqNo, payloadLength := len', payloadList := l2\<rparr>))"

definition truncateSegment :: "TCPSegment \<Rightarrow> u32 \<Rightarrow> u32 \<Rightarrow> TCPSegment outcome" where
  "truncateSegment g firstSeqNo endSeqNo =
     (if \<not> payloadLength g > 0 then Inl (AssertFailed ''payloadLength_var > 0'')
      else if \<not> (seqLess (sequenceNo g) endSeqNo \<and> seqLess firstSeqNo (sequenceNo g + payloadLength g))
      then Inl (RuntimeError ''truncateSegment'')
      else
        let truncleft = (if seqLess (sequenceNo g) firstSeqNo then firstSeqNo - sequenceNo g else 0);
            truncright = (if seqGreater (sequenceNo g + payloadLength g) endSeqNo
                          then sequenceNo g + payloadLength g - endSeqNo else 0)
        in truncateData g truncleft truncright)"

definition addPayloadMessage :: "TCPSegment \<Rightarrow> nat \<Rightarrow> u32 \<Rightarrow> TCPSegment" where
  "addPayloadMessage g msg endSequenceNo = g\<lparr>payloadList := payloadList g @ [(msg, endSequenceNo)]\<rparr>"

definition removeFirstPayloadMessage :: "TCPSegment \<Rightarrow> TCPSegment \<times> (nat \<times> u32) option" where
  "removeFirstPayloadMessage g =
     (case payloadList g of [] \<Rightarrow> (g, None) | m # ms \<Rightarrow> (g\<lparr>payloadList := ms\<rparr>, Some m))"

section \<open>Selective acknowledgement blocks\<close>

record Sack =
  sk_start :: u32
  sk_end :: u32

definition Sack_empty :: "Sack \<Rightarrow> bool" where
  "Sack_empty s \<longleftrightarrow> sk_start s = 0 \<and> sk_end s = 0"

definition Sack_contains :: "Sack \<Rightarrow> Sack \<Rightarrow> bool" where
  "Sack_contains s t \<longleftrightarrow> seqLE (sk_start s) (sk_start t) \<and> seqLE (sk_end t) (sk_end s)"

definition Sack_clear :: "Sack \<Rightarrow> Sack" where
  "Sack_clear s = s\<lparr>sk_start := 0, sk_end := 0\<rparr>"

definition Sack_setSegment :: "Sack \<Rightarrow> u32 \<Rightarrow> u32 \<Rightarrow> Sack" where
  "Sack_setSegment s a b = s\<lparr>sk_start := a, sk_end := b\<rparr>"

section \<open>Offsets in a window\<close>

definition off :: "u32 \<Rightarrow> u32 \<Rightarrow> nat" where
  "off b x = unat (x - b)"

definition in_win :: "u32 \<Rightarrow> u32 \<Rightarrow> bool" where
  "in_win b x \<longleftrightarrow> off b x < 2 ^ 31"

lemma off_self [simp]: "off b b = 0"
  by (simp add: off_def)

lemma in_win_self [simp]: "in_win b b"
  by (simp add: in_win_def)

lemma off_eq_iff: "off b x = off b y \<longleftrightarrow> x = y"
  by (auto simp: off_def simp flip: word_unat_eq_iff)

lemma off_lt: "off b x < 2 ^ 32"
  using unsigned_less [of "x - b"] by (simp add: off_def)

lemma off_plus: "off b (b + w) = unat w"
  by (simp add: off_def)

lemma off_add:
  assumes "off b x + unat w < 2 ^ 32"
  shows "off b (x + w) = off b x + unat w"
proof -
  have "x + w - b = (x - b) + w" by simp
  moreover have "unat ((x - b) + w) = unat (x - b) + unat w"
    using assms by (simp add: off_def unat_word_ariths(1) mod_less)
  ultimately show ?thesis by (simp only: off_def)
qed

lemma unat_diff_off:
  assumes "off b x \<le> off b y"
  shows "unat (y - x) = off b y - off b x"
proof -
  have "y - x = (y - b) - (x - b)" by simp
  moreover have "x - b \<le> y - b" using assms by (simp add: off_def word_le_nat_alt)
  ultimately show ?thesis
    using unat_sub [of "x - b" "y - b"] by (simp add: off_def)
qed

lemma off_trans: "off a b + off b x < 2 ^ 32 \<Longrightarrow> off a x = off a b + off b x"
  using off_add [of a b "x - b"] by (simp add: off_def)

lemma word_less_31: "w < 0x80000000 \<longleftrightarrow> unat w < 2 ^ 31" for w :: u32
  by (simp add: word_less_nat_alt)

lemma nat_mod_complement:
  "(a + c) mod m = 0 \<Longrightarrow> 0 < c \<Longrightarrow> a < m \<Longrightarrow> c < m \<Longrightarrow> a = m - c" for a c m :: nat
proof -
  assume *: "(a + c) mod m = 0" "0 < c" "a < m" "c < m"
  then have "m \<le> a + c" by (metis add_gr_0 dvd_imp_le mod_eq_0_iff_dvd)
  then have "(a + c - m) mod m = 0" using *(1) by (simp add: le_mod_geq)
  with * have "a + c - m = 0" by (simp add: mod_less)
  with \<open>m \<le> a + c\<close> show ?thesis by simp
qed

lemma seqLE_off:
  assumes "in_win b x" "in_win b y"
  shows "seqLE x y \<longleftrightarrow> off b x \<le> off b y"
proof (cases "off b x \<le> off b y")
  case True
  then show ?thesis
    using assms unat_diff_off [OF True] by (simp add: seqLE_def word_less_31 in_win_def)
next
  case False
  then have le: "off b y \<le> off b x" and ne: "x \<noteq> y" by auto
  have "unat (x - y) = off b x - off b y" by (rule unat_diff_off [OF le])
  moreover have "unat (y - x) = 2 ^ 32 - unat (x - y)"
  proof -
    have "(unat (y - x) + unat (x - y)) mod 2 ^ 32 = 0"
      using unat_word_ariths(1) [of "y - x" "x - y"] by simp
    moreover have "0 < unat (x - y)" using ne by (simp add: unat_gt_0)
    moreover have "unat (y - x) < 2 ^ 32" "unat (x - y) < 2 ^ 32"
      using unsigned_less [of "y - x"] unsigned_less [of "x - y"] by simp_all
    ultimately show ?thesis by (rule nat_mod_complement)
  qed
  ultimately show ?thesis
    using False assms by (simp add: seqLE_def word_less_31 in_win_def)
qed

lemma seqLess_off: "in_win b x \<Longrightarrow> in_win b y \<Longrightarrow> seqLess x y \<longleftrightarrow> off b x < off b y"
  using seqLE_off [of b x y] off_eq_iff [of b x y] by (auto simp: seqLess_def seqLE_def)

lemma seqGE_seqLE: "seqGE x y \<longleftrightarrow> seqLE y x"
  by (simp add: seqGE_def seqLE_def)

lemma seqGreater_seqLess: "seqGreater x y \<longleftrightarrow> seqLess y x"
  by (auto simp: seqGreater_def seqLess_def)

lemma off_seqMin: "in_win b x \<Longrightarrow> in_win b y \<Longrightarrow> off b (seqMin x y) = min (off b x) (off b y)"
  using seqLE_off [of b x y] by (auto simp: seqMin_def seqLE_def)

lemma off_seqMax: "in_win b x \<Longrightarrow> in_win b y \<Longrightarrow> off b (seqMax x y) = max (off b x) (off b y)"
  using seqLE_off [of b y x] by (auto simp: seqMax_def seqLE_def)

lemmas seq_off = seqLE_off seqLess_off seqGE_seqLE seqGreater_seqLess

section \<open>Truncation\<close>

lemma dropWhile_le_filter:
  "sorted (map f xs) \<Longrightarrow> dropWhile (\<lambda>x. f x \<le> c) xs = filter (\<lambda>x. c < f x) xs"
proof (induction xs)
  case (Cons x xs)
  then show ?case by (auto simp: not_le intro!: filter_True [symmetric])
qed simp

lemma dropWhile_rev_filter:
  "sorted (map f xs) \<Longrightarrow> rev (dropWhile (\<lambda>x. c < f x) (rev xs)) = filter (\<lambda>x. f x \<le> c) xs"
proof (induction xs rule: rev_induct)
  case (snoc x xs)
  then show ?case
    by (auto simp: sorted_append not_less intro!: filter_True [symmetric])
qed simp

lemma sorted_map_filter: "sorted (map f xs) \<Longrightarrow> sorted (map f (filter P xs))"
  by (induction xs) auto

text \<open>The part of a segment's payload list whose last bytes lie in a range of offsets.\<close>

definition payload_in :: "u32 \<Rightarrow> nat \<Rightarrow> nat \<Rightarrow> (nat \<times> u32) list \<Rightarrow> (nat \<times> u32) list" where
  "payload_in b lo hi ms = filter (\<lambda>m. lo < off b (snd m) \<and> off b (snd m) \<le> hi) ms"

lemma truncateData_exact:
  assumes n: "off b (sequenceNo g) + unat (payloadLength g) < 2 ^ 31"
    and t: "unat l + unat r \<le> unat (payloadLength g)"
    and ms: "sorted (map (\<lambda>m. off b (snd m)) (payloadList g))"
      "\<forall>m\<in>set (payloadList g). off b (sequenceNo g) < off b (snd m)
          \<and> off b (snd m) \<le> off b (sequenceNo g) + unat (payloadLength g)"
  defines "lo \<equiv> off b (sequenceNo g) + unat l"
    and "hi \<equiv> off b (sequenceNo g) + unat (payloadLength g) - unat r"
  shows "\<exists>g'. truncateData g l r = Inr g' \<and> off b (sequenceNo g') = lo \<and> unat (payloadLength g') = hi - lo
    \<and> payloadList g' = payload_in b lo hi (payloadList g)"
proof -
  let ?s = "sequenceNo g" and ?n = "payloadLength g" and ?ms = "payloadList g"
  have small: "unat l + unat r < 2 ^ 32" using n t by simp
  have lr: "unat (l + r) = unat l + unat r"
    using small by (simp add: unat_word_ariths(1) mod_less)
  then have le: "l + r \<le> ?n" using t by (simp add: word_le_nat_alt)
  have s': "off b (?s + l) = lo" unfolding lo_def by (rule off_add) (use n t in simp)
  have n': "unat (?n - (l + r)) = hi - lo"
    using unat_sub [OF le] lr t by (simp add: hi_def lo_def)
  have first: "snd m - ?s \<le> l \<longleftrightarrow> off b (snd m) \<le> lo" if "m \<in> set ?ms" for m
    using unat_diff_off [of b ?s "snd m"] ms(2) that by (auto simp: word_le_nat_alt lo_def)
  have second: "?n - (l + r) < snd m - (?s + l) \<longleftrightarrow> hi < off b (snd m)"
    if "m \<in> set ?ms" "lo < off b (snd m)" for m
    using unat_diff_off [of b "?s + l" "snd m"] that s' n' t
    by (auto simp: word_less_nat_alt lo_def hi_def)
  have "dropWhile (\<lambda>m. snd m - ?s \<le> l) ?ms = dropWhile (\<lambda>m. off b (snd m) \<le> lo) ?ms"
    by (rule dropWhile_cong) (simp_all add: first)
  also have "\<dots> = filter (\<lambda>m. lo < off b (snd m)) ?ms"
    by (rule dropWhile_le_filter [OF ms(1)])
  finally have l1: "dropWhile (\<lambda>m. snd m - ?s \<le> l) ?ms = filter (\<lambda>m. lo < off b (snd m)) ?ms" .
  let ?l1 = "filter (\<lambda>m. lo < off b (snd m)) ?ms"
  have "dropWhile (\<lambda>m. ?n - (l + r) < snd m - (?s + l)) (rev ?l1) = dropWhile (\<lambda>m. hi < off b (snd m)) (rev ?l1)"
    by (rule dropWhile_cong) (use second in auto)
  then have "rev (dropWhile (\<lambda>m. ?n - (l + r) < snd m - (?s + l)) (rev ?l1)) = filter (\<lambda>m. off b (snd m) \<le> hi) ?l1"
    using dropWhile_rev_filter [OF sorted_map_filter [OF ms(1)]] by simp
  also have "\<dots> = payload_in b lo hi ?ms"
    by (auto simp: payload_in_def intro!: filter_cong)
  finally have l2: "rev (dropWhile (\<lambda>m. ?n - (l + r) < snd m - (?s + l)) (rev ?l1)) = payload_in b lo hi ?ms" .
  show ?thesis
    unfolding truncateData_def l1 Let_def using le s' n' l2 by simp
qed

text \<open>The segment and the range have a common part.\<close>

lemma truncateSegment_common:
  assumes n: "off b (sequenceNo g) + unat (payloadLength g) < 2 ^ 31"
    and win: "in_win b fromSeq" "in_win b toSeq" "off b fromSeq \<le> off b toSeq"
    and ms: "sorted (map (\<lambda>m. off b (snd m)) (payloadList g))"
      "\<forall>m\<in>set (payloadList g). off b (sequenceNo g) < off b (snd m)
          \<and> off b (snd m) \<le> off b (sequenceNo g) + unat (payloadLength g)"
    and common: "payloadLength g \<noteq> 0" "off b (sequenceNo g) < off b toSeq"
      "off b fromSeq < off b (sequenceNo g) + unat (payloadLength g)"
  shows "\<exists>g'. truncateSegment g fromSeq toSeq = Inr g'
    \<and> off b (sequenceNo g') = max (off b (sequenceNo g)) (off b fromSeq)
    \<and> off b (sequenceNo g') + unat (payloadLength g')
        = min (off b (sequenceNo g) + unat (payloadLength g)) (off b toSeq)
    \<and> payloadList g' = payload_in b (off b (sequenceNo g')) (off b (sequenceNo g') + unat (payloadLength g'))
        (payloadList g)"
proof -
  let ?s = "sequenceNo g" and ?n = "payloadLength g"
  have e: "off b (?s + ?n) = off b ?s + unat ?n" by (rule off_add) (use n in simp)
  have w: "in_win b ?s" "in_win b (?s + ?n)" using n e by (simp_all add: in_win_def)
  note cmp = seqLess_off [OF w(1) win(2)] seqLess_off [OF win(1) w(2)] seqLess_off [OF w(1) win(1)]
    seqLess_off [OF win(2) w(2)]
  define l where "l = (if seqLess ?s fromSeq then fromSeq - ?s else 0)"
  define r where "r = (if seqGreater (?s + ?n) toSeq then ?s + ?n - toSeq else 0)"
  have eq: "truncateSegment g fromSeq toSeq = truncateData g l r"
    using common cmp e
    unfolding truncateSegment_def l_def r_def Let_def by (simp add: word_gt_0)
  have l: "unat l = off b fromSeq - off b ?s"
    using unat_diff_off [of b ?s fromSeq] cmp by (auto simp: l_def)
  have r: "unat r = off b ?s + unat ?n - off b toSeq"
    using unat_diff_off [of b toSeq "?s + ?n"] cmp e by (auto simp: r_def seqGreater_seqLess)
  have le: "unat l + unat r \<le> unat ?n"
    using l r common win(3) by auto
  obtain g' where g': "truncateData g l r = Inr g'" "off b (sequenceNo g') = off b ?s + unat l"
    "unat (payloadLength g') = off b ?s + unat ?n - unat r - (off b ?s + unat l)"
    "payloadList g' = payload_in b (off b ?s + unat l) (off b ?s + unat ?n - unat r) (payloadList g)"
    using truncateData_exact [OF n le ms] by blast
  have "off b (sequenceNo g') = max (off b ?s) (off b fromSeq)"
    using g'(2) l common by auto
  moreover have "off b (sequenceNo g') + unat (payloadLength g') = off b ?s + unat ?n - unat r"
    using g'(2,3) le by simp
  moreover have "off b ?s + unat ?n - unat r = min (off b ?s + unat ?n) (off b toSeq)"
    using r common by auto
  ultimately show ?thesis using g' eq by simp
qed

text \<open>
  C13: within a window of \<open>2 ^ 31\<close> sequence numbers, \<open>truncateSegment\<close> cuts a segment to exactly the
  common part of the segment and the given range, keeps exactly the payload messages whose last byte
  lies in that part, and reports an error exactly if there is no payload or no common part.
\<close>

theorem truncateSegment_exact:
  assumes n: "off b (sequenceNo g) + unat (payloadLength g) < 2 ^ 31"
    and win: "in_win b fromSeq" "in_win b toSeq" "off b fromSeq \<le> off b toSeq"
    and ms: "sorted (map (\<lambda>m. off b (snd m)) (payloadList g))"
      "\<forall>m\<in>set (payloadList g). off b (sequenceNo g) < off b (snd m)
          \<and> off b (snd m) \<le> off b (sequenceNo g) + unat (payloadLength g)"
  shows "case truncateSegment g fromSeq toSeq of
      Inl e \<Rightarrow> payloadLength g = 0 \<or> off b toSeq \<le> off b (sequenceNo g)
               \<or> off b (sequenceNo g) + unat (payloadLength g) \<le> off b fromSeq
    | Inr g' \<Rightarrow> off b (sequenceNo g') = max (off b (sequenceNo g)) (off b fromSeq)
        \<and> off b (sequenceNo g') + unat (payloadLength g')
            = min (off b (sequenceNo g) + unat (payloadLength g)) (off b toSeq)
        \<and> payloadList g' = payload_in b (off b (sequenceNo g')) (off b (sequenceNo g') + unat (payloadLength g'))
            (payloadList g)"
proof -
  let ?s = "sequenceNo g" and ?n = "payloadLength g"
  have e: "off b (?s + ?n) = off b ?s + unat ?n" by (rule off_add) (use n in simp)
  have w: "in_win b ?s" "in_win b (?s + ?n)" using n e by (simp_all add: in_win_def)
  note cmp = seqLess_off [OF w(1) win(2)] seqLess_off [OF win(1) w(2)]
  show ?thesis
  proof (cases "?n = 0 \<or> off b toSeq \<le> off b ?s \<or> off b ?s + unat ?n \<le> off b fromSeq")
    case True
    then have "\<exists>e. truncateSegment g fromSeq toSeq = Inl e"
      using cmp e by (auto simp: truncateSegment_def)
    with True show ?thesis by auto
  next
    case False
    then show ?thesis using truncateSegment_common [OF n win ms] by auto
  qed
qed

definition example_segment :: TCPSegment where
  "example_segment =
     \<lparr>sequenceNo = 0xFFFFFFF0, ackNo = 0, payloadLength = 100, synBit = False, finBit = False,
      ackBit = True, rstBit = False, payloadList = [(1, 0xFFFFFFFA), (2, 20), (3, 84)]\<rparr>"

text \<open>A segment that crosses the wrap-around of the sequence numbers, cut to the bytes up to 30.\<close>

theorem truncateSegment_exact_witness:
  "\<exists>g'. truncateSegment example_segment 0xFFFFFFFA 30 = Inr g' \<and> off 0xFFFFFFF0 (sequenceNo g') = 10
     \<and> unat (payloadLength g') = 36 \<and> payloadList g' = [(2, 20)]"
proof -
  let ?r = "truncateSegment example_segment 0xFFFFFFFA 30"
  have ok: "\<not> isl ?r" by code_simp
  then obtain g' where g': "?r = Inr g'" by (cases ?r) auto
  have "off 0xFFFFFFF0 (sequenceNo g') = max (off 0xFFFFFFF0 (sequenceNo example_segment)) (off 0xFFFFFFF0 0xFFFFFFFA)
     \<and> off 0xFFFFFFF0 (sequenceNo g') + unat (payloadLength g')
         = min (off 0xFFFFFFF0 (sequenceNo example_segment) + unat (payloadLength example_segment)) (off 0xFFFFFFF0 30)
     \<and> payloadList g' = payload_in 0xFFFFFFF0 (off 0xFFFFFFF0 (sequenceNo g'))
         (off 0xFFFFFFF0 (sequenceNo g') + unat (payloadLength g')) (payloadList example_segment)"
    using truncateSegment_exact [of "0xFFFFFFF0" example_segment "0xFFFFFFFA" 30] g'
    by (simp add: example_segment_def off_def in_win_def)
  then show ?thesis
    using g' by (simp add: example_segment_def off_def payload_in_def)
qed

end
