(* ===== verification/TCP_Data_Queues.thy ===== *)
theory TCP_Data_Queues
  imports TCP_Seq
begin

text \<open>
  The receive and send queues of a TCP connection that transfers byte counts,
  \<^verbatim>\<open>src/src/transport/tcp/queues/TCPVirtualDataRcvQueue.{h,cc}\<close> and
  \<^verbatim>\<open>TCPVirtualDataSendQueue.{h,cc}\<close>.  The receive queue keeps a list of disjoint regions
  that do not touch; it stands for the set of bytes received and not yet delivered.  Shown: inserting a
  segment adds exactly its bytes and moves \<open>rcv_nxt\<close> to the first byte missing, extraction hands over
  exactly the bytes below the given sequence number, and the stream delivered is the stream received.
\<close>

section \<open>Regions\<close>

record RcvRegion =
  vr_begin :: u32
  vr_end :: u32

datatype CompareStatus = BEFORE | BEFORE_TOUCH | OVERLAP | AFTER_TOUCH | AFTER

definition Region_getLength :: "RcvRegion \<Rightarrow> u32" where
  "Region_getLength r = vr_end r - vr_begin r"

definition Region_merge :: "RcvRegion \<Rightarrow> RcvRegion \<Rightarrow> RcvRegion option" where
  "Region_merge r other =
     (if seqLess (vr_end r) (vr_begin other) \<or> seqLess (vr_end other) (vr_begin r) then None
      else
        let r1 = (if seqLess (vr_begin other) (vr_begin r) then r\<lparr>vr_begin := vr_begin other\<rparr> else r)
        in Some (if seqLess (vr_end r1) (vr_end other) then r1\<lparr>vr_end := vr_end other\<rparr> else r1))"

definition Region_split :: "RcvRegion \<Rightarrow> u32 \<Rightarrow> (RcvRegion \<times> RcvRegion) outcome" where
  "Region_split r seq =
     (if seqGreater seq (vr_begin r) \<and> seqLess seq (vr_end r)
      then Inr (\<lparr>vr_begin = vr_begin r, vr_end = seq\<rparr>, r\<lparr>vr_begin := seq\<rparr>)
      else Inl (AssertFailed ''seqGreater(seq, begin) && seqLess(seq, end)''))"

definition Region_compare :: "RcvRegion \<Rightarrow> RcvRegion \<Rightarrow> CompareStatus" where
  "Region_compare r other =
     (if vr_end r = vr_begin other then BEFORE_TOUCH
      else if vr_begin r = vr_end other then AFTER_TOUCH
      else if seqLess (vr_end r) (vr_begin other) then BEFORE
      else if seqLess (vr_end other) (vr_begin r) then AFTER
      else OVERLAP)"

definition Region_getLengthTo :: "RcvRegion \<Rightarrow> u32 \<Rightarrow> u32" where
  "Region_getLengthTo r seq =
     (if seqLE seq (vr_begin r) then 0
      else if seqLess seq (vr_end r) then seq - vr_begin r
      else vr_end r - vr_begin r)"

section \<open>The receive queue\<close>

record TCPVirtualDataRcvQueue =
  rcv_nxt :: u32
  regionList :: "RcvRegion list"

definition rcvq_init :: "u32 \<Rightarrow> TCPVirtualDataRcvQueue" where
  "rcvq_init startSeq = \<lparr>rcv_nxt = startSeq, regionList = []\<rparr>"

definition createRegionFromSegment :: "TCPSegment \<Rightarrow> RcvRegion" where
  "createRegionFromSegment g = \<lparr>vr_begin = sequenceNo g, vr_end = sequenceNo g + payloadLength g\<rparr>"

text \<open>The loop of \<open>merge\<close> walks the list from the back: \<open>todo\<close> is the part not yet looked at, last
  region first, \<open>skipped\<close> the part behind the iterator.\<close>

fun mergeLoop :: "RcvRegion \<Rightarrow> RcvRegion list \<Rightarrow> RcvRegion list \<Rightarrow> RcvRegion list outcome" where
  "mergeLoop seg [] skipped = Inr (seg # skipped)"
| "mergeLoop seg (i # todo) skipped =
     (case Region_compare i seg of
        BEFORE \<Rightarrow> Inr (rev (i # todo) @ seg # skipped)
      | AFTER \<Rightarrow> mergeLoop seg todo (i # skipped)
      | _ \<Rightarrow> (case Region_merge seg i of
                None \<Rightarrow> Inl (RuntimeError ''Model error: merge of region unsuccessful'')
              | Some seg' \<Rightarrow> mergeLoop seg' todo skipped))"

definition rcvq_merge :: "TCPVirtualDataRcvQueue \<Rightarrow> RcvRegion \<Rightarrow> TCPVirtualDataRcvQueue outcome" where
  "rcvq_merge q seg =
     outcome_bind (mergeLoop seg (rev (regionList q)) []) (\<lambda>l. Inr (q\<lparr>regionList := l\<rparr>))"

definition insertBytesFromSegment ::
  "TCPVirtualDataRcvQueue \<Rightarrow> TCPSegment \<Rightarrow> (TCPVirtualDataRcvQueue \<times> u32) outcome" where
  "insertBytesFromSegment q g =
     (let region = createRegionFromSegment g;
          bad = (regionList q \<noteq> [] \<and>
            (let ob = vr_begin (hd (regionList q)); oe = vr_end (last (regionList q));
                 nb = vr_begin region; ne = vr_end region;
                 minb = seqMin ob nb; maxe = seqMax oe ne
             in seqGE minb oe \<or> seqGE minb ne \<or> seqGE ob maxe \<or> seqGE nb maxe))
      in if bad then Inl (RuntimeError ''The new segment is out of the acceptable range at the queue'')
         else outcome_bind (rcvq_merge q region) (\<lambda>q'.
           let front = hd (regionList q');
               q'' = (if seqGE (rcv_nxt q') (vr_begin front) then q'\<lparr>rcv_nxt := vr_end front\<rparr> else q')
           in Inr (q'', rcv_nxt q'')))"

definition extractTo ::
  "TCPVirtualDataRcvQueue \<Rightarrow> u32 \<Rightarrow> (TCPVirtualDataRcvQueue \<times> RcvRegion option) outcome" where
  "extractTo q seq =
     (if \<not> seqLE seq (rcv_nxt q) then Inl (AssertFailed ''seqLE(seq, rcv_nxt)'')
      else case regionList q of
        [] \<Rightarrow> Inr (q, None)
      | reg # rs \<Rightarrow>
          if seqLE seq (vr_begin reg) then Inr (q, None)
          else if seqGE seq (vr_end reg) then Inr (q\<lparr>regionList := rs\<rparr>, Some reg)
          else outcome_bind (Region_split reg seq) (\<lambda>(out, reg'). Inr (q\<lparr>regionList := reg' # rs\<rparr>, Some out)))"

text \<open>The extracted packet is its byte length.\<close>

definition extractBytesUpTo ::
  "TCPVirtualDataRcvQueue \<Rightarrow> u32 \<Rightarrow> (TCPVirtualDataRcvQueue \<times> u32 option) outcome" where
  "extractBytesUpTo q seq =
     outcome_bind (extractTo q seq) (\<lambda>(q', reg). Inr (q', map_option Region_getLength reg))"

fun sumLengths :: "RcvRegion list \<Rightarrow> u32 \<Rightarrow> u32" where
  "sumLengths [] bytes = bytes"
| "sumLengths (i # is) bytes = sumLengths is (bytes + Region_getLength i)"

definition getAmountOfBufferedBytes :: "TCPVirtualDataRcvQueue \<Rightarrow> u32" where
  "getAmountOfBufferedBytes q = sumLengths (regionList q) 0"

definition getAmountOfFreeBytes :: "TCPVirtualDataRcvQueue \<Rightarrow> u32 \<Rightarrow> u32" where
  "getAmountOfFreeBytes q maxRcvBuffer =
     (let usedRcvBuffer = getAmountOfBufferedBytes q; freeRcvBuffer = maxRcvBuffer - usedRcvBuffer
      in if maxRcvBuffer > usedRcvBuffer then freeRcvBuffer else 0)"

fun findLE :: "u32 \<Rightarrow> RcvRegion list \<Rightarrow> u32" where
  "findLE x [] = x"
| "findLE x (i # is) = (if seqLE (vr_begin i) x \<and> seqLess x (vr_end i) then vr_begin i else findLE x is)"

definition getLE :: "TCPVirtualDataRcvQueue \<Rightarrow> u32 \<Rightarrow> u32" where
  "getLE q fromSeqNum = findLE fromSeqNum (regionList q)"

fun findRE :: "u32 \<Rightarrow> RcvRegion list \<Rightarrow> u32" where
  "findRE x [] = x"
| "findRE x (i # is) = (if seqLess (vr_begin i) x \<and> seqLE x (vr_end i) then vr_end i else findRE x is)"

definition getRE :: "TCPVirtualDataRcvQueue \<Rightarrow> u32 \<Rightarrow> u32" where
  "getRE q toSeqNum = findRE toSeqNum (regionList q)"

definition getFirstSeqNo :: "TCPVirtualDataRcvQueue \<Rightarrow> u32" where
  "getFirstSeqNo q =
     (case regionList q of [] \<Rightarrow> rcv_nxt q | r # _ \<Rightarrow> seqMin (vr_begin r) (rcv_nxt q))"

section \<open>The send queue\<close>

record TCPVirtualDataSendQueue =
  sq_begin :: u32
  sq_end :: u32

definition sendq_init :: "u32 \<Rightarrow> TCPVirtualDataSendQueue" where
  "sendq_init startSeq = \<lparr>sq_begin = startSeq, sq_end = startSeq\<rparr>"

text \<open>\<open>getByteLength\<close> is 64 bits wide; the sum is cut to 32 bits.\<close>

definition enqueueAppData :: "TCPVirtualDataSendQueue \<Rightarrow> nat \<Rightarrow> TCPVirtualDataSendQueue outcome" where
  "enqueueAppData q byteLength =
     (let q' = q\<lparr>sq_end := sq_end q + of_nat byteLength\<rparr>
      in if seqLess (sq_end q') (sq_begin q') then Inl (RuntimeError ''Send queue is full'') else Inr q')"

definition getBytesAvailable :: "TCPVirtualDataSendQueue \<Rightarrow> u32 \<Rightarrow> u32" where
  "getBytesAvailable q fromSeq = (if seqLess fromSeq (sq_end q) then sq_end q - fromSeq else 0)"

text \<open>\<open>createTCPSegment\<close> makes a segment with no flags and no payload.\<close>

definition createSegmentWithBytes :: "TCPVirtualDataSendQueue \<Rightarrow> u32 \<Rightarrow> u32 \<Rightarrow> TCPSegment outcome" where
  "createSegmentWithBytes q fromSeq numBytes =
     (if seqLE (sq_begin q) fromSeq \<and> seqLE (fromSeq + numBytes) (sq_end q)
      then Inr \<lparr>sequenceNo = fromSeq, ackNo = 0, payloadLength = numBytes, synBit = False, finBit = False,
              ackBit = False, rstBit = False, payloadList = []\<rparr>
      else Inl (AssertFailed ''seqLE(begin, fromSeq) && seqLE(fromSeq + numBytes, end)''))"

definition sendq_discardUpTo :: "TCPVirtualDataSendQueue \<Rightarrow> u32 \<Rightarrow> TCPVirtualDataSendQueue outcome" where
  "sendq_discardUpTo q seqNum =
     (if seqLE (sq_begin q) seqNum \<and> seqLE seqNum (sq_end q) then Inr (q\<lparr>sq_begin := seqNum\<rparr>)
      else Inl (AssertFailed ''seqLE(begin, seqNum) && seqLE(seqNum, end)''))"

section \<open>The bytes a receive queue holds\<close>

definition region_set :: "u32 \<Rightarrow> RcvRegion \<Rightarrow> nat set" where
  "region_set b r = {off b (vr_begin r) ..< off b (vr_end r)}"

definition bytes_held :: "u32 \<Rightarrow> RcvRegion list \<Rightarrow> nat set" where
  "bytes_held b rs = (\<Union>r\<in>set rs. region_set b r)"

definition region_ok :: "u32 \<Rightarrow> RcvRegion \<Rightarrow> bool" where
  "region_ok b r \<longleftrightarrow> off b (vr_begin r) < off b (vr_end r) \<and> in_win b (vr_end r)"

definition apart :: "u32 \<Rightarrow> RcvRegion list \<Rightarrow> bool" where
  "apart b rs \<longleftrightarrow> sorted_wrt (\<lambda>r s. off b (vr_end r) < off b (vr_begin s)) rs \<and> (\<forall>r\<in>set rs. region_ok b r)"

definition rcvq_inv :: "u32 \<Rightarrow> TCPVirtualDataRcvQueue \<Rightarrow> bool" where
  "rcvq_inv b q \<longleftrightarrow> apart b (regionList q) \<and> in_win b (rcv_nxt q)
     \<and> (case regionList q of [] \<Rightarrow> True
        | r # _ \<Rightarrow> off b (rcv_nxt q) < off b (vr_begin r)
                  \<or> (off b (vr_begin r) < off b (rcv_nxt q) \<and> vr_end r = rcv_nxt q))"

text \<open>\<open>m\<close> is the first position from \<open>n\<close> on that is not in \<open>S\<close>.\<close>

definition next_gap :: "nat set \<Rightarrow> nat \<Rightarrow> nat \<Rightarrow> bool" where
  "next_gap S n m \<longleftrightarrow> n \<le> m \<and> m \<notin> S \<and> {n..<m} \<subseteq> S"

lemma bytes_held_simps [simp]:
  "bytes_held b [] = {}"
  "bytes_held b (r # rs) = region_set b r \<union> bytes_held b rs"
  "bytes_held b (xs @ ys) = bytes_held b xs \<union> bytes_held b ys"
  "bytes_held b (rev xs) = bytes_held b xs"
  by (auto simp: bytes_held_def)

lemma region_ok_win: "region_ok b r \<Longrightarrow> in_win b (vr_begin r) \<and> in_win b (vr_end r)"
  by (auto simp: region_ok_def in_win_def)

lemma apart_Cons: "apart b (r # rs) \<longleftrightarrow> region_ok b r \<and> apart b rs \<and> (\<forall>s\<in>set rs. off b (vr_end r) < off b (vr_begin s))"
  by (auto simp: apart_def)

lemma apart_append:
  "apart b (xs @ ys) \<longleftrightarrow> apart b xs \<and> apart b ys
     \<and> (\<forall>r\<in>set xs. \<forall>s\<in>set ys. off b (vr_end r) < off b (vr_begin s))"
  by (auto simp: apart_def sorted_wrt_append)

lemma Region_compare_off:
  assumes "region_ok b r" "region_ok b s"
  shows "Region_compare r s = BEFORE \<longleftrightarrow> off b (vr_end r) < off b (vr_begin s)"
    and "Region_compare r s = AFTER \<longleftrightarrow> off b (vr_end s) < off b (vr_begin r)"
  using assms region_ok_win [OF assms(1)] region_ok_win [OF assms(2)]
  by (auto simp: Region_compare_def seqLess_off region_ok_def off_eq_iff [symmetric, of _ _ b])

lemma Region_merge_off:
  assumes "region_ok b r" "region_ok b s"
    and "off b (vr_begin s) \<le> off b (vr_end r)" "off b (vr_begin r) \<le> off b (vr_end s)"
  shows "\<exists>m. Region_merge r s = Some m \<and> region_ok b m \<and> region_set b m = region_set b r \<union> region_set b s
    \<and> off b (vr_begin m) = min (off b (vr_begin r)) (off b (vr_begin s))
    \<and> off b (vr_end m) = max (off b (vr_end r)) (off b (vr_end s))"
  using assms region_ok_win [OF assms(1)] region_ok_win [OF assms(2)]
  by (auto simp: Region_merge_def seqLess_off region_ok_def region_set_def Let_def min_def max_def)

lemma mergeLoop_exact:
  assumes "apart b (rev todo @ skipped)" "region_ok b seg" "\<forall>s\<in>set skipped. off b (vr_end seg) < off b (vr_begin s)"
  shows "\<exists>l. mergeLoop seg todo skipped = Inr l \<and> apart b l \<and> l \<noteq> []
    \<and> bytes_held b l = region_set b seg \<union> bytes_held b todo \<union> bytes_held b skipped"
  using assms
proof (induction seg todo skipped rule: mergeLoop.induct)
  case (1 seg skipped)
  then show ?case by (auto simp: apart_Cons)
next
  case (2 seg i todo skipped)
  have i: "region_ok b i" using "2.prems"(1) by (auto simp: apart_append apart_Cons)
  note cmp = Region_compare_off [OF i "2.prems"(2)]
  consider (before) "off b (vr_end i) < off b (vr_begin seg)" | (after) "off b (vr_end seg) < off b (vr_begin i)"
    | (touch) "off b (vr_begin seg) \<le> off b (vr_end i)" "off b (vr_begin i) \<le> off b (vr_end seg)"
    by linarith
  then show ?case
  proof cases
    case before
    have "apart b (rev (i # todo) @ seg # skipped)"
      using "2.prems" before by (fastforce simp: apart_append apart_Cons region_ok_def)
    then show ?thesis using before cmp(1) by auto
  next
    case after
    have "apart b (rev todo @ i # skipped)" using "2.prems"(1) by simp
    with "2.IH" "2.prems" after cmp show ?thesis by auto
  next
    case touch
    then obtain m where m: "Region_merge seg i = Some m" "region_ok b m"
      "region_set b m = region_set b seg \<union> region_set b i"
      "off b (vr_end m) = max (off b (vr_end seg)) (off b (vr_end i))"
      using Region_merge_off [OF "2.prems"(2) i] by auto
    have "apart b (rev todo @ skipped)" "\<forall>s\<in>set skipped. off b (vr_end m) < off b (vr_begin s)"
      using "2.prems"(1,3) m(4) by (auto simp: apart_append apart_Cons)
    with "2.IH" m touch cmp show ?thesis
      by (cases "Region_compare i seg") auto
  qed
qed

lemma apart_front: "apart b (r # rs) \<Longrightarrow> n \<in> bytes_held b (r # rs) \<Longrightarrow> off b (vr_begin r) \<le> n"
  by (fastforce simp: apart_Cons bytes_held_def region_set_def region_ok_def)

lemma apart_ends: "apart b rs \<Longrightarrow> rs \<noteq> [] \<Longrightarrow> off b (vr_begin (hd rs)) < off b (vr_end (last rs))"
proof (induction rs)
  case (Cons r rs)
  show ?case
  proof (cases rs)
    case Nil
    with Cons show ?thesis by (simp add: apart_Cons region_ok_def)
  next
    case (Cons s ss)
    then have "off b (vr_begin s) < off b (vr_end (last rs))" "off b (vr_end r) < off b (vr_begin s)"
      "off b (vr_begin r) < off b (vr_end r)"
      using Cons.IH Cons.prems by (auto simp: apart_Cons region_ok_def)
    with Cons show ?thesis by simp
  qed
qed simp

lemma apart_end_notin: "apart b (r # rs) \<Longrightarrow> off b (vr_end r) \<notin> bytes_held b (r # rs)"
  by (fastforce simp: apart_Cons bytes_held_def region_set_def)

text \<open>A stretch of held bytes that starts at the first region lies in the first region.\<close>

lemma apart_stretch:
  assumes "apart b (r # rs)" "{off b (vr_begin r)..<m} \<subseteq> bytes_held b (r # rs)"
  shows "m \<le> off b (vr_end r)"
proof (rule ccontr)
  assume "\<not> m \<le> off b (vr_end r)"
  moreover have "off b (vr_begin r) < off b (vr_end r)" using assms(1) by (simp add: apart_Cons region_ok_def)
  ultimately have "off b (vr_end r) \<in> {off b (vr_begin r)..<m}" by simp
  then have "off b (vr_end r) \<in> bytes_held b (r # rs)" using assms(2) by blast
  then show False using apart_end_notin [OF assms(1)] by blast
qed

lemma region_of_segment:
  assumes "off b (sequenceNo g) + unat (payloadLength g) < 2 ^ 31" "0 < payloadLength g"
  shows "region_ok b (createRegionFromSegment g)"
    and "region_set b (createRegionFromSegment g) = {off b (sequenceNo g)..<off b (sequenceNo g) + unat (payloadLength g)}"
    and "off b (vr_end (createRegionFromSegment g)) = off b (sequenceNo g) + unat (payloadLength g)"
proof -
  have "off b (sequenceNo g + payloadLength g) = off b (sequenceNo g) + unat (payloadLength g)"
    by (rule off_add) (use assms in simp)
  with assms show "region_ok b (createRegionFromSegment g)"
    "region_set b (createRegionFromSegment g) = {off b (sequenceNo g)..<off b (sequenceNo g) + unat (payloadLength g)}"
    "off b (vr_end (createRegionFromSegment g)) = off b (sequenceNo g) + unat (payloadLength g)"
    by (simp_all add: createRegionFromSegment_def region_ok_def region_set_def in_win_def word_less_nat_alt)
qed

text \<open>The acceptable-range test never fires inside the window.\<close>

lemma range_test_passes:
  assumes ap: "apart b rs" "rs \<noteq> []" and r: "region_ok b r"
  shows "\<not> (seqGE (seqMin (vr_begin (hd rs)) (vr_begin r)) (vr_end (last rs))
      \<or> seqGE (seqMin (vr_begin (hd rs)) (vr_begin r)) (vr_end r)
      \<or> seqGE (vr_begin (hd rs)) (seqMax (vr_end (last rs)) (vr_end r))
      \<or> seqGE (vr_begin r) (seqMax (vr_end (last rs)) (vr_end r)))"
proof -
  have mem: "region_ok b (hd rs)" "region_ok b (last rs)" using ap by (simp_all add: apart_def)
  note w = region_ok_win [OF mem(1)] region_ok_win [OF mem(2)] region_ok_win [OF r]
  have wm: "in_win b (seqMin (vr_begin (hd rs)) (vr_begin r))" "in_win b (seqMax (vr_end (last rs)) (vr_end r))"
    using w by (auto simp: seqMin_def seqMax_def)
  have "off b (vr_begin (hd rs)) < off b (vr_end (last rs))" by (rule apart_ends [OF ap])
  moreover have "off b (vr_begin r) < off b (vr_end r)" using r by (simp add: region_ok_def)
  ultimately show ?thesis
    using w wm by (auto simp: seqGE_seqLE seqLE_off off_seqMin off_seqMax)
qed

lemma insertBytes_exact:
  assumes inv: "rcvq_inv b q"
    and g: "off b (sequenceNo g) + unat (payloadLength g) < 2 ^ 31" "0 < payloadLength g"
      "off b (rcv_nxt q) < off b (sequenceNo g) + unat (payloadLength g)"
  shows "\<exists>q'. insertBytesFromSegment q g = Inr (q', rcv_nxt q') \<and> rcvq_inv b q'
    \<and> bytes_held b (regionList q') = bytes_held b (regionList q)
        \<union> {off b (sequenceNo g)..<off b (sequenceNo g) + unat (payloadLength g)}
    \<and> next_gap (bytes_held b (regionList q')) (off b (rcv_nxt q)) (off b (rcv_nxt q'))"
proof -
  let ?r = "createRegionFromSegment g" and ?n = "off b (rcv_nxt q)"
  note r = region_of_segment [OF g(1,2)]
  have ap: "apart b (regionList q)" and win: "in_win b (rcv_nxt q)" using inv by (simp_all add: rcvq_inv_def)
  obtain l where l: "mergeLoop ?r (rev (regionList q)) [] = Inr l" "apart b l" "l \<noteq> []"
    "bytes_held b l = region_set b ?r \<union> bytes_held b (regionList q)"
    using mergeLoop_exact [of b "rev (regionList q)" "[]" ?r] ap r(1) by auto
  obtain f fs where f: "l = f # fs" using l(3) by (cases l) auto
  have fwin: "in_win b (vr_begin f)" "in_win b (vr_end f)" "off b (vr_begin f) < off b (vr_end f)"
    using l(2) f region_ok_win by (auto simp: apart_Cons region_ok_def)
  let ?q = "if seqGE (rcv_nxt q) (vr_begin f) then q\<lparr>regionList := l, rcv_nxt := vr_end f\<rparr> else q\<lparr>regionList := l\<rparr>"
  have cond: "seqGE (rcv_nxt q) (vr_begin f) \<longleftrightarrow> off b (vr_begin f) \<le> ?n"
    using seqLE_off [OF fwin(1) win] by (simp add: seqGE_seqLE)
  have step: "insertBytesFromSegment q g = Inr (?q, rcv_nxt ?q)"
    using range_test_passes [OF ap _ r(1)] l(1) f
    by (auto simp: insertBytesFromSegment_def rcvq_merge_def Let_def)
  have gap: "?n \<le> off b (vr_end f)" if le: "off b (vr_begin f) \<le> ?n"
  proof -
    have "off b (vr_begin f) \<in> bytes_held b l" using f fwin by (simp add: region_set_def)
    then consider "off b (vr_begin f) \<in> region_set b ?r" | "off b (vr_begin f) \<in> bytes_held b (regionList q)"
      using l(4) by blast
    then show ?thesis
    proof cases
      case 1
      then have "{off b (vr_begin f)..<off b (vr_end ?r)} \<subseteq> region_set b ?r"
        by (simp add: region_set_def)
      then have "{off b (vr_begin f)..<off b (vr_end ?r)} \<subseteq> bytes_held b l"
        unfolding l(4) by blast
      then have "off b (vr_end ?r) \<le> off b (vr_end f)" using apart_stretch l(2) f by blast
      with g(3) r(3) show ?thesis by simp
    next
      case 2
      then obtain o1 os where o1: "regionList q = o1 # os" by (cases "regionList q") auto
      have b1: "off b (vr_begin o1) \<le> off b (vr_begin f)"
        using apart_front [of b o1 os] 2 ap o1 by simp
      then have ov: "off b (vr_begin o1) < ?n" "vr_end o1 = rcv_nxt q"
        using inv o1 le by (auto simp: rcvq_inv_def)
      have "{off b (vr_begin f)..<?n} \<subseteq> region_set b o1"
        using b1 by (simp add: region_set_def ov(2))
      then have "{off b (vr_begin f)..<?n} \<subseteq> bytes_held b l"
        unfolding l(4) o1 bytes_held_simps by blast
      then show ?thesis using apart_stretch l(2) f by blast
    qed
  qed
  have notin: "off b (vr_end f) \<notin> bytes_held b l"
    using apart_end_notin l(2) f by simp
  have "rcvq_inv b ?q"
    using l(2) f fwin win cond by (auto simp: rcvq_inv_def)
  moreover have "bytes_held b (regionList ?q) = bytes_held b (regionList q)
      \<union> {off b (sequenceNo g)..<off b (sequenceNo g) + unat (payloadLength g)}"
    using l(4) r(2) by auto
  moreover have "next_gap (bytes_held b (regionList ?q)) ?n (off b (rcv_nxt ?q))"
  proof (cases "off b (vr_begin f) \<le> ?n")
    case True
    have "{?n..<off b (vr_end f)} \<subseteq> bytes_held b l" using f True by (auto simp: region_set_def)
    then show ?thesis using True cond gap notin by (simp add: next_gap_def)
  next
    case False
    then have "?n \<notin> bytes_held b l" using apart_front [of b f fs ?n] l(2) f by auto
    then show ?thesis using False cond by (simp add: next_gap_def)
  qed
  ultimately show ?thesis using step by blast
qed

lemma extractTo_exact:
  assumes inv: "rcvq_inv b q" and seq: "off b x \<le> off b (rcv_nxt q)"
  shows "\<exists>q' reg. extractTo q x = Inr (q', reg) \<and> rcvq_inv b q' \<and> rcv_nxt q' = rcv_nxt q
    \<and> bytes_held b (regionList q') = bytes_held b (regionList q) - {..<off b x}
    \<and> (case reg of None \<Rightarrow> {} | Some r \<Rightarrow> region_set b r) = bytes_held b (regionList q) \<inter> {..<off b x}
    \<and> (reg \<noteq> None \<longleftrightarrow> bytes_held b (regionList q) \<inter> {..<off b x} \<noteq> {})"
proof -
  have win: "in_win b (rcv_nxt q)" "in_win b x" using inv seq by (auto simp: rcvq_inv_def in_win_def)
  have guard: "seqLE x (rcv_nxt q)" using seqLE_off [OF win(2,1)] seq by simp
  show ?thesis
  proof (cases "regionList q")
    case Nil
    with guard inv show ?thesis by (simp add: extractTo_def)
  next
    case (Cons r rs)
    have ap: "apart b (r # rs)" using inv Cons by (simp add: rcvq_inv_def)
    have rok: "off b (vr_begin r) < off b (vr_end r)" "in_win b (vr_begin r)" "in_win b (vr_end r)"
      using ap region_ok_win by (auto simp: apart_Cons region_ok_def)
    have rest: "off b (vr_end r) \<le> n" if n: "n \<in> bytes_held b rs" for n
    proof -
      obtain s where "s \<in> set rs" "off b (vr_begin s) \<le> n"
        using n by (auto simp: bytes_held_def region_set_def)
      with ap show ?thesis by (auto simp: apart_Cons dest!: bspec)
    qed
    have nxt: "off b (rcv_nxt q) < off b (vr_begin r) \<or> vr_end r = rcv_nxt q"
      using inv Cons by (auto simp: rcvq_inv_def)
    consider (none) "off b x \<le> off b (vr_begin r)" | (all) "off b (vr_begin r) < off b x" "x = vr_end r"
      | (part) "off b (vr_begin r) < off b x" "off b x < off b (vr_end r)"
    proof -
      have "off b x < off b (vr_end r) \<or> x = vr_end r \<or> off b x \<le> off b (vr_begin r)"
        using nxt seq off_eq_iff [of b x "vr_end r"] by auto
      then show thesis using that by (cases "off b x \<le> off b (vr_begin r)") auto
    qed
    then show ?thesis
    proof cases
      case none
      then have "extractTo q x = Inr (q, None)"
        using guard Cons seqLE_off [OF win(2) rok(2)] by (simp add: extractTo_def)
      moreover have "bytes_held b (r # rs) \<inter> {..<off b x} = {}"
        using apart_front [OF ap] none by fastforce
      ultimately show ?thesis using inv Cons by auto
    next
      case all
      then have nb: "rcv_nxt q = vr_end r" using nxt seq by auto
      have "extractTo q x = Inr (q\<lparr>regionList := rs\<rparr>, Some r)"
        using guard Cons all seqLE_off [OF rok(3,2)] rok(1) by (simp add: extractTo_def seqGE_def)
      moreover have "rcvq_inv b (q\<lparr>regionList := rs\<rparr>)"
        using inv ap nb Cons by (auto simp: rcvq_inv_def apart_Cons split: list.splits)
      moreover have "bytes_held b rs = bytes_held b (r # rs) - {..<off b x}"
        "region_set b r = bytes_held b (r # rs) \<inter> {..<off b x}"
        using rest all by (fastforce simp: region_set_def)+
      ultimately show ?thesis using Cons rok(1) by (auto simp: region_set_def)
    next
      case part
      then have nb: "rcv_nxt q = vr_end r" using nxt seq by auto
      let ?out = "\<lparr>vr_begin = vr_begin r, vr_end = x\<rparr>" and ?r = "r\<lparr>vr_begin := x\<rparr>"
      have "extractTo q x = Inr (q\<lparr>regionList := ?r # rs\<rparr>, Some ?out)"
        using guard Cons part seqLE_off [OF win(2) rok(2)] seqLE_off [OF rok(3) win(2)]
          seqLess_off [OF rok(2) win(2)] seqLess_off [OF win(2) rok(3)]
        by (simp add: extractTo_def seqGE_seqLE Region_split_def seqGreater_seqLess)
      moreover have "rcvq_inv b (q\<lparr>regionList := ?r # rs\<rparr>)"
        using inv ap nb part win by (auto simp: rcvq_inv_def apart_Cons region_ok_def in_win_def)
      moreover have "bytes_held b (?r # rs) = bytes_held b (r # rs) - {..<off b x}"
        "region_set b ?out = bytes_held b (r # rs) \<inter> {..<off b x}"
        using rest part by (fastforce simp: region_set_def)+
      moreover have "region_set b ?out \<noteq> {}" using part by (simp add: region_set_def)
      ultimately show ?thesis using Cons by auto
    qed
  qed
qed

lemma sumLengths_card: "apart b rs \<Longrightarrow> sumLengths rs acc = acc + of_nat (card (bytes_held b rs))"
proof (induction rs acc rule: sumLengths.induct)
  case (2 r rs acc)
  have ap: "apart b rs" and r: "off b (vr_begin r) < off b (vr_end r)"
    and after: "\<forall>s\<in>set rs. off b (vr_end r) < off b (vr_begin s)"
    using 2(2) by (auto simp: apart_Cons region_ok_def)
  have "finite (bytes_held b rs)" by (auto simp: bytes_held_def region_set_def)
  moreover have "region_set b r \<inter> bytes_held b rs = {}"
    using after by (fastforce simp: bytes_held_def region_set_def)
  ultimately have "card (bytes_held b (r # rs)) = unat (Region_getLength r) + card (bytes_held b rs)"
    using r unat_diff_off [of b "vr_begin r" "vr_end r"]
    by (simp add: card_Un_disjoint region_set_def Region_getLength_def)
  with 2(1) [OF ap] show ?case by (simp add: add_ac)
qed simp

section \<open>What the queues promise\<close>

text \<open>
  C17: inserting a segment that reaches beyond \<open>rcv_nxt\<close> never raises the range error or the merge error;
  the queue then holds exactly the old bytes and the bytes of the segment, however they overlap, and
  \<open>rcv_nxt\<close> is the first byte from its old value on that has not been received.
\<close>

theorem rcv_queue_insert_exact:
  assumes "rcvq_inv b q"
    and "off b (sequenceNo g) + unat (payloadLength g) < 2 ^ 31" "0 < payloadLength g"
      "off b (rcv_nxt q) < off b (sequenceNo g) + unat (payloadLength g)"
  shows "\<exists>q'. insertBytesFromSegment q g = Inr (q', rcv_nxt q') \<and> rcvq_inv b q'
    \<and> bytes_held b (regionList q') = bytes_held b (regionList q)
        \<union> {off b (sequenceNo g)..<off b (sequenceNo g) + unat (payloadLength g)}
    \<and> next_gap (bytes_held b (regionList q')) (off b (rcv_nxt q)) (off b (rcv_nxt q'))"
  by (rule insertBytes_exact [OF assms])

definition data_segment :: "u32 \<Rightarrow> u32 \<Rightarrow> TCPSegment" where
  "data_segment seqNo n =
     \<lparr>sequenceNo = seqNo, ackNo = 0, payloadLength = n, synBit = False, finBit = False, ackBit = True,
      rstBit = False, payloadList = []\<rparr>"

definition example_rcvq :: TCPVirtualDataRcvQueue where
  "example_rcvq = \<lparr>rcv_nxt = 0xFFFFFFFA,
     regionList = [\<lparr>vr_begin = 0xFFFFFFFE, vr_end = 2\<rparr>, \<lparr>vr_begin = 10, vr_end = 20\<rparr>]\<rparr>"

lemma example_rcvq_inv: "rcvq_inv 0xFFFFFFF0 example_rcvq"
  by (simp add: rcvq_inv_def example_rcvq_def apart_def region_ok_def in_win_def off_def)

theorem rcv_queue_insert_exact_witness:
  "\<exists>q'. insertBytesFromSegment example_rcvq (data_segment 0xFFFFFFFA 20) = Inr (q', rcv_nxt q')
    \<and> bytes_held 0xFFFFFFF0 (regionList q') = {10..<36}"
proof -
  have h: "bytes_held 0xFFFFFFF0 (regionList example_rcvq) = {14..<18} \<union> {26..<36}"
    by (simp add: example_rcvq_def region_set_def off_def)
  have "\<exists>q'. insertBytesFromSegment example_rcvq (data_segment 0xFFFFFFFA 20) = Inr (q', rcv_nxt q')
    \<and> bytes_held 0xFFFFFFF0 (regionList q') = bytes_held 0xFFFFFFF0 (regionList example_rcvq) \<union> {10..<30}"
    using rcv_queue_insert_exact [OF example_rcvq_inv, of "data_segment 0xFFFFFFFA 20"]
    by (simp add: data_segment_def off_def example_rcvq_def) blast
  moreover have "bytes_held 0xFFFFFFF0 (regionList example_rcvq) \<union> {10..<30} = {10..<36}"
    unfolding h by auto
  ultimately show ?thesis by simp
qed

text \<open>
  C18: extraction up to a sequence number not beyond \<open>rcv_nxt\<close> fails no ASSERT, hands over exactly the
  held bytes below that number as one packet (none if there are none), keeps the rest, and the amount of
  buffered bytes reported is the number of bytes held.
\<close>

theorem rcv_queue_extract_exact:
  assumes "rcvq_inv b q" and "off b x \<le> off b (rcv_nxt q)"
  shows "\<exists>q' reg. extractTo q x = Inr (q', reg) \<and> rcvq_inv b q' \<and> rcv_nxt q' = rcv_nxt q
    \<and> bytes_held b (regionList q') = bytes_held b (regionList q) - {..<off b x}
    \<and> (case reg of None \<Rightarrow> {} | Some r \<Rightarrow> region_set b r) = bytes_held b (regionList q) \<inter> {..<off b x}
    \<and> getAmountOfBufferedBytes q' = of_nat (card (bytes_held b (regionList q) - {..<off b x}))"
  using extractTo_exact [OF assms] sumLengths_card [of b]
  by (fastforce simp: getAmountOfBufferedBytes_def rcvq_inv_def)

theorem rcv_queue_extract_exact_witness:
  "\<exists>q' reg. extractTo (example_rcvq\<lparr>rcv_nxt := 2\<rparr>) 1 = Inr (q', reg)
    \<and> bytes_held 0xFFFFFFF0 (regionList q') = {17..<18} \<union> {26..<36}"
proof -
  have inv: "rcvq_inv 0xFFFFFFF0 (example_rcvq\<lparr>rcv_nxt := 2\<rparr>)"
    by (simp add: rcvq_inv_def example_rcvq_def apart_def region_ok_def in_win_def off_def)
  have "bytes_held 0xFFFFFFF0 (regionList (example_rcvq\<lparr>rcv_nxt := 2\<rparr>)) - {..<17} = {17..<18} \<union> {26..<36}"
    by (auto simp: example_rcvq_def region_set_def off_def)
  then show ?thesis
    using rcv_queue_extract_exact [OF inv, of 1] by (simp add: off_def) blast
qed

end
