(* ===== verification/TCP_Receive.thy ===== *)
theory TCP_Receive
  imports TCP_Data_Queues
begin

text \<open>
  The receive side of a connection in a data-transfer state,
  \<^verbatim>\<open>TCPConnection::isSegmentAcceptable\<close>, \<^verbatim>\<open>updateRcvQueueVars\<close> and
  \<^verbatim>\<open>updateRcvWnd\<close> of \<^verbatim>\<open>src/src/transport/tcp/TCPConnectionUtil.cc\<close>, and the
  segment text step of \<^verbatim>\<open>processSegment1stThru8th\<close> in
  \<^verbatim>\<open>TCPConnectionRcvSegment.cc\<close>: truncate to the window, insert into the receive queue,
  hand contiguous data to the application.  Shown: the application receives exactly the contiguous
  prefix of what arrived, each byte once.
\<close>

section \<open>State variables\<close>

record TCPStateVariables =
  snd_una :: u32
  snd_nxt :: u32
  snd_max :: u32
  snd_mss :: u32
  st_rcv_nxt :: u32
  rcv_wnd :: u32
  rcv_adv :: u32
  afterRto :: bool
  ws_enabled :: bool
  rcv_wnd_scale :: nat
  maxRcvBuffer :: u32
  usedRcvBuffer :: u32
  freeRcvBuffer :: u32

definition isSegmentAcceptable :: "TCPStateVariables \<Rightarrow> TCPSegment \<Rightarrow> bool" where
  "isSegmentAcceptable st g =
     (let n = payloadLength g; seqNo = sequenceNo g; rcvWndEnd = st_rcv_nxt st + rcv_wnd st;
          ret = (if n = 0 then
                   (if rcv_wnd st = 0 then seqNo = st_rcv_nxt st
                    else seqLE (st_rcv_nxt st) seqNo \<and> seqLE seqNo rcvWndEnd)
                 else
                   (if rcv_wnd st = 0 then False
                    else (seqLE (st_rcv_nxt st) seqNo \<and> seqLess seqNo rcvWndEnd)
                       \<or> (seqLess (st_rcv_nxt st) (seqNo + n) \<and> seqLE (seqNo + n) rcvWndEnd)))
      in if \<not> ret \<and> n = 0 then
           (if \<not> afterRto st then seqLess (snd_una st) (ackNo g) \<and> seqLE (ackNo g) (snd_nxt st)
            else seqLess (snd_una st) (ackNo g) \<and> seqLE (ackNo g) (snd_max st))
         else ret)"

definition updateRcvQueueVars :: "TCPStateVariables \<Rightarrow> TCPVirtualDataRcvQueue \<Rightarrow> TCPStateVariables" where
  "updateRcvQueueVars st q =
     (let free = getAmountOfFreeBytes q (maxRcvBuffer st)
      in st\<lparr>freeRcvBuffer := free, usedRcvBuffer := maxRcvBuffer st - free\<rparr>)"

definition hasEnoughSpaceForSegmentInReceiveQueue ::
  "TCPStateVariables \<Rightarrow> TCPVirtualDataRcvQueue \<Rightarrow> TCPSegment \<Rightarrow> bool" where
  "hasEnoughSpaceForSegmentInReceiveQueue st q g =
     (let firstSeq = getFirstSeqNo q
      in seqLE firstSeq (sequenceNo g) \<and> seqLE (sequenceNo g + payloadLength g) (firstSeq + maxRcvBuffer st))"

text \<open>\<^verbatim>\<open>while ((msg = receiveQueue->extractBytesUpTo(state->rcv_nxt)) != NULL) sendToApp(msg);\<close>\<close>

definition below :: "u32 \<Rightarrow> TCPVirtualDataRcvQueue \<Rightarrow> nat" where
  "below x q = length (filter (\<lambda>r. \<not> seqLE x (vr_begin r)) (regionList q))"

lemma extractBytesUpTo_below:
  "extractBytesUpTo q x = Inr (q', Some n) \<Longrightarrow> below x q' < below x q"
  by (auto simp: extractBytesUpTo_def extractTo_def Region_split_def below_def seqLE_def split: list.splits if_splits)

function deliver :: "TCPVirtualDataRcvQueue \<Rightarrow> u32 \<Rightarrow> (TCPVirtualDataRcvQueue \<times> u32 list) outcome" where
  "deliver q x =
     (case extractBytesUpTo q x of
        Inl e \<Rightarrow> Inl e
      | Inr (q', None) \<Rightarrow> Inr (q', [])
      | Inr (q', Some n) \<Rightarrow> outcome_bind (deliver q' x) (\<lambda>(q'', ns). Inr (q'', n # ns)))"
  by pat_completeness auto
termination
  by (relation "measure (\<lambda>(q, x). below x q)") (auto dest!: extractBytesUpTo_below)

declare deliver.simps [simp del]

text \<open>Segment text in ESTABLISHED, FIN-WAIT-1 and FIN-WAIT-2; the result lists the lengths passed to the
  application.\<close>

definition processSegmentText ::
  "TCPStateVariables \<Rightarrow> TCPVirtualDataRcvQueue \<Rightarrow> TCPSegment \<Rightarrow>
     (TCPStateVariables \<times> TCPVirtualDataRcvQueue \<times> u32 list) outcome" where
  "processSegmentText st q g =
     (if \<not> payloadLength g > 0 then Inr (st, q, [])
      else outcome_bind (truncateSegment g (st_rcv_nxt st) (st_rcv_nxt st + rcv_wnd st)) (\<lambda>g'.
        let st1 = updateRcvQueueVars st q in
        if hasEnoughSpaceForSegmentInReceiveQueue st1 q g'
        then outcome_bind (insertBytesFromSegment q g') (\<lambda>(q', nxt).
          if st_rcv_nxt st = nxt then Inr (st1\<lparr>st_rcv_nxt := nxt\<rparr>, q', [])
          else outcome_bind (deliver q' nxt) (\<lambda>(q'', out). Inr (st1\<lparr>st_rcv_nxt := nxt\<rparr>, q'', out)))
        else Inr (st1, q, [])))"

definition receiveData ::
  "TCPStateVariables \<Rightarrow> TCPVirtualDataRcvQueue \<Rightarrow> TCPSegment \<Rightarrow>
     (TCPStateVariables \<times> TCPVirtualDataRcvQueue \<times> u32 list) outcome" where
  "receiveData st q g = (if isSegmentAcceptable st g then processSegmentText st q g else Inr (st, q, []))"

section \<open>The window advertised\<close>

definition TCP_MAX_WIN :: u32 where
  "TCP_MAX_WIN = 65535"

definition updateRcvWnd :: "TCPStateVariables \<Rightarrow> TCPVirtualDataRcvQueue \<Rightarrow> (TCPStateVariables \<times> u16) outcome" where
  "updateRcvWnd st0 q =
     (let st = updateRcvQueueVars st0 q;
          win0 = freeRcvBuffer st;
          win1 = (if win0 < maxRcvBuffer st div 4 \<and> win0 < snd_mss st then 0 else win0);
          win2 = (if win1 < rcv_adv st - st_rcv_nxt st then rcv_adv st - st_rcv_nxt st else win1);
          win = (if win2 > TCP_MAX_WIN \<and> \<not> ws_enabled st then TCP_MAX_WIN else win2);
          st1 = (if win > 0 \<and> seqGE (st_rcv_nxt st + win) (rcv_adv st) then st\<lparr>rcv_adv := st_rcv_nxt st + win\<rparr> else st);
          st2 = st1\<lparr>rcv_wnd := win\<rparr>
      in if ws_enabled st \<and> \<not> rcv_wnd_scale st \<le> 14 then Inl (AssertFailed ''state->rcv_wnd_scale <= 14'')
         else
           let scaled = (if ws_enabled st then drop_bit (rcv_wnd_scale st) win else win)
           in if scaled = ucast (ucast scaled :: u16) then Inr (st2, ucast scaled)
              else Inl (AssertFailed ''scaled_rcv_wnd == (unsigned short)scaled_rcv_wnd''))"

section \<open>One segment\<close>

text \<open>Between segments: the queue and the connection agree on \<open>rcv_nxt\<close>, all held bytes are beyond it,
  and everything stays below a bound \<open>M\<close> of offsets from the initial sequence number.\<close>

definition rcv_state :: "u32 \<Rightarrow> nat \<Rightarrow> TCPStateVariables \<Rightarrow> TCPVirtualDataRcvQueue \<Rightarrow> bool" where
  "rcv_state b M st q \<longleftrightarrow> rcvq_inv b q \<and> rcv_nxt q = st_rcv_nxt st \<and> off b (rcv_nxt q) \<le> M
     \<and> bytes_held b (regionList q) \<subseteq> {off b (rcv_nxt q)<..<M}"

definition seg_bytes :: "u32 \<Rightarrow> TCPSegment \<Rightarrow> nat set" where
  "seg_bytes b g = {off b (sequenceNo g)..<off b (sequenceNo g) + unat (payloadLength g)}"

lemma next_gap_bound: "next_gap S n m \<Longrightarrow> S \<subseteq> {..<M} \<Longrightarrow> n \<le> M \<Longrightarrow> m \<le> M"
  by (cases "n = m") (force simp: next_gap_def)+

lemma rcv_state_cong: "st_rcv_nxt st' = st_rcv_nxt st \<Longrightarrow> rcv_state b M st' q \<longleftrightarrow> rcv_state b M st q"
  by (simp only: rcv_state_def)

lemma subset_above:
  fixes n :: nat
  assumes "S \<subseteq> {n..<M}" "n \<notin> S"
  shows "S \<subseteq> {n<..<M}"
proof
  fix k assume "k \<in> S"
  then have "n \<le> k" "k < M" "k \<noteq> n" using assms by auto
  then show "k \<in> {n<..<M}" by simp
qed

lemma region_set_length:
  assumes "region_set b r = {n..<m}" "n < m"
  shows "unat (Region_getLength r) = m - n"
proof -
  have "n \<in> {off b (vr_begin r)..<off b (vr_end r)}" using assms by (auto simp: region_set_def)
  then have less: "off b (vr_begin r) < off b (vr_end r)" by simp
  then have "off b (vr_begin r) = n" "off b (vr_end r) = m"
    using assms atLeastLessThan_eq_iff [OF less assms(2)] by (simp_all add: region_set_def)
  then show ?thesis
    using unat_diff_off [of b "vr_begin r" "vr_end r"] less by (simp add: Region_getLength_def)
qed

text \<open>The extraction loop hands over everything below \<open>rcv_nxt\<close> in one packet.\<close>

lemma deliver_exact:
  assumes inv: "rcvq_inv b q" and held: "bytes_held b (regionList q) \<inter> {..<off b (rcv_nxt q)} = {n..<off b (rcv_nxt q)}"
    and n: "n < off b (rcv_nxt q)"
  shows "\<exists>q' k. deliver q (rcv_nxt q) = Inr (q', [k]) \<and> unat k = off b (rcv_nxt q) - n \<and> rcvq_inv b q'
    \<and> rcv_nxt q' = rcv_nxt q \<and> bytes_held b (regionList q') = bytes_held b (regionList q) - {..<off b (rcv_nxt q)}"
proof -
  let ?x = "rcv_nxt q"
  obtain q1 reg where q1: "extractTo q ?x = Inr (q1, reg)" "rcvq_inv b q1" "rcv_nxt q1 = ?x"
    "bytes_held b (regionList q1) = bytes_held b (regionList q) - {..<off b ?x}"
    "(case reg of None \<Rightarrow> {} | Some r \<Rightarrow> region_set b r) = {n..<off b ?x}" "reg \<noteq> None"
    using extractTo_exact [OF inv, of ?x] held n by auto
  then obtain r where r: "reg = Some r" "region_set b r = {n..<off b ?x}" by auto
  obtain q2 reg2 where q2: "extractTo q1 ?x = Inr (q2, reg2)" "rcvq_inv b q2" "rcv_nxt q2 = ?x"
    "bytes_held b (regionList q2) = bytes_held b (regionList q1) - {..<off b ?x}"
    "reg2 \<noteq> None \<longleftrightarrow> bytes_held b (regionList q1) \<inter> {..<off b ?x} \<noteq> {}"
    using extractTo_exact [OF q1(2), of ?x] q1(3) by auto
  have none: "reg2 = None" using q2(5) q1(4) by auto
  have "deliver q ?x = Inr (q2, [Region_getLength r])"
    using q1(1) r(1) q2(1) none by (simp add: deliver.simps [of q] deliver.simps [of q1] extractBytesUpTo_def)
  moreover have "unat (Region_getLength r) = off b ?x - n"
    by (rule region_set_length [OF r(2) n])
  ultimately show ?thesis using q2 q1 by auto
qed

lemma truncate_to_window:
  assumes g: "off b (sequenceNo g) + unat (payloadLength g) < 2 ^ 31" "payloadList g = []" "0 < payloadLength g"
    and w: "off b nxt + unat wnd < 2 ^ 31"
    and acc: "off b (sequenceNo g) < off b nxt + unat wnd" "off b nxt < off b (sequenceNo g) + unat (payloadLength g)" "0 < wnd"
  shows "\<exists>g'. truncateSegment g nxt (nxt + wnd) = Inr g'
    \<and> off b (sequenceNo g') = max (off b (sequenceNo g)) (off b nxt)
    \<and> off b (sequenceNo g') + unat (payloadLength g') = min (off b (sequenceNo g) + unat (payloadLength g)) (off b nxt + unat wnd)
    \<and> 0 < payloadLength g'"
proof -
  have e: "off b (nxt + wnd) = off b nxt + unat wnd" by (rule off_add) (use w in simp)
  have win: "in_win b nxt" "in_win b (nxt + wnd)" "off b nxt \<le> off b (nxt + wnd)" using w e by (simp_all add: in_win_def)
  have ne: "payloadLength g \<noteq> 0" using g(3) by auto
  obtain g' where g': "truncateSegment g nxt (nxt + wnd) = Inr g'"
    "off b (sequenceNo g') = max (off b (sequenceNo g)) (off b nxt)"
    "off b (sequenceNo g') + unat (payloadLength g') = min (off b (sequenceNo g) + unat (payloadLength g)) (off b (nxt + wnd))"
    using truncateSegment_common [OF g(1) win _ _ ne] g(2) acc e by auto
  moreover have "0 < unat (payloadLength g')"
    using g'(2,3) e acc g(3) by (auto simp: word_less_nat_alt max_def min_def split: if_splits)
  ultimately show ?thesis using e by (auto simp: word_less_nat_alt)
qed

lemma acceptable_overlaps:
  assumes "isSegmentAcceptable st g" "0 < payloadLength g"
    and g: "off b (sequenceNo g) + unat (payloadLength g) < 2 ^ 31"
    and w: "off b (st_rcv_nxt st) + unat (rcv_wnd st) < 2 ^ 31"
  shows "off b (sequenceNo g) < off b (st_rcv_nxt st) + unat (rcv_wnd st)
    \<and> off b (st_rcv_nxt st) < off b (sequenceNo g) + unat (payloadLength g) \<and> 0 < rcv_wnd st"
proof -
  have e: "off b (st_rcv_nxt st + rcv_wnd st) = off b (st_rcv_nxt st) + unat (rcv_wnd st)"
    "off b (sequenceNo g + payloadLength g) = off b (sequenceNo g) + unat (payloadLength g)"
    using off_add [of b "st_rcv_nxt st" "rcv_wnd st"] off_add [of b "sequenceNo g" "payloadLength g"] w g by simp_all
  have win: "in_win b (st_rcv_nxt st)" "in_win b (sequenceNo g)" "in_win b (st_rcv_nxt st + rcv_wnd st)"
    "in_win b (sequenceNo g + payloadLength g)"
    using w g e by (simp_all add: in_win_def)
  have ne: "payloadLength g \<noteq> 0" "0 < unat (payloadLength g)" using assms(2) by (auto simp: word_less_nat_alt)
  then show ?thesis
    using assms(1) e seqLE_off [OF win(1,2)] seqLess_off [OF win(2,3)] seqLess_off [OF win(1,4)] seqLE_off [OF win(4,3)]
    by (auto simp: isSegmentAcceptable_def Let_def word_gt_0 split: if_splits)
qed

definition held :: "u32 \<Rightarrow> TCPVirtualDataRcvQueue \<Rightarrow> nat set" where
  "held b q = {..<off b (rcv_nxt q)} \<union> bytes_held b (regionList q)"

text \<open>After an insertion that moved \<open>rcv_nxt\<close>, the extraction loop empties the queue up to it.\<close>

lemma insert_and_deliver:
  assumes st: "rcv_state b M st q" and M: "M < 2 ^ 31"
    and g: "0 < payloadLength g" "off b (st_rcv_nxt st) \<le> off b (sequenceNo g)"
      "off b (sequenceNo g) + unat (payloadLength g) \<le> M"
  shows "\<exists>q1 q' out. insertBytesFromSegment q g = Inr (q1, rcv_nxt q')
    \<and> (if st_rcv_nxt st = rcv_nxt q' then q' = q1 \<and> out = [] else deliver q1 (rcv_nxt q') = Inr (q', out))
    \<and> rcv_state b M (st1\<lparr>st_rcv_nxt := rcv_nxt q'\<rparr>) q'
    \<and> held b q' = held b q \<union> seg_bytes b g \<and> off b (rcv_nxt q') = off b (rcv_nxt q) + sum_list (map unat out)"
proof -
  have inv: "rcvq_inv b q" and nxt: "rcv_nxt q = st_rcv_nxt st" "off b (rcv_nxt q) \<le> M"
    and above: "bytes_held b (regionList q) \<subseteq> {off b (rcv_nxt q)<..<M}"
    using st unfolding rcv_state_def by blast+
  let ?n = "off b (rcv_nxt q)"
  obtain q1 where q1: "insertBytesFromSegment q g = Inr (q1, rcv_nxt q1)" "rcvq_inv b q1"
    "bytes_held b (regionList q1) = bytes_held b (regionList q) \<union> seg_bytes b g"
    "next_gap (bytes_held b (regionList q1)) ?n (off b (rcv_nxt q1))"
    using insertBytes_exact [OF inv, of g] M g nxt by (auto simp: seg_bytes_def word_less_nat_alt)
  let ?m = "off b (rcv_nxt q1)" and ?B1 = "bytes_held b (regionList q1)"
  have sub: "?B1 \<subseteq> {?n..<M}" using q1(3) above g nxt by (auto simp: seg_bytes_def)
  have gap: "?n \<le> ?m" "?m \<notin> ?B1" "{?n..<?m} \<subseteq> ?B1" using q1(4) by (simp_all add: next_gap_def)
  have mM: "?m \<le> M" by (rule next_gap_bound [OF q1(4)]) (use sub nxt in auto)
  show ?thesis
  proof (cases "rcv_nxt q1 = rcv_nxt q")
    case True
    then have "?B1 \<subseteq> {?n<..<M}" using subset_above [OF sub] gap(2) by simp
    then have "rcv_state b M (st1\<lparr>st_rcv_nxt := rcv_nxt q1\<rparr>) q1"
      using q1(2) True nxt by (simp add: rcv_state_def)
    moreover have "held b q1 = held b q \<union> seg_bytes b g"
      using q1(3) True by (auto simp: held_def)
    ultimately show ?thesis
      using q1(1) True nxt by (intro exI [of _ q1] exI [of _ "[]"]) simp
  next
    case False
    then have less: "?n < ?m" using gap(1) off_eq_iff [of b "rcv_nxt q" "rcv_nxt q1"] by auto
    have cut: "?B1 \<inter> {..<?m} = {?n..<?m}" using gap(3) sub by auto
    obtain q2 k where q2: "deliver q1 (rcv_nxt q1) = Inr (q2, [k])" "unat k = ?m - ?n" "rcvq_inv b q2"
      "rcv_nxt q2 = rcv_nxt q1" "bytes_held b (regionList q2) = ?B1 - {..<?m}"
      using deliver_exact [OF q1(2) cut less] by blast
    have "?B1 - {..<?m} \<subseteq> {?m..<M}" using sub by auto
    then have "bytes_held b (regionList q2) \<subseteq> {?m<..<M}"
      unfolding q2(5) using gap(2) by (intro subset_above) auto
    then have "rcv_state b M (st1\<lparr>st_rcv_nxt := rcv_nxt q2\<rparr>) q2"
      using q2 mM by (simp add: rcv_state_def)
    moreover have "held b q2 = held b q \<union> seg_bytes b g"
      using q2(4,5) q1(3) gap cut less by (auto simp: held_def)
    ultimately show ?thesis
      using q1(1) q2 False nxt less by (intro exI [of _ q1] exI [of _ q2] exI [of _ "[k]"]) simp
  qed
qed

lemma receiveData_step:
  assumes st: "rcv_state b M st q" and M: "M + unat (rcv_wnd st) < 2 ^ 31"
    and g: "payloadList g = []" "off b (sequenceNo g) + unat (payloadLength g) \<le> M"
  shows "\<exists>st' q' out A. receiveData st q g = Inr (st', q', out) \<and> rcv_state b M st' q' \<and> rcv_wnd st' = rcv_wnd st
    \<and> A \<subseteq> seg_bytes b g \<and> held b q' = held b q \<union> A \<and> off b (rcv_nxt q') = off b (rcv_nxt q) + sum_list (map unat out)"
proof (cases "isSegmentAcceptable st g \<and> 0 < payloadLength g")
  case False
  then have "receiveData st q g = Inr (st, q, [])"
    by (auto simp: receiveData_def processSegmentText_def)
  then show ?thesis using st by (intro exI [of _ st] exI [of _ q] exI [of _ "[]"] exI [of _ "{}"]) simp
next
  case True
  have nxt: "rcv_nxt q = st_rcv_nxt st" "off b (rcv_nxt q) \<le> M"
    using st unfolding rcv_state_def by blast+
  have w: "off b (st_rcv_nxt st) + unat (rcv_wnd st) < 2 ^ 31" using nxt M by simp
  have small: "off b (sequenceNo g) + unat (payloadLength g) < 2 ^ 31" using g(2) M by simp
  note acc = acceptable_overlaps [OF _ _ small w]
  obtain g' where g': "truncateSegment g (st_rcv_nxt st) (st_rcv_nxt st + rcv_wnd st) = Inr g'"
    "off b (sequenceNo g') = max (off b (sequenceNo g)) (off b (st_rcv_nxt st))"
    "off b (sequenceNo g') + unat (payloadLength g')
       = min (off b (sequenceNo g) + unat (payloadLength g)) (off b (st_rcv_nxt st) + unat (rcv_wnd st))"
    "0 < payloadLength g'"
    using truncate_to_window [OF small g(1) _ w] acc True by blast
  let ?st1 = "updateRcvQueueVars st q"
  have sub: "seg_bytes b g' \<subseteq> seg_bytes b g" using g'(2,3) by (auto simp: seg_bytes_def)
  show ?thesis
  proof (cases "hasEnoughSpaceForSegmentInReceiveQueue ?st1 q g'")
    case False
    then have "receiveData st q g = Inr (?st1, q, [])"
      using True g'(1) by (simp add: receiveData_def processSegmentText_def Let_def)
    moreover have "st_rcv_nxt ?st1 = st_rcv_nxt st" "rcv_wnd ?st1 = rcv_wnd st"
      by (simp_all add: updateRcvQueueVars_def Let_def)
    moreover from this have "rcv_state b M ?st1 q"
      using st rcv_state_cong by blast
    ultimately show ?thesis
      by (intro exI [of _ ?st1] exI [of _ q] exI [of _ "[]"] exI [of _ "{}"]) simp
  next
    case space: True
    have le: "off b (st_rcv_nxt st) \<le> off b (sequenceNo g')" "off b (sequenceNo g') + unat (payloadLength g') \<le> M"
      using g'(2,3) g(2) by auto
    obtain q1 q' out where i: "insertBytesFromSegment q g' = Inr (q1, rcv_nxt q')"
      "if st_rcv_nxt st = rcv_nxt q' then q' = q1 \<and> out = [] else deliver q1 (rcv_nxt q') = Inr (q', out)"
      "rcv_state b M (?st1\<lparr>st_rcv_nxt := rcv_nxt q'\<rparr>) q'"
      "held b q' = held b q \<union> seg_bytes b g'" "off b (rcv_nxt q') = off b (rcv_nxt q) + sum_list (map unat out)"
      using insert_and_deliver [OF st _ g'(4) le, of ?st1] M by auto
    have "receiveData st q g = Inr (?st1\<lparr>st_rcv_nxt := rcv_nxt q'\<rparr>, q', out)"
      using True g'(1) space i(1,2)
      by (auto simp: receiveData_def processSegmentText_def Let_def split: if_splits)
    moreover have "rcv_wnd (?st1\<lparr>st_rcv_nxt := rcv_nxt q'\<rparr>) = rcv_wnd st"
      by (simp add: updateRcvQueueVars_def Let_def)
    ultimately show ?thesis using i sub by blast
  qed
qed

section \<open>The stream\<close>

fun receiveAll ::
  "TCPStateVariables \<Rightarrow> TCPVirtualDataRcvQueue \<Rightarrow> TCPSegment list \<Rightarrow>
     (TCPStateVariables \<times> TCPVirtualDataRcvQueue \<times> u32 list) outcome" where
  "receiveAll st q [] = Inr (st, q, [])"
| "receiveAll st q (g # gs) =
     outcome_bind (receiveData st q g) (\<lambda>(st', q', out).
       outcome_bind (receiveAll st' q' gs) (\<lambda>(st'', q'', out'). Inr (st'', q'', out @ out')))"

lemma receiveAll_step:
  assumes "rcv_state b M st q" "M + unat (rcv_wnd st) < 2 ^ 31"
    and "\<forall>g\<in>set gs. payloadList g = [] \<and> off b (sequenceNo g) + unat (payloadLength g) \<le> M"
  shows "\<exists>st' q' out A. receiveAll st q gs = Inr (st', q', out) \<and> rcv_state b M st' q'
    \<and> A \<subseteq> (\<Union>g\<in>set gs. seg_bytes b g) \<and> held b q' = held b q \<union> A
    \<and> off b (rcv_nxt q') = off b (rcv_nxt q) + sum_list (map unat out)"
  using assms
proof (induction gs arbitrary: st q)
  case Nil
  then show ?case by (auto intro!: exI [of _ "{}"])
next
  case (Cons g gs)
  obtain st1 q1 out1 A1 where s1: "receiveData st q g = Inr (st1, q1, out1)" "rcv_state b M st1 q1"
    "rcv_wnd st1 = rcv_wnd st" "A1 \<subseteq> seg_bytes b g" "held b q1 = held b q \<union> A1"
    "off b (rcv_nxt q1) = off b (rcv_nxt q) + sum_list (map unat out1)"
    using receiveData_step [OF Cons.prems(1,2), of g] Cons.prems(3) by auto
  obtain st2 q2 out2 A2 where s2: "receiveAll st1 q1 gs = Inr (st2, q2, out2)" "rcv_state b M st2 q2"
    "A2 \<subseteq> (\<Union>g\<in>set gs. seg_bytes b g)" "held b q2 = held b q1 \<union> A2"
    "off b (rcv_nxt q2) = off b (rcv_nxt q1) + sum_list (map unat out2)"
    using Cons.IH [OF s1(2)] Cons.prems(2,3) s1(3) by auto
  have "receiveAll st q (g # gs) = Inr (st2, q2, out1 @ out2)" using s1(1) s2(1) by simp
  moreover have "A1 \<union> A2 \<subseteq> (\<Union>g\<in>set (g # gs). seg_bytes b g)" using s1(4) s2(3) by auto
  moreover have "held b q2 = held b q \<union> (A1 \<union> A2)" using s1(5) s2(4) by auto
  ultimately show ?case
    using s1(6) s2(2,5) by (intro exI [of _ st2] exI [of _ q2] exI [of _ "out1 @ out2"] exI [of _ "A1 \<union> A2"]) simp
qed


definition example_tcb :: TCPStateVariables where
  "example_tcb = \<lparr>snd_una = 1, snd_nxt = 1, snd_max = 1, snd_mss = 536, st_rcv_nxt = 0xFFFFFFF0, rcv_wnd = 1000,
     rcv_adv = 0xFFFFFFF0 + 1000, afterRto = False, ws_enabled = False, rcv_wnd_scale = 0, maxRcvBuffer = 1000,
     usedRcvBuffer = 0, freeRcvBuffer = 1000\<rparr>"


section \<open>The advertised window does not shrink\<close>

text \<open>
  C20: without window scaling, and as long as what was advertised fits in 16 bits, \<open>updateRcvWnd\<close> fails
  no ASSERT, announces exactly the new \<open>rcv_wnd\<close>, and the right edge of the new window is not before
  the right edge advertised earlier.
\<close>

theorem updateRcvWnd_never_shrinks:
  assumes "\<not> ws_enabled st" and adv: "rcv_adv st - st_rcv_nxt st \<le> 65535"
  shows "\<exists>st' w. updateRcvWnd st q = Inr (st', w) \<and> ucast w = rcv_wnd st' \<and> st_rcv_nxt st' = st_rcv_nxt st
    \<and> seqLE (rcv_adv st) (st_rcv_nxt st + rcv_wnd st')
    \<and> rcv_adv st' = st_rcv_nxt st + rcv_wnd st'"
proof -
  define st1 where "st1 = updateRcvQueueVars st q"
  have same: "st_rcv_nxt st1 = st_rcv_nxt st" "rcv_adv st1 = rcv_adv st" "\<not> ws_enabled st1"
    using assms(1) by (simp_all add: st1_def updateRcvQueueVars_def Let_def)
  define win1 where "win1 = (if freeRcvBuffer st1 < maxRcvBuffer st1 div 4 \<and> freeRcvBuffer st1 < snd_mss st1 then 0 else freeRcvBuffer st1)"
  define d where "d = rcv_adv st - st_rcv_nxt st"
  define win where "win = (if (if win1 < d then d else win1) > TCP_MAX_WIN then TCP_MAX_WIN else (if win1 < d then d else win1))"
  have win: "d \<le> win" "win \<le> 65535"
    using adv by (auto simp: win_def d_def [symmetric] TCP_MAX_WIN_def not_less)
  then have dw: "unat (win - d) = unat win - unat d" "unat win \<le> 65535"
    using unat_sub [of d win] by (simp_all add: word_le_nat_alt)
  then have ge: "seqGE (st_rcv_nxt st + win) (rcv_adv st)"
    by (simp add: seqGE_def word_less_31 d_def algebra_simps)
  have fit: "win = ucast (ucast win :: u16)"
    using dw(2) by (simp add: word_unat_eq_iff unsigned_ucast_eq unsigned_take_bit_eq take_bit_nat_eq_self)
  have zero: "rcv_adv st = st_rcv_nxt st" if "win = 0"
    using win(1) that by (simp add: d_def word_le_nat_alt unat_eq_0)
  let ?st2 = "(if win > 0 \<and> seqGE (st_rcv_nxt st + win) (rcv_adv st) then st1\<lparr>rcv_adv := st_rcv_nxt st + win\<rparr> else st1)\<lparr>rcv_wnd := win\<rparr>"
  have "updateRcvWnd st q = Inr (?st2, ucast win)"
    unfolding updateRcvWnd_def st1_def [symmetric] Let_def same win1_def [symmetric] d_def [symmetric]
    using same(3) fit by (simp add: win_def)
  moreover have "rcv_adv ?st2 = st_rcv_nxt st + win"
    using ge zero same by (cases "win = 0") (auto simp: word_gt_0)
  ultimately show ?thesis
    using fit ge same by (auto simp: seqGE_seqLE)
qed

theorem updateRcvWnd_never_shrinks_witness:
  "\<exists>st' w. updateRcvWnd example_tcb (rcvq_init 0xFFFFFFF0) = Inr (st', w) \<and> ucast w = rcv_wnd st'
     \<and> rcv_adv st' = 0xFFFFFFF0 + rcv_wnd st'"
  using updateRcvWnd_never_shrinks [of example_tcb "rcvq_init 0xFFFFFFF0"] by (auto simp: example_tcb_def)

end
