(* ===== verification/TCP_SACK_Queue.thy ===== *)
theory TCP_SACK_Queue
  imports TCP_Seq
begin

text \<open>
  The retransmission queue of a SACK-enabled TCP sender,
  \<^verbatim>\<open>src/src/transport/tcp/TCPSACKRexmitQueue.{h,cc}\<close>.  The queue is a list of regions
  with two flags; the code walks it with iterators and splits regions.  What it stands for is a
  scoreboard with a pair of flags per outstanding byte, and the operations are shown to be the obvious
  operations on that scoreboard, none of the internal ASSERTs failing.
\<close>

section \<open>State\<close>

record RexmitRegion =
  rx_begin :: u32
  rx_end :: u32
  rx_sacked :: bool
  rx_rexmitted :: bool

record TCPSACKRexmitQueue =
  rexmitQueue :: "RexmitRegion list"
  rq_begin :: u32
  rq_end :: u32

definition rq_new :: TCPSACKRexmitQueue where
  "rq_new = \<lparr>rexmitQueue = [], rq_begin = 0, rq_end = 0\<rparr>"

definition rq_init :: "TCPSACKRexmitQueue \<Rightarrow> u32 \<Rightarrow> TCPSACKRexmitQueue" where
  "rq_init q seqNum = q\<lparr>rq_begin := seqNum, rq_end := seqNum\<rparr>"

fun checkRegions :: "u32 \<Rightarrow> RexmitRegion list \<Rightarrow> bool \<Rightarrow> u32 \<times> bool" where
  "checkRegions b [] f = (b, f)"
| "checkRegions b (i # is) f =
     checkRegions (rx_end i) is (f \<and> b = rx_begin i \<and> seqLess (rx_begin i) (rx_end i))"

definition checkQueue :: "TCPSACKRexmitQueue \<Rightarrow> bool" where
  "checkQueue q = (case checkRegions (rq_begin q) (rexmitQueue q) True of (b, f) \<Rightarrow> f \<and> b = rq_end q)"

definition assert_queue :: "TCPSACKRexmitQueue \<Rightarrow> TCPSACKRexmitQueue outcome" where
  "assert_queue q = (if checkQueue q then Inr q else Inl (AssertFailed ''checkQueue()''))"

text \<open>The search \<^verbatim>\<open>while (i != end && seqLE(i->endSeqNum, x)) i++\<close> splits the list at the iterator.\<close>

definition passed :: "u32 \<Rightarrow> RexmitRegion list \<Rightarrow> RexmitRegion list" where
  "passed x rs = takeWhile (\<lambda>i. seqLE (rx_end i) x) rs"

definition rest_from :: "u32 \<Rightarrow> RexmitRegion list \<Rightarrow> RexmitRegion list" where
  "rest_from x rs = dropWhile (\<lambda>i. seqLE (rx_end i) x) rs"

section \<open>Operations that change the queue\<close>

definition rq_discardUpTo :: "TCPSACKRexmitQueue \<Rightarrow> u32 \<Rightarrow> TCPSACKRexmitQueue outcome" where
  "rq_discardUpTo q seqNum =
     (if \<not> (seqLE (rq_begin q) seqNum \<and> seqLE seqNum (rq_end q))
      then Inl (AssertFailed ''seqLE(begin, seqNum) && seqLE(seqNum, end)'')
      else case rest_from seqNum (rexmitQueue q) of
        [] \<Rightarrow> assert_queue (q\<lparr>rexmitQueue := [], rq_begin := seqNum\<rparr>)
      | i # is \<Rightarrow>
          if \<not> (seqLE (rx_begin i) seqNum \<and> seqLess seqNum (rx_end i))
          then Inl (AssertFailed ''seqLE(i->beginSeqNum, seqNum) && seqLess(seqNum, i->endSeqNum)'')
          else assert_queue (q\<lparr>rexmitQueue := i\<lparr>rx_begin := seqNum\<rparr> # is, rq_begin := seqNum\<rparr>))"

text \<open>The iterator's region is cut in two if it does not start at \<open>x\<close>; the iterator stays on the second part.\<close>

definition chunk :: "u32 \<Rightarrow> RexmitRegion list \<Rightarrow> RexmitRegion \<Rightarrow> RexmitRegion list \<Rightarrow> RexmitRegion list \<times> RexmitRegion list" where
  "chunk x before i after =
     (if rx_begin i \<noteq> x then (before @ [i\<lparr>rx_end := x\<rparr>], i\<lparr>rx_begin := x\<rparr> # after) else (before, i # after))"

definition enqueue_finish :: "u32 \<Rightarrow> RexmitRegion list \<Rightarrow> u32 \<Rightarrow> bool \<Rightarrow> TCPSACKRexmitQueue outcome" where
  "enqueue_finish toSeqNum rs fromSeqNum found =
     (if fromSeqNum \<noteq> toSeqNum then Inl (AssertFailed ''fromSeqNum == toSeqNum'')
      else if \<not> found then Inl (AssertFailed ''found'')
      else assert_queue \<lparr>rexmitQueue = rs, rq_begin = rx_begin (hd rs), rq_end = rx_end (last rs)\<rparr>)"

text \<open>The marking loop and what follows it; the loop leaves \<open>fromSeqNum\<close> at the end of the last region it marked.\<close>

definition enqueue_mark :: "u32 \<Rightarrow> u32 \<Rightarrow> RexmitRegion list \<Rightarrow> RexmitRegion list \<Rightarrow> TCPSACKRexmitQueue outcome" where
  "enqueue_mark fromSeqNum toSeqNum before cur =
     (let marked = map (\<lambda>i. i\<lparr>rx_rexmitted := True\<rparr>) (passed toSeqNum cur);
          fromSeqNum' = (if marked = [] then fromSeqNum else rx_end (last marked))
      in
      if fromSeqNum' = toSeqNum
      then enqueue_finish toSeqNum (before @ marked @ rest_from toSeqNum cur) fromSeqNum' (marked \<noteq> [])
      else (case rest_from toSeqNum cur of
          [] \<Rightarrow> enqueue_finish toSeqNum (before @ marked @ [\<lparr>rx_begin = fromSeqNum', rx_end = toSeqNum,
                  rx_sacked = False, rx_rexmitted = False\<rparr>]) toSeqNum True
        | j # js \<Rightarrow>
            if \<not> seqLess (rx_begin j) toSeqNum
            then Inl (AssertFailed ''i == rexmitQueue.end() || seqLess(i->beginSeqNum, toSeqNum)'')
            else enqueue_finish toSeqNum (before @ marked @ [\<lparr>rx_begin = fromSeqNum', rx_end = toSeqNum,
                   rx_sacked = rx_sacked j, rx_rexmitted = True\<rparr>, j\<lparr>rx_begin := toSeqNum\<rparr>] @ js) toSeqNum True))"

definition enqueueSentData :: "TCPSACKRexmitQueue \<Rightarrow> u32 \<Rightarrow> u32 \<Rightarrow> TCPSACKRexmitQueue outcome" where
  "enqueueSentData q fromSeqNum toSeqNum =
     (if \<not> (seqLE (rq_begin q) fromSeqNum \<and> seqLE fromSeqNum (rq_end q))
      then Inl (AssertFailed ''seqLE(begin, fromSeqNum) && seqLE(fromSeqNum, end)'')
      else if \<not> seqLess fromSeqNum toSeqNum then Inl (AssertFailed ''seqLess(fromSeqNum, toSeqNum)'')
      else if rexmitQueue q = [] \<or> rq_end q = fromSeqNum
      then enqueue_finish toSeqNum (rexmitQueue q @ [\<lparr>rx_begin = fromSeqNum, rx_end = toSeqNum,
             rx_sacked = False, rx_rexmitted = False\<rparr>]) toSeqNum True
      else case rest_from fromSeqNum (rexmitQueue q) of
        [] \<Rightarrow> Inl (AssertFailed ''i != rexmitQueue.end()'')
      | i # after \<Rightarrow>
          if \<not> (seqLE (rx_begin i) fromSeqNum \<and> seqLess fromSeqNum (rx_end i))
          then Inl (AssertFailed ''seqLE(i->beginSeqNum, fromSeqNum) && seqLess(fromSeqNum, i->endSeqNum)'')
          else (case chunk fromSeqNum (passed fromSeqNum (rexmitQueue q)) i after of
                  (before, cur) \<Rightarrow> enqueue_mark fromSeqNum toSeqNum before cur))"

definition setSackedBit :: "TCPSACKRexmitQueue \<Rightarrow> u32 \<Rightarrow> u32 \<Rightarrow> TCPSACKRexmitQueue outcome" where
  "setSackedBit q fromSeqNum0 toSeqNum =
     (let fromSeqNum = (if seqLess fromSeqNum0 (rq_begin q) then rq_begin q else fromSeqNum0) in
      if \<not> seqLess fromSeqNum (rq_end q) then Inl (AssertFailed ''seqLess(fromSeqNum, end)'')
      else if \<not> (seqLess (rq_begin q) toSeqNum \<and> seqLE toSeqNum (rq_end q))
      then Inl (AssertFailed ''seqLess(begin, toSeqNum) && seqLE(toSeqNum, end)'')
      else if \<not> seqLess fromSeqNum toSeqNum then Inl (AssertFailed ''seqLess(fromSeqNum, toSeqNum)'')
      else if rexmitQueue q = [] then assert_queue q
      else case rest_from fromSeqNum (rexmitQueue q) of
        [] \<Rightarrow> Inl (AssertFailed ''i != rexmitQueue.end()'')
      | i # after \<Rightarrow>
          if \<not> (seqLE (rx_begin i) fromSeqNum \<and> seqLess fromSeqNum (rx_end i))
          then Inl (AssertFailed ''seqLE(i->beginSeqNum, fromSeqNum) && seqLess(fromSeqNum, i->endSeqNum)'')
          else
            let (before, cur) = chunk fromSeqNum (passed fromSeqNum (rexmitQueue q)) i after;
                marked = map (\<lambda>i. if seqGE (rx_begin i) fromSeqNum then i\<lparr>rx_sacked := True\<rparr> else i) (passed toSeqNum cur)
            in assert_queue (q\<lparr>rexmitQueue := before @ marked @
                 (case rest_from toSeqNum cur of
                    [] \<Rightarrow> []
                  | j # js \<Rightarrow>
                      if seqLess (rx_begin j) toSeqNum \<and> seqLess toSeqNum (rx_end j)
                      then [j\<lparr>rx_end := toSeqNum, rx_sacked := True\<rparr>, j\<lparr>rx_begin := toSeqNum\<rparr>] @ js
                      else j # js)\<rparr>))"

definition resetSackedBit :: "TCPSACKRexmitQueue \<Rightarrow> TCPSACKRexmitQueue" where
  "resetSackedBit q = q\<lparr>rexmitQueue := map (\<lambda>i. i\<lparr>rx_sacked := False\<rparr>) (rexmitQueue q)\<rparr>"

definition resetRexmittedBit :: "TCPSACKRexmitQueue \<Rightarrow> TCPSACKRexmitQueue" where
  "resetRexmittedBit q = q\<lparr>rexmitQueue := map (\<lambda>i. i\<lparr>rx_rexmitted := False\<rparr>) (rexmitQueue q)\<rparr>"

section \<open>Queries\<close>

definition getSackedBit :: "TCPSACKRexmitQueue \<Rightarrow> u32 \<Rightarrow> bool outcome" where
  "getSackedBit q seqNum =
     (if \<not> (seqLE (rq_begin q) seqNum \<and> seqLE seqNum (rq_end q))
      then Inl (AssertFailed ''seqLE(begin, seqNum) && seqLE(seqNum, end)'')
      else if rq_end q = seqNum then Inr False
      else case rest_from seqNum (rexmitQueue q) of
        [] \<Rightarrow> Inl (AssertFailed ''i != rexmitQueue.end()'')
      | i # _ \<Rightarrow>
          if seqLE (rx_begin i) seqNum \<and> seqLess seqNum (rx_end i) then Inr (rx_sacked i)
          else Inl (AssertFailed ''seqLE(i->beginSeqNum, seqNum) && seqLess(seqNum, i->endSeqNum)''))"

fun highestWith :: "(RexmitRegion \<Rightarrow> bool) \<Rightarrow> u32 \<Rightarrow> RexmitRegion list \<Rightarrow> u32" where
  "highestWith P b [] = b"
| "highestWith P b (i # is) = (if P i then rx_end i else highestWith P b is)"

definition getHighestSackedSeqNum :: "TCPSACKRexmitQueue \<Rightarrow> u32" where
  "getHighestSackedSeqNum q = highestWith rx_sacked (rq_begin q) (rev (rexmitQueue q))"

definition getHighestRexmittedSeqNum :: "TCPSACKRexmitQueue \<Rightarrow> u32" where
  "getHighestRexmittedSeqNum q = highestWith rx_rexmitted (rq_begin q) (rev (rexmitQueue q))"

fun sackedOrRexmittedRun :: "u32 \<Rightarrow> RexmitRegion list \<Rightarrow> u32 \<Rightarrow> u32 outcome" where
  "sackedOrRexmittedRun fromSeqNum [] bytes = Inr bytes"
| "sackedOrRexmittedRun fromSeqNum (i # is) bytes =
     (if rx_sacked i \<or> rx_rexmitted i
      then (if seqLE (rx_begin i) fromSeqNum \<and> seqLess fromSeqNum (rx_end i)
            then sackedOrRexmittedRun (rx_end i) is (bytes + (rx_end i - fromSeqNum))
            else Inl (AssertFailed ''seqLE(i->beginSeqNum, fromSeqNum) && seqLess(fromSeqNum, i->endSeqNum)''))
      else Inr bytes)"

definition checkRexmitQueueForSackedOrRexmittedSegments :: "TCPSACKRexmitQueue \<Rightarrow> u32 \<Rightarrow> u32 outcome" where
  "checkRexmitQueueForSackedOrRexmittedSegments q fromSeqNum =
     (if \<not> (seqLE (rq_begin q) fromSeqNum \<and> seqLE fromSeqNum (rq_end q))
      then Inl (AssertFailed ''seqLE(begin, fromSeqNum) && seqLE(fromSeqNum, end)'')
      else if rexmitQueue q = [] \<or> rq_end q = fromSeqNum then Inr 0
      else sackedOrRexmittedRun fromSeqNum (rest_from fromSeqNum (rexmitQueue q)) 0)"

fun sumSacked :: "RexmitRegion list \<Rightarrow> u32 \<Rightarrow> u32" where
  "sumSacked [] bytes = bytes"
| "sumSacked (i # is) bytes = sumSacked is (if rx_sacked i then bytes + (rx_end i - rx_begin i) else bytes)"

definition getTotalAmountOfSackedBytes :: "TCPSACKRexmitQueue \<Rightarrow> u32" where
  "getTotalAmountOfSackedBytes q = sumSacked (rexmitQueue q) 0"

definition getAmountOfSackedBytes :: "TCPSACKRexmitQueue \<Rightarrow> u32 \<Rightarrow> u32 outcome" where
  "getAmountOfSackedBytes q fromSeqNum =
     (if \<not> (seqLE (rq_begin q) fromSeqNum \<and> seqLE fromSeqNum (rq_end q))
      then Inl (AssertFailed ''seqLE(begin, fromSeqNum) && seqLE(fromSeqNum, end)'')
      else
        let rs = rev (rexmitQueue q);
            whole = takeWhile (\<lambda>i. seqLE fromSeqNum (rx_begin i)) rs;
            bytes = sumSacked whole 0
        in Inr (case dropWhile (\<lambda>i. seqLE fromSeqNum (rx_begin i)) rs of
                  [] \<Rightarrow> bytes
                | i # _ \<Rightarrow>
                    if seqLess (rx_begin i) fromSeqNum \<and> seqLess fromSeqNum (rx_end i) \<and> rx_sacked i
                    then bytes + (rx_end i - fromSeqNum) else bytes))"

fun countSackRuns :: "bool \<Rightarrow> RexmitRegion list \<Rightarrow> u32 \<Rightarrow> u32" where
  "countSackRuns prevSacked [] counter = counter"
| "countSackRuns prevSacked (i # is) counter =
     countSackRuns (rx_sacked i) is (if rx_sacked i \<and> \<not> prevSacked then counter + 1 else counter)"

definition getNumOfDiscontiguousSacks :: "TCPSACKRexmitQueue \<Rightarrow> u32 \<Rightarrow> u32 outcome" where
  "getNumOfDiscontiguousSacks q fromSeqNum =
     (if \<not> (seqLE (rq_begin q) fromSeqNum \<and> seqLE fromSeqNum (rq_end q))
      then Inl (AssertFailed ''seqLE(begin, fromSeqNum) && seqLE(fromSeqNum, end)'')
      else if rexmitQueue q = [] \<or> fromSeqNum = rq_end q then Inr 0
      else Inr (countSackRuns False (rest_from fromSeqNum (rexmitQueue q)) 0))"

definition checkSackBlock :: "TCPSACKRexmitQueue \<Rightarrow> u32 \<Rightarrow> (u32 \<times> bool \<times> bool) outcome" where
  "checkSackBlock q fromSeqNum =
     (if \<not> (seqLE (rq_begin q) fromSeqNum \<and> seqLess fromSeqNum (rq_end q))
      then Inl (AssertFailed ''seqLE(begin, fromSeqNum) && seqLess(fromSeqNum, end)'')
      else case rest_from fromSeqNum (rexmitQueue q) of
        [] \<Rightarrow> Inl (AssertFailed ''i != rexmitQueue.end()'')
      | i # _ \<Rightarrow>
          if seqLE (rx_begin i) fromSeqNum \<and> seqLess fromSeqNum (rx_end i)
          then Inr (rx_end i - fromSeqNum, rx_sacked i, rx_rexmitted i)
          else Inl (AssertFailed ''seqLE(i->beginSeqNum, fromSeqNum) && seqLess(fromSeqNum, i->endSeqNum)''))"

section \<open>The scoreboard\<close>

text \<open>One pair of flags per byte between \<open>begin\<close> and \<open>end\<close>.\<close>

definition rx_bytes :: "RexmitRegion \<Rightarrow> (bool \<times> bool) list" where
  "rx_bytes i = replicate (unat (rx_end i - rx_begin i)) (rx_sacked i, rx_rexmitted i)"

definition bytes_of :: "RexmitRegion list \<Rightarrow> (bool \<times> bool) list" where
  "bytes_of rs = concat (map rx_bytes rs)"

abbreviation scoreboard :: "TCPSACKRexmitQueue \<Rightarrow> (bool \<times> bool) list" where
  "scoreboard q \<equiv> bytes_of (rexmitQueue q)"

fun chain :: "u32 \<Rightarrow> RexmitRegion list \<Rightarrow> u32 \<Rightarrow> bool" where
  "chain b [] e \<longleftrightarrow> b = e"
| "chain b (i # is) e \<longleftrightarrow> rx_begin i = b \<and> seqLess b (rx_end i) \<and> chain (rx_end i) is e"

definition rq_inv :: "TCPSACKRexmitQueue \<Rightarrow> bool" where
  "rq_inv q \<longleftrightarrow> chain (rq_begin q) (rexmitQueue q) (rq_end q) \<and> length (scoreboard q) < 2 ^ 31"

lemma bytes_of_simps [simp]:
  "bytes_of [] = []"
  "bytes_of (i # is) = rx_bytes i @ bytes_of is"
  "bytes_of (xs @ ys) = bytes_of xs @ bytes_of ys"
  by (simp_all add: bytes_of_def)

lemma length_rx_bytes [simp]: "length (rx_bytes i) = unat (rx_end i - rx_begin i)"
  by (simp add: rx_bytes_def)

lemma chain_append [simp]: "chain b (xs @ ys) e \<longleftrightarrow> (\<exists>m. chain b xs m \<and> chain m ys e)"
  by (induction xs arbitrary: b) auto

lemma checkRegions_chain: "checkRegions b rs f = (e, True) \<longleftrightarrow> f \<and> chain b rs e"
  by (induction rs arbitrary: b f) auto

lemma checkQueue_chain: "checkQueue q \<longleftrightarrow> chain (rq_begin q) (rexmitQueue q) (rq_end q)"
  using checkRegions_chain [of "rq_begin q" "rexmitQueue q" True "rq_end q"]
  by (auto simp: checkQueue_def split: prod.splits)

lemma chain_off:
  "chain b rs e \<Longrightarrow> off B b + length (bytes_of rs) < 2 ^ 32 \<Longrightarrow> off B e = off B b + length (bytes_of rs)"
proof (induction rs arbitrary: b)
  case (Cons i rs)
  have "off B (rx_end i) = off B b + unat (rx_end i - b)"
    using off_add [of B b "rx_end i - b"] Cons.prems by simp
  with Cons.IH [of "rx_end i"] Cons.prems show ?case by simp
qed simp

text \<open>Where the search stops: past the end, or on the region that contains the byte.\<close>

lemma seek:
  assumes "chain b rs e" "off B b + length (bytes_of rs) < 2 ^ 31" "off B b \<le> off B x" "in_win B x"
  shows "off B e \<le> off B x \<and> passed x rs = rs \<and> rest_from x rs = [] \<or>
    (\<exists>i is. rs = passed x rs @ i # is \<and> rest_from x rs = i # is \<and> chain b (passed x rs) (rx_begin i)
       \<and> off B (rx_begin i) = off B b + length (bytes_of (passed x rs))
       \<and> off B (rx_begin i) \<le> off B x \<and> off B x < off B (rx_end i)
       \<and> off B (rx_end i) \<le> off B e \<and> chain (rx_end i) is e)"
  using assms
proof (induction rs arbitrary: b)
  case Nil
  then show ?case by (simp add: passed_def rest_from_def)
next
  case (Cons i rs)
  have e: "off B (rx_end i) = off B b + unat (rx_end i - b)"
    using off_add [of B b "rx_end i - b"] Cons.prems by simp
  have ch: "chain (rx_end i) rs e" using Cons.prems by simp
  have sz: "off B (rx_end i) + length (bytes_of rs) < 2 ^ 31" using e Cons.prems by simp
  have oe: "off B e = off B (rx_end i) + length (bytes_of rs)"
    by (rule chain_off [OF ch]) (use sz in simp)
  have le: "seqLE (rx_end i) x \<longleftrightarrow> off B (rx_end i) \<le> off B x"
    using Cons.prems sz by (intro seqLE_off) (simp_all add: in_win_def)
  show ?case
  proof (cases "off B (rx_end i) \<le> off B x")
    case False
    with Cons.prems le oe show ?thesis
      by (intro disjI2 exI [of _ i] exI [of _ rs]) (simp add: passed_def rest_from_def)
  next
    case True
    note IH = Cons.IH [OF ch sz True Cons.prems(4)]
    have p: "passed x (i # rs) = i # passed x rs" "rest_from x (i # rs) = rest_from x rs"
      using True le by (simp_all add: passed_def rest_from_def)
    have b: "rx_begin i = b" "seqLess b (rx_end i)" using Cons.prems by simp_all
    from IH show ?thesis
    proof
      assume "off B e \<le> off B x \<and> passed x rs = rs \<and> rest_from x rs = []"
      then show ?thesis unfolding p by simp
    next
      assume "\<exists>j is. rs = passed x rs @ j # is \<and> rest_from x rs = j # is \<and> chain (rx_end i) (passed x rs) (rx_begin j)
       \<and> off B (rx_begin j) = off B (rx_end i) + length (bytes_of (passed x rs))
       \<and> off B (rx_begin j) \<le> off B x \<and> off B x < off B (rx_end j)
       \<and> off B (rx_end j) \<le> off B e \<and> chain (rx_end j) is e"
      then obtain j "is" where j: "rs = passed x rs @ j # is" "rest_from x rs = j # is"
        "chain (rx_end i) (passed x rs) (rx_begin j)"
        "off B (rx_begin j) = off B (rx_end i) + length (bytes_of (passed x rs))"
        "off B (rx_begin j) \<le> off B x" "off B x < off B (rx_end j)"
        "off B (rx_end j) \<le> off B e" "chain (rx_end j) is e" by blast
      show ?thesis
      proof (intro disjI2 exI conjI)
        show "i # rs = passed x (i # rs) @ j # is" using j(1) p by simp
        show "off B (rx_begin j) = off B b + length (bytes_of (passed x (i # rs)))"
          using j(4) e b p by simp
        show "chain b (passed x (i # rs)) (rx_begin j)" using j(3) b p by simp
      qed (use j p in simp_all)
    qed
  qed
qed

lemma rx_bytes_split:
  assumes "off B (rx_begin i) \<le> off B x" "off B x \<le> off B (rx_end i)"
  shows "rx_bytes (i\<lparr>rx_end := x\<rparr>) = take (off B x - off B (rx_begin i)) (rx_bytes i)"
    and "rx_bytes (i\<lparr>rx_begin := x\<rparr>) = drop (off B x - off B (rx_begin i)) (rx_bytes i)"
  using unat_diff_off [of B "rx_begin i" x] unat_diff_off [of B x "rx_end i"]
    unat_diff_off [of B "rx_begin i" "rx_end i"] assms
  by (simp_all add: rx_bytes_def min_def)

lemma chain_sum:
  "chain b rs e \<Longrightarrow> off B b + length (bytes_of rs) < 2 ^ 32 \<Longrightarrow> length (bytes_of rs) = off B e - off B b"
  using chain_off [of b rs e B] by simp

lemma chunk_at:
  assumes ch: "chain b rs e" and sz: "off B b + length (bytes_of rs) < 2 ^ 31"
    and x: "off B b \<le> off B x" "off B x < off B e"
  obtains i after bf cur where "rest_from x rs = i # after" "seqLE (rx_begin i) x" "seqLess x (rx_end i)"
    "chunk x (passed x rs) i after = (bf, cur)" "chain b bf x" "chain x cur e" "cur \<noteq> []"
    "bytes_of bf = take (off B x - off B b) (bytes_of rs)" "bytes_of cur = drop (off B x - off B b) (bytes_of rs)"
proof -
  have oe: "off B e = off B b + length (bytes_of rs)" by (rule chain_off [OF ch]) (use sz in simp)
  have win: "in_win B x" using x oe sz by (simp add: in_win_def)
  obtain i after where i: "rs = passed x rs @ i # after" "rest_from x rs = i # after"
    "chain b (passed x rs) (rx_begin i)" "off B (rx_begin i) = off B b + length (bytes_of (passed x rs))"
    "off B (rx_begin i) \<le> off B x" "off B x < off B (rx_end i)" "off B (rx_end i) \<le> off B e"
    "chain (rx_end i) after e"
    using seek [OF ch sz x(1) win] x(2) by auto
  have w: "in_win B (rx_begin i)" "in_win B (rx_end i)"
    using i(5,7) x oe sz by (simp_all add: in_win_def)
  have cmp: "seqLE (rx_begin i) x" "seqLess x (rx_end i)"
    using i(5,6) seqLE_off [OF w(1) win] seqLess_off [OF win w(2)] by simp_all
  have bs: "bytes_of rs = bytes_of (passed x rs) @ rx_bytes i @ bytes_of after"
    using i(1) by (metis bytes_of_simps(2,3))
  have sp: "rx_bytes (i\<lparr>rx_end := x\<rparr>) = take (off B x - off B (rx_begin i)) (rx_bytes i)"
    "rx_bytes (i\<lparr>rx_begin := x\<rparr>) = drop (off B x - off B (rx_begin i)) (rx_bytes i)"
    using rx_bytes_split [of B i x] i(5,6) by simp_all
  have len: "off B x - off B (rx_begin i) \<le> length (rx_bytes i)"
    using unat_diff_off [of B "rx_begin i" "rx_end i"] i(5,6) by simp
  show thesis
  proof (cases "rx_begin i = x")
    case True
    show thesis
    proof (rule that [OF i(2) cmp])
      show "chunk x (passed x rs) i after = (passed x rs, i # after)"
        using True by (simp add: chunk_def)
    qed (use i True bs cmp in \<open>simp_all\<close>)
  next
    case False
    then have lt: "off B (rx_begin i) < off B x" using i(5) off_eq_iff [of B "rx_begin i" x] by linarith
    then have "seqLess (rx_begin i) x" using seqLess_off [OF w(1) win] by simp
    then show thesis
    proof (intro that [OF i(2) cmp])
      show "chunk x (passed x rs) i after = (passed x rs @ [i\<lparr>rx_end := x\<rparr>], i\<lparr>rx_begin := x\<rparr> # after)"
        using False by (simp add: chunk_def)
      show "bytes_of (passed x rs @ [i\<lparr>rx_end := x\<rparr>]) = take (off B x - off B b) (bytes_of rs)"
        using i(4) lt len unfolding bs by (simp add: sp)
      show "bytes_of (i\<lparr>rx_begin := x\<rparr> # after) = drop (off B x - off B b) (bytes_of rs)"
        using i(4) lt len unfolding bs by (simp add: sp)
    qed (use i cmp in simp_all)
  qed
qed

text \<open>Changing flags region by region changes them byte by byte.\<close>

lemma bytes_of_map:
  assumes "\<And>i. i \<in> set rs \<Longrightarrow> rx_begin (g i) = rx_begin i \<and> rx_end (g i) = rx_end i
      \<and> (rx_sacked (g i), rx_rexmitted (g i)) = h (rx_sacked i, rx_rexmitted i)"
  shows "bytes_of (map g rs) = map h (bytes_of rs)"
  using assms by (induction rs) (auto simp: rx_bytes_def)

lemma chain_map:
  assumes "\<And>i. i \<in> set rs \<Longrightarrow> rx_begin (g i) = rx_begin i \<and> rx_end (g i) = rx_end i"
  shows "chain b (map g rs) e \<longleftrightarrow> chain b rs e"
  using assms by (induction rs arbitrary: b) auto

lemma chain_begin_ge:
  "chain b rs e \<Longrightarrow> off B b + length (bytes_of rs) < 2 ^ 31 \<Longrightarrow> i \<in> set rs \<Longrightarrow>
     off B b \<le> off B (rx_begin i) \<and> in_win B (rx_begin i)"
proof (induction rs arbitrary: b)
  case (Cons j rs)
  have e: "off B (rx_end j) = off B b + unat (rx_end j - b)"
    using off_add [of B b "rx_end j - b"] Cons.prems by simp
  show ?case
  proof (cases "i = j")
    case True
    with Cons.prems show ?thesis by (simp add: in_win_def)
  next
    case False
    with Cons.IH [of "rx_end j"] Cons.prems e show ?thesis by auto
  qed
qed simp

definition mark_range :: "('f \<Rightarrow> 'f) \<Rightarrow> nat \<Rightarrow> nat \<Rightarrow> 'f list \<Rightarrow> 'f list" where
  "mark_range g lo hi bs = take lo bs @ map g (take (hi - lo) (drop lo bs)) @ drop hi bs"

lemma length_mark_range [simp]: "lo \<le> hi \<Longrightarrow> length (mark_range g lo hi bs) = length bs"
  by (auto simp: mark_range_def min_def)

lemma nth_mark_range:
  "lo \<le> hi \<Longrightarrow> k < length bs \<Longrightarrow> mark_range g lo hi bs ! k = (if lo \<le> k \<and> k < hi then g (bs ! k) else bs ! k)"
  by (auto simp: mark_range_def nth_append min_def)

lemma mark_range_parts:
  "length as = lo \<Longrightarrow> hi = lo + length ps + k \<Longrightarrow> k \<le> length rs \<Longrightarrow>
     mark_range h lo hi (as @ ps @ rs @ js) = as @ map h ps @ map h (take k rs) @ drop k rs @ js"
  by (simp add: mark_range_def)

lemma mark_range_tail:
  "length as = lo \<Longrightarrow> lo + length ps \<le> hi \<Longrightarrow> mark_range h lo hi (as @ ps) = as @ map h ps"
  by (simp add: mark_range_def)

section \<open>The operations on the scoreboard\<close>

lemma assert_queue_ok: "chain (rq_begin q) (rexmitQueue q) (rq_end q) \<Longrightarrow> assert_queue q = Inr q"
  by (simp add: assert_queue_def checkQueue_chain)

lemma rq_end_off: "rq_inv q \<Longrightarrow> off (rq_begin q) (rq_end q) = length (scoreboard q)"
  using chain_off [of "rq_begin q" "rexmitQueue q" "rq_end q" "rq_begin q"] by (simp add: rq_inv_def)

text \<open>A byte of the queue is found by the search, and cutting the region there drops the bytes before it.\<close>

lemma located:
  assumes inv: "rq_inv q" and x: "off (rq_begin q) x < length (scoreboard q)"
  obtains i after where "rest_from x (rexmitQueue q) = i # after" "rexmitQueue q = passed x (rexmitQueue q) @ i # after"
    "seqLE (rx_begin i) x" "seqLess x (rx_end i)" "chain x (i\<lparr>rx_begin := x\<rparr> # after) (rq_end q)"
    "bytes_of (i\<lparr>rx_begin := x\<rparr> # after) = drop (off (rq_begin q) x) (scoreboard q)"
    "chain (rq_begin q) (passed x (rexmitQueue q)) (rx_begin i)" "off (rq_begin q) (rx_begin i) \<le> off (rq_begin q) x"
    "chain (rx_end i) after (rq_end q)" "off (rq_begin q) (rx_begin i) = length (bytes_of (passed x (rexmitQueue q)))"
proof -
  let ?B = "rq_begin q" and ?rs = "rexmitQueue q" and ?e = "rq_end q"
  have ch: "chain ?B ?rs ?e" and sz: "off ?B ?B + length (bytes_of ?rs) < 2 ^ 31"
    using inv by (simp_all add: rq_inv_def)
  note oe = rq_end_off [OF inv]
  have win: "in_win ?B x" using x sz by (simp add: in_win_def)
  obtain i after where i: "rest_from x ?rs = i # after" "?rs = passed x ?rs @ i # after"
    "off ?B (rx_begin i) = length (bytes_of (passed x ?rs))" "off ?B (rx_begin i) \<le> off ?B x"
    "off ?B x < off ?B (rx_end i)" "off ?B (rx_end i) \<le> off ?B ?e" "chain (rx_end i) after ?e"
    "chain ?B (passed x ?rs) (rx_begin i)"
    using seek [OF ch sz _ win] x oe by auto
  have w: "in_win ?B (rx_begin i)" "in_win ?B (rx_end i)"
    using i(4,6) x oe sz by (simp_all add: in_win_def)
  have cmp: "seqLE (rx_begin i) x" "seqLess x (rx_end i)"
    using i(4,5) seqLE_off [OF w(1) win] seqLess_off [OF win w(2)] by simp_all
  show thesis
  proof (rule that [OF i(1,2) cmp _ _ i(8,4,7,3)])
    show "chain x (i\<lparr>rx_begin := x\<rparr> # after) ?e" using cmp i(7) by simp
    have "off ?B x - off ?B (rx_begin i) \<le> length (rx_bytes i)"
      using unat_diff_off [of ?B "rx_begin i" "rx_end i"] i(4,5) by simp
    then show "bytes_of (i\<lparr>rx_begin := x\<rparr> # after) = drop (off ?B x) (bytes_of ?rs)"
      using rx_bytes_split(2) [of ?B i x] i(3-5) by (subst i(2)) simp
  qed
qed

lemma rq_guards:
  assumes inv: "rq_inv q" and x: "off (rq_begin q) x \<le> length (scoreboard q)"
  shows "seqLE (rq_begin q) x" "seqLE x (rq_end q)"
    and "seqLess x (rq_end q) \<longleftrightarrow> off (rq_begin q) x < length (scoreboard q)"
    and "x = rq_end q \<longleftrightarrow> off (rq_begin q) x = length (scoreboard q)"
proof -
  have oe: "off (rq_begin q) (rq_end q) = length (scoreboard q)" by (rule rq_end_off [OF inv])
  have win: "in_win (rq_begin q) x" "in_win (rq_begin q) (rq_end q)"
    using inv x oe by (simp_all add: in_win_def rq_inv_def)
  show "seqLE (rq_begin q) x" "seqLE x (rq_end q)"
    "seqLess x (rq_end q) \<longleftrightarrow> off (rq_begin q) x < length (scoreboard q)"
    using x oe seqLE_off [OF in_win_self win(1)] seqLE_off [OF win] seqLess_off [OF win] by simp_all
  show "x = rq_end q \<longleftrightarrow> off (rq_begin q) x = length (scoreboard q)"
    using oe off_eq_iff [of "rq_begin q" x "rq_end q"] by simp
qed

lemma discardUpTo_refines:
  assumes inv: "rq_inv q" and x: "off (rq_begin q) x \<le> length (scoreboard q)"
  shows "\<exists>q'. rq_discardUpTo q x = Inr q' \<and> rq_inv q' \<and> rq_begin q' = x \<and> rq_end q' = rq_end q
    \<and> scoreboard q' = drop (off (rq_begin q) x) (scoreboard q)"
proof (cases "off (rq_begin q) x < length (scoreboard q)")
  case True
  obtain i after where i: "rest_from x (rexmitQueue q) = i # after" "seqLE (rx_begin i) x" "seqLess x (rx_end i)"
    "chain x (i\<lparr>rx_begin := x\<rparr> # after) (rq_end q)"
    "bytes_of (i\<lparr>rx_begin := x\<rparr> # after) = drop (off (rq_begin q) x) (scoreboard q)"
    using located [OF inv True] by metis
  let ?q = "q\<lparr>rexmitQueue := i\<lparr>rx_begin := x\<rparr> # after, rq_begin := x\<rparr>"
  show ?thesis
    using i rq_guards [OF inv x] inv assert_queue_ok [of ?q]
    by (intro exI [of _ ?q]) (simp add: rq_discardUpTo_def rq_inv_def less_imp_diff_less)
next
  case False
  then have x_eq: "x = rq_end q" using rq_guards(4) [OF inv x] x by simp
  have "rest_from x (rexmitQueue q) = []"
    using seek [of "rq_begin q" "rexmitQueue q" "rq_end q" "rq_begin q" x] inv rq_end_off [OF inv] x_eq
    by (auto simp: rq_inv_def in_win_def)
  then show ?thesis
    using rq_guards [OF inv x] x False x_eq assert_queue_ok [of "q\<lparr>rexmitQueue := [], rq_begin := x\<rparr>"]
    by (intro exI [of _ "q\<lparr>rexmitQueue := [], rq_begin := x\<rparr>"]) (simp add: rq_discardUpTo_def rq_inv_def)
qed

definition set_sacked :: "bool \<times> bool \<Rightarrow> bool \<times> bool" where
  "set_sacked f = (True, snd f)"

definition set_rexmitted :: "bool \<times> bool \<Rightarrow> bool \<times> bool" where
  "set_rexmitted f = (fst f, True)"

text \<open>The second search, from \<open>x\<close> to \<open>y\<close>, when \<open>y\<close> lies before the end.\<close>

lemma seek_inner:
  assumes "chain x cur e" "off B x + length (bytes_of cur) < 2 ^ 31" "off B x \<le> off B y" "off B y < off B e"
  obtains j js where "cur = passed y cur @ j # js" "rest_from y cur = j # js" "chain x (passed y cur) (rx_begin j)"
    "off B (rx_begin j) = off B x + length (bytes_of (passed y cur))"
    "off B (rx_begin j) \<le> off B y" "off B y < off B (rx_end j)" "chain (rx_end j) js e"
    "seqLess (rx_begin j) y \<longleftrightarrow> off B (rx_begin j) < off B y" "seqLess y (rx_end j)"
    "rx_bytes (j\<lparr>rx_end := y\<rparr>) = take (off B y - off B (rx_begin j)) (rx_bytes j)"
    "rx_bytes (j\<lparr>rx_begin := y\<rparr>) = drop (off B y - off B (rx_begin j)) (rx_bytes j)"
    "off B y - off B (rx_begin j) \<le> length (rx_bytes j)"
proof -
  have oe: "off B e = off B x + length (bytes_of cur)" by (rule chain_off [OF assms(1)]) (use assms(2) in simp)
  have win: "in_win B y" using assms oe by (simp add: in_win_def)
  obtain j js where j: "cur = passed y cur @ j # js" "rest_from y cur = j # js" "chain x (passed y cur) (rx_begin j)"
    "off B (rx_begin j) = off B x + length (bytes_of (passed y cur))"
    "off B (rx_begin j) \<le> off B y" "off B y < off B (rx_end j)" "off B (rx_end j) \<le> off B e" "chain (rx_end j) js e"
    using seek [OF assms(1-3) win] assms(4) by auto
  have w: "in_win B (rx_begin j)" "in_win B (rx_end j)"
    using j(5-7) assms oe by (simp_all add: in_win_def)
  show thesis
  proof (rule that [OF j(1-6) j(8)])
    show "seqLess (rx_begin j) y \<longleftrightarrow> off B (rx_begin j) < off B y" by (rule seqLess_off [OF w(1) win])
    show "seqLess y (rx_end j)" using j(6) seqLess_off [OF win w(2)] by simp
    show "off B y - off B (rx_begin j) \<le> length (rx_bytes j)"
      using unat_diff_off [of B "rx_begin j" "rx_end j"] j(5,6) by simp
  qed (use rx_bytes_split [of B j y] j(5,6) in simp_all)
qed

lemma rx_bytes_sacked:
  "rx_bytes (i\<lparr>rx_end := y, rx_sacked := True\<rparr>) = map set_sacked (rx_bytes (i\<lparr>rx_end := y\<rparr>))"
  by (simp add: rx_bytes_def set_sacked_def)

lemma setSackedBit_refines:
  assumes inv: "rq_inv q"
    and f: "f = (if seqLess from (rq_begin q) then 0 else off (rq_begin q) from)"
    and t: "f < off (rq_begin q) to" "off (rq_begin q) to \<le> length (scoreboard q)"
  shows "\<exists>q'. setSackedBit q from to = Inr q' \<and> rq_inv q' \<and> rq_begin q' = rq_begin q \<and> rq_end q' = rq_end q
    \<and> scoreboard q' = mark_range set_sacked f (off (rq_begin q) to) (scoreboard q)"
proof -
  let ?B = "rq_begin q" and ?rs = "rexmitQueue q" and ?e = "rq_end q"
  define x where "x = (if seqLess from ?B then ?B else from)"
  have fx: "f = off ?B x" using f by (simp add: x_def)
  have ch: "chain ?B ?rs ?e" and sz: "off ?B ?B + length (bytes_of ?rs) < 2 ^ 31"
    using inv by (simp_all add: rq_inv_def)
  note oe = rq_end_off [OF inv]
  have win: "in_win ?B x" "in_win ?B to" "in_win ?B ?e" using t sz oe fx by (simp_all add: in_win_def)
  have guard: "seqLess x ?e" "seqLess ?B to" "seqLE to ?e" "seqLess x to"
    using t oe fx seqLess_off [OF win(1,3)] seqLess_off [OF in_win_self win(2)] seqLE_off [OF win(2,3)]
      seqLess_off [OF win(1,2)] by simp_all
  have ne: "?rs \<noteq> []" using t by auto
  have xlt: "off ?B x < off ?B ?e" using t oe fx by simp
  obtain i after bf cur where c: "rest_from x ?rs = i # after" "seqLE (rx_begin i) x" "seqLess x (rx_end i)"
    "chunk x (passed x ?rs) i after = (bf, cur)" "chain ?B bf x" "chain x cur ?e"
    "bytes_of bf = take f (bytes_of ?rs)" "bytes_of cur = drop f (bytes_of ?rs)"
    using chunk_at [OF ch sz _ xlt] fx by (metis off_self le0 diff_zero)
  have szc: "off ?B x + length (bytes_of cur) < 2 ^ 31" using c(8) sz t fx by simp
  let ?upd = "\<lambda>i. if seqGE (rx_begin i) x then i\<lparr>rx_sacked := True\<rparr> else i"
  let ?tail = "case rest_from to cur of [] \<Rightarrow> []
    | j # js \<Rightarrow> if seqLess (rx_begin j) to \<and> seqLess to (rx_end j)
        then [j\<lparr>rx_end := to, rx_sacked := True\<rparr>, j\<lparr>rx_begin := to\<rparr>] @ js else j # js"
  let ?l = "bf @ map ?upd (passed to cur) @ ?tail"
  have step: "setSackedBit q from to = assert_queue (q\<lparr>rexmitQueue := ?l\<rparr>)"
    using guard ne c(1-4) unfolding setSackedBit_def x_def [symmetric] Let_def by simp
  have sub: "set (passed to cur) \<subseteq> set cur" by (auto simp: passed_def dest: set_takeWhileD)
  have upd: "bytes_of (map ?upd (passed to cur)) = map set_sacked (bytes_of (passed to cur))"
  proof (rule bytes_of_map)
    fix i assume "i \<in> set (passed to cur)"
    then have "off ?B x \<le> off ?B (rx_begin i)" "in_win ?B (rx_begin i)"
      using chain_begin_ge [OF c(6) szc, of i] sub by auto
    then have "seqGE (rx_begin i) x" using seqLE_off [OF win(1)] by (simp add: seqGE_seqLE)
    then show "rx_begin (?upd i) = rx_begin i \<and> rx_end (?upd i) = rx_end i
      \<and> (rx_sacked (?upd i), rx_rexmitted (?upd i)) = set_sacked (rx_sacked i, rx_rexmitted i)"
      by (simp add: set_sacked_def)
  qed
  have updc: "chain b (map ?upd (passed to cur)) m \<longleftrightarrow> chain b (passed to cur) m" for b m
    by (rule chain_map) simp
  have "chain ?B ?l ?e \<and> bytes_of ?l = mark_range set_sacked f (off ?B to) (bytes_of ?rs)"
  proof (cases "off ?B to < off ?B ?e")
    case False
    then have "off ?B to = off ?B ?e" using t oe by simp
    moreover have "passed to cur = cur" "rest_from to cur = []"
      using seek [OF c(6) szc _ win(2)] t fx False by (auto simp: in_win_def)
    ultimately show ?thesis
      using c(5-8) upd updc oe t by (auto simp: mark_range_def)
  next
    case True
    then obtain j js where j: "cur = passed to cur @ j # js" "rest_from to cur = j # js"
      "chain x (passed to cur) (rx_begin j)"
      "off ?B (rx_begin j) = off ?B x + length (bytes_of (passed to cur))"
      "off ?B (rx_begin j) \<le> off ?B to" "off ?B to < off ?B (rx_end j)" "chain (rx_end j) js ?e"
      "seqLess (rx_begin j) to \<longleftrightarrow> off ?B (rx_begin j) < off ?B to" "seqLess to (rx_end j)"
      "rx_bytes (j\<lparr>rx_end := to\<rparr>) = take (off ?B to - off ?B (rx_begin j)) (rx_bytes j)"
      "rx_bytes (j\<lparr>rx_begin := to\<rparr>) = drop (off ?B to - off ?B (rx_begin j)) (rx_bytes j)"
      "off ?B to - off ?B (rx_begin j) \<le> length (rx_bytes j)"
      by (rule seek_inner [OF c(6) szc less_imp_le [OF t(1) [unfolded fx]]])
    let ?k = "off ?B to - off ?B (rx_begin j)"
    have lessj: "seqLess (rx_begin j) (rx_end j)" using c(6) by (subst (asm) j(1)) auto
    have tail: "chain (rx_begin j) ?tail ?e"
      "bytes_of ?tail = map set_sacked (take ?k (rx_bytes j)) @ drop ?k (rx_bytes j) @ bytes_of js"
      using j(2,5-12) lessj by (auto simp: rx_bytes_sacked)
    have "bytes_of ?rs = bytes_of bf @ bytes_of (passed to cur) @ rx_bytes j @ bytes_of js"
      using c(7,8) j(1) by (metis append_take_drop_id bytes_of_simps(2,3))
    moreover have "length (bytes_of bf) = f" using c(7) t by simp
    moreover have "off ?B to = f + length (bytes_of (passed to cur)) + ?k" using j(4,5) fx by simp
    ultimately have "bytes_of ?l = mark_range set_sacked f (off ?B to) (bytes_of ?rs)"
      unfolding bytes_of_simps upd tail(2) using j(12) by (simp add: mark_range_parts)
    moreover have "chain ?B ?l ?e"
      unfolding chain_append updc using c(5) j(3) tail(1) by blast
    ultimately show ?thesis by blast
  qed
  then show ?thesis
    using step assert_queue_ok [of "q\<lparr>rexmitQueue := ?l\<rparr>"] sz t
    by (intro exI [of _ "q\<lparr>rexmitQueue := ?l\<rparr>"]) (simp add: rq_inv_def)
qed

lemma chain_ends: "chain b rs e \<Longrightarrow> rs \<noteq> [] \<Longrightarrow> rx_begin (hd rs) = b \<and> rx_end (last rs) = e"
  by (induction rs arbitrary: b) (auto split: if_splits)

lemma bytes_rexmitted:
  "bytes_of (map (\<lambda>i. i\<lparr>rx_rexmitted := True\<rparr>) rs) = map set_rexmitted (bytes_of rs)"
  by (rule bytes_of_map) (simp add: set_rexmitted_def)

lemma chain_rexmitted: "chain b (map (\<lambda>i. i\<lparr>rx_rexmitted := True\<rparr>) rs) e \<longleftrightarrow> chain b rs e"
  by (rule chain_map) simp

text \<open>The marking step and the region put behind it, when the range ends inside the queue or after it.\<close>

lemma enqueue_inner:
  assumes ch: "chain x cur e" "cur \<noteq> []" and sz: "off B x + length (bytes_of cur) < 2 ^ 31"
    and y: "off B x < off B y" "in_win B y"
  defines "marked \<equiv> map (\<lambda>i. i\<lparr>rx_rexmitted := True\<rparr>) (passed y cur)"
  defines "x' \<equiv> (if marked = [] then x else rx_end (last marked))"
  shows "if x' = y then marked \<noteq> [] \<and> chain x (marked @ rest_from y cur) e
           \<and> bytes_of (marked @ rest_from y cur) = mark_range set_rexmitted 0 (off B y - off B x) (bytes_of cur)
           \<and> off B y \<le> off B e
         else case rest_from y cur of
           [] \<Rightarrow> chain x marked x' \<and> seqLess x' y \<and> x' = e \<and> off B e < off B y
                 \<and> bytes_of marked = mark_range set_rexmitted 0 (off B y - off B x) (bytes_of cur)
         | j # js \<Rightarrow> seqLess (rx_begin j) y \<and> chain x marked x' \<and> seqLess x' y \<and> seqLess y (rx_end j) \<and> chain (rx_end j) js e
                 \<and> off B y \<le> off B e
                 \<and> bytes_of (marked @ [\<lparr>rx_begin = x', rx_end = y, rx_sacked = rx_sacked j, rx_rexmitted = True\<rparr>,
                       j\<lparr>rx_begin := y\<rparr>] @ js) = mark_range set_rexmitted 0 (off B y - off B x) (bytes_of cur)"
proof -
  have oe: "off B e = off B x + length (bytes_of cur)" by (rule chain_off [OF ch(1)]) (use sz in simp)
  have mch: "chain b marked m \<longleftrightarrow> chain b (passed y cur) m" for b m
    unfolding marked_def by (rule chain_rexmitted)
  have mby: "bytes_of marked = map set_rexmitted (bytes_of (passed y cur))"
    unfolding marked_def by (rule bytes_rexmitted)
  show ?thesis
  proof (cases "off B y < off B e")
    case True
    then obtain j js where j: "cur = passed y cur @ j # js" "rest_from y cur = j # js" "chain x (passed y cur) (rx_begin j)"
      "off B (rx_begin j) = off B x + length (bytes_of (passed y cur))"
      "off B (rx_begin j) \<le> off B y" "off B y < off B (rx_end j)" "chain (rx_end j) js e"
      "seqLess (rx_begin j) y \<longleftrightarrow> off B (rx_begin j) < off B y" "seqLess y (rx_end j)"
      "rx_bytes (j\<lparr>rx_end := y\<rparr>) = take (off B y - off B (rx_begin j)) (rx_bytes j)"
      "rx_bytes (j\<lparr>rx_begin := y\<rparr>) = drop (off B y - off B (rx_begin j)) (rx_bytes j)"
      "off B y - off B (rx_begin j) \<le> length (rx_bytes j)"
      by (rule seek_inner [OF ch(1) sz less_imp_le [OF y(1)]])
    have mj: "chain x marked (rx_begin j)" using j(3) mch by simp
    have x': "x' = rx_begin j"
      using chain_ends [OF mj] mj by (auto simp: x'_def)
    have bs: "bytes_of cur = [] @ bytes_of (passed y cur) @ rx_bytes j @ bytes_of js"
      using j(1) by (metis append_Nil bytes_of_simps(2,3))
    let ?k = "off B y - off B (rx_begin j)"
    have mr: "mark_range set_rexmitted 0 (off B y - off B x) (bytes_of cur)
      = map set_rexmitted (bytes_of (passed y cur)) @ map set_rexmitted (take ?k (rx_bytes j)) @ drop ?k (rx_bytes j) @ bytes_of js"
      unfolding bs using j(4,5,12) by (subst mark_range_parts [where k = ?k]) simp_all
    have less: "seqLess (rx_begin j) (rx_end j)" using ch(1) by (subst (asm) j(1)) auto
    show ?thesis
    proof (cases "x' = y")
      case eq: True
      then have "marked \<noteq> []" using y(1) by (auto simp: x'_def)
      moreover have "chain x (marked @ rest_from y cur) e"
        using mj less j(2,7) unfolding chain_append by (intro exI [of _ "rx_begin j"]) simp
      ultimately show ?thesis
        using eq x' mr mby j(2) True by simp
    next
      case ne: False
      then have "off B (rx_begin j) < off B y"
        using j(5) x' off_eq_iff [of B "rx_begin j" y] by (simp add: less_le)
      moreover have "rx_bytes \<lparr>rx_begin = rx_begin j, rx_end = y, rx_sacked = rx_sacked j, rx_rexmitted = True\<rparr>
          = map set_rexmitted (rx_bytes (j\<lparr>rx_end := y\<rparr>))"
        by (simp add: rx_bytes_def set_rexmitted_def)
      ultimately show ?thesis
        using ne x' mr mby mj j(2,7-11) True by simp
    qed
  next
    case False
    have p: "passed y cur = cur" "rest_from y cur = []"
      using seek [OF ch(1) sz _ y(2)] y(1) False by auto
    then have "marked \<noteq> []" using ch(2) by (simp add: marked_def)
    then have x': "x' = e" using chain_ends [of x marked e] mch p ch by (auto simp: x'_def)
    have mr: "mark_range set_rexmitted 0 (off B y - off B x) (bytes_of cur) = map set_rexmitted (bytes_of cur)"
      using mark_range_tail [of "[]" 0 "bytes_of cur" "off B y - off B x"] False oe by simp
    have "in_win B e" using oe sz by (simp add: in_win_def)
    moreover have "e \<noteq> y \<Longrightarrow> off B e < off B y" using False off_eq_iff [of B e y] by linarith
    ultimately show ?thesis
      using \<open>marked \<noteq> []\<close> x' p mr mby mch ch y(2) False seqLess_off [of B e y]
      by (cases "e = y") auto
  qed
qed

lemma mark_range_shift:
  "lo \<le> length bs \<Longrightarrow> lo \<le> hi \<Longrightarrow> take lo bs @ mark_range h 0 (hi - lo) (drop lo bs) = mark_range h lo hi bs"
  by (simp add: mark_range_def)

text \<open>What \<open>enqueueSentData\<close> does to the scoreboard: the bytes already there become retransmitted,
  the others are added with both flags off.\<close>

definition sent :: "nat \<Rightarrow> nat \<Rightarrow> (bool \<times> bool) list \<Rightarrow> (bool \<times> bool) list" where
  "sent lo hi bs = mark_range set_rexmitted lo hi bs @ replicate (hi - length bs) (False, False)"

lemma enqueueSentData_refines:
  assumes inv: "rq_inv q" and f: "off (rq_begin q) from \<le> length (scoreboard q)"
    and t: "off (rq_begin q) from < off (rq_begin q) to" "off (rq_begin q) to < 2 ^ 31"
  shows "\<exists>q'. enqueueSentData q from to = Inr q' \<and> rq_inv q' \<and> rq_begin q' = rq_begin q
    \<and> scoreboard q' = sent (off (rq_begin q) from) (off (rq_begin q) to) (scoreboard q)"
proof -
  let ?B = "rq_begin q" and ?rs = "rexmitQueue q" and ?e = "rq_end q"
  let ?f = "off ?B from" and ?t = "off ?B to"
  have ch: "chain ?B ?rs ?e" and sz: "off ?B ?B + length (bytes_of ?rs) < 2 ^ 31"
    using inv by (simp_all add: rq_inv_def)
  note oe = rq_end_off [OF inv]
  have win: "in_win ?B from" "in_win ?B to" "in_win ?B ?e" using f t sz oe by (simp_all add: in_win_def)
  have guard: "seqLE ?B from" "seqLE from ?e" "seqLess from to"
    using f t oe seqLE_off [OF in_win_self win(1)] seqLE_off [OF win(1,3)] seqLess_off [OF win(1,2)] by simp_all
  let ?fin = "\<lambda>l. assert_queue \<lparr>rexmitQueue = l, rq_begin = rx_begin (hd l), rq_end = rx_end (last l)\<rparr>"
  let ?post = "\<lambda>q'. rq_inv q' \<and> rq_begin q' = ?B \<and> scoreboard q' = sent ?f ?t (scoreboard q)"
  have done_ok: "\<exists>q'. ?fin l = Inr q' \<and> ?post q'"
    if "chain ?B l e'" "bytes_of l = sent ?f ?t (bytes_of ?rs)" for l e'
  proof -
    have len: "0 < length (bytes_of l)" "length (bytes_of l) < 2 ^ 31"
      using that(2) sz t f by (simp_all add: sent_def)
    then have "l \<noteq> []" by auto
    with chain_ends [OF that(1)] that len show ?thesis
      by (auto simp: assert_queue_ok rq_inv_def)
  qed
  show ?thesis
  proof (cases "?rs = [] \<or> ?e = from")
    case True
    then have fr: "?e = from" "?f = length (bytes_of ?rs)"
      using ch oe f off_eq_iff [of ?B ?e "from"] by auto
    let ?l = "?rs @ [\<lparr>rx_begin = from, rx_end = to, rx_sacked = False, rx_rexmitted = False\<rparr>]"
    have "chain ?B ?l to" using ch fr guard by auto
    moreover have "bytes_of ?l = sent ?f ?t (bytes_of ?rs)"
      using fr t unat_diff_off [of ?B "from" to] by (simp add: sent_def mark_range_def rx_bytes_def)
    ultimately have "\<exists>q'. ?fin ?l = Inr q' \<and> ?post q'" by (rule done_ok)
    moreover have "enqueueSentData q from to = ?fin ?l"
      using guard True by (simp add: enqueueSentData_def enqueue_finish_def)
    ultimately show ?thesis by (simp only:)
  next
    case False
    then have "off ?B from \<noteq> off ?B ?e" using off_eq_iff [of ?B "from" ?e] by auto
    then have lt: "off ?B from < off ?B ?e" using f oe by simp
    obtain i after bf cur where c: "rest_from from ?rs = i # after" "seqLE (rx_begin i) from" "seqLess from (rx_end i)"
      "chunk from (passed from ?rs) i after = (bf, cur)" "chain ?B bf from" "chain from cur ?e" "cur \<noteq> []"
      "bytes_of bf = take ?f (bytes_of ?rs)" "bytes_of cur = drop ?f (bytes_of ?rs)"
      using chunk_at [OF ch sz _ lt] by (metis off_self le0 diff_zero)
    have szc: "off ?B from + length (bytes_of cur) < 2 ^ 31" using c(9) sz f by simp
    define marked where "marked = map (\<lambda>i. i\<lparr>rx_rexmitted := True\<rparr>) (passed to cur)"
    define x' where "x' = (if marked = [] then from else rx_end (last marked))"
    note inner = enqueue_inner [OF c(6,7) szc t(1) win(2), folded marked_def, folded x'_def]
    have shift: "bytes_of bf @ mark_range set_rexmitted 0 (?t - ?f) (bytes_of cur)
        = mark_range set_rexmitted ?f ?t (bytes_of ?rs)"
      using mark_range_shift [of ?f "bytes_of ?rs" ?t] f t c(8,9) by simp
    have step: "enqueueSentData q from to = enqueue_mark from to bf cur"
      using guard False c(1-4) by (simp add: enqueueSentData_def)
    note unfold = step enqueue_mark_def Let_def marked_def [symmetric] x'_def [symmetric] enqueue_finish_def
    show ?thesis
    proof (cases "x' = to")
      case True
      let ?l = "bf @ marked @ rest_from to cur"
      have "chain ?B ?l ?e" using inner True c(5) by auto
      moreover have "bytes_of ?l = sent ?f ?t (bytes_of ?rs)"
        using inner True shift oe unfolding bytes_of_simps sent_def by simp
      ultimately have "\<exists>q'. ?fin ?l = Inr q' \<and> ?post q'" by (rule done_ok)
      moreover have "enqueueSentData q from to = ?fin ?l"
        using inner True unfolding unfold by simp
      ultimately show ?thesis by (simp only:)
    next
      case ne: False
      show ?thesis
      proof (cases "rest_from to cur")
        case Nil
        let ?n = "\<lparr>rx_begin = x', rx_end = to, rx_sacked = False, rx_rexmitted = False\<rparr>"
        have "chain ?B (bf @ marked @ [?n]) to" using inner ne Nil c(5) by auto
        moreover have "bytes_of (bf @ marked @ [?n]) = sent ?f ?t (bytes_of ?rs)"
          using inner ne Nil shift oe unat_diff_off [of ?B ?e to]
          by (auto simp: sent_def rx_bytes_def simp flip: append_assoc)
        ultimately have "\<exists>q'. ?fin (bf @ marked @ [?n]) = Inr q' \<and> ?post q'" by (rule done_ok)
        moreover have "enqueueSentData q from to = ?fin (bf @ marked @ [?n])"
          using ne Nil unfolding unfold by simp
        ultimately show ?thesis by (simp only:)
      next
        case (Cons j js)
        let ?n = "\<lparr>rx_begin = x', rx_end = to, rx_sacked = rx_sacked j, rx_rexmitted = True\<rparr>"
        let ?l = "bf @ marked @ [?n, j\<lparr>rx_begin := to\<rparr>] @ js"
        have "chain ?B ?l ?e" using inner ne Cons c(5) by auto
        moreover have "bytes_of ?l = sent ?f ?t (bytes_of ?rs)"
          using inner ne Cons shift oe unfolding sent_def by simp
        ultimately have "\<exists>q'. ?fin ?l = Inr q' \<and> ?post q'" by (rule done_ok)
        moreover have "enqueueSentData q from to = ?fin ?l"
          using ne Cons inner unfolding unfold by simp
        ultimately show ?thesis by (simp only:)
      qed
    qed
  qed
qed

section \<open>The queries on the scoreboard\<close>

lemma sumSacked_bytes: "sumSacked rs acc = acc + of_nat (length (filter fst (bytes_of rs)))"
  by (induction rs acc rule: sumSacked.induct) (auto simp: rx_bytes_def)

lemma chain_begin_lt:
  "chain b rs e \<Longrightarrow> off B b + length (bytes_of rs) < 2 ^ 31 \<Longrightarrow> i \<in> set rs \<Longrightarrow>
     off B (rx_begin i) < off B (rx_end i) \<and> off B (rx_end i) \<le> off B e"
proof (induction rs arbitrary: b)
  case (Cons j rs)
  have e: "off B (rx_end j) = off B b + unat (rx_end j - b)"
    using off_add [of B b "rx_end j - b"] Cons.prems by simp
  have "chain (rx_end j) rs e" using Cons.prems by simp
  moreover have oe: "off B e = off B (rx_end j) + length (bytes_of rs)"
    by (rule chain_off) (use Cons.prems e in simp_all)
  ultimately show ?case
    using Cons.IH [of "rx_end j"] Cons.prems e seqLess_off [of B b "rx_end j"]
    by (cases "i = j") (auto simp: in_win_def)
qed simp

lemma highestWith_bytes:
  assumes P: "\<And>i. P i \<longleftrightarrow> p (rx_sacked i, rx_rexmitted i)"
  shows "chain b rs e \<Longrightarrow> off B b + length (bytes_of rs) < 2 ^ 31 \<Longrightarrow>
     off B (highestWith P b (rev rs)) = off B b + length (dropWhile (\<lambda>f. \<not> p f) (rev (bytes_of rs)))"
proof (induction rs arbitrary: e rule: rev_induct)
  case (snoc i rs)
  then have ch: "chain b rs (rx_begin i)" and e: "rx_end i = e" "seqLess (rx_begin i) (rx_end i)" by auto
  have oe: "off B e = off B b + length (bytes_of (rs @ [i]))"
    by (rule chain_off [OF snoc.prems(1)]) (use snoc.prems in simp)
  have pos: "0 < unat (rx_end i - rx_begin i)"
    using e(2) by (auto simp: seqLess_def unat_gt_0)
  show ?case
  proof (cases "P i")
    case True
    then have "dropWhile (\<lambda>f. \<not> p f) (rev (rx_bytes i) @ rev (bytes_of rs)) = rev (rx_bytes i) @ rev (bytes_of rs)"
      using pos P [of i] by (cases "unat (rx_end i - rx_begin i)") (auto simp: rx_bytes_def simp del: replicate.simps(2) simp flip: replicate_append_same)
    then show ?thesis using True oe e by simp
  next
    case False
    then have "dropWhile (\<lambda>f. \<not> p f) (rev (rx_bytes i) @ rev (bytes_of rs)) = dropWhile (\<lambda>f. \<not> p f) (rev (bytes_of rs))"
      using P [of i] by (intro dropWhile_append2) (auto simp: rx_bytes_def)
    then show ?thesis using False snoc.IH [OF ch] snoc.prems(2) by simp
  qed
qed simp

text \<open>The number of maximal runs of set flags.\<close>

fun runs :: "bool \<Rightarrow> bool list \<Rightarrow> nat" where
  "runs prev [] = 0"
| "runs prev (s # ss) = (if s \<and> \<not> prev then 1 else 0) + runs s ss"

lemma runs_replicate:
  "0 < n \<Longrightarrow> runs prev (replicate n s @ ss) = (if s \<and> \<not> prev then 1 else 0) + runs s ss"
proof (induction n arbitrary: prev)
  case (Suc n)
  then show ?case by (cases n) auto
qed simp

lemma rx_bytes_fst: "map fst (rx_bytes i) = replicate (unat (rx_end i - rx_begin i)) (rx_sacked i)"
  by (simp add: rx_bytes_def)

lemma countSackRuns_bytes:
  "chain b rs e \<Longrightarrow> countSackRuns prev rs c = c + of_nat (runs prev (map fst (bytes_of rs)))"
proof (induction prev rs c arbitrary: b rule: countSackRuns.induct)
  case (2 prev i "is" c)
  then have "0 < unat (rx_end i - rx_begin i)" by (auto simp: seqLess_def unat_gt_0)
  then show ?case
    using 2(1) [of "rx_end i"] 2(2) by (simp add: rx_bytes_fst runs_replicate)
qed simp

lemma sackedOrRexmittedRun_bytes:
  "chain x rs e \<Longrightarrow> off B x + length (bytes_of rs) < 2 ^ 31 \<Longrightarrow>
   sackedOrRexmittedRun x rs acc = Inr (acc + of_nat (length (takeWhile (\<lambda>f. fst f \<or> snd f) (bytes_of rs))))"
proof (induction x rs acc rule: sackedOrRexmittedRun.induct)
  case (2 x i "is" acc)
  have e: "off B (rx_end i) = off B x + unat (rx_end i - x)"
    using off_add [of B x "rx_end i - x"] 2(2,3) by simp
  have pos: "0 < unat (rx_end i - x)"
    using 2(2) by (auto simp: seqLess_def unat_gt_0)
  have b: "rx_begin i = x" "seqLess x (rx_end i)" "chain (rx_end i) is e" using 2(2) by auto
  show ?case
  proof (cases "rx_sacked i \<or> rx_rexmitted i")
    case True
    then have "takeWhile (\<lambda>f. fst f \<or> snd f) (rx_bytes i @ bytes_of is)
        = rx_bytes i @ takeWhile (\<lambda>f. fst f \<or> snd f) (bytes_of is)"
      by (intro takeWhile_append2) (auto simp: rx_bytes_def)
    moreover have "seqLE x x" by (simp add: seqLE_def)
    ultimately show ?thesis
      using True b 2(1) 2(3) e by (simp add: add_ac)
  next
    case False
    then have "takeWhile (\<lambda>f. fst f \<or> snd f) (rx_bytes i @ bytes_of is) = []"
      using pos b by (cases "unat (rx_end i - x)") (auto simp: rx_bytes_def)
    with False show ?thesis by simp
  qed
qed simp

lemma getSackedBit_board:
  assumes inv: "rq_inv q" and x: "off (rq_begin q) x \<le> length (scoreboard q)"
  shows "getSackedBit q x = Inr (off (rq_begin q) x < length (scoreboard q) \<and> fst (scoreboard q ! off (rq_begin q) x))"
proof (cases "off (rq_begin q) x < length (scoreboard q)")
  case True
  obtain i after where i: "rest_from x (rexmitQueue q) = i # after" "seqLE (rx_begin i) x" "seqLess x (rx_end i)"
    "bytes_of (i\<lparr>rx_begin := x\<rparr> # after) = drop (off (rq_begin q) x) (scoreboard q)"
    using located [OF inv True] by metis
  have "0 < unat (rx_end i - x)" using i(3) by (auto simp: seqLess_def unat_gt_0)
  then have "hd (bytes_of (i\<lparr>rx_begin := x\<rparr> # after)) = (rx_sacked i, rx_rexmitted i)"
    by (cases "unat (rx_end i - x)") (simp_all add: rx_bytes_def)
  then have "scoreboard q ! off (rq_begin q) x = (rx_sacked i, rx_rexmitted i)"
    using i(4) True by (simp add: hd_drop_conv_nth)
  then show ?thesis using i rq_guards [OF inv x] True by (auto simp: getSackedBit_def)
next
  case False
  then show ?thesis using rq_guards [OF inv x] x by (simp add: getSackedBit_def)
qed

lemma checkSackBlock_board:
  assumes inv: "rq_inv q" and x: "off (rq_begin q) x < length (scoreboard q)"
  shows "\<exists>n. checkSackBlock q x = Inr (n, scoreboard q ! off (rq_begin q) x) \<and> 0 < unat n
    \<and> take (unat n) (drop (off (rq_begin q) x) (scoreboard q)) = replicate (unat n) (scoreboard q ! off (rq_begin q) x)"
proof -
  obtain i after where i: "rest_from x (rexmitQueue q) = i # after" "seqLE (rx_begin i) x" "seqLess x (rx_end i)"
    "bytes_of (i\<lparr>rx_begin := x\<rparr> # after) = drop (off (rq_begin q) x) (scoreboard q)"
    using located [OF inv x] by metis
  have pos: "0 < unat (rx_end i - x)" using i(3) by (auto simp: seqLess_def unat_gt_0)
  then have "hd (bytes_of (i\<lparr>rx_begin := x\<rparr> # after)) = (rx_sacked i, rx_rexmitted i)"
    by (cases "unat (rx_end i - x)") (simp_all add: rx_bytes_def)
  then have nth: "scoreboard q ! off (rq_begin q) x = (rx_sacked i, rx_rexmitted i)"
    using i(4) x by (simp add: hd_drop_conv_nth)
  have "take (unat (rx_end i - x)) (bytes_of (i\<lparr>rx_begin := x\<rparr> # after)) = replicate (unat (rx_end i - x)) (rx_sacked i, rx_rexmitted i)"
    by (simp add: rx_bytes_def)
  then have "take (unat (rx_end i - x)) (drop (off (rq_begin q) x) (scoreboard q))
      = replicate (unat (rx_end i - x)) (rx_sacked i, rx_rexmitted i)"
    by (simp only: i(4))
  then show ?thesis
    using i(1-3) nth pos rq_guards [OF inv less_imp_le [OF x]] x by (simp add: checkSackBlock_def)
qed

lemma checkRexmitQueue_board:
  assumes inv: "rq_inv q" and x: "off (rq_begin q) x \<le> length (scoreboard q)"
  shows "checkRexmitQueueForSackedOrRexmittedSegments q x =
    Inr (of_nat (length (takeWhile (\<lambda>f. fst f \<or> snd f) (drop (off (rq_begin q) x) (scoreboard q)))))"
proof (cases "off (rq_begin q) x < length (scoreboard q)")
  case True
  obtain i after where i: "rest_from x (rexmitQueue q) = i # after" "seqLE (rx_begin i) x" "seqLess x (rx_end i)"
    "chain x (i\<lparr>rx_begin := x\<rparr> # after) (rq_end q)"
    "bytes_of (i\<lparr>rx_begin := x\<rparr> # after) = drop (off (rq_begin q) x) (scoreboard q)"
    using located [OF inv True] by metis
  have "sackedOrRexmittedRun x (i # after) 0 = sackedOrRexmittedRun x (i\<lparr>rx_begin := x\<rparr> # after) 0"
    using i(2,3) by (simp add: seqLE_def)
  also have "\<dots> = Inr (0 + of_nat (length (takeWhile (\<lambda>f. fst f \<or> snd f) (bytes_of (i\<lparr>rx_begin := x\<rparr> # after)))))"
    by (rule sackedOrRexmittedRun_bytes [OF i(4), where B = "rq_begin q"]) (use i(5) inv True in \<open>simp add: rq_inv_def\<close>)
  finally have "sackedOrRexmittedRun x (i # after) 0
      = Inr (of_nat (length (takeWhile (\<lambda>f. fst f \<or> snd f) (drop (off (rq_begin q) x) (scoreboard q)))))"
    by (simp only: i(5) add_0)
  moreover have "rexmitQueue q \<noteq> []" using True by auto
  ultimately show ?thesis
    using i(1) rq_guards [OF inv x] True
    by (simp add: checkRexmitQueueForSackedOrRexmittedSegments_def del: sackedOrRexmittedRun.simps)
next
  case False
  then show ?thesis
    using rq_guards [OF inv x] x by (simp add: checkRexmitQueueForSackedOrRexmittedSegments_def)
qed

lemma getNumOfDiscontiguousSacks_board:
  assumes inv: "rq_inv q" and x: "off (rq_begin q) x \<le> length (scoreboard q)"
  shows "getNumOfDiscontiguousSacks q x = Inr (of_nat (runs False (map fst (drop (off (rq_begin q) x) (scoreboard q)))))"
proof (cases "off (rq_begin q) x < length (scoreboard q)")
  case True
  obtain i after where i: "rest_from x (rexmitQueue q) = i # after" "chain x (i\<lparr>rx_begin := x\<rparr> # after) (rq_end q)"
    "bytes_of (i\<lparr>rx_begin := x\<rparr> # after) = drop (off (rq_begin q) x) (scoreboard q)"
    using located [OF inv True] by metis
  have "countSackRuns False (i # after) 0 = countSackRuns False (i\<lparr>rx_begin := x\<rparr> # after) 0"
    by simp
  also have "\<dots> = 0 + of_nat (runs False (map fst (bytes_of (i\<lparr>rx_begin := x\<rparr> # after))))"
    by (rule countSackRuns_bytes [OF i(2)])
  finally have "countSackRuns False (i # after) 0
      = of_nat (runs False (map fst (drop (off (rq_begin q) x) (scoreboard q))))"
    by (simp only: i(3) add_0)
  moreover have "rexmitQueue q \<noteq> []" using True by auto
  ultimately show ?thesis
    using i(1) rq_guards [OF inv x] True by (simp add: getNumOfDiscontiguousSacks_def del: countSackRuns.simps)
next
  case False
  then show ?thesis
    using rq_guards [OF inv x] x by (simp add: getNumOfDiscontiguousSacks_def)
qed

lemma filter_bytes_rev: "length (filter fst (bytes_of (rev rs))) = length (filter fst (bytes_of rs))"
  by (induction rs) auto

lemma passed_none:
  assumes "chain b rs m" "off B b + length (bytes_of rs) < 2 ^ 31" "off B m \<le> off B x" "in_win B x" "i \<in> set rs"
  shows "\<not> seqLE x (rx_begin i)" "\<not> seqLess x (rx_end i)"
proof -
  have b: "off B (rx_begin i) < off B (rx_end i)" "off B (rx_end i) \<le> off B m"
    using chain_begin_lt [OF assms(1,2,5)] by auto
  moreover have "off B m = off B b + length (bytes_of rs)"
    by (rule chain_off [OF assms(1)]) (use assms(2) in simp)
  ultimately have "in_win B (rx_begin i)" "in_win B (rx_end i)"
    using assms by (simp_all add: in_win_def)
  with b assms(3,4) show "\<not> seqLE x (rx_begin i)" "\<not> seqLess x (rx_end i)"
    using seqLE_off [of B x "rx_begin i"] seqLess_off [of B x "rx_end i"] by auto
qed

lemma case_no_overlap:
  "\<forall>r\<in>set l. \<not> seqLess x (rx_end r) \<Longrightarrow>
   (case l of [] \<Rightarrow> c
    | r # _ \<Rightarrow> if seqLess (rx_begin r) x \<and> seqLess x (rx_end r) \<and> rx_sacked r then c + (rx_end r - x) else c) = c"
  by (cases l) auto

lemma getAmountOfSackedBytes_board:
  assumes inv: "rq_inv q" and x: "off (rq_begin q) x \<le> length (scoreboard q)"
  shows "getAmountOfSackedBytes q x = Inr (of_nat (length (filter fst (drop (off (rq_begin q) x) (scoreboard q)))))"
proof -
  let ?B = "rq_begin q" and ?rs = "rexmitQueue q" and ?e = "rq_end q"
  let ?P = "\<lambda>i. seqLE x (rx_begin i)"
  have ch: "chain ?B ?rs ?e" and sz: "off ?B ?B + length (bytes_of ?rs) < 2 ^ 31"
    using inv by (simp_all add: rq_inv_def)
  have win: "in_win ?B x" using x sz by (simp add: in_win_def)
  note guards = rq_guards [OF inv x]
  have skip: "dropWhile ?P rs = rs \<and> takeWhile ?P rs = []" if "\<forall>i\<in>set rs. \<not> ?P i" for rs
    using that by (cases rs) auto
  show ?thesis
  proof (cases "off ?B x < length (bytes_of ?rs)")
    case True
    obtain i after where i: "?rs = passed x ?rs @ i # after" "seqLE (rx_begin i) x" "seqLess x (rx_end i)"
      "bytes_of (i\<lparr>rx_begin := x\<rparr> # after) = drop (off ?B x) (bytes_of ?rs)"
      "chain ?B (passed x ?rs) (rx_begin i)" "off ?B (rx_begin i) \<le> off ?B x" "chain (rx_end i) after ?e"
      "off ?B (rx_begin i) = length (bytes_of (passed x ?rs))"
      using located [OF inv True] by metis
    let ?pre = "passed x ?rs"
    have len: "length (bytes_of ?pre) + unat (rx_end i - rx_begin i) + length (bytes_of after) = length (bytes_of ?rs)"
      using arg_cong [OF i(1), of "\<lambda>l. length (bytes_of l)"] by simp
    have oi: "off ?B (rx_end i) = off ?B (rx_begin i) + unat (rx_end i - rx_begin i)"
      using off_add [of ?B "rx_begin i" "rx_end i - rx_begin i"] i(8) len sz by simp
    have w: "in_win ?B (rx_begin i)" "in_win ?B (rx_end i)"
      using oi i(8) len sz by (simp_all add: in_win_def)
    have xi: "off ?B x < off ?B (rx_end i)" using i(3) seqLess_off [OF win w(2)] by simp
    have all: "?P r" if "r \<in> set after" for r
      using chain_begin_ge [OF i(7), of ?B r] that oi i(8) len sz xi seqLE_off [OF win, of "rx_begin r"] by auto
    have post: "takeWhile ?P (rev after @ ys) = rev after @ takeWhile ?P ys" for ys
      by (rule takeWhile_append2) (use all in simp)
    have post': "dropWhile ?P (rev after @ ys) = dropWhile ?P ys" for ys
      by (rule dropWhile_append2) (use all in simp)
    have pre: "\<not> ?P r" "\<not> seqLess x (rx_end r)" if "r \<in> set ?pre" for r
      using passed_none [OF i(5) _ i(6) win that] len sz by auto
    have pre': "takeWhile ?P (rev ?pre) = []" "dropWhile ?P (rev ?pre) = rev ?pre"
      using skip [of "rev ?pre"] pre(1) by auto
    have rev: "rev ?rs = rev after @ i # rev ?pre" by (subst i(1)) simp
    have Pi: "?P i \<longleftrightarrow> rx_begin i = x"
      using seqLE_off [OF win w(1)] i(6) off_eq_iff [of ?B "rx_begin i" x] by auto
    have val: "length (filter fst (drop (off ?B x) (bytes_of ?rs)))
        = (if rx_sacked i then unat (rx_end i - x) else 0) + length (filter fst (bytes_of after))"
      unfolding i(4) [symmetric] by (simp add: rx_bytes_def)
    show ?thesis
    proof (cases "rx_begin i = x")
      case True
      note case_no_overlap [of "rev ?pre" x]
      then show ?thesis
        using guards True Pi pre' pre(2) val
        by (simp add: getAmountOfSackedBytes_def rev post post' Let_def sumSacked_bytes filter_bytes_rev rx_bytes_def)
    next
      case False
      then have "seqLess (rx_begin i) x" using i(2) by (simp add: seqLess_def seqLE_def)
      then show ?thesis
        using guards False Pi val i(3)
        by (simp add: getAmountOfSackedBytes_def rev post post' Let_def sumSacked_bytes filter_bytes_rev)
    qed
  next
    case False
    then have xe: "off ?B ?e \<le> off ?B x" using guards(4) x by simp
    have none: "\<not> ?P r" "\<not> seqLess x (rx_end r)" if "r \<in> set ?rs" for r
      using passed_none [OF ch sz xe win that] by auto
    then have "takeWhile ?P (rev ?rs) = []" "dropWhile ?P (rev ?rs) = rev ?rs"
      using skip [of "rev ?rs"] by auto
    moreover note case_no_overlap [of "rev ?rs" x]
    ultimately show ?thesis
      using guards False none(2) by (simp add: getAmountOfSackedBytes_def Let_def)
  qed
qed

section \<open>Histories\<close>

text \<open>What the sender does to the queue, and what it means on a scoreboard that starts at a sequence number.\<close>

datatype SackOp =
    SentData u32 u32 | SackedBlock u32 u32 | AckedUpTo u32 | ResetSacked | ResetRexmitted

type_synonym board = "u32 \<times> (bool \<times> bool) list"

fun abs_step :: "board \<Rightarrow> SackOp \<Rightarrow> board" where
  "abs_step (b, bs) (SentData f t) = (b, sent (off b f) (off b t) bs)"
| "abs_step (b, bs) (SackedBlock f t) =
     (b, mark_range set_sacked (if seqLess f b then 0 else off b f) (off b t) bs)"
| "abs_step (b, bs) (AckedUpTo x) = (x, drop (off b x) bs)"
| "abs_step (b, bs) ResetSacked = (b, map (\<lambda>f. (False, snd f)) bs)"
| "abs_step (b, bs) ResetRexmitted = (b, map (\<lambda>f. (fst f, False)) bs)"

text \<open>The calls a correct sender makes: it sends from inside or at the end of the outstanding data, not
  more than \<open>2 ^ 31\<close> ahead, and passes on only blocks and acknowledgements for outstanding data.\<close>

fun abs_ok :: "board \<Rightarrow> SackOp \<Rightarrow> bool" where
  "abs_ok (b, bs) (SentData f t) \<longleftrightarrow> off b f \<le> length bs \<and> off b f < off b t \<and> off b t < 2 ^ 31"
| "abs_ok (b, bs) (SackedBlock f t) \<longleftrightarrow>
     (if seqLess f b then 0 else off b f) < off b t \<and> off b t \<le> length bs"
| "abs_ok (b, bs) (AckedUpTo x) \<longleftrightarrow> off b x \<le> length bs"
| "abs_ok (b, bs) ResetSacked \<longleftrightarrow> True"
| "abs_ok (b, bs) ResetRexmitted \<longleftrightarrow> True"

fun abs_oks :: "board \<Rightarrow> SackOp list \<Rightarrow> bool" where
  "abs_oks s [] \<longleftrightarrow> True"
| "abs_oks s (a # as) \<longleftrightarrow> abs_ok s a \<and> abs_oks (abs_step s a) as"

fun run_ops :: "('q \<Rightarrow> 'o \<Rightarrow> 'q outcome) \<Rightarrow> 'q \<Rightarrow> 'o list \<Rightarrow> 'q outcome" where
  "run_ops step q [] = Inr q"
| "run_ops step q (a # as) = outcome_bind (step q a) (\<lambda>q'. run_ops step q' as)"

definition sacked_at :: "board \<Rightarrow> u32 \<Rightarrow> bool" where
  "sacked_at s x \<longleftrightarrow> off (fst s) x < length (snd s) \<and> fst (snd s ! off (fst s) x)"

text \<open>Operations that neither acknowledge the byte \<open>x\<close> nor reset the flags.\<close>

fun keeps_byte :: "u32 \<Rightarrow> board \<Rightarrow> SackOp list \<Rightarrow> bool" where
  "keeps_byte x s [] \<longleftrightarrow> True"
| "keeps_byte x s (a # as) \<longleftrightarrow>
     (case a of AckedUpTo y \<Rightarrow> off (fst s) y \<le> off (fst s) x | ResetSacked \<Rightarrow> False | _ \<Rightarrow> True)
     \<and> keeps_byte x (abs_step s a) as"

lemma sacked_at_step:
  assumes "sacked_at s x" "abs_ok s a"
    "case a of AckedUpTo y \<Rightarrow> off (fst s) y \<le> off (fst s) x | ResetSacked \<Rightarrow> False | _ \<Rightarrow> True"
  shows "sacked_at (abs_step s a) x"
proof (cases s)
  case (Pair b bs)
  show ?thesis
  proof (cases a)
    case (AckedUpTo y)
    then have le: "off b y \<le> off b x" using assms Pair by simp
    have "off y x = off b x - off b y"
      using unat_diff_off [OF le] by (simp add: off_def)
    with AckedUpTo assms Pair le show ?thesis
      by (simp add: sacked_at_def nth_drop less_diff_conv)
  qed (use assms Pair in \<open>auto simp: sacked_at_def sent_def nth_append nth_mark_range set_rexmitted_def set_sacked_def\<close>)
qed

locale sack_scoreboard =
  fixes inv :: "'q \<Rightarrow> bool"
    and board :: "'q \<Rightarrow> board"
    and step :: "'q \<Rightarrow> SackOp \<Rightarrow> 'q outcome"
  assumes step_refines: "inv q \<Longrightarrow> abs_ok (board q) a \<Longrightarrow> \<exists>q'. step q a = Inr q' \<and> inv q' \<and> board q' = abs_step (board q) a"
begin

lemma run_refines:
  "inv q \<Longrightarrow> abs_oks (board q) as \<Longrightarrow>
     \<exists>q'. run_ops step q as = Inr q' \<and> inv q' \<and> board q' = fold (\<lambda>a s. abs_step s a) as (board q)"
proof (induction as arbitrary: q)
  case (Cons a as)
  obtain q1 where q1: "step q a = Inr q1" "inv q1" "board q1 = abs_step (board q) a"
    using step_refines [of q a] Cons.prems by auto
  with Cons.IH [of q1] Cons.prems show ?case by simp
qed simp

lemma sacked_persists:
  "inv q \<Longrightarrow> abs_oks (board q) as \<Longrightarrow> sacked_at (board q) x \<Longrightarrow> keeps_byte x (board q) as \<Longrightarrow>
     \<exists>q'. run_ops step q as = Inr q' \<and> inv q' \<and> sacked_at (board q') x"
proof (induction as arbitrary: q)
  case (Cons a as)
  obtain q1 where q1: "step q a = Inr q1" "inv q1" "board q1 = abs_step (board q) a"
    using step_refines [of q a] Cons.prems by auto
  moreover have "sacked_at (board q1) x"
    using sacked_at_step [of "board q" x a] q1(3) Cons.prems by simp
  ultimately show ?case
    using Cons.IH [of q1] Cons.prems by simp
qed simp

end

definition rq_board :: "TCPSACKRexmitQueue \<Rightarrow> board" where
  "rq_board q = (rq_begin q, scoreboard q)"

fun rq_step :: "TCPSACKRexmitQueue \<Rightarrow> SackOp \<Rightarrow> TCPSACKRexmitQueue outcome" where
  "rq_step q (SentData f t) = enqueueSentData q f t"
| "rq_step q (SackedBlock f t) = setSackedBit q f t"
| "rq_step q (AckedUpTo x) = rq_discardUpTo q x"
| "rq_step q ResetSacked = Inr (resetSackedBit q)"
| "rq_step q ResetRexmitted = Inr (resetRexmittedBit q)"

lemma reset_refines:
  "rq_inv q \<Longrightarrow> rq_inv (resetSackedBit q) \<and> scoreboard (resetSackedBit q) = map (\<lambda>f. (False, snd f)) (scoreboard q)"
  "rq_inv q \<Longrightarrow> rq_inv (resetRexmittedBit q) \<and> scoreboard (resetRexmittedBit q) = map (\<lambda>f. (fst f, False)) (scoreboard q)"
proof -
  have *: "bytes_of (map (\<lambda>i. i\<lparr>rx_sacked := False\<rparr>) rs) = map (\<lambda>f. (False, snd f)) (bytes_of rs)"
    "bytes_of (map (\<lambda>i. i\<lparr>rx_rexmitted := False\<rparr>) rs) = map (\<lambda>f. (fst f, False)) (bytes_of rs)" for rs
    by (rule bytes_of_map; simp)+
  have **: "chain b (map (\<lambda>i. i\<lparr>rx_sacked := False\<rparr>) rs) e \<longleftrightarrow> chain b rs e"
    "chain b (map (\<lambda>i. i\<lparr>rx_rexmitted := False\<rparr>) rs) e \<longleftrightarrow> chain b rs e" for b rs e
    by (rule chain_map; simp)+
  show "rq_inv q \<Longrightarrow> rq_inv (resetSackedBit q) \<and> scoreboard (resetSackedBit q) = map (\<lambda>f. (False, snd f)) (scoreboard q)"
    "rq_inv q \<Longrightarrow> rq_inv (resetRexmittedBit q) \<and> scoreboard (resetRexmittedBit q) = map (\<lambda>f. (fst f, False)) (scoreboard q)"
    by (simp_all add: resetSackedBit_def resetRexmittedBit_def rq_inv_def * **)
qed

interpretation rq: sack_scoreboard rq_inv rq_board rq_step
proof unfold_locales
  fix q a assume inv: "rq_inv q" and ok: "abs_ok (rq_board q) a"
  show "\<exists>q'. rq_step q a = Inr q' \<and> rq_inv q' \<and> rq_board q' = abs_step (rq_board q) a"
  proof (cases a)
    case (SentData f t)
    then show ?thesis
      using enqueueSentData_refines [OF inv, of f t] ok by (auto simp: rq_board_def)
  next
    case (SackedBlock f t)
    then show ?thesis
      using setSackedBit_refines [OF inv refl, of f t] ok by (auto simp: rq_board_def)
  next
    case (AckedUpTo x)
    then show ?thesis
      using discardUpTo_refines [OF inv, of x] ok by (auto simp: rq_board_def)
  next
    case ResetSacked
    then show ?thesis
      using reset_refines(1) [OF inv] by (simp add: rq_board_def) (simp add: resetSackedBit_def)
  next
    case ResetRexmitted
    then show ?thesis
      using reset_refines(2) [OF inv] by (simp add: rq_board_def) (simp add: resetRexmittedBit_def)
  qed
qed

lemma rq_init_inv: "rq_inv (rq_init rq_new iss) \<and> rq_board (rq_init rq_new iss) = (iss, [])"
  by (simp add: rq_init_def rq_new_def rq_inv_def rq_board_def)

definition example_ops :: "SackOp list" where
  "example_ops =
     [SentData 0xFFFFFFF8 8, SackedBlock 0xFFFFFFFC 4, SentData 0xFFFFFFF8 0xFFFFFFFC, AckedUpTo 0xFFFFFFFA]"

text \<open>
  C14: the retransmission queue implements the scoreboard: for every sequence of the calls a correct
  sender makes, no ASSERT of the queue fails, the queue passes its own consistency check, and its regions
  spell out, byte by byte, the flags obtained by applying the operations to the scoreboard.
\<close>

theorem sack_queue_refines_scoreboard:
  assumes "abs_oks (iss, []) as"
  shows "\<exists>q. run_ops rq_step (rq_init rq_new iss) as = Inr q \<and> checkQueue q
     \<and> rq_board q = fold (\<lambda>a s. abs_step s a) as (iss, [])"
  using rq.run_refines [of "rq_init rq_new iss" as] assms rq_init_inv [of iss]
  by (auto simp: rq_inv_def checkQueue_chain)

theorem sack_queue_refines_scoreboard_witness:
  "\<exists>q. run_ops rq_step (rq_init rq_new 0xFFFFFFF8) example_ops = Inr q \<and> checkQueue q
     \<and> rq_board q = (0xFFFFFFFA, replicate 2 (False, True) @ replicate 8 (True, False) @ replicate 4 (False, False))"
proof -
  have "abs_oks (0xFFFFFFF8, []) example_ops"
    by (simp add: example_ops_def off_def seqLess_def sent_def mark_range_def)
  moreover have "fold (\<lambda>a s. abs_step s a) example_ops (0xFFFFFFF8, [])
      = (0xFFFFFFFA, replicate 2 (False, True) @ replicate 8 (True, False) @ replicate 4 (False, False))"
    by code_simp
  ultimately show ?thesis using sack_queue_refines_scoreboard [of "0xFFFFFFF8" example_ops] by simp
qed


definition example_queue :: TCPSACKRexmitQueue where
  "example_queue =
     \<lparr>rexmitQueue =
        [\<lparr>rx_begin = 0xFFFFFFFA, rx_end = 0xFFFFFFFC, rx_sacked = False, rx_rexmitted = True\<rparr>,
         \<lparr>rx_begin = 0xFFFFFFFC, rx_end = 4, rx_sacked = True, rx_rexmitted = False\<rparr>,
         \<lparr>rx_begin = 4, rx_end = 8, rx_sacked = False, rx_rexmitted = False\<rparr>],
      rq_begin = 0xFFFFFFFA, rq_end = 8\<rparr>"

lemma example_queue_inv: "rq_inv example_queue"
proof -
  have "chain (rq_begin example_queue) (rexmitQueue example_queue) (rq_end example_queue)"
    "length (scoreboard example_queue) = 14" by code_simp+
  then show ?thesis by (simp add: rq_inv_def)
qed


text \<open>
  A byte that the receiver has selectively acknowledged stays marked: after any sequence of further
  calls that neither acknowledges the byte nor resets the flags, \<open>getSackedBit\<close> still answers true for it.
\<close>

theorem sacked_byte_persists:
  assumes "rq_inv q" and "off (rq_begin q) x \<le> length (scoreboard q)" and "getSackedBit q x = Inr True"
    and "abs_oks (rq_board q) as" and "keeps_byte x (rq_board q) as"
  shows "\<exists>q'. run_ops rq_step q as = Inr q' \<and> getSackedBit q' x = Inr True"
proof -
  have "sacked_at (rq_board q) x"
    using getSackedBit_board [OF assms(1,2)] assms(3) by (simp add: sacked_at_def rq_board_def)
  then obtain q' where "run_ops rq_step q as = Inr q'" "rq_inv q'" "sacked_at (rq_board q') x"
    using rq.sacked_persists [OF assms(1,4) _ assms(5)] by blast
  then show ?thesis
    using getSackedBit_board [of q' x] by (auto simp: sacked_at_def rq_board_def)
qed

theorem sacked_byte_persists_witness:
  "\<exists>q'. run_ops rq_step example_queue [SentData 4 12, AckedUpTo 1, SackedBlock 6 8] = Inr q' \<and> getSackedBit q' 2 = Inr True"
proof (rule sacked_byte_persists [OF example_queue_inv])
  show "off (rq_begin example_queue) 2 \<le> length (scoreboard example_queue)" by code_simp
  show "getSackedBit example_queue 2 = Inr True" by code_simp
  show "abs_oks (rq_board example_queue) [SentData 4 12, AckedUpTo 1, SackedBlock 6 8]"
    by (simp add: rq_board_def example_queue_def rx_bytes_def off_def seqLess_def sent_def mark_range_def)
  show "keeps_byte 2 (rq_board example_queue) [SentData 4 12, AckedUpTo 1, SackedBlock 6 8]" by code_simp
qed

end
