(* ===== verification/TCP_Connection.thy ===== *)
theory TCP_Connection
  imports TCP_Receive TCP_SACK_Queue
begin

text \<open>
  The connection object of TCP, \<^verbatim>\<open>src/src/transport/tcp/TCPConnection.h\<close>: its states
  and events, the state block, the header options of \<^verbatim>\<open>TCPConnectionUtil.cc\<close> and
  \<^verbatim>\<open>TCPConnectionSackUtil.cc\<close> in both directions, the send window, and the segments
  a connection builds itself (SYN, SYN+ACK, ACK, FIN, RST).  The part of the state block that the
  receive side works on is the record \<open>TCPStateVariables\<close>; the rest are fields of the connection.
  What leaves the connection (segments to IP, indications to the application, calls of the
  congestion-control object) is recorded in order.  Shown: the option block of every segment fits the
  header and is a whole number of words.
\<close>

section \<open>States, events and what leaves the connection\<close>

datatype TcpState =
    S_INIT | S_CLOSED | S_LISTEN | S_SYN_SENT | S_SYN_RCVD | S_ESTABLISHED | S_CLOSE_WAIT
  | S_LAST_ACK | S_FIN_WAIT_1 | S_FIN_WAIT_2 | S_CLOSING | S_TIME_WAIT

datatype TCPEventCode =
    E_IGNORE | E_OPEN_ACTIVE | E_OPEN_PASSIVE | E_SEND | E_CLOSE | E_ABORT | E_STATUS | E_QUEUE_BYTES_LIMIT
  | E_RCV_DATA | E_RCV_ACK | E_RCV_SYN | E_RCV_SYN_ACK | E_RCV_FIN | E_RCV_FIN_ACK | E_RCV_RST | E_RCV_UNEXP_SYN
  | E_TIMEOUT_2MSL | E_TIMEOUT_CONN_ESTAB | E_TIMEOUT_FIN_WAIT_2

datatype TcpStatusInd =
    I_DATA u32 | I_ESTABLISHED | I_PEER_CLOSED | I_CLOSED | I_CONNECTION_REFUSED | I_CONNECTION_RESET | I_TIMED_OUT
  | I_STATUS | I_SEND_MSG u32

record TCPOption =
  optKind :: nat
  optLength :: nat
  optValues :: "u32 list"

text \<open>The calls of the congestion-control object, \<^verbatim>\<open>TCPAlgorithm\<close>.\<close>

datatype TCPAlgorithmCall =
    A_initialize | A_established bool | A_connectionClosed | A_sendCommandInvoked | A_receivedOutOfOrderSegment
  | A_receiveSeqChanged | A_receivedDataAck u32 | A_receivedDuplicateAck | A_receivedAckForDataNotYetSent u32
  | A_ackSent | A_dataSent u32 | A_segmentRetransmitted u32 u32 | A_restartRexmitTimer
  | A_rttMeasurementCompleteUsingTS u32

datatype TcpOut =
    ToIP TCPSegment u16 "TCPOption list"
  | ToApp TcpStatusInd
  | ToAlgorithm TCPAlgorithmCall

text \<open>A timer message: not allocated, allocated, or in the event queue.\<close>

datatype timer = TimerNull | TimerIdle | TimerScheduled

section \<open>The connection\<close>

text \<open>The parameters of the TCP module that a connection reads.\<close>

record TCPParams =
  par_advertisedWindow :: int
  par_windowScalingSupport :: bool
  par_mss :: u32
  par_delayedAcksEnabled :: bool
  par_nagleEnabled :: bool
  par_limitedTransmitEnabled :: bool
  par_increasedIWEnabled :: bool
  par_timestampSupport :: bool
  par_sackSupport :: bool
  par_tcpAlgorithmClass :: string

text \<open>
  What the congestion control algorithms keep: their timers, and the state variables that
  \<^verbatim>\<open>TCPBaseAlgStateVariables\<close> and \<^verbatim>\<open>TCPTahoeRenoFamilyStateVariables\<close> add to
  the state block of the connection.  Times are in milliseconds.
\<close>

record TCPAlgState =
  rexmitTimer :: timer
  persistTimer :: timer
  delayedAckTimer :: timer
  keepAliveTimer :: timer
  rexmit_count :: int
  rexmit_timeout :: int
  persist_factor :: u32
  persist_timeout :: int
  snd_cwnd :: u32
  rtseq :: u32
  rtseq_sendtime :: int
  srtt :: int
  rttvar :: int
  numRtos :: u32
  recover :: u32
  firstPartialACK :: bool
  ssthresh :: u32

definition TCPAlgState_new :: TCPAlgState where
  "TCPAlgState_new =
     \<lparr>rexmitTimer = TimerNull, persistTimer = TimerNull, delayedAckTimer = TimerNull, keepAliveTimer = TimerNull,
      rexmit_count = 0, rexmit_timeout = 3000, persist_factor = 0, persist_timeout = 5000, snd_cwnd = 0, rtseq = 0,
      rtseq_sendtime = 0, srtt = 0, rttvar = 750, numRtos = 0, recover = 0, firstPartialACK = False, ssthresh = 0xFFFFFFFF\<rparr>"

text \<open>\<open>simTimeMs\<close> is the simulation time in milliseconds.\<close>

record TCPConnection =
  fsm :: TcpState
  active :: bool
  fork :: bool
  localPort :: int
  remotePort :: int
  remoteUnspecified :: bool
  the2MSLTimer :: timer
  connEstabTimer :: timer
  finWait2Timer :: timer
  synRexmitTimer :: timer
  iss :: u32
  irs :: u32
  snd_wnd :: u32
  snd_wl1 :: u32
  snd_wl2 :: u32
  send_fin :: bool
  snd_fin_seq :: u32
  fin_ack_rcvd :: bool
  fin_rcvd :: bool
  rcv_fin_seq :: u32
  syn_rexmit_count :: nat
  syn_rexmit_timeout :: nat
  sentBytes :: u32
  full_sized_segment_counter :: u32
  ack_now :: bool
  nagle_enabled :: bool
  delayed_acks_enabled :: bool
  limited_transmit_enabled :: bool
  increased_IW_enabled :: bool
  sendQueueLimit :: u32
  queueUpdate :: bool
  ws_support :: bool
  snd_ws :: bool
  rcv_ws :: bool
  snd_wnd_scale :: u32
  ts_support :: bool
  ts_enabled :: bool
  snd_initial_ts :: bool
  rcv_initial_ts :: bool
  ts_recent :: u32
  last_ack_sent :: u32
  time_last_data_sent :: nat
  sack_support :: bool
  sack_enabled :: bool
  snd_sack_perm :: bool
  rcv_sack_perm :: bool
  snd_sack :: bool
  snd_dsack :: bool
  start_seqno :: u32
  end_seqno :: u32
  sacks_array :: "Sack list"
  highRxt :: u32
  pipe :: u32
  sackedBytes :: u32
  sackedBytes_old :: u32
  lossRecovery :: bool
  recoveryPoint :: u32
  dupacks :: u32
  snd_sacks :: u32
  rcv_sacks :: u32
  rcv_oooseg :: u32
  rcv_naseg :: u32
  tcpRcvQueueDrops :: u32
  tcb :: TCPStateVariables
  algState :: TCPAlgState
  sendQueue :: TCPVirtualDataSendQueue
  receiveQueue :: TCPVirtualDataRcvQueue
  rexmitQ :: "TCPSACKRexmitQueue option"
  par :: TCPParams
  simTimeMs :: nat
  outputs :: "TcpOut list"

definition out :: "TcpOut \<Rightarrow> TCPConnection \<Rightarrow> TCPConnection" where
  "out x c = c\<lparr>outputs := outputs c @ [x]\<rparr>"

text \<open>\<^verbatim>\<open>cancelEvent\<close> and \<^verbatim>\<open>scheduleAt\<close> of the simulation kernel: cancelling needs a
  message, scheduling needs one that is not in the event queue.\<close>

definition cancel :: "timer \<Rightarrow> timer outcome" where
  "cancel t = (if t = TimerNull then Inl (RuntimeError ''cancelEvent(): message pointer is NULL'') else Inr TimerIdle)"

definition cancel_if :: "timer \<Rightarrow> timer" where
  "cancel_if t = (if t = TimerNull then TimerNull else TimerIdle)"

definition scheduleTimeout :: "timer \<Rightarrow> timer outcome" where
  "scheduleTimeout t = (if t = TimerIdle then Inr TimerScheduled else Inl (RuntimeError ''scheduleAt()''))"

text \<open>The retransmission queue is used through a pointer that may be null.\<close>

definition onRexmitQueue ::
  "TCPConnection \<Rightarrow> (TCPSACKRexmitQueue \<Rightarrow> TCPSACKRexmitQueue outcome) \<Rightarrow> TCPConnection outcome" where
  "onRexmitQueue c f =
     (case rexmitQ c of
        None \<Rightarrow> Inl (UndefinedBehaviour ''rexmitQueue is NULL'')
      | Some q \<Rightarrow> outcome_bind (f q) (\<lambda>q'. Inr (c\<lparr>rexmitQ := Some q'\<rparr>)))"

definition askRexmitQueue :: "TCPConnection \<Rightarrow> (TCPSACKRexmitQueue \<Rightarrow> 'a outcome) \<Rightarrow> 'a outcome" where
  "askRexmitQueue c f =
     (case rexmitQ c of None \<Rightarrow> Inl (UndefinedBehaviour ''rexmitQueue is NULL'') | Some q \<Rightarrow> f q)"

text \<open>The values the constructor of the state block gives.\<close>

definition TCPStateVariables_new :: TCPStateVariables where
  "TCPStateVariables_new =
     \<lparr>snd_una = 0, snd_nxt = 0, snd_max = 0, snd_mss = 0, st_rcv_nxt = 0, rcv_wnd = 0, rcv_adv = 0, afterRto = False,
      ws_enabled = False, rcv_wnd_scale = 0, maxRcvBuffer = 0, usedRcvBuffer = 0, freeRcvBuffer = 0\<rparr>"

definition newStateBlock :: "TCPConnection \<Rightarrow> TCPConnection" where
  "newStateBlock c =
     c\<lparr>active := False, fork := False, iss := 0, irs := 0, snd_wnd := 0, snd_wl1 := 0, snd_wl2 := 0,
       send_fin := False, snd_fin_seq := 0, fin_ack_rcvd := False, fin_rcvd := False, rcv_fin_seq := 0,
       syn_rexmit_count := 0, syn_rexmit_timeout := 0, sentBytes := 0, full_sized_segment_counter := 0, ack_now := False,
       nagle_enabled := False, delayed_acks_enabled := False, limited_transmit_enabled := False, increased_IW_enabled := False,
       sendQueueLimit := 0, queueUpdate := True,
       ws_support := False, snd_ws := False, rcv_ws := False, snd_wnd_scale := 0,
       ts_support := False, ts_enabled := False, snd_initial_ts := False, rcv_initial_ts := False, ts_recent := 0,
       last_ack_sent := 0, time_last_data_sent := 0,
       sack_support := False, sack_enabled := False, snd_sack_perm := False, rcv_sack_perm := False,
       snd_sack := False, snd_dsack := False, start_seqno := 0, end_seqno := 0, sacks_array := [],
       highRxt := 0, pipe := 0, sackedBytes := 0, sackedBytes_old := 0, lossRecovery := False, recoveryPoint := 0,
       dupacks := 0, snd_sacks := 0, rcv_sacks := 0, rcv_oooseg := 0, rcv_naseg := 0, tcpRcvQueueDrops := 0,
       tcb := TCPStateVariables_new, algState := TCPAlgState_new\<rparr>"

text \<open>\<open>blank\<close> supplies the fields that the constructor of the connection leaves without a value; nothing reads
  them before the connection is opened.\<close>

definition TCPConnection_new :: "TCPConnection \<Rightarrow> TCPConnection" where
  "TCPConnection_new blank =
     blank\<lparr>localPort := -1, remotePort := -1, remoteUnspecified := True, fsm := S_INIT, the2MSLTimer := TimerIdle,
       connEstabTimer := TimerIdle, finWait2Timer := TimerIdle, synRexmitTimer := TimerIdle, rexmitQ := None,
       outputs := []\<rparr>"

definition configureStateVariables :: "TCPConnection \<Rightarrow> TCPConnection outcome" where
  "configureStateVariables c =
     (let p = par c; adv = par_advertisedWindow p; ws = par_windowScalingSupport p in
      if \<not> ws \<and> (adv > uint TCP_MAX_WIN \<or> adv \<le> 0) then Inl (RuntimeError ''Invalid advertisedWindow parameter'')
      else
        let w = (if ws \<and> adv > uint TCP_MAX_WIN then TCP_MAX_WIN else word_of_int adv);
            c1 = c\<lparr>ws_support := ws, delayed_acks_enabled := par_delayedAcksEnabled p, nagle_enabled := par_nagleEnabled p,
                   limited_transmit_enabled := par_limitedTransmitEnabled p, increased_IW_enabled := par_increasedIWEnabled p,
                   ts_support := par_timestampSupport p, sack_support := par_sackSupport p,
                   tcb := (tcb c)\<lparr>rcv_wnd := w, rcv_adv := w, maxRcvBuffer := word_of_int adv, snd_mss := par_mss p\<rparr>\<rparr>
        in if par_sackSupport p \<and> par_tcpAlgorithmClass p \<noteq> ''TCPReno'' then Inl (AssertFailed ''false'')
           else Inr c1)"

definition initConnection :: "TCPConnection \<Rightarrow> TCPConnection outcome" where
  "initConnection c =
     outcome_bind
       (configureStateVariables (newStateBlock
          (c\<lparr>sendQueue := \<lparr>sq_begin = 0, sq_end = 0\<rparr>, receiveQueue := rcvq_init 0, rexmitQ := Some rq_new\<rparr>)))
       (\<lambda>c1. Inr (out (ToAlgorithm A_initialize) c1))"

text \<open>The clone that stays in LISTEN when a connection forks, second component; the code makes the new
  retransmission queue and configures the state block of the connection itself, not of the clone.\<close>

definition cloneListeningConnection :: "TCPConnection \<Rightarrow> (TCPConnection \<times> TCPConnection) outcome" where
  "cloneListeningConnection c =
     outcome_bind (configureStateVariables (c\<lparr>rexmitQ := Some rq_new\<rparr>)) (\<lambda>c1.
       Inr (c1, out (ToAlgorithm A_initialize)
         ((newStateBlock (TCPConnection_new c))\<lparr>sendQueue := \<lparr>sq_begin = 0, sq_end = 0\<rparr>, receiveQueue := rcvq_init 0,
            active := False, fork := True, localPort := localPort c, fsm := S_LISTEN\<rparr>)))"

section \<open>The send window\<close>

text \<open>\<open>window\<close> is the field of the header; the shift is on 32 bits.\<close>

definition updateWndInfo :: "TCPSegment \<Rightarrow> u16 \<Rightarrow> bool \<Rightarrow> TCPConnection \<Rightarrow> TCPConnection" where
  "updateWndInfo g window doAlways c =
     (let true_window = (if ws_enabled (tcb c) \<and> \<not> synBit g
            then push_bit (unat (snd_wnd_scale c)) (ucast window) else ucast window) :: u32
      in if doAlways \<or> (ackBit g \<and>
             (seqLess (snd_wl1 c) (sequenceNo g) \<or> (snd_wl1 c = sequenceNo g \<and> seqLE (snd_wl2 c) (ackNo g))
              \<or> (snd_wl2 c = ackNo g \<and> true_window > snd_wnd c)))
         then c\<lparr>snd_wnd := true_window, snd_wl1 := sequenceNo g, snd_wl2 := ackNo g\<rparr> else c)"

section \<open>Reading header options\<close>

abbreviation (input) "TCPOPTION_END_OF_OPTION_LIST \<equiv> (0::nat)"
abbreviation (input) "TCPOPTION_NO_OPERATION \<equiv> (1::nat)"
abbreviation (input) "TCPOPTION_MAXIMUM_SEGMENT_SIZE \<equiv> (2::nat)"
abbreviation (input) "TCPOPTION_WINDOW_SCALE \<equiv> (3::nat)"
abbreviation (input) "TCPOPTION_SACK_PERMITTED \<equiv> (4::nat)"
abbreviation (input) "TCPOPTION_SACK \<equiv> (5::nat)"
abbreviation (input) "TCPOPTION_TIMESTAMP \<equiv> (8::nat)"

abbreviation (input) "TCP_HEADER_OCTETS \<equiv> (20::nat)"
abbreviation (input) "TCP_OPTIONS_MAX_SIZE \<equiv> (40::nat)"
abbreviation (input) "TCP_OPTION_SACK_MIN_SIZE \<equiv> (10::nat)"
abbreviation (input) "TCP_OPTION_TS_SIZE \<equiv> (12::u32)"
abbreviation (input) "PAWS_IDLE_TIME_THRESH \<equiv> (24 * 24 * 3600 :: nat)"
abbreviation (input) "DUPTHRESH \<equiv> (3::u32)"

definition processMSSOption :: "TCPOption \<Rightarrow> TCPConnection \<Rightarrow> (TCPConnection \<times> bool) outcome" where
  "processMSSOption opt c =
     (if optLength opt \<noteq> 4 then Inr (c, False)
      else if fsm c \<noteq> S_LISTEN \<and> fsm c \<noteq> S_SYN_SENT then Inr (c, False)
      else if length (optValues opt) = 0
      then Inl (RuntimeError ''TCPOption for MSS does not contain the data its getLength() promises'')
      else
        let m = min (snd_mss (tcb c)) (optValues opt ! 0)
        in Inr (c\<lparr>tcb := (tcb c)\<lparr>snd_mss := (if m = 0 then 536 else m)\<rparr>\<rparr>, True))"

definition processWSOption :: "TCPOption \<Rightarrow> TCPConnection \<Rightarrow> (TCPConnection \<times> bool) outcome" where
  "processWSOption opt c =
     (if optLength opt \<noteq> 3 then Inr (c, False)
      else if fsm c \<noteq> S_LISTEN \<and> fsm c \<noteq> S_SYN_SENT then Inr (c, False)
      else if length (optValues opt) = 0
      then Inl (RuntimeError ''TCPOption for WS does not contain the data its getLength() promises'')
      else
        let s = optValues opt ! 0
        in Inr (c\<lparr>rcv_ws := True, tcb := (tcb c)\<lparr>ws_enabled := ws_support c \<and> snd_ws c\<rparr>,
                  snd_wnd_scale := (if s > 14 then 14 else s)\<rparr>, True))"

definition processTSOption :: "TCPSegment \<Rightarrow> TCPOption \<Rightarrow> TCPConnection \<Rightarrow> (TCPConnection \<times> bool) outcome" where
  "processTSOption g opt c =
     (if optLength opt \<noteq> 10 then Inr (c, False)
      else if (\<not> ts_enabled c \<and> fsm c \<noteq> S_LISTEN \<and> fsm c \<noteq> S_SYN_SENT)
           \<or> (ts_enabled c \<and> fsm c \<noteq> S_SYN_RCVD \<and> fsm c \<noteq> S_ESTABLISHED \<and> fsm c \<noteq> S_FIN_WAIT_1 \<and> fsm c \<noteq> S_FIN_WAIT_2)
      then Inr (c, False)
      else if length (optValues opt) \<noteq> 2
      then Inl (RuntimeError ''TCPOption for TS does not contain the data its getLength() promises'')
      else
        let c1 = (if \<not> ts_enabled c
                  then c\<lparr>rcv_initial_ts := True, ts_enabled := ts_support c \<and> snd_initial_ts c\<rparr> else c);
            tsval = optValues opt ! 0
        in if ts_enabled c1 then
             if seqLess tsval (ts_recent c1)
             then Inr (c1, \<not> int (simTimeMs c1) - int (time_last_data_sent c1) > int PAWS_IDLE_TIME_THRESH * 1000)
             else if seqLE (sequenceNo g) (last_ack_sent c1) then Inr (c1\<lparr>ts_recent := tsval\<rparr>, True)
             else Inr (c1, True)
           else Inr (c1, True))"

definition processSACKPermittedOption :: "TCPOption \<Rightarrow> TCPConnection \<Rightarrow> (TCPConnection \<times> bool) outcome" where
  "processSACKPermittedOption opt c =
     (if optLength opt \<noteq> 2 then Inr (c, False)
      else if fsm c \<noteq> S_LISTEN \<and> fsm c \<noteq> S_SYN_SENT then Inr (c, False)
      else Inr (c\<lparr>rcv_sack_perm := True, sack_enabled := sack_support c \<and> snd_sack_perm c\<rparr>, True))"

text \<open>The blocks of a SACK option, taken two values at a time; the branches for duplicate SACKs only log.\<close>

fun sackLoop :: "TCPSegment \<Rightarrow> u32 list \<Rightarrow> TCPConnection \<Rightarrow> TCPConnection outcome" where
  "sackLoop g (s # e # vs) c =
     outcome_bind
       (if seqGreater e (ackNo g) \<and> seqGreater e (snd_una (tcb c))
        then onRexmitQueue c (\<lambda>q. setSackedBit q s e) else Inr c)
       (\<lambda>c1. sackLoop g vs c1)"
| "sackLoop g _ c = Inr c"

definition processSACKOption :: "TCPSegment \<Rightarrow> TCPOption \<Rightarrow> TCPConnection \<Rightarrow> (TCPConnection \<times> bool) outcome" where
  "processSACKOption g opt c =
     (let n = length (optValues opt) div 2 in
      if optLength opt mod 8 \<noteq> 2 then Inr (c, False)
      else if \<not> sack_enabled c then Inr (c, False)
      else if fsm c \<noteq> S_SYN_RCVD \<and> fsm c \<noteq> S_ESTABLISHED \<and> fsm c \<noteq> S_FIN_WAIT_1 \<and> fsm c \<noteq> S_FIN_WAIT_2
      then Inr (c, False)
      else if n > 0 then
        outcome_bind (sackLoop g (optValues opt) c) (\<lambda>c1.
        outcome_bind (askRexmitQueue c1 (\<lambda>q. Inr (getTotalAmountOfSackedBytes q))) (\<lambda>total.
          Inr (c1\<lparr>rcv_sacks := rcv_sacks c1 + of_nat n, sackedBytes_old := sackedBytes c1, sackedBytes := total\<rparr>, True)))
      else Inr (c, True))"

definition processOption :: "TCPSegment \<Rightarrow> TCPOption \<Rightarrow> TCPConnection \<Rightarrow> (TCPConnection \<times> bool) outcome" where
  "processOption g opt c =
     (if optKind opt = TCPOPTION_END_OF_OPTION_LIST \<or> optKind opt = TCPOPTION_NO_OPERATION
      then Inr (c, optLength opt = 1)
      else if optKind opt = TCPOPTION_MAXIMUM_SEGMENT_SIZE then processMSSOption opt c
      else if optKind opt = TCPOPTION_WINDOW_SCALE then processWSOption opt c
      else if optKind opt = TCPOPTION_SACK_PERMITTED then processSACKPermittedOption opt c
      else if optKind opt = TCPOPTION_SACK then processSACKOption g opt c
      else if optKind opt = TCPOPTION_TIMESTAMP then processTSOption g opt c
      else Inr (c, True))"

text \<open>The result of each option is not used.\<close>

fun readHeaderOptions :: "TCPSegment \<Rightarrow> TCPOption list \<Rightarrow> TCPConnection \<Rightarrow> TCPConnection outcome" where
  "readHeaderOptions g [] c = Inr c"
| "readHeaderOptions g (opt # opts) c = outcome_bind (processOption g opt c) (\<lambda>(c1, _). readHeaderOptions g opts c1)"

definition getTSval :: "TCPOption list \<Rightarrow> u32 outcome" where
  "getTSval opts =
     (case filter (\<lambda>opt. optKind opt = TCPOPTION_TIMESTAMP) opts of
        [] \<Rightarrow> Inr 0
      | opt # _ \<Rightarrow> if length (optValues opt) > 0 then Inr (optValues opt ! 0) else Inl (RuntimeError ''Array of size 0 indexed by 0''))"

definition getTSecr :: "TCPOption list \<Rightarrow> u32 outcome" where
  "getTSecr opts =
     (case filter (\<lambda>opt. optKind opt = TCPOPTION_TIMESTAMP) opts of
        [] \<Rightarrow> Inr 0
      | opt # _ \<Rightarrow> if length (optValues opt) > 1 then Inr (optValues opt ! 1) else Inl (RuntimeError ''Array indexed by 1''))"

section \<open>Writing header options\<close>

definition getOptionsArrayLength :: "TCPOption list \<Rightarrow> nat" where
  "getOptionsArrayLength opts = sum_list (map optLength opts)"

definition nopOption :: TCPOption where
  "nopOption = \<lparr>optKind = TCPOPTION_NO_OPERATION, optLength = 1, optValues = []\<rparr>"

text \<open>The first loop of \<open>addSacks\<close>: old blocks go, the others must not start below \<open>rcv_nxt\<close>.\<close>

fun purgeSacks :: "u32 \<Rightarrow> Sack list \<Rightarrow> Sack list outcome" where
  "purgeSacks nxt [] = Inr []"
| "purgeSacks nxt (s # ss) =
     (if seqLE (sk_end s) nxt \<or> Sack_empty s then purgeSacks nxt ss
      else if \<not> seqGE (sk_start s) nxt then Inl (AssertFailed ''seqGE(it->getStart(), state->rcv_nxt)'')
      else outcome_bind (purgeSacks nxt ss) (\<lambda>ss'. Inr (s # ss')))"

text \<open>The second loop: each block deletes the later ones it contains.\<close>

function dropContained :: "Sack list \<Rightarrow> Sack list outcome" where
  "dropContained [] = Inr []"
| "dropContained (s # ss) =
     (if Sack_empty s then Inl (AssertFailed ''!it->empty()'')
      else outcome_bind (dropContained (filter (\<lambda>t. \<not> Sack_contains s t) ss)) (\<lambda>ss'. Inr (s # ss')))"
  by pat_completeness auto
termination
  by (relation "measure length") (auto simp: le_imp_less_Suc)

definition resetSackFlags :: "TCPConnection \<Rightarrow> TCPConnection" where
  "resetSackFlags c = c\<lparr>snd_sack := False, snd_dsack := False, start_seqno := 0, end_seqno := 0\<rparr>"

text \<open>The block for the segment that triggered this ACK, put in front, and the contained ones dropped;
  a duplicate SACK stays out of the second loop.\<close>

definition reportSack :: "TCPConnection \<Rightarrow> Sack list \<Rightarrow> Sack list outcome" where
  "reportSack c ss =
     (let nxt = st_rcv_nxt (tcb c); a = start_seqno c; b = end_seqno c in
      if a = b then Inr ss
      else if snd_dsack c then
        let b' = (if seqLess a nxt \<and> seqLess nxt b then nxt else b)
        in outcome_bind (dropContained ss) (\<lambda>ss'. Inr (\<lparr>sk_start = a, sk_end = b'\<rparr> # ss'))
      else dropContained (\<lparr>sk_start = getLE (receiveQueue c) a, sk_end = getRE (receiveQueue c) b\<rparr> # ss))"

fun sackValues :: "Sack list \<Rightarrow> u32 list" where
  "sackValues [] = []"
| "sackValues (s # ss) = sk_start s # sk_end s # sackValues ss"

definition addSacks :: "TCPOption list \<Rightarrow> TCPConnection \<Rightarrow> (TCPConnection \<times> TCPOption list) outcome" where
  "addSacks opts c =
     (let used = getOptionsArrayLength opts; dsack_inserted = (start_seqno c \<noteq> end_seqno c \<and> snd_dsack c) in
      outcome_bind (purgeSacks (st_rcv_nxt (tcb c)) (sacks_array c)) (\<lambda>ss0.
      if used > TCP_OPTIONS_MAX_SIZE - TCP_OPTION_SACK_MIN_SIZE then Inr (resetSackFlags (c\<lparr>sacks_array := ss0\<rparr>), opts)
      else outcome_bind (reportSack c ss0) (\<lambda>ss.
        let n = min (length ss) ((TCP_OPTIONS_MAX_SIZE - used - 2) div 8);
            kept = (if dsack_inserted then tl ss else ss)
        in if n = 0 then Inr (resetSackFlags (c\<lparr>sacks_array := kept\<rparr>), opts)
           else
             let pad = (6 - used mod 4) mod 4; used' = used + pad
             in if \<exists>s\<in>set (take n ss). sk_start s = sk_end s then Inl (AssertFailed ''it->getStart() != it->getEnd()'')
                else if \<not> used' + 8 * n + 2 \<le> TCP_OPTIONS_MAX_SIZE
                then Inl (AssertFailed ''options_len <= TCP_OPTIONS_MAX_SIZE'')
                else Inr (resetSackFlags (c\<lparr>sacks_array := kept, snd_sacks := snd_sacks c + of_nat n\<rparr>),
                     opts @ replicate pad nopOption @
                       [\<lparr>optKind = TCPOPTION_SACK, optLength = 8 * n + 2, optValues = sackValues (take n ss)\<rparr>]))))"

function scaleLoop :: "u32 \<Rightarrow> nat \<Rightarrow> nat" where
  "scaleLoop w k = (if w > TCP_MAX_WIN \<and> k < 14 then scaleLoop (drop_bit 1 w) (k + 1) else k)"
  by pat_completeness auto
termination
  by (relation "measure (\<lambda>(w, k). 14 - k)") auto

declare scaleLoop.simps [simp del]

text \<open>The options of a SYN or SYN+ACK, one definition per option; each returns the options it appends.\<close>

definition firstSyn :: "TCPConnection \<Rightarrow> bool" where
  "firstSyn c \<longleftrightarrow> fsm c = S_INIT \<or> (fsm c = S_SYN_SENT \<and> syn_rexmit_count c > 0)"

definition writeWS :: "TCPConnection \<Rightarrow> TCPConnection \<times> TCPOption list" where
  "writeWS c =
     (if ws_support c \<and> (rcv_ws c \<or> firstSyn c) then
        let k = scaleLoop (getFirstSeqNo (receiveQueue c) + maxRcvBuffer (tcb c) - st_rcv_nxt (tcb c)) 0
        in (c\<lparr>snd_ws := True, tcb := (tcb c)\<lparr>rcv_wnd_scale := k, ws_enabled := rcv_ws c\<rparr>\<rparr>,
            [nopOption, \<lparr>optKind = TCPOPTION_WINDOW_SCALE, optLength = 3, optValues = [of_nat k]\<rparr>])
      else (c, []))"

definition writeSACKPermitted :: "TCPConnection \<Rightarrow> TCPConnection \<times> TCPOption list" where
  "writeSACKPermitted c =
     (if sack_support c \<and> (rcv_sack_perm c \<or> firstSyn c)
      then (c\<lparr>snd_sack_perm := True, sack_enabled := rcv_sack_perm c\<rparr>,
            (if ts_support c then [] else [nopOption, nopOption])
              @ [\<lparr>optKind = TCPOPTION_SACK_PERMITTED, optLength = 2, optValues = []\<rparr>])
      else (c, []))"

definition tsOption :: "bool \<Rightarrow> TCPConnection \<Rightarrow> TCPOption" where
  "tsOption ack c =
     \<lparr>optKind = TCPOPTION_TIMESTAMP, optLength = 10,
      optValues = [of_nat (simTimeMs c), if ack then ts_recent c else 0]\<rparr>"

definition writeInitialTS :: "bool \<Rightarrow> TCPConnection \<Rightarrow> TCPConnection \<times> TCPOption list" where
  "writeInitialTS ack c =
     (if ts_support c \<and> (rcv_initial_ts c \<or> firstSyn c)
      then (c\<lparr>snd_initial_ts := True, ts_enabled := rcv_initial_ts c\<rparr>,
            (if sack_support c then [] else [nopOption, nopOption]) @ [tsOption ack c])
      else (c, []))"

definition writeSynOptions :: "bool \<Rightarrow> TCPConnection \<Rightarrow> TCPConnection \<times> TCPOption list" where
  "writeSynOptions ack c =
     (let mss = (if snd_mss (tcb c) > 0
            then [\<lparr>optKind = TCPOPTION_MAXIMUM_SEGMENT_SIZE, optLength = 4, optValues = [snd_mss (tcb c)]\<rparr>] else []);
          (c1, ws) = writeWS c; (c2, sp) = writeSACKPermitted c1; (c3, ts) = writeInitialTS ack c2
      in (c3, mss @ ws @ sp @ ts))"

definition writeDataOptions :: "bool \<Rightarrow> TCPConnection \<Rightarrow> (TCPConnection \<times> TCPOption list) outcome" where
  "writeDataOptions ack c =
     (let sacks = (sack_enabled c \<and> (snd_sack c \<or> snd_dsack c));
          ts = (if ts_enabled c then (if sacks then [] else [nopOption, nopOption]) @ [tsOption ack c] else [])
      in if sacks then addSacks ts c else Inr (c, ts))"

definition writeHeaderOptions :: "bool \<Rightarrow> bool \<Rightarrow> TCPConnection \<Rightarrow> (TCPConnection \<times> TCPOption list) outcome" where
  "writeHeaderOptions syn ack c =
     outcome_bind
       (if syn \<and> (fsm c = S_INIT \<or> fsm c = S_LISTEN
              \<or> ((fsm c = S_SYN_SENT \<or> fsm c = S_SYN_RCVD) \<and> syn_rexmit_count c > 0))
        then Inr (writeSynOptions ack c)
        else if fsm c \<in> {S_SYN_SENT, S_SYN_RCVD, S_ESTABLISHED, S_FIN_WAIT_1, S_FIN_WAIT_2}
        then writeDataOptions ack c
        else Inr (c, []))
       (\<lambda>(c1, opts). Inr (c1, if getOptionsArrayLength opts \<le> TCP_OPTIONS_MAX_SIZE then opts else []))"

section \<open>Sending segments\<close>

definition newSegment :: TCPSegment where
  "newSegment = \<lparr>sequenceNo = 0, ackNo = 0, payloadLength = 0, synBit = False, finBit = False, ackBit = False,
     rstBit = False, payloadList = []\<rparr>"

definition sendToIP :: "TCPSegment \<Rightarrow> u16 \<Rightarrow> TCPOption list \<Rightarrow> TCPConnection \<Rightarrow> TCPConnection outcome" where
  "sendToIP g window opts c =
     (if TCP_HEADER_OCTETS + getOptionsArrayLength opts \<le> 60
      then Inr (out (ToIP g window opts) (c\<lparr>sentBytes := payloadLength g\<rparr>))
      else Inl (AssertFailed ''tcpseg->getHeaderLength() <= TCP_MAX_HEADER_OCTETS''))"

definition withRcvWnd :: "TCPConnection \<Rightarrow> (TCPConnection \<Rightarrow> u16 \<Rightarrow> 'a outcome) \<Rightarrow> 'a outcome" where
  "withRcvWnd c f = outcome_bind (updateRcvWnd (tcb c) (receiveQueue c)) (\<lambda>(st, w). f (c\<lparr>tcb := st\<rparr>) w)"

text \<open>The initial sequence number comes from the clock; it is an argument here.\<close>

definition selectInitialSeqNum :: "u32 \<Rightarrow> TCPConnection \<Rightarrow> TCPConnection outcome" where
  "selectInitialSeqNum isn c =
     onRexmitQueue
       (c\<lparr>iss := isn, tcb := (tcb c)\<lparr>snd_una := isn, snd_nxt := isn, snd_max := isn\<rparr>, sendQueue := sendq_init (isn + 1)\<rparr>)
       (\<lambda>q. Inr (rq_init q (isn + 1)))"

definition sendSyn :: "TCPConnection \<Rightarrow> TCPConnection outcome" where
  "sendSyn c =
     (if remoteUnspecified c \<or> remotePort c = -1 then Inl (RuntimeError ''foreign socket unspecified'')
      else if localPort c = -1 then Inl (RuntimeError ''local port unspecified'')
      else withRcvWnd c (\<lambda>c1 _.
        let c2 = c1\<lparr>tcb := (tcb c1)\<lparr>snd_nxt := iss c1 + 1, snd_max := iss c1 + 1\<rparr>\<rparr>
        in outcome_bind (writeHeaderOptions True False c2) (\<lambda>(c3, opts).
             sendToIP (newSegment\<lparr>sequenceNo := iss c, synBit := True\<rparr>) (ucast (rcv_wnd (tcb c1))) opts c3)))"

definition sendSynAck :: "TCPConnection \<Rightarrow> TCPConnection outcome" where
  "sendSynAck c =
     withRcvWnd c (\<lambda>c1 _.
       let c2 = c1\<lparr>tcb := (tcb c1)\<lparr>snd_nxt := iss c1 + 1, snd_max := iss c1 + 1\<rparr>\<rparr>
       in outcome_bind (writeHeaderOptions True True c2) (\<lambda>(c3, opts).
          outcome_bind (sendToIP (newSegment\<lparr>sequenceNo := iss c, ackNo := st_rcv_nxt (tcb c), synBit := True, ackBit := True\<rparr>)
                          (ucast (rcv_wnd (tcb c1))) opts c3) (\<lambda>c4. Inr (out (ToAlgorithm A_ackSent) c4))))"

definition sendRst :: "u32 \<Rightarrow> TCPConnection \<Rightarrow> TCPConnection" where
  "sendRst seq c = out (ToIP (newSegment\<lparr>sequenceNo := seq, rstBit := True\<rparr>) 0 []) c"

definition sendRstAck :: "u32 \<Rightarrow> u32 \<Rightarrow> TCPConnection \<Rightarrow> TCPConnection" where
  "sendRstAck seq ack c =
     out (ToAlgorithm A_ackSent)
       (out (ToIP (newSegment\<lparr>sequenceNo := seq, ackNo := ack, rstBit := True, ackBit := True\<rparr>) 0 []) c)"

definition sendAck :: "TCPConnection \<Rightarrow> TCPConnection outcome" where
  "sendAck c =
     withRcvWnd c (\<lambda>c1 w.
       outcome_bind (writeHeaderOptions False True c1) (\<lambda>(c2, opts).
       outcome_bind (sendToIP (newSegment\<lparr>sequenceNo := snd_nxt (tcb c), ackNo := st_rcv_nxt (tcb c), ackBit := True\<rparr>)
                       w opts c2) (\<lambda>c3. Inr (out (ToAlgorithm A_ackSent) c3))))"

definition sendFin :: "TCPConnection \<Rightarrow> TCPConnection outcome" where
  "sendFin c =
     withRcvWnd c (\<lambda>c1 w.
       outcome_bind (sendToIP (newSegment\<lparr>sequenceNo := snd_nxt (tcb c), ackNo := st_rcv_nxt (tcb c), finBit := True,
                       ackBit := True\<rparr>) w [] c1) (\<lambda>c2. Inr (out (ToAlgorithm A_ackSent) c2)))"

section \<open>Option blocks\<close>

text \<open>A connection object before it is opened, with the default parameters, and variants of it that the
  examples below evaluate.\<close>

definition example_connection :: TCPConnection where
  "example_connection =
     \<lparr>fsm = S_INIT, active = False, fork = False, localPort = -1, remotePort = -1, remoteUnspecified = True,
      the2MSLTimer = TimerIdle, connEstabTimer = TimerIdle, finWait2Timer = TimerIdle, synRexmitTimer = TimerIdle,
      iss = 0, irs = 0, snd_wnd = 0, snd_wl1 = 0, snd_wl2 = 0, send_fin = False, snd_fin_seq = 0, fin_ack_rcvd = False,
      fin_rcvd = False, rcv_fin_seq = 0, syn_rexmit_count = 0, syn_rexmit_timeout = 0, sentBytes = 0,
      full_sized_segment_counter = 0, ack_now = False,
      nagle_enabled = False, delayed_acks_enabled = False, limited_transmit_enabled = False, increased_IW_enabled = False,
      sendQueueLimit = 0, queueUpdate = True, ws_support = False, snd_ws = False,
      rcv_ws = False, snd_wnd_scale = 0, ts_support = False, ts_enabled = False, snd_initial_ts = False,
      rcv_initial_ts = False, ts_recent = 0, last_ack_sent = 0, time_last_data_sent = 0, sack_support = False,
      sack_enabled = False, snd_sack_perm = False, rcv_sack_perm = False, snd_sack = False, snd_dsack = False,
      start_seqno = 0, end_seqno = 0, sacks_array = [], highRxt = 0, pipe = 0, sackedBytes = 0, sackedBytes_old = 0,
      lossRecovery = False, recoveryPoint = 0, dupacks = 0, snd_sacks = 0, rcv_sacks = 0, rcv_oooseg = 0, rcv_naseg = 0,
      tcpRcvQueueDrops = 0, tcb = TCPStateVariables_new, algState = TCPAlgState_new, sendQueue = \<lparr>sq_begin = 0, sq_end = 0\<rparr>,
      receiveQueue = rcvq_init 0, rexmitQ = None,
      par = \<lparr>par_advertisedWindow = 7504, par_windowScalingSupport = False, par_mss = 536, par_delayedAcksEnabled = False, par_nagleEnabled = True,
        par_limitedTransmitEnabled = False, par_increasedIWEnabled = False,
        par_timestampSupport = False, par_sackSupport = False, par_tcpAlgorithmClass = ''TCPReno''\<rparr>,
      simTimeMs = 0, outputs = []\<rparr>"

definition example_sacker :: TCPConnection where
  "example_sacker = example_connection\<lparr>snd_sack := True, start_seqno := 500, end_seqno := 600, ts_enabled := True,
     receiveQueue := \<lparr>rcv_nxt = 100, regionList = [\<lparr>vr_begin = 500, vr_end = 600\<rparr>]\<rparr>\<rparr>"

text \<open>A connection before the exchange of SYNs.\<close>

definition syn_fresh :: "TCPConnection \<Rightarrow> bool" where
  "syn_fresh c \<longleftrightarrow> \<not> ws_enabled (tcb c) \<and> \<not> snd_ws c \<and> \<not> rcv_ws c \<and> \<not> ts_enabled c \<and> \<not> snd_initial_ts c \<and> \<not> rcv_initial_ts c
     \<and> \<not> sack_enabled c \<and> \<not> snd_sack_perm c \<and> \<not> rcv_sack_perm c \<and> snd_mss (tcb c) > 0"

definition example_host :: "bool \<Rightarrow> TCPConnection" where
  "example_host server =
     (newStateBlock example_connection)\<lparr>fsm := (if server then S_LISTEN else S_INIT), sack_support := True, ts_support := server,
       tcb := TCPStateVariables_new\<lparr>snd_mss := (if server then 536 else 1460)\<rparr>\<rparr>"

text \<open>The option block of a SYN: segment size, window scale, SACK permitted, timestamp.\<close>

definition synBlock :: "u32 \<Rightarrow> u32 option \<Rightarrow> nat \<Rightarrow> bool \<Rightarrow> nat \<Rightarrow> (u32 \<times> u32) option \<Rightarrow> TCPOption list" where
  "synBlock m ws n1 sp n2 ts =
     \<lparr>optKind = 2, optLength = 4, optValues = [m]\<rparr> #
     (case ws of None \<Rightarrow> [] | Some k \<Rightarrow> [nopOption, \<lparr>optKind = 3, optLength = 3, optValues = [k]\<rparr>])
     @ (if sp then replicate n1 nopOption @ [\<lparr>optKind = 4, optLength = 2, optValues = []\<rparr>] else [])
     @ (case ts of None \<Rightarrow> [] | Some (v, e) \<Rightarrow> replicate n2 nopOption @ [\<lparr>optKind = 8, optLength = 10, optValues = [v, e]\<rparr>])"

section \<open>The length of the option block\<close>

lemma getOptionsArrayLength_simps [simp]:
  "getOptionsArrayLength [] = 0"
  "getOptionsArrayLength (opt # opts) = optLength opt + getOptionsArrayLength opts"
  "getOptionsArrayLength (opts @ opts') = getOptionsArrayLength opts + getOptionsArrayLength opts'"
  "getOptionsArrayLength (replicate k nopOption) = k"
  by (simp_all add: getOptionsArrayLength_def nopOption_def sum_list_replicate)

lemma optLength_nop [simp]: "optLength nopOption = 1"
  by (simp add: nopOption_def)

lemma sack_room:
  fixes used n :: nat
  assumes "used \<le> 30" "n \<le> (40 - used - 2) div 8"
  shows "used + (6 - used mod 4) mod 4 + 8 * n + 2 \<le> 40 \<and> (used + (6 - used mod 4) mod 4 + 8 * n + 2) mod 4 = 0"
proof -
  define q r where "q = used div 4" and "r = used mod 4"
  have u: "used = 4 * q + r" by (simp add: q_def r_def)
  have n: "8 * n + 4 * q + r \<le> 38" using assms u by linarith
  have n3: "8 * n + 4 * q \<le> 35 \<Longrightarrow> 8 * n + 4 * q \<le> 32" by presburger
  have n4: "8 * n + 4 * q \<le> 38 \<Longrightarrow> 8 * n + 4 * q \<le> 36" by presburger
  have "r < 4" by (simp add: r_def)
  then consider "r = 0" | "r = 1" | "r = 2" | "r = 3" by linarith
  then obtain t where t: "used + (6 - r) mod 4 = 4 * t + 2" "4 * t + 2 + 8 * n \<le> 38"
  proof cases
    case 1
    then show ?thesis using that [of q] u n n3 n4 by (simp add: add.commute)
  next
    case 2
    then show ?thesis using that [of q] u n n3 n4 by (simp add: add.commute)
  next
    case 3
    then show ?thesis using that [of q] u n n3 n4 by (simp add: add.commute)
  next
    case 4
    then show ?thesis using that [of "q + 1"] u n n3 n4 by (simp add: add.commute)
  qed
  then have e: "used + (6 - r) mod 4 + 8 * n + 2 = 4 * (t + 2 * n + 1)" by simp
  then show ?thesis using t unfolding e r_def [symmetric] by simp
qed

section \<open>Negotiation of options\<close>

lemma read_nop: "readHeaderOptions g (nopOption # opts) c = readHeaderOptions g opts c"
  by (simp add: processOption_def nopOption_def)

abbreviation handshaking :: "TCPConnection \<Rightarrow> bool" where
  "handshaking c \<equiv> fsm c = S_LISTEN \<or> fsm c = S_SYN_SENT"

lemma read_mss:
  "handshaking c \<Longrightarrow> readHeaderOptions g (\<lparr>optKind = 2, optLength = 4, optValues = [m]\<rparr> # opts) c =
     readHeaderOptions g opts (c\<lparr>tcb := (tcb c)\<lparr>snd_mss := (if min (snd_mss (tcb c)) m = 0 then 536 else min (snd_mss (tcb c)) m)\<rparr>\<rparr>)"
  by (auto simp: processOption_def processMSSOption_def)

lemma read_ws:
  "handshaking c \<Longrightarrow> readHeaderOptions g (\<lparr>optKind = 3, optLength = 3, optValues = [k]\<rparr> # opts) c =
     readHeaderOptions g opts (c\<lparr>rcv_ws := True, tcb := (tcb c)\<lparr>ws_enabled := ws_support c \<and> snd_ws c\<rparr>,
       snd_wnd_scale := (if k > 14 then 14 else k)\<rparr>)"
  by (auto simp: processOption_def processWSOption_def)

lemma read_sack_permitted:
  "handshaking c \<Longrightarrow> readHeaderOptions g (\<lparr>optKind = 4, optLength = 2, optValues = []\<rparr> # opts) c =
     readHeaderOptions g opts (c\<lparr>rcv_sack_perm := True, sack_enabled := sack_support c \<and> snd_sack_perm c\<rparr>)"
  by (auto simp: processOption_def processSACKPermittedOption_def)

lemma read_ts:
  "handshaking c \<Longrightarrow> \<not> ts_enabled c \<Longrightarrow> \<exists>r. readHeaderOptions g [\<lparr>optKind = 8, optLength = 10, optValues = [v, e]\<rparr>] c =
     Inr (c\<lparr>rcv_initial_ts := True, ts_enabled := ts_support c \<and> snd_initial_ts c, ts_recent := r\<rparr>)"
proof -
  assume h: "handshaking c" "\<not> ts_enabled c"
  let ?d = "c\<lparr>rcv_initial_ts := True, ts_enabled := ts_support c \<and> snd_initial_ts c\<rparr>"
  have "\<exists>r b. processOption g \<lparr>optKind = 8, optLength = 10, optValues = [v, e]\<rparr> c = Inr (?d\<lparr>ts_recent := r\<rparr>, b)"
  proof (cases "ts_enabled ?d \<and> \<not> seqLess v (ts_recent c) \<and> seqLE (sequenceNo g) (last_ack_sent c)")
    case True
    then have t: "ts_support c" "snd_initial_ts c" "\<not> seqLess v (ts_recent c)" "seqLE (sequenceNo g) (last_ack_sent c)" by simp_all
    have "(fsm c \<noteq> S_LISTEN \<and> fsm c \<noteq> S_SYN_SENT) = False" using h by blast
    with h t show ?thesis by (intro exI [of _ v] exI [of _ True]) (simp add: processOption_def processTSOption_def)
  next
    case False
    with h show ?thesis by (intro exI [of _ "ts_recent c"]) (auto simp: processOption_def processTSOption_def Let_def)
  qed
  then obtain r b where "processOption g \<lparr>optKind = 8, optLength = 10, optValues = [v, e]\<rparr> c = Inr (?d\<lparr>ts_recent := r\<rparr>, b)"
    by blast
  then show ?thesis
    by (intro exI [of _ r]) (simp only: readHeaderOptions.simps outcome_bind.simps prod.case)
qed

lemma read_nops: "readHeaderOptions g (replicate n nopOption @ opts) c = readHeaderOptions g opts c"
  by (induction n) (simp_all add: read_nop del: readHeaderOptions.simps)

text \<open>The negotiated part of a connection after reading and after writing the options of a SYN.\<close>

lemma read_synBlock:
  assumes h: "handshaking c" "\<not> ts_enabled c" and m: "0 < min (snd_mss (tcb c)) m"
  shows "\<exists>c'. readHeaderOptions g (synBlock m ws n1 sp n2 ts) c = Inr c' \<and> fsm c' = fsm c
    \<and> snd_mss (tcb c') = min (snd_mss (tcb c)) m
    \<and> ws_support c' = ws_support c \<and> rcv_ws c' = (rcv_ws c \<or> ws \<noteq> None)
    \<and> ws_enabled (tcb c') = (if ws = None then ws_enabled (tcb c) else ws_support c \<and> snd_ws c)
    \<and> sack_support c' = sack_support c \<and> rcv_sack_perm c' = (rcv_sack_perm c \<or> sp)
    \<and> sack_enabled c' = (if sp then sack_support c \<and> snd_sack_perm c else sack_enabled c)
    \<and> ts_support c' = ts_support c \<and> rcv_initial_ts c' = (rcv_initial_ts c \<or> ts \<noteq> None)
    \<and> ts_enabled c' = (ts \<noteq> None \<and> ts_support c \<and> snd_initial_ts c)"
proof -
  define c1 where "c1 = c\<lparr>tcb := (tcb c)\<lparr>snd_mss := min (snd_mss (tcb c)) m\<rparr>\<rparr>"
  define c2 where "c2 = (case ws of None \<Rightarrow> c1 | Some k \<Rightarrow> c1\<lparr>rcv_ws := True, tcb := (tcb c1)\<lparr>ws_enabled := ws_support c1 \<and> snd_ws c1\<rparr>,
       snd_wnd_scale := (if k > 14 then 14 else k)\<rparr>)"
  define c3 where "c3 = (if sp then c2\<lparr>rcv_sack_perm := True, sack_enabled := sack_support c2 \<and> snd_sack_perm c2\<rparr> else c2)"
  let ?t = "case ts of None \<Rightarrow> [] | Some (v, e) \<Rightarrow> replicate n2 nopOption @ [\<lparr>optKind = 8, optLength = 10, optValues = [v, e]\<rparr>]"
  have nz: "min (snd_mss (tcb c)) m \<noteq> 0" using m by (metis less_irrefl)
  have h2: "handshaking c1" "handshaking c2" "handshaking c3" "\<not> ts_enabled c3"
    using h by (cases ws; cases sp; simp add: c1_def c2_def c3_def)+
  have f: "fsm c3 = fsm c" "snd_mss (tcb c3) = min (snd_mss (tcb c)) m"
    "ws_support c3 = ws_support c" "rcv_ws c3 = (rcv_ws c \<or> ws \<noteq> None)"
    "ws_enabled (tcb c3) = (if ws = None then ws_enabled (tcb c) else ws_support c \<and> snd_ws c)"
    "sack_support c3 = sack_support c" "rcv_sack_perm c3 = (rcv_sack_perm c \<or> sp)"
    "sack_enabled c3 = (if sp then sack_support c \<and> snd_sack_perm c else sack_enabled c)"
    "ts_support c3 = ts_support c" "rcv_initial_ts c3 = rcv_initial_ts c" "snd_initial_ts c3 = snd_initial_ts c"
    by (cases ws; cases sp; simp add: c1_def c2_def c3_def)+
  have 1: "readHeaderOptions g (synBlock m ws n1 sp n2 ts) c = readHeaderOptions g ?t c3"
    using h h2 nz by (cases ws; cases sp)
      (simp_all add: synBlock_def read_nop read_nops read_mss read_ws read_sack_permitted c1_def c2_def c3_def
        del: readHeaderOptions.simps)
  show ?thesis
  proof (cases ts)
    case None
    then show ?thesis unfolding 1 using h2(4) f by simp
  next
    case (Some t)
    obtain v e where t: "t = (v, e)" by (cases t) auto
    obtain r where "readHeaderOptions g [\<lparr>optKind = 8, optLength = 10, optValues = [v, e]\<rparr>] c3 =
        Inr (c3\<lparr>rcv_initial_ts := True, ts_enabled := ts_support c3 \<and> snd_initial_ts c3, ts_recent := r\<rparr>)"
      using read_ts [OF h2(3,4)] by blast
    then have 2: "readHeaderOptions g (synBlock m ws n1 sp n2 ts) c =
        Inr (c3\<lparr>rcv_initial_ts := True, ts_enabled := ts_support c3 \<and> snd_initial_ts c3, ts_recent := r\<rparr>)"
      unfolding 1 by (simp add: Some t read_nops del: readHeaderOptions.simps)
    show ?thesis unfolding 2 using f Some by simp
  qed
qed

lemma write_synBlock:
  assumes "fsm c = S_INIT \<or> fsm c = S_LISTEN" "snd_mss (tcb c) > 0"
  shows "\<exists>c'. writeHeaderOptions True ack c = Inr (c', synBlock (snd_mss (tcb c))
      (if ws_support c \<and> (rcv_ws c \<or> fsm c = S_INIT)
       then Some (of_nat (scaleLoop (getFirstSeqNo (receiveQueue c) + maxRcvBuffer (tcb c) - st_rcv_nxt (tcb c)) 0)) else None)
      (if ts_support c then 0 else 2) (sack_support c \<and> (rcv_sack_perm c \<or> fsm c = S_INIT)) (if sack_support c then 0 else 2)
      (if ts_support c \<and> (rcv_initial_ts c \<or> fsm c = S_INIT) then Some (of_nat (simTimeMs c), if ack then ts_recent c else 0) else None))
    \<and> snd_mss (tcb c') = snd_mss (tcb c) \<and> ws_support c' = ws_support c \<and> sack_support c' = sack_support c \<and> ts_support c' = ts_support c
    \<and> snd_ws c' = (snd_ws c \<or> ws_support c \<and> (rcv_ws c \<or> fsm c = S_INIT))
    \<and> ws_enabled (tcb c') = (if ws_support c \<and> (rcv_ws c \<or> fsm c = S_INIT) then rcv_ws c else ws_enabled (tcb c))
    \<and> snd_sack_perm c' = (snd_sack_perm c \<or> sack_support c \<and> (rcv_sack_perm c \<or> fsm c = S_INIT))
    \<and> sack_enabled c' = (if sack_support c \<and> (rcv_sack_perm c \<or> fsm c = S_INIT) then rcv_sack_perm c else sack_enabled c)
    \<and> snd_initial_ts c' = (snd_initial_ts c \<or> ts_support c \<and> (rcv_initial_ts c \<or> fsm c = S_INIT))
    \<and> ts_enabled c' = (if ts_support c \<and> (rcv_initial_ts c \<or> fsm c = S_INIT) then rcv_initial_ts c else ts_enabled c)"
proof -
  let ?W = "ws_support c \<and> (rcv_ws c \<or> fsm c = S_INIT)"
  let ?S = "sack_support c \<and> (rcv_sack_perm c \<or> fsm c = S_INIT)"
  let ?T = "ts_support c \<and> (rcv_initial_ts c \<or> fsm c = S_INIT)"
  define k where "k = scaleLoop (getFirstSeqNo (receiveQueue c) + maxRcvBuffer (tcb c) - st_rcv_nxt (tcb c)) 0"
  have cond: "(fsm c = S_INIT \<or> fsm c = S_LISTEN \<or> ((fsm c = S_SYN_SENT \<or> fsm c = S_SYN_RCVD) \<and> syn_rexmit_count c > 0)) = True"
    and fs: "fsm c \<noteq> S_SYN_SENT"
    using assms(1) by auto
  have nops: "(if b then [] else [nopOption, nopOption]) = replicate (if b then 0 else 2) nopOption" for b
    by (simp add: numeral_2_eq_2)
  define c1 where "c1 = (if ?W then c\<lparr>snd_ws := True, tcb := (tcb c)\<lparr>rcv_wnd_scale := k, ws_enabled := rcv_ws c\<rparr>\<rparr> else c)"
  define c2 where "c2 = (if ?S then c1\<lparr>snd_sack_perm := True, sack_enabled := rcv_sack_perm c\<rparr> else c1)"
  define c3 where "c3 = (if ?T then c2\<lparr>snd_initial_ts := True, ts_enabled := rcv_initial_ts c\<rparr> else c2)"
  have w: "writeWS c = (c1, if ?W then [nopOption, \<lparr>optKind = 3, optLength = 3, optValues = [of_nat k]\<rparr>] else [])"
    using fs by (simp only: writeWS_def c1_def k_def firstSyn_def Let_def if_pair simp_thms)
  have f1: "sack_support c1 = sack_support c" "rcv_sack_perm c1 = rcv_sack_perm c" "fsm c1 = fsm c" "ts_support c1 = ts_support c"
    "rcv_initial_ts c1 = rcv_initial_ts c" "simTimeMs c1 = simTimeMs c" "ts_recent c1 = ts_recent c"
    by (simp_all add: c1_def)
  have s: "writeSACKPermitted c1 = (c2, if ?S then replicate (if ts_support c then 0 else 2) nopOption
      @ [\<lparr>optKind = 4, optLength = 2, optValues = []\<rparr>] else [])"
    using fs by (simp only: writeSACKPermitted_def c2_def firstSyn_def f1 if_pair simp_thms nops)
  have f2: "sack_support c2 = sack_support c" "fsm c2 = fsm c" "ts_support c2 = ts_support c"
    "rcv_initial_ts c2 = rcv_initial_ts c" "simTimeMs c2 = simTimeMs c" "ts_recent c2 = ts_recent c"
    using f1 by (simp_all add: c2_def)
  have t: "writeInitialTS ack c2 = (c3, if ?T then replicate (if sack_support c then 0 else 2) nopOption
      @ [\<lparr>optKind = 8, optLength = 10, optValues = [of_nat (simTimeMs c), if ack then ts_recent c else 0]\<rparr>] else [])"
    using fs by (simp only: writeInitialTS_def c3_def firstSyn_def f2 tsOption_def if_pair simp_thms nops)
  have o: "writeHeaderOptions True ack c = Inr (c3, synBlock (snd_mss (tcb c)) (if ?W then Some (of_nat k) else None)
      (if ts_support c then 0 else 2) ?S (if sack_support c then 0 else 2)
      (if ?T then Some (of_nat (simTimeMs c), if ack then ts_recent c else 0) else None))"
    using assms(2) unfolding writeHeaderOptions_def cond writeSynOptions_def Let_def w prod.case s t
    by (simp add: synBlock_def)
  show ?thesis
    unfolding k_def [symmetric] o by (auto simp: c1_def c2_def c3_def)
qed


text \<open>
  C21: the options of the three-way handshake are negotiated consistently.  When the opening side writes the
  options of its SYN, the listening side reads them and writes those of its SYN+ACK, and the opening side reads
  these, no error occurs and both sides agree: SACK, timestamps and window scaling are enabled at both ends if
  and only if both hosts support them, and both use the smaller of the two segment sizes.
\<close>

theorem option_negotiation_agrees:
  assumes a: "fsm a = S_INIT" "syn_fresh a" and b: "fsm b = S_LISTEN" "syn_fresh b"
  shows "\<exists>a1 o1 b1 b2 o2 a2. writeHeaderOptions True False a = Inr (a1, o1) \<and> readHeaderOptions g1 o1 b = Inr b1
    \<and> writeHeaderOptions True True b1 = Inr (b2, o2) \<and> readHeaderOptions g2 o2 (a1\<lparr>fsm := S_SYN_SENT\<rparr>) = Inr a2
    \<and> (\<forall>c \<in> {a2, b2}. sack_enabled c = (sack_support a \<and> sack_support b) \<and> ts_enabled c = (ts_support a \<and> ts_support b)
         \<and> ws_enabled (tcb c) = (ws_support a \<and> ws_support b) \<and> snd_mss (tcb c) = min (snd_mss (tcb a)) (snd_mss (tcb b)))"
proof -
  define k where "k = (of_nat (scaleLoop (getFirstSeqNo (receiveQueue a) + maxRcvBuffer (tcb a) - st_rcv_nxt (tcb a)) 0) :: u32)"
  define n1 n2 :: nat where "n1 = (if ts_support a then 0 else 2)" and "n2 = (if sack_support a then 0 else 2)"
  define t where "t = (of_nat (simTimeMs a) :: u32, 0 :: u32)"
  have ma: "snd_mss (tcb a) > 0" using a(2) by (simp add: syn_fresh_def)
  obtain a1 where w1: "writeHeaderOptions True False a = Inr (a1, synBlock (snd_mss (tcb a))
      (if ws_support a then Some k else None) n1 (sack_support a) n2 (if ts_support a then Some t else None))"
    and a1: "snd_mss (tcb a1) = snd_mss (tcb a)" "ws_support a1 = ws_support a" "sack_support a1 = sack_support a"
    "ts_support a1 = ts_support a" "snd_ws a1 = ws_support a" "\<not> ws_enabled (tcb a1)" "snd_sack_perm a1 = sack_support a"
    "\<not> sack_enabled a1" "snd_initial_ts a1 = ts_support a" "\<not> ts_enabled a1"
    using write_synBlock [OF disjI1 [OF a(1)] ma, of False] a
    unfolding syn_fresh_def k_def n1_def n2_def t_def by (elim exE conjE) (simp split: if_splits)
  have pos: "0 < min (snd_mss (tcb b)) (snd_mss (tcb a))" using a(2) b(2) by (simp add: syn_fresh_def)
  obtain b1 where r1: "readHeaderOptions g1 (synBlock (snd_mss (tcb a)) (if ws_support a then Some k else None) n1 (sack_support a) n2
      (if ts_support a then Some t else None)) b = Inr b1"
    and b1: "fsm b1 = S_LISTEN" "snd_mss (tcb b1) = min (snd_mss (tcb b)) (snd_mss (tcb a))" "ws_support b1 = ws_support b"
    "rcv_ws b1 = ws_support a" "\<not> ws_enabled (tcb b1)" "sack_support b1 = sack_support b" "rcv_sack_perm b1 = sack_support a"
    "\<not> sack_enabled b1" "ts_support b1 = ts_support b" "rcv_initial_ts b1 = ts_support a" "\<not> ts_enabled b1"
    using read_synBlock [of b "snd_mss (tcb a)" g1 "if ws_support a then Some k else None" n1 "sack_support a" n2
      "if ts_support a then Some t else None"] b pos unfolding syn_fresh_def by (auto split: if_splits)
  define k' where "k' = (of_nat (scaleLoop (getFirstSeqNo (receiveQueue b1) + maxRcvBuffer (tcb b1) - st_rcv_nxt (tcb b1)) 0) :: u32)"
  define n1' n2' :: nat where "n1' = (if ts_support b then 0 else 2)" and "n2' = (if sack_support b then 0 else 2)"
  define t' where "t' = (of_nat (simTimeMs b1) :: u32, ts_recent b1)"
  have mb: "snd_mss (tcb b1) > 0" using pos b1(2) by simp
  obtain b2 where w2: "writeHeaderOptions True True b1 = Inr (b2, synBlock (snd_mss (tcb b1))
      (if ws_support a \<and> ws_support b then Some k' else None) n1' (sack_support a \<and> sack_support b) n2'
      (if ts_support a \<and> ts_support b then Some t' else None))"
    and b2: "snd_mss (tcb b2) = snd_mss (tcb b1)" "ws_enabled (tcb b2) = (ws_support a \<and> ws_support b)"
    "sack_enabled b2 = (sack_support a \<and> sack_support b)" "ts_enabled b2 = (ts_support a \<and> ts_support b)"
    using write_synBlock [OF disjI2 [OF b1(1)] mb, of True] b1 unfolding k'_def n1'_def n2'_def t'_def
    by (elim exE conjE) (simp add: conj_commute split: if_splits)
  have pos2: "0 < min (snd_mss (tcb (a1\<lparr>fsm := S_SYN_SENT\<rparr>))) (snd_mss (tcb b1))" using pos a1 b1 by (simp add: min.commute)
  have ha: "handshaking (a1\<lparr>fsm := S_SYN_SENT\<rparr>)" "\<not> ts_enabled (a1\<lparr>fsm := S_SYN_SENT\<rparr>)" using a1 by simp_all
  obtain a2 where r2: "readHeaderOptions g2 (synBlock (snd_mss (tcb b1)) (if ws_support a \<and> ws_support b then Some k' else None) n1'
      (sack_support a \<and> sack_support b) n2' (if ts_support a \<and> ts_support b then Some t' else None)) (a1\<lparr>fsm := S_SYN_SENT\<rparr>) = Inr a2"
    and a2: "snd_mss (tcb a2) = min (snd_mss (tcb a)) (snd_mss (tcb b1))" "ws_enabled (tcb a2) = (ws_support a \<and> ws_support b)"
    "sack_enabled a2 = (sack_support a \<and> sack_support b)" "ts_enabled a2 = (ts_support a \<and> ts_support b)"
    using read_synBlock [OF ha pos2, of g2 "if ws_support a \<and> ws_support b then Some k' else None" n1'
      "sack_support a \<and> sack_support b" n2' "if ts_support a \<and> ts_support b then Some t' else None"] a1
    by (elim exE conjE) (simp split: if_splits)
  have agree: "\<forall>c \<in> {a2, b2}. sack_enabled c = (sack_support a \<and> sack_support b) \<and> ts_enabled c = (ts_support a \<and> ts_support b)
         \<and> ws_enabled (tcb c) = (ws_support a \<and> ws_support b) \<and> snd_mss (tcb c) = min (snd_mss (tcb a)) (snd_mss (tcb b))"
    using a2 b1(2) b2 by (simp add: min.commute min.left_commute)
  show ?thesis
    by ((rule exI)+, rule conjI, rule w1, rule conjI, rule r1, rule conjI, rule w2, rule conjI, rule r2, rule agree)
qed

theorem option_negotiation_agrees_witness:
  "fsm (example_host False) = S_INIT \<and> syn_fresh (example_host False) \<and> fsm (example_host True) = S_LISTEN \<and> syn_fresh (example_host True)
   \<and> (\<exists>a1 o1 b1 b2 o2 a2. writeHeaderOptions True False (example_host False) = Inr (a1, o1)
      \<and> readHeaderOptions newSegment o1 (example_host True) = Inr b1 \<and> writeHeaderOptions True True b1 = Inr (b2, o2)
      \<and> readHeaderOptions newSegment o2 (a1\<lparr>fsm := S_SYN_SENT\<rparr>) = Inr a2
      \<and> sack_enabled a2 \<and> sack_enabled b2 \<and> \<not> ts_enabled a2 \<and> \<not> ts_enabled b2 \<and> snd_mss (tcb a2) = 536 \<and> snd_mss (tcb b2) = 536)"
proof -
  have h: "fsm (example_host False) = S_INIT" "syn_fresh (example_host False)" "fsm (example_host True) = S_LISTEN"
    "syn_fresh (example_host True)"
    by (simp_all add: example_host_def syn_fresh_def newStateBlock_def TCPStateVariables_new_def)
  have v: "sack_support (example_host x)" "ts_support (example_host x) = x" "snd_mss (tcb (example_host x)) = (if x then 536 else 1460)" for x
    by (simp_all add: example_host_def)
  show ?thesis
    using h option_negotiation_agrees [OF h, of newSegment newSegment] by (simp add: v) blast
qed

lemma purgeSacks_error:
  "purgeSacks nxt ss = Inl e \<Longrightarrow> e = AssertFailed ''seqGE(it->getStart(), state->rcv_nxt)''"
  by (induction ss) (auto split: if_splits simp: outcome_bind_Inl)

lemma dropContained_error: "dropContained ss = Inl e \<Longrightarrow> e = AssertFailed ''!it->empty()''"
  by (induction ss rule: dropContained.induct) (auto split: if_splits simp: outcome_bind_Inl)

lemma reportSack_error: "reportSack c ss = Inl e \<Longrightarrow> e = AssertFailed ''!it->empty()''"
  by (auto simp: reportSack_def Let_def outcome_bind_Inl dest: dropContained_error split: if_splits)

lemma length_sackValues [simp]: "length (sackValues ss) = 2 * length ss"
  by (induction ss) auto

lemma addSacks_result:
  assumes r: "addSacks opts c = Inr (c', opts')"
  defines "used \<equiv> getOptionsArrayLength opts"
  shows "\<exists>d ss. c' = resetSackFlags d \<and> (opts' = opts \<or> \<not> 30 < used \<and> min (length ss) ((40 - used - 2) div 8) \<noteq> 0
    \<and> opts' = opts @ replicate ((6 - used mod 4) mod 4) nopOption @ [\<lparr>optKind = 5, optLength = 8 * min (length ss) ((40 - used - 2) div 8) + 2,
         optValues = sackValues (take (min (length ss) ((40 - used - 2) div 8)) ss)\<rparr>])"
proof -
  obtain ss0 where p: "purgeSacks (st_rcv_nxt (tcb c)) (sacks_array c) = Inr ss0"
    using r by (cases "purgeSacks (st_rcv_nxt (tcb c)) (sacks_array c)") (simp_all add: addSacks_def Let_def)
  show ?thesis
  proof (cases "30 < used")
    case True
    with r p show ?thesis by (fastforce simp: addSacks_def used_def)
  next
    case small: False
    then obtain ss where q: "reportSack c ss0 = Inr ss"
      using r p by (cases "reportSack c ss0") (simp_all add: addSacks_def Let_def used_def)
    define n where "n = min (length ss) ((40 - used - 2) div 8)"
    have small': "\<not> 40 - 10 < used" using small by simp
    note eq = r [unfolded addSacks_def Let_def p q outcome_bind.simps, folded used_def, folded n_def, unfolded if_not_P [OF small']]
    show ?thesis
    proof (cases "n = 0")
      case True
      from eq [unfolded if_P [OF True]] show ?thesis by blast
    next
      case False
      note eq' = eq [unfolded if_not_P [OF False]]
      have ok: "\<not> (\<exists>s\<in>set (take n ss). sk_start s = sk_end s)" "\<not> \<not> used + (6 - used mod 4) mod 4 + 8 * n + 2 \<le> 40"
        using eq' by (metis Inl_Inr_False)+
      from eq' [unfolded if_not_P [OF ok(1)] if_not_P [OF ok(2)]] False small show ?thesis
        unfolding n_def by blast
    qed
  qed
qed

text \<open>
  What \<open>addSacks\<close> does to the options of a segment.  Its check of the total length never fails; the
  result fits the 40 bytes of options a header can hold; if blocks are added there are one to four of them, two
  values each, behind padding that makes the whole a multiple of four bytes; and the flags that asked for a SACK
  are cleared.
\<close>

theorem addSacks_layout:
  "addSacks opts c \<noteq> Inl (AssertFailed ''options_len <= TCP_OPTIONS_MAX_SIZE'')
   \<and> (\<forall>c' opts'. addSacks opts c = Inr (c', opts') \<and> getOptionsArrayLength opts \<le> 40 \<longrightarrow>
        getOptionsArrayLength opts' \<le> 40 \<and> \<not> snd_sack c' \<and> \<not> snd_dsack c' \<and> start_seqno c' = end_seqno c'
        \<and> (opts' = opts \<or> (\<exists>pad n vs. opts' = opts @ replicate pad nopOption @ [\<lparr>optKind = 5, optLength = 8 * n + 2, optValues = vs\<rparr>]
             \<and> pad < 4 \<and> 1 \<le> n \<and> n \<le> 4 \<and> length vs = 2 * n \<and> getOptionsArrayLength opts' mod 4 = 0)))"
proof -
  let ?used = "getOptionsArrayLength opts"
  let ?max = "(40 - ?used - 2) div 8"
  have room: "?used + (6 - ?used mod 4) mod 4 + 8 * min m ?max + 2 \<le> 40
      \<and> (?used + (6 - ?used mod 4) mod 4 + 8 * min m ?max + 2) mod 4 = 0" if "\<not> 40 - 10 < ?used" for m
    using that by (intro sack_room) auto
  have "addSacks opts c \<noteq> Inl (AssertFailed ''options_len <= TCP_OPTIONS_MAX_SIZE'')"
  proof (cases "purgeSacks (st_rcv_nxt (tcb c)) (sacks_array c)")
    case (Inl e)
    with purgeSacks_error [OF Inl] show ?thesis by (simp add: addSacks_def Let_def)
  next
    case p: (Inr ss0)
    show ?thesis
    proof (cases "reportSack c ss0")
      case (Inl e)
      with p reportSack_error [OF Inl] show ?thesis by (simp add: addSacks_def Let_def)
    next
      case (Inr ss)
      with p room [of "length ss"] show ?thesis by (simp add: addSacks_def Let_def)
    qed
  qed
  moreover have "getOptionsArrayLength opts' \<le> 40 \<and> \<not> snd_sack c' \<and> \<not> snd_dsack c' \<and> start_seqno c' = end_seqno c'
        \<and> (opts' = opts \<or> (\<exists>pad n vs. opts' = opts @ replicate pad nopOption @ [\<lparr>optKind = 5, optLength = 8 * n + 2, optValues = vs\<rparr>]
             \<and> pad < 4 \<and> 1 \<le> n \<and> n \<le> 4 \<and> length vs = 2 * n \<and> getOptionsArrayLength opts' mod 4 = 0))"
    if r: "addSacks opts c = Inr (c', opts')" and u: "?used \<le> 40" for c' opts'
  proof -
    let ?pad = "(6 - ?used mod 4) mod 4"
    obtain d ss where d: "c' = resetSackFlags d" and o: "opts' = opts \<or> \<not> 30 < ?used \<and> min (length ss) ?max \<noteq> 0
        \<and> opts' = opts @ replicate ?pad nopOption
          @ [\<lparr>optKind = 5, optLength = 8 * min (length ss) ?max + 2, optValues = sackValues (take (min (length ss) ?max) ss)\<rparr>]"
      using addSacks_result [OF r] by blast
    have f: "\<not> snd_sack c'" "\<not> snd_dsack c'" "start_seqno c' = end_seqno c'" by (simp_all add: d resetSackFlags_def)
    from o show ?thesis
    proof
      assume "opts' = opts"
      with u f show ?thesis by simp
    next
      assume a: "\<not> 30 < ?used \<and> min (length ss) ?max \<noteq> 0 \<and> opts' = opts @ replicate ?pad nopOption
          @ [\<lparr>optKind = 5, optLength = 8 * min (length ss) ?max + 2, optValues = sackValues (take (min (length ss) ?max) ss)\<rparr>]"
      define n vs where "n = min (length ss) ?max" and "vs = sackValues (take (min (length ss) ?max) ss)"
      have o': "opts' = opts @ replicate ?pad nopOption @ [\<lparr>optKind = 5, optLength = 8 * n + 2, optValues = vs\<rparr>]"
        using a by (simp add: n_def vs_def)
      have n: "1 \<le> n" "n \<le> 4" "length vs = 2 * n" "?pad < 4" using a unfolding n_def vs_def by (linarith | simp)+
      have l: "getOptionsArrayLength opts' \<le> 40" "getOptionsArrayLength opts' mod 4 = 0"
        using room [of "length ss"] a unfolding o' n_def [symmetric] by (simp_all add: add.assoc)
      show ?thesis
        by (intro conjI f l(1), rule disjI2, rule exI [of _ ?pad], rule exI [of _ n], rule exI [of _ vs], intro conjI o' n l(2))
    qed
  qed
  ultimately show ?thesis by blast
qed


theorem addSacks_layout_witness:
  "\<exists>c' opts'. addSacks [tsOption True example_sacker] example_sacker = Inr (c', opts')
     \<and> getOptionsArrayLength [tsOption True example_sacker] \<le> 40 \<and> getOptionsArrayLength opts' = 20 \<and> \<not> snd_sack c'"
proof -
  have u: "getOptionsArrayLength [tsOption True example_sacker] \<le> 40" by (simp add: tsOption_def)
  have f: "sacks_array example_sacker = []" "start_seqno example_sacker = 500" "end_seqno example_sacker = 600"
    "\<not> snd_dsack example_sacker" "receiveQueue example_sacker = \<lparr>rcv_nxt = 100, regionList = [\<lparr>vr_begin = 500, vr_end = 600\<rparr>]\<rparr>"
    by (simp_all add: example_sacker_def example_connection_def)
  have "reportSack example_sacker [] = Inr [\<lparr>sk_start = 500, sk_end = 600\<rparr>]"
    by (simp add: reportSack_def f getLE_def getRE_def Sack_empty_def seqLE_def seqLess_def)
  then obtain c' opts' where r: "addSacks [tsOption True example_sacker] example_sacker = Inr (c', opts')"
      "getOptionsArrayLength opts' = 20"
    by (simp add: addSacks_def f tsOption_def)
  have "\<not> snd_sack c'"
    using addSacks_layout [THEN conjunct2, rule_format, OF conjI [OF r(1) u]] by blast
  with r u show ?thesis by blast
qed

text \<open>
  With SACK and timestamps both supported, \<^verbatim>\<open>writeHeaderOptions\<close> leaves out the padding of the
  SACK-permitted option because a timestamp is expected to follow; in the SYN+ACK to a peer that does not use timestamps
  none follows, and the options end two bytes short of a word.
\<close>

theorem syn_ack_options_unaligned:
  "\<exists>c' opts. writeHeaderOptions True True ((example_host True)\<lparr>rcv_sack_perm := True\<rparr>) = Inr (c', opts)
     \<and> getOptionsArrayLength opts = 6"
  by (simp add: writeHeaderOptions_def writeSynOptions_def writeWS_def writeSACKPermitted_def writeInitialTS_def firstSyn_def
    example_host_def newStateBlock_def example_connection_def TCPStateVariables_new_def)

end
