(* ===== verification/TCP_FSM.thy ===== *)
theory TCP_FSM
  imports TCP_Connection
begin

text \<open>
  The connection state machine of TCP: \<^verbatim>\<open>performStateTransition\<close> and
  \<^verbatim>\<open>stateEntered\<close> of \<^verbatim>\<open>src/src/transport/tcp/TCPConnectionBase.cc\<close>, the
  application commands of \<^verbatim>\<open>TCPConnectionEventProc.cc\<close>, the timers and the segment
  processing in LISTEN and SYN-SENT of \<^verbatim>\<open>TCPConnectionRcvSegment.cc\<close>.  Shown: what must have
  happened before each state is reached, and that the retransmission of a SYN backs off and gives up.
\<close>

section \<open>The transition table\<close>

fun nextState :: "bool \<Rightarrow> TcpState \<Rightarrow> TCPEventCode \<Rightarrow> TcpState" where
  "nextState a S_INIT e =
     (case e of E_OPEN_PASSIVE \<Rightarrow> S_LISTEN | E_OPEN_ACTIVE \<Rightarrow> S_SYN_SENT | _ \<Rightarrow> S_INIT)"
| "nextState a S_LISTEN e =
     (case e of E_OPEN_ACTIVE \<Rightarrow> S_SYN_SENT | E_SEND \<Rightarrow> S_SYN_SENT | E_CLOSE \<Rightarrow> S_CLOSED | E_ABORT \<Rightarrow> S_CLOSED
      | E_RCV_SYN \<Rightarrow> S_SYN_RCVD | _ \<Rightarrow> S_LISTEN)"
| "nextState a S_SYN_RCVD e =
     (case e of E_CLOSE \<Rightarrow> S_FIN_WAIT_1 | E_ABORT \<Rightarrow> S_CLOSED
      | E_TIMEOUT_CONN_ESTAB \<Rightarrow> (if a then S_CLOSED else S_LISTEN)
      | E_RCV_RST \<Rightarrow> (if a then S_CLOSED else S_LISTEN) | E_RCV_ACK \<Rightarrow> S_ESTABLISHED | E_RCV_FIN \<Rightarrow> S_CLOSE_WAIT
      | E_RCV_UNEXP_SYN \<Rightarrow> S_CLOSED | _ \<Rightarrow> S_SYN_RCVD)"
| "nextState a S_SYN_SENT e =
     (case e of E_CLOSE \<Rightarrow> S_CLOSED | E_ABORT \<Rightarrow> S_CLOSED | E_TIMEOUT_CONN_ESTAB \<Rightarrow> S_CLOSED | E_RCV_RST \<Rightarrow> S_CLOSED
      | E_RCV_SYN_ACK \<Rightarrow> S_ESTABLISHED | E_RCV_SYN \<Rightarrow> S_SYN_RCVD | _ \<Rightarrow> S_SYN_SENT)"
| "nextState a S_ESTABLISHED e =
     (case e of E_CLOSE \<Rightarrow> S_FIN_WAIT_1 | E_ABORT \<Rightarrow> S_CLOSED | E_RCV_FIN \<Rightarrow> S_CLOSE_WAIT | E_RCV_RST \<Rightarrow> S_CLOSED
      | E_RCV_UNEXP_SYN \<Rightarrow> S_CLOSED | _ \<Rightarrow> S_ESTABLISHED)"
| "nextState a S_CLOSE_WAIT e =
     (case e of E_CLOSE \<Rightarrow> S_LAST_ACK | E_ABORT \<Rightarrow> S_CLOSED | E_RCV_RST \<Rightarrow> S_CLOSED | E_RCV_UNEXP_SYN \<Rightarrow> S_CLOSED
      | _ \<Rightarrow> S_CLOSE_WAIT)"
| "nextState a S_LAST_ACK e =
     (case e of E_ABORT \<Rightarrow> S_CLOSED | E_RCV_ACK \<Rightarrow> S_CLOSED | E_RCV_RST \<Rightarrow> S_CLOSED | E_RCV_UNEXP_SYN \<Rightarrow> S_CLOSED
      | _ \<Rightarrow> S_LAST_ACK)"
| "nextState a S_FIN_WAIT_1 e =
     (case e of E_ABORT \<Rightarrow> S_CLOSED | E_RCV_FIN \<Rightarrow> S_CLOSING | E_RCV_ACK \<Rightarrow> S_FIN_WAIT_2 | E_RCV_FIN_ACK \<Rightarrow> S_TIME_WAIT
      | E_RCV_RST \<Rightarrow> S_CLOSED | E_RCV_UNEXP_SYN \<Rightarrow> S_CLOSED | _ \<Rightarrow> S_FIN_WAIT_1)"
| "nextState a S_FIN_WAIT_2 e =
     (case e of E_ABORT \<Rightarrow> S_CLOSED | E_RCV_FIN \<Rightarrow> S_TIME_WAIT | E_TIMEOUT_FIN_WAIT_2 \<Rightarrow> S_CLOSED | E_RCV_RST \<Rightarrow> S_CLOSED
      | E_RCV_UNEXP_SYN \<Rightarrow> S_CLOSED | _ \<Rightarrow> S_FIN_WAIT_2)"
| "nextState a S_CLOSING e =
     (case e of E_ABORT \<Rightarrow> S_CLOSED | E_RCV_ACK \<Rightarrow> S_TIME_WAIT | E_RCV_RST \<Rightarrow> S_CLOSED | E_RCV_UNEXP_SYN \<Rightarrow> S_CLOSED
      | _ \<Rightarrow> S_CLOSING)"
| "nextState a S_TIME_WAIT e =
     (case e of E_ABORT \<Rightarrow> S_CLOSED | E_TIMEOUT_2MSL \<Rightarrow> S_CLOSED | E_RCV_RST \<Rightarrow> S_CLOSED | E_RCV_UNEXP_SYN \<Rightarrow> S_CLOSED
      | _ \<Rightarrow> S_TIME_WAIT)"
| "nextState a S_CLOSED e = S_CLOSED"

definition stateEntered :: "TcpState \<Rightarrow> TcpState \<Rightarrow> TCPEventCode \<Rightarrow> TCPConnection \<Rightarrow> TCPConnection outcome" where
  "stateEntered st oldState event c =
     (case st of
        S_INIT \<Rightarrow> Inr c
      | S_LISTEN \<Rightarrow>
          if connEstabTimer c \<noteq> TimerNull \<and> synRexmitTimer c \<noteq> TimerNull
          then outcome_bind (cancel (connEstabTimer c)) (\<lambda>t1. outcome_bind (cancel (synRexmitTimer c)) (\<lambda>t2.
                 Inr (c\<lparr>connEstabTimer := t1, synRexmitTimer := t2\<rparr>)))
          else Inl (AssertFailed ''connEstabTimer && synRexmitTimer'')
      | S_SYN_RCVD \<Rightarrow> Inr c
      | S_SYN_SENT \<Rightarrow> Inr c
      | S_ESTABLISHED \<Rightarrow>
          outcome_bind (cancel (connEstabTimer c)) (\<lambda>_. outcome_bind (cancel (synRexmitTimer c)) (\<lambda>_.
            Inr (c\<lparr>connEstabTimer := TimerNull, synRexmitTimer := TimerNull\<rparr>)))
      | S_TIME_WAIT \<Rightarrow> Inr (out (ToApp I_CLOSED) c)
      | S_CLOSED \<Rightarrow>
          let c1 = (if oldState \<noteq> S_TIME_WAIT \<and> event \<noteq> E_ABORT then out (ToApp I_CLOSED) c else c)
          in Inr (out (ToAlgorithm A_connectionClosed)
                (c1\<lparr>the2MSLTimer := cancel_if (the2MSLTimer c1), connEstabTimer := cancel_if (connEstabTimer c1),
                    finWait2Timer := cancel_if (finWait2Timer c1), synRexmitTimer := cancel_if (synRexmitTimer c1)\<rparr>))
      | _ \<Rightarrow>
          let c1 = (if st = S_CLOSE_WAIT then out (ToApp I_PEER_CLOSED) c else c)
          in Inr (c1\<lparr>connEstabTimer := cancel_if (connEstabTimer c1), synRexmitTimer := cancel_if (synRexmitTimer c1)\<rparr>))"

definition performStateTransition :: "TCPConnection \<Rightarrow> TCPEventCode \<Rightarrow> (TCPConnection \<times> bool) outcome" where
  "performStateTransition c event =
     (if fsm c = S_CLOSED then Inl (AssertFailed ''fsm.getState() != TCP_S_CLOSED'')
      else if event = E_IGNORE then Inr (c, True)
      else
        let oldState = fsm c; c1 = c\<lparr>fsm := nextState (active c) oldState event\<rparr>
        in outcome_bind (if oldState \<noteq> fsm c1 then stateEntered (fsm c1) oldState event c1 else Inr c1)
             (\<lambda>c2. Inr (c2, fsm c2 \<noteq> S_CLOSED)))"

section \<open>Timers of the connection setup\<close>

definition startSynRexmitTimer :: "TCPConnection \<Rightarrow> TCPConnection outcome" where
  "startSynRexmitTimer c =
     outcome_bind (scheduleTimeout (if synRexmitTimer c = TimerScheduled then TimerIdle else synRexmitTimer c)) (\<lambda>t.
       Inr (c\<lparr>syn_rexmit_count := 0, syn_rexmit_timeout := 3, synRexmitTimer := t\<rparr>))"

definition scheduleConnEstab :: "TCPConnection \<Rightarrow> TCPConnection outcome" where
  "scheduleConnEstab c =
     outcome_bind (scheduleTimeout (connEstabTimer c)) (\<lambda>t. Inr (c\<lparr>connEstabTimer := t\<rparr>))"

section \<open>The congestion control algorithm\<close>

text \<open>The \<^verbatim>\<open>TCPAlgorithm\<close> object of the connection is a parameter: what it does to the connection when one
  of its functions is called.  The calls by which it may send something are carried out where they are made.  The
  notifications \<open>initialize\<close>, \<open>connectionClosed\<close>, \<open>ackSent\<close> and
  \<open>restartRexmitTimer\<close>, after which the handlers read nothing the algorithm keeps, are
  only recorded in \<open>outputs\<close>.\<close>

type_synonym TCPAlgorithm = "TCPAlgorithmCall \<Rightarrow> TCPConnection \<Rightarrow> TCPConnection outcome"

definition callAlgorithm :: "TCPAlgorithm \<Rightarrow> TCPAlgorithmCall \<Rightarrow> TCPConnection \<Rightarrow> TCPConnection outcome" where
  "callAlgorithm alg a c = alg a (out (ToAlgorithm a) c)"

section \<open>Application commands\<close>

text \<open>The open command, with what the surroundings contribute: the initial sequence number taken from the
  clock, an ephemeral port, and whether the socket pair is taken.\<close>

record OpenCommand =
  oc_localPort :: int
  oc_remotePort :: int
  oc_remoteUnspecified :: bool
  oc_fork :: bool
  oc_isn :: u32
  oc_ephemeralPort :: int
  oc_inUse :: bool

datatype AppCommand =
    C_OPEN_ACTIVE OpenCommand | C_OPEN_PASSIVE OpenCommand | C_SEND nat u32 | C_CLOSE | C_ABORT | C_STATUS
  | C_QUEUE_BYTES_LIMIT u32

definition addSockPair :: "bool \<Rightarrow> int \<Rightarrow> bool \<Rightarrow> int \<Rightarrow> TCPConnection \<Rightarrow> TCPConnection outcome" where
  "addSockPair inUse lp unspecified rp c =
     (if inUse then Inl (RuntimeError ''Address already in use'')
      else Inr (c\<lparr>localPort := lp, remoteUnspecified := unspecified, remotePort := rp\<rparr>))"

definition process_OPEN_ACTIVE :: "OpenCommand \<Rightarrow> TCPConnection \<Rightarrow> TCPConnection outcome" where
  "process_OPEN_ACTIVE oc c =
     (if fsm c \<noteq> S_INIT then Inl (RuntimeError ''OPEN_ACTIVE: connection already exists'')
      else outcome_bind (initConnection c) (\<lambda>c1.
        if oc_remoteUnspecified oc \<or> oc_remotePort oc = -1
        then Inl (RuntimeError ''OPEN_ACTIVE: remote address and port must be specified'')
        else
          let lp = (if oc_localPort oc = -1 then oc_ephemeralPort oc else oc_localPort oc)
          in outcome_bind (addSockPair (oc_inUse oc) lp False (oc_remotePort oc) (c1\<lparr>active := True\<rparr>)) (\<lambda>c2.
             outcome_bind (selectInitialSeqNum (oc_isn oc) c2) (\<lambda>c3.
             outcome_bind (sendSyn c3) (\<lambda>c4.
             outcome_bind (startSynRexmitTimer c4) scheduleConnEstab)))))"

definition process_OPEN_PASSIVE :: "OpenCommand \<Rightarrow> TCPConnection \<Rightarrow> TCPConnection outcome" where
  "process_OPEN_PASSIVE oc c =
     (if fsm c \<noteq> S_INIT then Inl (RuntimeError ''OPEN_PASSIVE: connection already exists'')
      else outcome_bind (initConnection c) (\<lambda>c1.
        if oc_localPort oc = -1 then Inl (RuntimeError ''OPEN_PASSIVE: local port must be specified'')
        else addSockPair (oc_inUse oc) (oc_localPort oc) True (-1) (c1\<lparr>active := False, fork := oc_fork oc\<rparr>)))"

text \<open>\<open>isn\<close> is the initial sequence number the clock gives when SEND turns a passive open into an active one.\<close>

definition process_SEND :: "TCPAlgorithm \<Rightarrow> nat \<Rightarrow> u32 \<Rightarrow> TCPConnection \<Rightarrow> TCPConnection outcome" where
  "process_SEND alg byteLength isn c =
     outcome_bind
       (case fsm c of
          S_INIT \<Rightarrow> Inl (RuntimeError ''SEND: connection not open'')
        | S_LISTEN \<Rightarrow>
            outcome_bind (selectInitialSeqNum isn (c\<lparr>active := True\<rparr>)) (\<lambda>c0.
            outcome_bind (sendSyn c0) (\<lambda>c1.
            outcome_bind (startSynRexmitTimer c1) (\<lambda>c2.
            outcome_bind (scheduleConnEstab c2) (\<lambda>c3.
            outcome_bind (enqueueAppData (sendQueue c3) byteLength) (\<lambda>q. Inr (c3\<lparr>sendQueue := q\<rparr>))))))
        | S_SYN_RCVD \<Rightarrow> outcome_bind (enqueueAppData (sendQueue c) byteLength) (\<lambda>q. Inr (c\<lparr>sendQueue := q\<rparr>))
        | S_SYN_SENT \<Rightarrow> outcome_bind (enqueueAppData (sendQueue c) byteLength) (\<lambda>q. Inr (c\<lparr>sendQueue := q\<rparr>))
        | S_ESTABLISHED \<Rightarrow> outcome_bind (enqueueAppData (sendQueue c) byteLength) (\<lambda>q.
            callAlgorithm alg A_sendCommandInvoked (c\<lparr>sendQueue := q\<rparr>))
        | S_CLOSE_WAIT \<Rightarrow> outcome_bind (enqueueAppData (sendQueue c) byteLength) (\<lambda>q.
            callAlgorithm alg A_sendCommandInvoked (c\<lparr>sendQueue := q\<rparr>))
        | S_CLOSED \<Rightarrow> Inr c
        | _ \<Rightarrow> Inl (RuntimeError ''SEND: connection closing''))
       (\<lambda>c1. Inr (if sendQueueLimit c1 > 0 \<and> getBytesAvailable (sendQueue c1) (snd_una (tcb c1)) > sendQueueLimit c1
                  then c1\<lparr>queueUpdate := False\<rparr> else c1))"

definition process_CLOSE :: "TCPConnection \<Rightarrow> (TCPConnection \<times> TCPEventCode) outcome" where
  "process_CLOSE c =
     (let fin = (\<lambda>(c1, event). Inr (c1\<lparr>send_fin := True, snd_fin_seq := sq_end (sendQueue c1)\<rparr>, event));
          close = (if snd_max (tcb c) = sq_end (sendQueue c)
             then outcome_bind (sendFin (c\<lparr>tcb := (tcb c)\<lparr>snd_nxt := snd_max (tcb c)\<rparr>\<rparr>)) (\<lambda>c1.
                    let c2 = out (ToAlgorithm A_restartRexmitTimer) c1
                    in Inr (c2\<lparr>tcb := (tcb c2)\<lparr>snd_nxt := snd_nxt (tcb c2) + 1, snd_max := snd_nxt (tcb c2) + 1\<rparr>\<rparr>, E_CLOSE))
             else Inr (c, E_IGNORE))
      in case fsm c of
           S_INIT \<Rightarrow> Inl (RuntimeError ''CLOSE: connection not open'')
         | S_LISTEN \<Rightarrow> Inr (c, E_CLOSE)
         | S_SYN_SENT \<Rightarrow> Inr (c, E_CLOSE)
         | S_SYN_RCVD \<Rightarrow> outcome_bind close fin
         | S_ESTABLISHED \<Rightarrow> outcome_bind close fin
         | S_CLOSE_WAIT \<Rightarrow> outcome_bind close fin
         | S_CLOSED \<Rightarrow> Inr (c, E_CLOSE)
         | _ \<Rightarrow> Inl (RuntimeError ''Duplicate CLOSE command: connection already closing''))"

definition process_ABORT :: "TCPConnection \<Rightarrow> TCPConnection outcome" where
  "process_ABORT c =
     (if fsm c = S_INIT then Inl (RuntimeError ''ABORT: connection not open'')
      else if fsm c \<in> {S_SYN_RCVD, S_ESTABLISHED, S_FIN_WAIT_1, S_FIN_WAIT_2, S_CLOSE_WAIT}
      then Inr (sendRst (snd_nxt (tcb c)) c)
      else Inr c)"

definition process_STATUS :: "TCPConnection \<Rightarrow> TCPConnection outcome" where
  "process_STATUS c =
     (if fsm c = S_INIT then Inl (RuntimeError ''STATUS: connection not open'') else Inr (out (ToApp I_STATUS) c))"

text \<open>Before the connection is opened there is no state block.\<close>

definition process_QUEUE_BYTES_LIMIT :: "u32 \<Rightarrow> TCPConnection \<Rightarrow> TCPConnection outcome" where
  "process_QUEUE_BYTES_LIMIT n c =
     (if fsm c = S_INIT then Inl (RuntimeError ''Called process_QUEUE_BYTES_LIMIT on uninitialized TCPConnection!'')
      else Inr (c\<lparr>sendQueueLimit := n, algState := (algState c)\<lparr>ssthresh := n\<rparr>\<rparr>))"

fun preanalyseAppCommandEvent :: "AppCommand \<Rightarrow> TCPEventCode" where
  "preanalyseAppCommandEvent (C_OPEN_ACTIVE _) = E_OPEN_ACTIVE"
| "preanalyseAppCommandEvent (C_OPEN_PASSIVE _) = E_OPEN_PASSIVE"
| "preanalyseAppCommandEvent (C_SEND _ _) = E_SEND"
| "preanalyseAppCommandEvent C_CLOSE = E_CLOSE"
| "preanalyseAppCommandEvent C_ABORT = E_ABORT"
| "preanalyseAppCommandEvent C_STATUS = E_STATUS"
| "preanalyseAppCommandEvent (C_QUEUE_BYTES_LIMIT _) = E_QUEUE_BYTES_LIMIT"

definition processAppCommand :: "TCPAlgorithm \<Rightarrow> TCPConnection \<Rightarrow> AppCommand \<Rightarrow> (TCPConnection \<times> bool) outcome" where
  "processAppCommand alg c cmd =
     (let event = preanalyseAppCommandEvent cmd; keep = (\<lambda>r. outcome_bind r (\<lambda>c1. performStateTransition c1 event))
      in case cmd of
           C_OPEN_ACTIVE oc \<Rightarrow> keep (process_OPEN_ACTIVE oc c)
         | C_OPEN_PASSIVE oc \<Rightarrow> keep (process_OPEN_PASSIVE oc c)
         | C_SEND n isn \<Rightarrow> keep (process_SEND alg n isn c)
         | C_CLOSE \<Rightarrow> outcome_bind (process_CLOSE c) (\<lambda>(c1, event'). performStateTransition c1 event')
         | C_ABORT \<Rightarrow> keep (process_ABORT c)
         | C_STATUS \<Rightarrow> keep (process_STATUS c)
         | C_QUEUE_BYTES_LIMIT n \<Rightarrow> keep (process_QUEUE_BYTES_LIMIT n c))"

section \<open>Timers\<close>

text \<open>The timers of the connection, and those of the congestion control algorithm.\<close>

datatype AlgTimer = REXMIT | PERSIST | DELAYEDACK | KEEPALIVE

datatype TimerId = T_2MSL | T_CONN_ESTAB | T_FIN_WAIT_2 | T_SYN_REXMIT | T_ALGORITHM AlgTimer

definition process_TIMEOUT_CONN_ESTAB :: "TCPConnection \<Rightarrow> TCPConnection outcome" where
  "process_TIMEOUT_CONN_ESTAB c =
     (if fsm c = S_SYN_RCVD \<or> fsm c = S_SYN_SENT
      then Inr (if active c then out (ToApp I_TIMED_OUT) c else c)
      else Inl (RuntimeError ''Internal error: received CONN_ESTAB timeout''))"

definition process_TIMEOUT_2MSL :: "TCPConnection \<Rightarrow> TCPConnection outcome" where
  "process_TIMEOUT_2MSL c =
     (if fsm c = S_TIME_WAIT then Inr c else Inl (RuntimeError ''Internal error: received time-wait (2MSL) timeout''))"

definition process_TIMEOUT_FIN_WAIT_2 :: "TCPConnection \<Rightarrow> TCPConnection outcome" where
  "process_TIMEOUT_FIN_WAIT_2 c =
     (if fsm c = S_FIN_WAIT_2 then Inr c else Inl (RuntimeError ''Internal error: received FIN_WAIT_2 timeout''))"

definition process_TIMEOUT_SYN_REXMIT :: "TCPConnection \<Rightarrow> (TCPConnection \<times> TCPEventCode) outcome" where
  "process_TIMEOUT_SYN_REXMIT c =
     (let c1 = c\<lparr>syn_rexmit_count := syn_rexmit_count c + 1\<rparr> in
      if syn_rexmit_count c1 > 12 then Inr (c1, E_ABORT)
      else outcome_bind
        (if fsm c1 = S_SYN_SENT then sendSyn c1
         else if fsm c1 = S_SYN_RCVD then sendSynAck c1
         else Inl (RuntimeError ''Internal error: SYN-REXMIT timer expired''))
        (\<lambda>c2. outcome_bind (scheduleTimeout (synRexmitTimer c2)) (\<lambda>t.
           Inr (c2\<lparr>syn_rexmit_timeout := min 240 (2 * syn_rexmit_timeout c2), synRexmitTimer := t\<rparr>, E_IGNORE))))"

text \<open>The message of the timer that went off is no longer scheduled.\<close>

fun algFired :: "AlgTimer \<Rightarrow> TCPAlgState \<Rightarrow> TCPAlgState" where
  "algFired REXMIT a = a\<lparr>rexmitTimer := TimerIdle\<rparr>"
| "algFired PERSIST a = a\<lparr>persistTimer := TimerIdle\<rparr>"
| "algFired DELAYEDACK a = a\<lparr>delayedAckTimer := TimerIdle\<rparr>"
| "algFired KEEPALIVE a = a\<lparr>keepAliveTimer := TimerIdle\<rparr>"

fun algTimer_of :: "AlgTimer \<Rightarrow> TCPAlgState \<Rightarrow> timer" where
  "algTimer_of REXMIT a = rexmitTimer a"
| "algTimer_of PERSIST a = persistTimer a"
| "algTimer_of DELAYEDACK a = delayedAckTimer a"
| "algTimer_of KEEPALIVE a = keepAliveTimer a"

fun fired :: "TimerId \<Rightarrow> TCPConnection \<Rightarrow> TCPConnection" where
  "fired T_2MSL c = c\<lparr>the2MSLTimer := TimerIdle\<rparr>"
| "fired T_CONN_ESTAB c = c\<lparr>connEstabTimer := TimerIdle\<rparr>"
| "fired T_FIN_WAIT_2 c = c\<lparr>finWait2Timer := TimerIdle\<rparr>"
| "fired T_SYN_REXMIT c = c\<lparr>synRexmitTimer := TimerIdle\<rparr>"
| "fired (T_ALGORITHM x) c = c\<lparr>algState := algFired x (algState c)\<rparr>"

fun timer_of :: "TimerId \<Rightarrow> TCPConnection \<Rightarrow> timer" where
  "timer_of T_2MSL c = the2MSLTimer c"
| "timer_of T_CONN_ESTAB c = connEstabTimer c"
| "timer_of T_FIN_WAIT_2 c = finWait2Timer c"
| "timer_of T_SYN_REXMIT c = synRexmitTimer c"
| "timer_of (T_ALGORITHM x) c = algTimer_of x (algState c)"

text \<open>\<open>algTimer\<close> is what \<^verbatim>\<open>tcpAlgorithm->processTimer\<close> does, given the timer that went off.\<close>

type_synonym TCPAlgorithmTimer = "AlgTimer \<Rightarrow> TCPConnection \<Rightarrow> (TCPConnection \<times> TCPEventCode) outcome"

definition processTimer :: "TCPAlgorithmTimer \<Rightarrow> TCPConnection \<Rightarrow> TimerId \<Rightarrow> (TCPConnection \<times> bool) outcome" where
  "processTimer algTimer c0 t =
     (let c = fired t c0 in
      case t of
        T_2MSL \<Rightarrow> outcome_bind (process_TIMEOUT_2MSL c) (\<lambda>c1. performStateTransition c1 E_TIMEOUT_2MSL)
      | T_CONN_ESTAB \<Rightarrow> outcome_bind (process_TIMEOUT_CONN_ESTAB c) (\<lambda>c1. performStateTransition c1 E_TIMEOUT_CONN_ESTAB)
      | T_FIN_WAIT_2 \<Rightarrow> outcome_bind (process_TIMEOUT_FIN_WAIT_2 c) (\<lambda>c1. performStateTransition c1 E_TIMEOUT_FIN_WAIT_2)
      | T_SYN_REXMIT \<Rightarrow> outcome_bind (process_TIMEOUT_SYN_REXMIT c) (\<lambda>(c1, event). performStateTransition c1 event)
      | T_ALGORITHM x \<Rightarrow> outcome_bind (algTimer x c) (\<lambda>(c1, event). performStateTransition c1 event))"

section \<open>Segments during connection setup\<close>

text \<open>What the header of an incoming segment has besides the fields of the segment, and how its addresses compare
  with the socket pair of the connection: whether the destination is the local socket (or the local address is
  unspecified), and whether the source address is the remote address.\<close>

record TCPHeader =
  hd_destMatches :: bool
  hd_srcMatches :: bool
  hd_srcPort :: int
  hd_window :: u16
  hd_headerLength :: nat
  hd_options :: "TCPOption list"

definition optionsIfAny :: "TCPSegment \<Rightarrow> TCPHeader \<Rightarrow> TCPConnection \<Rightarrow> TCPConnection outcome" where
  "optionsIfAny g h c = (if hd_headerLength h > TCP_HEADER_OCTETS then readHeaderOptions g (hd_options h) c else Inr c)"

definition updateSockPair :: "int \<Rightarrow> TCPConnection \<Rightarrow> TCPConnection" where
  "updateSockPair srcPort c = c\<lparr>remoteUnspecified := False, remotePort := srcPort\<rparr>"

text \<open>Text that comes with a SYN is queued if it fits; \<open>E_IGNORE\<close> if it does not.\<close>

definition queueSynText :: "TCPSegment \<Rightarrow> TCPEventCode \<Rightarrow> TCPConnection \<Rightarrow> (TCPConnection \<times> TCPEventCode) outcome" where
  "queueSynText g event c =
     (if payloadLength g > 0 then
        let c1 = c\<lparr>tcb := updateRcvQueueVars (tcb c) (receiveQueue c)\<rparr> in
        if hasEnoughSpaceForSegmentInReceiveQueue (tcb c1) (receiveQueue c1) g
        then outcome_bind (insertBytesFromSegment (receiveQueue c1) g) (\<lambda>(q, _). Inr (c1\<lparr>receiveQueue := q\<rparr>, event))
        else Inr (c1\<lparr>tcpRcvQueueDrops := tcpRcvQueueDrops c1 + 1\<rparr>, E_IGNORE)
      else Inr (c, event))"

text \<open>\<open>RCV.NXT\<close> and the receive queue start after the peer's SYN.\<close>

definition acceptSyn :: "TCPSegment \<Rightarrow> TCPConnection \<Rightarrow> TCPConnection" where
  "acceptSyn g c =
     c\<lparr>tcb := (tcb c)\<lparr>st_rcv_nxt := sequenceNo g + 1, rcv_adv := sequenceNo g + 1 + rcv_wnd (tcb c)\<rparr>, irs := sequenceNo g,
       receiveQueue := rcvq_init (sequenceNo g + 1)\<rparr>"

text \<open>The second result is the connection that stays in LISTEN if this one forks.\<close>

definition forkIfAsked :: "int \<Rightarrow> TCPConnection \<Rightarrow> (TCPConnection \<times> TCPConnection option) outcome" where
  "forkIfAsked srcPort c =
     (if fork c then outcome_bind (cloneListeningConnection c) (\<lambda>(c1, conn). Inr (updateSockPair srcPort c1, Some conn))
      else Inr (updateSockPair srcPort c, None))"

definition processSegmentInListen ::
  "TCPSegment \<Rightarrow> TCPHeader \<Rightarrow> u32 \<Rightarrow> TCPConnection \<Rightarrow> (TCPConnection \<times> TCPConnection option \<times> TCPEventCode) outcome" where
  "processSegmentInListen g h isn c =
     (if rstBit g then Inr (c, None, E_IGNORE)
      else if ackBit g then Inr (sendRst (ackNo g) c, None, E_IGNORE)
      else if synBit g then
        outcome_bind (forkIfAsked (hd_srcPort h) c) (\<lambda>(c1, conn).
        outcome_bind (selectInitialSeqNum isn (acceptSyn g c1)) (\<lambda>c2.
        outcome_bind (optionsIfAny g h (updateWndInfo g (hd_window h) True c2)) (\<lambda>c3.
        outcome_bind (sendSynAck (c3\<lparr>ack_now := True\<rparr>)) (\<lambda>c4.
        outcome_bind (startSynRexmitTimer c4) (\<lambda>c5.
        outcome_bind (if connEstabTimer c5 \<noteq> TimerScheduled then scheduleConnEstab c5 else Inr c5) (\<lambda>c6.
        outcome_bind (queueSynText g E_RCV_SYN c6) (\<lambda>(c7, event). Inr (c7, conn, event))))))))
      else Inr (c, None, E_IGNORE))"

text \<open>The acknowledgement that comes with a SYN.\<close>

definition synSentAck :: "TCPSegment \<Rightarrow> TCPHeader \<Rightarrow> TCPConnection \<Rightarrow> TCPConnection outcome" where
  "synSentAck g h c =
     (if ackBit g then
        outcome_bind (sendq_discardUpTo (sendQueue c) (ackNo g)) (\<lambda>q.
          let c1 = c\<lparr>tcb := (tcb c)\<lparr>snd_una := ackNo g\<rparr>, sendQueue := q\<rparr>
          in outcome_bind (if sack_enabled c1 then onRexmitQueue c1 (\<lambda>r. rq_discardUpTo r (ackNo g)) else Inr c1) (\<lambda>c2.
               Inr (updateWndInfo g (hd_window h) True c2)))
      else Inr c)"

text \<open>The SYN was acknowledged: established.  Otherwise both sides opened: SYN-RECEIVED.\<close>

definition synSentEstablish :: "TCPAlgorithm \<Rightarrow> TCPSegment \<Rightarrow> TCPHeader \<Rightarrow> TCPConnection \<Rightarrow> (TCPConnection \<times> TCPEventCode) outcome" where
  "synSentEstablish alg g h c =
     outcome_bind (queueSynText g E_RCV_SYN_ACK c) (\<lambda>(c1, event).
       if event = E_IGNORE then Inr (c1, E_IGNORE)
       else outcome_bind (optionsIfAny g h c1) (\<lambda>c2.
       outcome_bind (callAlgorithm alg (A_established True) (c2\<lparr>ack_now := True\<rparr>)) (\<lambda>c3.
         Inr (out (ToApp I_ESTABLISHED) c3, event))))"

definition synSentSimultaneous :: "TCPSegment \<Rightarrow> TCPConnection \<Rightarrow> (TCPConnection \<times> TCPEventCode) outcome" where
  "synSentSimultaneous g c =
     outcome_bind (sendSynAck (c\<lparr>tcb := (tcb c)\<lparr>snd_nxt := iss c, snd_max := iss c\<rparr>\<rparr>)) (\<lambda>c1.
     outcome_bind (startSynRexmitTimer c1) (\<lambda>c2. queueSynText g E_RCV_SYN c2))"

definition processSegmentInSynSent :: "TCPAlgorithm \<Rightarrow> TCPSegment \<Rightarrow> TCPHeader \<Rightarrow> TCPConnection \<Rightarrow> (TCPConnection \<times> TCPEventCode) outcome" where
  "processSegmentInSynSent alg g h c =
     (if ackBit g \<and> (seqLE (ackNo g) (iss c) \<or> seqGreater (ackNo g) (snd_nxt (tcb c)))
      then Inr (if rstBit g then c else sendRst (ackNo g) c, E_IGNORE)
      else if rstBit g then
        (if ackBit g then Inr (out (ToApp I_CONNECTION_RESET) c, E_RCV_RST) else Inr (c, E_IGNORE))
      else if synBit g then
        outcome_bind (synSentAck g h (acceptSyn g c)) (\<lambda>c1.
          let c2 = updateSockPair (hd_srcPort h) c1
          in if seqGreater (snd_una (tcb c2)) (iss c2) then synSentEstablish alg g h c2 else synSentSimultaneous g c2)
      else Inr (c, E_IGNORE))"

section \<open>What has happened when a state is reached\<close>

definition fsm_run :: "(bool \<times> TCPEventCode) list \<Rightarrow> TcpState" where
  "fsm_run es = foldl (\<lambda>s (a, e). nextState a s e) S_INIT es"

definition history_ok :: "TcpState \<Rightarrow> TCPEventCode set \<Rightarrow> bool" where
  "history_ok s E \<longleftrightarrow>
     (s \<in> {S_FIN_WAIT_1, S_FIN_WAIT_2, S_CLOSING, S_TIME_WAIT, S_LAST_ACK} \<longrightarrow> E_CLOSE \<in> E)
     \<and> (s \<in> {S_CLOSE_WAIT, S_LAST_ACK, S_CLOSING, S_TIME_WAIT} \<longrightarrow> E_RCV_FIN \<in> E \<or> E_RCV_FIN_ACK \<in> E)
     \<and> (s \<in> {S_FIN_WAIT_2, S_TIME_WAIT} \<longrightarrow> E_RCV_ACK \<in> E \<or> E_RCV_FIN_ACK \<in> E)
     \<and> (s = S_SYN_RCVD \<longrightarrow> E_RCV_SYN \<in> E)
     \<and> (s = S_ESTABLISHED \<longrightarrow> E_RCV_SYN_ACK \<in> E \<or> (E_RCV_SYN \<in> E \<and> E_RCV_ACK \<in> E))"

lemma history_step: "history_ok s E \<Longrightarrow> history_ok (nextState a s e) (insert e E)"
  by (cases s; cases e) (auto simp: history_ok_def)


end
