(* ===== verification/TCP_Segments.thy ===== *)
theory TCP_Segments
  imports TCP_FSM
begin

text \<open>
  The processing of an arriving segment in the synchronised states,
  \<^verbatim>\<open>processSegment1stThru8th\<close>, \<^verbatim>\<open>processAckInEstabEtc\<close> and
  \<^verbatim>\<open>processRstInSynReceived\<close> of
  \<^verbatim>\<open>src/src/transport/tcp/TCPConnectionRcvSegment.cc\<close>, the dispatch on the state and the
  answer to a segment that belongs to no connection.  One definition per step of RFC 793.
\<close>

section \<open>The steps\<close>

definition getQueueLength :: "TCPVirtualDataRcvQueue \<Rightarrow> u32" where
  "getQueueLength q = of_nat (length (regionList q))"

text \<open>First: the timestamp check and the options, then the sequence number.\<close>

definition seg_options :: "TCPSegment \<Rightarrow> TCPHeader \<Rightarrow> TCPConnection \<Rightarrow> (TCPConnection \<times> bool) outcome" where
  "seg_options g h c =
     (if hd_headerLength h > TCP_HEADER_OCTETS then
        outcome_bind (if ts_enabled c then getTSval (hd_options h) else Inr 0) (\<lambda>tsval.
          let paws = (ts_enabled c \<and> tsval \<noteq> 0 \<and> seqLess tsval (ts_recent c)
                \<and> int (simTimeMs c) - int (time_last_data_sent c) > int PAWS_IDLE_TIME_THRESH * 1000)
          in outcome_bind (readHeaderOptions g (hd_options h) c) (\<lambda>c1. Inr (c1, \<not> paws)))
      else Inr (c, True))"

definition seg_unacceptable :: "TCPSegment \<Rightarrow> TCPConnection \<Rightarrow> (TCPConnection \<times> TCPEventCode) outcome" where
  "seg_unacceptable g c =
     outcome_bind
       (if rstBit g then Inr c
        else sendAck (if \<not> synBit g \<and> payloadLength g > 0 \<and> sack_enabled c
                         \<and> seqLess (sequenceNo g + payloadLength g) (st_rcv_nxt (tcb c))
              then c\<lparr>start_seqno := sequenceNo g, end_seqno := sequenceNo g + payloadLength g, snd_dsack := True\<rparr> else c))
       (\<lambda>c1. Inr (c1\<lparr>rcv_naseg := rcv_naseg c1 + 1\<rparr>, E_IGNORE))"

text \<open>Second: the RST bit.\<close>

definition processRstInSynReceived :: "TCPConnection \<Rightarrow> (TCPConnection \<times> TCPEventCode) outcome" where
  "processRstInSynReceived c =
     outcome_bind (sendq_discardUpTo (sendQueue c) (sq_end (sendQueue c))) (\<lambda>q.
       let c1 = c\<lparr>sendQueue := q\<rparr>
       in outcome_bind (if sack_enabled c1 then onRexmitQueue c1 (\<lambda>r. rq_discardUpTo r (rq_end r)) else Inr c1) (\<lambda>c2.
            Inr (if active c2 then out (ToApp I_CONNECTION_REFUSED) c2 else c2, E_RCV_RST)))"

definition seg_rst :: "TCPConnection \<Rightarrow> (TCPConnection \<times> TCPEventCode) outcome" where
  "seg_rst c =
     (case fsm c of
        S_SYN_RCVD \<Rightarrow> processRstInSynReceived c
      | S_ESTABLISHED \<Rightarrow> Inr (out (ToApp I_CONNECTION_RESET) c, E_RCV_RST)
      | S_FIN_WAIT_1 \<Rightarrow> Inr (out (ToApp I_CONNECTION_RESET) c, E_RCV_RST)
      | S_FIN_WAIT_2 \<Rightarrow> Inr (out (ToApp I_CONNECTION_RESET) c, E_RCV_RST)
      | S_CLOSE_WAIT \<Rightarrow> Inr (out (ToApp I_CONNECTION_RESET) c, E_RCV_RST)
      | S_CLOSING \<Rightarrow> Inr (c, E_RCV_RST)
      | S_LAST_ACK \<Rightarrow> Inr (c, E_RCV_RST)
      | S_TIME_WAIT \<Rightarrow> Inr (c, E_RCV_RST)
      | _ \<Rightarrow> Inl (AssertFailed ''0''))"

text \<open>Fifth: the acknowledgement.\<close>

definition dupAck :: "TCPAlgorithm \<Rightarrow> TCPSegment \<Rightarrow> TCPHeader \<Rightarrow> TCPConnection \<Rightarrow> TCPConnection outcome" where
  "dupAck alg g h c =
     (if snd_una (tcb c) = ackNo g \<and> payloadLength g = 0 \<and> snd_una (tcb c) \<noteq> snd_max (tcb c)
      then callAlgorithm alg A_receivedDuplicateAck (updateWndInfo g (hd_window h) False (c\<lparr>dupacks := dupacks c + 1\<rparr>))
      else Inr (c\<lparr>dupacks := 0\<rparr>))"

definition ackRtt :: "TCPAlgorithm \<Rightarrow> TCPHeader \<Rightarrow> TCPConnection \<Rightarrow> TCPConnection outcome" where
  "ackRtt alg h c =
     (if ts_enabled c
      then outcome_bind (getTSecr (hd_options h)) (\<lambda>e. callAlgorithm alg (A_rttMeasurementCompleteUsingTS e) c)
      else Inr c)"

definition ackDiscard :: "TCPSegment \<Rightarrow> TCPConnection \<Rightarrow> TCPConnection outcome" where
  "ackDiscard g c =
     (let finAcked = (send_fin c \<and> ackNo g = snd_fin_seq c + 1);
          discardUpToSeq = (if finAcked then ackNo g - 1 else ackNo g)
      in outcome_bind (sendq_discardUpTo (sendQueue c) discardUpToSeq) (\<lambda>q.
           let c1 = c\<lparr>fin_ack_rcvd := (fin_ack_rcvd c \<or> finAcked), sendQueue := q\<rparr>
           in if sack_enabled c1 then onRexmitQueue c1 (\<lambda>r. rq_discardUpTo r discardUpToSeq) else Inr c1))"

text \<open>The algorithm is told of the acknowledgement, with the old \<open>SND.UNA\<close>.\<close>

definition dataAcked :: "TCPAlgorithm \<Rightarrow> u32 \<Rightarrow> TCPConnection \<Rightarrow> TCPConnection outcome" where
  "dataAcked alg old_snd_una c =
     outcome_bind (callAlgorithm alg (A_receivedDataAck old_snd_una) c) (\<lambda>c1. Inr (c1\<lparr>dupacks := 0\<rparr>))"

definition ackInWindow :: "TCPAlgorithm \<Rightarrow> TCPSegment \<Rightarrow> TCPHeader \<Rightarrow> TCPConnection \<Rightarrow> TCPConnection outcome" where
  "ackInWindow alg g h c =
     (let c1 = c\<lparr>tcb := (tcb c)\<lparr>snd_una := ackNo g,
                 snd_nxt := (if seqLess (snd_nxt (tcb c)) (ackNo g) then ackNo g else snd_nxt (tcb c))\<rparr>\<rparr>
      in outcome_bind (ackRtt alg h c1) (\<lambda>c2.
         outcome_bind (ackDiscard g c2) (\<lambda>c3.
           let c4 = updateWndInfo g (hd_window h) False c3
           in if payloadLength g = 0 \<and> fsm c4 \<noteq> S_SYN_RCVD then dataAcked alg (snd_una (tcb c)) c4 else Inr c4)))"

text \<open>The second result is \<open>False\<close> if the segment acknowledges something not yet sent.\<close>

definition processAckInEstabEtc :: "TCPAlgorithm \<Rightarrow> TCPSegment \<Rightarrow> TCPHeader \<Rightarrow> TCPConnection \<Rightarrow> (TCPConnection \<times> bool) outcome" where
  "processAckInEstabEtc alg g h c =
     (if seqGE (snd_una (tcb c)) (ackNo g) then outcome_bind (dupAck alg g h c) (\<lambda>c1. Inr (c1, True))
      else if seqLE (ackNo g) (snd_max (tcb c)) then outcome_bind (ackInWindow alg g h c) (\<lambda>c1. Inr (c1, True))
      else if \<not> seqGreater (ackNo g) (snd_max (tcb c))
      then Inl (AssertFailed ''seqGreater(tcpseg->getAckNo(), state->snd_max)'')
      else outcome_bind (callAlgorithm alg (A_receivedAckForDataNotYetSent (ackNo g)) c) (\<lambda>c1. Inr (c1\<lparr>dupacks := 0\<rparr>, False)))"

text \<open>What the acknowledgement means for the closing states; \<open>True\<close> as third result is an immediate return.\<close>

definition restart2MSL :: "TCPConnection \<Rightarrow> TCPConnection outcome" where
  "restart2MSL c =
     outcome_bind (cancel (the2MSLTimer c)) (\<lambda>t. outcome_bind (scheduleTimeout t) (\<lambda>t'. Inr (c\<lparr>the2MSLTimer := t'\<rparr>)))"

definition start2MSL :: "TCPConnection \<Rightarrow> TCPConnection outcome" where
  "start2MSL c = outcome_bind (scheduleTimeout (the2MSLTimer c)) (\<lambda>t. Inr (c\<lparr>the2MSLTimer := t\<rparr>))"

definition seg_closing :: "TCPSegment \<Rightarrow> TCPEventCode \<Rightarrow> TCPConnection \<Rightarrow> (TCPConnection \<times> TCPEventCode \<times> bool) outcome" where
  "seg_closing g event c =
     (if fsm c = S_FIN_WAIT_1 then Inr (c, if fin_ack_rcvd c then E_RCV_ACK else event, False)
      else if fsm c = S_CLOSING then
        (if fin_ack_rcvd c then outcome_bind (start2MSL c) (\<lambda>c1. Inr (c1, E_RCV_ACK, False)) else Inr (c, event, False))
      else if fsm c = S_LAST_ACK \<and> send_fin c \<and> ackNo g = snd_fin_seq c + 1 then Inr (c, E_RCV_ACK, True)
      else if fsm c = S_TIME_WAIT then
        outcome_bind (sendAck c) (\<lambda>c1. outcome_bind (restart2MSL c1) (\<lambda>c2. Inr (c2, event, False)))
      else Inr (c, event, False))"

text \<open>The peer's FIN has been reached.\<close>

definition finReached :: "TCPConnection \<Rightarrow> (TCPConnection \<times> TCPEventCode) outcome" where
  "finReached c =
     (let toTimeWait = outcome_bind (cancel (finWait2Timer c)) (\<lambda>t. start2MSL (c\<lparr>finWait2Timer := t\<rparr>)) in
      case fsm c of
        S_FIN_WAIT_1 \<Rightarrow> if fin_ack_rcvd c then outcome_bind toTimeWait (\<lambda>c1. Inr (c1, E_RCV_FIN_ACK)) else Inr (c, E_RCV_FIN)
      | S_FIN_WAIT_2 \<Rightarrow> outcome_bind toTimeWait (\<lambda>c1. Inr (c1, E_RCV_FIN))
      | S_TIME_WAIT \<Rightarrow> outcome_bind (restart2MSL c) (\<lambda>c1. Inr (c1, E_RCV_FIN))
      | _ \<Rightarrow> Inr (c, E_RCV_FIN))"

text \<open>Seventh: the segment text.  A segment that does not advance \<open>rcv_nxt\<close> is out of order; otherwise what has
  become contiguous goes to the application, and a FIN stored before may have been reached.\<close>

definition outOfOrder :: "TCPAlgorithm \<Rightarrow> TCPSegment \<Rightarrow> u32 \<Rightarrow> TCPConnection \<Rightarrow> TCPConnection outcome" where
  "outOfOrder alg g old_usedRcvBuffer c0 =
     (let c = c0\<lparr>rcv_oooseg := rcv_oooseg c0 + 1\<rparr>;
          c1 = c\<lparr>start_seqno := sequenceNo g, end_seqno := sequenceNo g + payloadLength g\<rparr>
      in callAlgorithm alg A_receivedOutOfOrderSegment
           (if \<not> sack_enabled c then c
            else if old_usedRcvBuffer = getAmountOfBufferedBytes (receiveQueue c1) then c1\<lparr>snd_dsack := True\<rparr>
            else c1\<lparr>snd_sack := True\<rparr>))"

definition pendingFin :: "TCPEventCode \<Rightarrow> TCPConnection \<Rightarrow> (TCPConnection \<times> TCPEventCode) outcome" where
  "pendingFin event c =
     (if fin_rcvd c \<and> st_rcv_nxt (tcb c) = rcv_fin_seq c
      then finReached (c\<lparr>ack_now := True, tcb := (tcb c)\<lparr>st_rcv_nxt := rcv_fin_seq c + 1\<rparr>\<rparr>)
      else Inr (c, event))"

definition inOrder :: "TCPEventCode \<Rightarrow> TCPConnection \<Rightarrow> (TCPConnection \<times> TCPEventCode) outcome" where
  "inOrder event c =
     outcome_bind (deliver (receiveQueue c) (st_rcv_nxt (tcb c))) (\<lambda>(q, ns).
       pendingFin event (fold (\<lambda>n. out (ToApp (I_DATA n))) ns (c\<lparr>receiveQueue := q\<rparr>)))"

text \<open>The counters, and the state before and after the insertion into the receive queue.\<close>

definition countText :: "TCPSegment \<Rightarrow> TCPHeader \<Rightarrow> TCPConnection \<Rightarrow> TCPConnection" where
  "countText g h c =
     (let full = (payloadLength g = snd_mss (tcb c) \<or> payloadLength g + of_nat (hd_headerLength h) - 20 = snd_mss (tcb c))
      in c\<lparr>full_sized_segment_counter := full_sized_segment_counter c + (if full then 1 else 0),
           ack_now := (ack_now c \<or> payloadLength g = 1)\<rparr>)"

definition storeText :: "TCPAlgorithm \<Rightarrow> u32 \<Rightarrow> TCPVirtualDataRcvQueue \<Rightarrow> u32 \<Rightarrow> TCPConnection \<Rightarrow> TCPConnection outcome" where
  "storeText alg old_snd_una q nxt c =
     (let c1 = c\<lparr>tcb := (tcb c)\<lparr>st_rcv_nxt := nxt\<rparr>, receiveQueue := q\<rparr>
      in if seqGreater (snd_una (tcb c1)) old_snd_una then dataAcked alg old_snd_una c1 else Inr c1)"

text \<open>The segment comes back truncated to the window; \<open>True\<close> as last result means it was dropped.\<close>

definition seg_text :: "TCPAlgorithm \<Rightarrow> TCPSegment \<Rightarrow> TCPHeader \<Rightarrow> u32 \<Rightarrow> TCPEventCode \<Rightarrow> TCPConnection \<Rightarrow>
    (TCPConnection \<times> TCPSegment \<times> TCPEventCode \<times> bool) outcome" where
  "seg_text alg g h old_snd_una event c =
     (if fsm c \<notin> {S_SYN_RCVD, S_ESTABLISHED, S_FIN_WAIT_1, S_FIN_WAIT_2} \<or> \<not> payloadLength g > 0 then Inr (c, g, event, False)
      else
        let old_rcv_nxt = st_rcv_nxt (tcb c)
        in outcome_bind (truncateSegment g old_rcv_nxt (old_rcv_nxt + rcv_wnd (tcb c))) (\<lambda>g'.
           let c2 = (countText g h c)\<lparr>tcb := updateRcvQueueVars (tcb c) (receiveQueue c)\<rparr>
           in if hasEnoughSpaceForSegmentInReceiveQueue (tcb c2) (receiveQueue c2) g'
              then outcome_bind (insertBytesFromSegment (receiveQueue c2) g') (\<lambda>(q, nxt).
                outcome_bind (storeText alg old_snd_una q nxt c2) (\<lambda>c4.
                if old_rcv_nxt = st_rcv_nxt (tcb c4)
                then outcome_bind (outOfOrder alg g' (usedRcvBuffer (tcb c2)) c4) (\<lambda>c5. Inr (c5, g', event, False))
                else outcome_bind (inOrder event c4) (\<lambda>(c5, event'). Inr (c5, g', event', False))))
              else Inr (c2\<lparr>tcpRcvQueueDrops := tcpRcvQueueDrops c2 + 1\<rparr>, g', E_IGNORE, True)))"

text \<open>Eighth: the FIN bit, on the truncated segment.\<close>

definition seg_fin :: "TCPSegment \<Rightarrow> TCPEventCode \<Rightarrow> TCPConnection \<Rightarrow> (TCPConnection \<times> TCPEventCode) outcome" where
  "seg_fin g event c =
     (if finBit g then
        let c1 = c\<lparr>ack_now := True\<rparr>; fin_seq = sequenceNo g + payloadLength g
        in if st_rcv_nxt (tcb c1) = fin_seq
           then finReached (c1\<lparr>tcb := (tcb c1)\<lparr>st_rcv_nxt := st_rcv_nxt (tcb c1) + 1\<rparr>\<rparr>)
           else Inr (c1\<lparr>fin_rcvd := True, rcv_fin_seq := fin_seq\<rparr>, event)
      else Inr (c, event))"

text \<open>What is left to do: acknowledge if \<open>rcv_nxt\<close> moved, and the CLOSE that was put off until the data was sent.\<close>

definition deferredClose :: "u32 \<Rightarrow> TCPEventCode \<Rightarrow> TCPConnection \<Rightarrow> TCPEventCode" where
  "deferredClose old_snd_nxt event c =
     (let finSent = (send_fin c \<and> snd_nxt (tcb c) = snd_fin_seq c + 1)
      in if (fsm c = S_ESTABLISHED \<or> fsm c = S_SYN_RCVD) \<and> finSent then E_CLOSE
         else if fsm c = S_CLOSE_WAIT \<and> finSent \<and> old_snd_nxt \<noteq> snd_nxt (tcb c) then E_CLOSE
         else event)"

definition seg_finish :: "TCPAlgorithm \<Rightarrow> TCPSegment \<Rightarrow> u32 \<Rightarrow> u32 \<Rightarrow> TCPEventCode \<Rightarrow> TCPConnection \<Rightarrow>
    (TCPConnection \<times> TCPEventCode) outcome" where
  "seg_finish alg g old_rcv_nxt old_snd_nxt event c =
     outcome_bind
       (if old_rcv_nxt \<noteq> st_rcv_nxt (tcb c) then
          callAlgorithm alg A_receiveSeqChanged
            (if sack_enabled c \<and> getQueueLength (receiveQueue c) \<noteq> 0
             then c\<lparr>start_seqno := sequenceNo g, end_seqno := sequenceNo g + payloadLength g, snd_sack := True,
                    ack_now := True\<rparr> else c)
        else Inr c)
       (\<lambda>c1. Inr (c1, deferredClose old_snd_nxt event c1))"

section \<open>The handler\<close>

text \<open>The steps after the ACK bit was found set.\<close>

definition seg_established :: "TCPAlgorithm \<Rightarrow> TCPSegment \<Rightarrow> TCPConnection \<Rightarrow> (TCPConnection \<times> TCPEventCode) option outcome" where
  "seg_established alg g c =
     (if fsm c = S_SYN_RCVD then
        if \<not> seqLE (snd_una (tcb c)) (ackNo g) \<or> \<not> seqLE (ackNo g) (snd_nxt (tcb c)) then Inr None
        else outcome_bind (callAlgorithm alg (A_established False) c) (\<lambda>c1. Inr (Some (out (ToApp I_ESTABLISHED) c1, E_RCV_ACK)))
      else Inr (Some (c, E_IGNORE)))"

definition ack_states :: "TcpState set" where
  "ack_states = {S_SYN_RCVD, S_ESTABLISHED, S_FIN_WAIT_1, S_FIN_WAIT_2, S_CLOSE_WAIT, S_CLOSING, S_LAST_ACK}"

definition seg_from_text :: "TCPAlgorithm \<Rightarrow> TCPSegment \<Rightarrow> TCPHeader \<Rightarrow> u32 \<Rightarrow> u32 \<Rightarrow> TCPEventCode \<Rightarrow> TCPConnection \<Rightarrow>
    (TCPConnection \<times> TCPEventCode) outcome" where
  "seg_from_text alg g h old_snd_una old_snd_nxt event c =
     outcome_bind (seg_text alg g h old_snd_una event c) (\<lambda>(c1, g', event1, return1).
       if return1 then Inr (c1, event1)
       else outcome_bind (seg_fin g' event1 c1) (\<lambda>(c2, event2). seg_finish alg g' (st_rcv_nxt (tcb c)) old_snd_nxt event2 c2))"

definition seg_after_ack :: "TCPAlgorithm \<Rightarrow> TCPSegment \<Rightarrow> TCPHeader \<Rightarrow> u32 \<Rightarrow> u32 \<Rightarrow> TCPEventCode \<Rightarrow> TCPConnection \<Rightarrow>
    (TCPConnection \<times> TCPEventCode) outcome" where
  "seg_after_ack alg g h old_snd_una old_snd_nxt event c =
     outcome_bind (seg_closing g event c) (\<lambda>(c1, event1, return1).
       if return1 then Inr (c1, event1) else seg_from_text alg g h old_snd_una old_snd_nxt event1 c1)"

definition seg_from_ack :: "TCPAlgorithm \<Rightarrow> TCPSegment \<Rightarrow> TCPHeader \<Rightarrow> TCPConnection \<Rightarrow> (TCPConnection \<times> TCPEventCode) outcome" where
  "seg_from_ack alg g h c =
     outcome_bind (seg_established alg g c) (\<lambda>r. case r of
        None \<Rightarrow> Inr (sendRst (ackNo g) c, E_IGNORE)
      | Some (c1, event) \<Rightarrow>
          outcome_bind (if fsm c1 \<in> ack_states then processAckInEstabEtc alg g h c1 else Inr (c1, True)) (\<lambda>(c2, ok).
            if \<not> ok then Inr (c2, E_IGNORE)
            else seg_after_ack alg g h (snd_una (tcb c)) (snd_nxt (tcb c1)) event c2))"

definition processSegment1stThru8th :: "TCPAlgorithm \<Rightarrow> TCPSegment \<Rightarrow> TCPHeader \<Rightarrow> TCPConnection \<Rightarrow> (TCPConnection \<times> TCPEventCode) outcome" where
  "processSegment1stThru8th alg g h c =
     outcome_bind (seg_options g h c) (\<lambda>(c1, acceptable).
       if \<not> (acceptable \<and> isSegmentAcceptable (tcb c1) g) then seg_unacceptable g c1
       else if rstBit g then seg_rst c1
       else if synBit g then
         (if isSegmentAcceptable (tcb c1) g then Inr (out (ToApp I_CONNECTION_RESET) c1, E_RCV_UNEXP_SYN)
          else Inl (AssertFailed ''isSegmentAcceptable(tcpseg)''))
       else if \<not> ackBit g then Inr (c1, E_IGNORE)
       else seg_from_ack alg g h c1)"

definition process_RCV_SEGMENT ::
  "TCPAlgorithm \<Rightarrow> TCPSegment \<Rightarrow> TCPHeader \<Rightarrow> u32 \<Rightarrow> TCPConnection \<Rightarrow> (TCPConnection \<times> TCPConnection option \<times> TCPEventCode) outcome" where
  "process_RCV_SEGMENT alg g h isn c =
     (if fsm c = S_LISTEN then processSegmentInListen g h isn c
      else if fsm c = S_SYN_SENT then outcome_bind (processSegmentInSynSent alg g h c) (\<lambda>(c1, event). Inr (c1, None, event))
      else outcome_bind (processSegment1stThru8th alg g h c) (\<lambda>(c1, event). Inr (c1, None, event)))"

text \<open>The results: the connection, the connection that was forked off, and whether the connection is to be kept.\<close>

definition processTCPSegment ::
  "TCPAlgorithm \<Rightarrow> TCPSegment \<Rightarrow> TCPHeader \<Rightarrow> u32 \<Rightarrow> TCPConnection \<Rightarrow> (TCPConnection \<times> TCPConnection option \<times> bool) outcome" where
  "processTCPSegment alg g h isn c =
     (if \<not> hd_destMatches h then Inl (AssertFailed ''localAddr == segDestAddr'')
      else if \<not> remoteUnspecified c \<and> \<not> hd_srcMatches h then Inl (AssertFailed ''remoteAddr == segSrcAddr'')
      else if \<not> remoteUnspecified c \<and> remotePort c \<noteq> hd_srcPort h then Inl (AssertFailed ''remotePort == tcpseg->getSrcPort()'')
      else outcome_bind (process_RCV_SEGMENT alg g h isn c) (\<lambda>(c1, conn, event).
        outcome_bind (performStateTransition c1 event) (\<lambda>(c2, keep). Inr (c2, conn, keep))))"

text \<open>A segment for which there is no connection; the reply is sent from a temporary object.\<close>

definition segmentArrivalWhileClosed :: "TCPSegment \<Rightarrow> TCPSegment option" where
  "segmentArrivalWhileClosed g =
     (if rstBit g then None
      else if \<not> ackBit g then Some (newSegment\<lparr>sequenceNo := 0, ackNo := sequenceNo g + getSegLen g, rstBit := True, ackBit := True\<rparr>)
      else Some (newSegment\<lparr>sequenceNo := ackNo g, rstBit := True\<rparr>))"

end
