(* ===== verification/TCP_Frame.thy ===== *)
theory TCP_Frame
  imports TCP_Segments
begin

text \<open>
  What the handlers of a connection leave alone.  The \<open>view\<close> of a connection holds the state of the
  machine, the setup timers, the ports, the window scaling flags and the number of times the application was told that the
  connection is closed; every handler of segments in the synchronised states keeps it, whatever congestion control
  algorithm is plugged in, as long as the algorithm itself keeps it.
\<close>

section \<open>What the handlers leave alone\<close>

definition closed_in :: "TcpOut list \<Rightarrow> nat" where
  "closed_in xs = length (filter (\<lambda>x. x = ToApp I_CLOSED) xs)"

lemma closed_in_simps [simp]:
  "closed_in [] = 0" "closed_in (x # xs) = (if x = ToApp I_CLOSED then 1 else 0) + closed_in xs"
  "closed_in (xs @ ys) = closed_in xs + closed_in ys"
  by (simp_all add: closed_in_def)

definition view :: "TCPConnection \<Rightarrow> (TcpState \<times> timer \<times> timer \<times> bool) \<times> (int \<times> bool \<times> int) \<times> (bool \<times> bool \<times> bool) \<times> nat" where
  "view c = ((fsm c, connEstabTimer c, synRexmitTimer c, finWait2Timer c = TimerScheduled),
     (localPort c, remoteUnspecified c, remotePort c), (ws_support c, ws_enabled (tcb c), par_windowScalingSupport (par c)), closed_in (outputs c))"

definition no_ws :: "TCPConnection \<Rightarrow> bool" where
  "no_ws c \<longleftrightarrow> \<not> ws_support c \<and> \<not> ws_enabled (tcb c) \<and> \<not> par_windowScalingSupport (par c)"

lemma view_out [simp]: "x \<noteq> ToApp I_CLOSED \<Longrightarrow> view (out x c) = view c"
  by (simp add: view_def out_def)

lemma no_ws_view: "view c' = view c \<Longrightarrow> no_ws c' = no_ws c"
  by (simp add: view_def no_ws_def)

lemma fsm_view: "view c' = view c \<Longrightarrow> fsm c' = fsm c"
  by (simp add: view_def)

lemma view_frame [simp]:
  "view (c\<lparr>tcb := t\<rparr>) = view c \<longleftrightarrow> ws_enabled t = ws_enabled (tcb c)"
  "view (c\<lparr>dupacks := n\<rparr>) = view c" "view (c\<lparr>ack_now := b\<rparr>) = view c" "view (c\<lparr>sendQueue := s\<rparr>) = view c"
  "view (c\<lparr>receiveQueue := r\<rparr>) = view c" "view (c\<lparr>rexmitQ := q\<rparr>) = view c" "view (c\<lparr>rcv_naseg := n\<rparr>) = view c"
  "view (c\<lparr>fin_ack_rcvd := b\<rparr>) = view c" "view (c\<lparr>tcpRcvQueueDrops := n\<rparr>) = view c"
  "view (c\<lparr>the2MSLTimer := tm\<rparr>) = view c" "view (c\<lparr>active := b\<rparr>) = view c" "view (c\<lparr>queueUpdate := b\<rparr>) = view c"
  "view (c\<lparr>sentBytes := n\<rparr>) = view c" "view (c\<lparr>sendQueueLimit := n\<rparr>) = view c"
  by (auto simp: view_def)

lemma view_tcb [simp]: "ws_enabled t = ws_enabled (tcb c) \<Longrightarrow> view (c\<lparr>tcb := t\<rparr>) = view c"
  by (simp add: view_def)

lemma updateRcvQueueVars_ws [simp]: "ws_enabled (updateRcvQueueVars st q) = ws_enabled st"
  by (simp add: updateRcvQueueVars_def Let_def)

lemma updateRcvWnd_ws: "updateRcvWnd st q = Inr (st', w) \<Longrightarrow> ws_enabled st' = ws_enabled st"
  by (auto simp: updateRcvWnd_def Let_def split: if_splits)

lemma onRexmitQueue_view: "onRexmitQueue c f = Inr c' \<Longrightarrow> view c' = view c"
  by (auto simp: onRexmitQueue_def split: option.splits)

lemma sackLoop_view: "sackLoop g vs c = Inr c' \<Longrightarrow> view c' = view c"
  by (induction g vs c arbitrary: c' rule: sackLoop.induct) (auto dest!: onRexmitQueue_view split: if_splits)

lemma processOption_view:
  assumes ws: "no_ws c" and r: "processOption g opt c = Inr (c', b)"
  shows "view c' = view c"
proof -
  consider "processMSSOption opt c = Inr (c', b)" | "processWSOption opt c = Inr (c', b)"
    | "processSACKPermittedOption opt c = Inr (c', b)" | "processSACKOption g opt c = Inr (c', b)"
    | "processTSOption g opt c = Inr (c', b)" | "c' = c"
    using r by (auto simp: processOption_def split: if_splits)
  then show ?thesis
  proof cases
    case 1 then show ?thesis by (auto simp: processMSSOption_def Let_def split: if_splits)
  next
    case 2 then show ?thesis using ws by (auto simp: processWSOption_def no_ws_def view_def Let_def split: if_splits)
  next
    case 3 then show ?thesis by (auto simp: processSACKPermittedOption_def view_def split: if_splits)
  next
    case 4
    then consider "c' = c" | c1 where "sackLoop g (optValues opt) c = Inr c1" "view c' = view c1"
      by (auto simp: processSACKOption_def Let_def askRexmitQueue_def view_def split: if_splits)
    then show ?thesis using sackLoop_view by (cases; simp)
  next
    case 5 then show ?thesis by (auto simp: processTSOption_def view_def Let_def split: if_splits)
  qed simp
qed

lemma readHeaderOptions_view: "no_ws c \<Longrightarrow> readHeaderOptions g opts c = Inr c' \<Longrightarrow> view c' = view c"
proof (induction opts arbitrary: c)
  case (Cons opt opts)
  then obtain c1 b where "processOption g opt c = Inr (c1, b)" "readHeaderOptions g opts c1 = Inr c'" by auto
  with Cons show ?case using processOption_view no_ws_view by metis
qed simp

lemma optionsIfAny_view: "no_ws c \<Longrightarrow> optionsIfAny g h c = Inr c' \<Longrightarrow> view c' = view c"
  by (auto simp: optionsIfAny_def dest: readHeaderOptions_view split: if_splits)

lemma resetSackFlags_view: "view (resetSackFlags c) = view c"
  by (simp add: resetSackFlags_def view_def)

lemma sacks_array_view [simp]: "view (c\<lparr>sacks_array := ss\<rparr>) = view c" "view (c\<lparr>snd_sacks := n\<rparr>) = view c"
  by (simp_all add: view_def)

lemma if_InrE:
  assumes "(if b then x else y) = Inr r" "b \<Longrightarrow> x = Inr r \<Longrightarrow> P" "\<not> b \<Longrightarrow> y = Inr r \<Longrightarrow> P"
  shows P
  using assms by (auto split: if_splits)

lemma bind_InrE:
  assumes "outcome_bind x f = Inr r" "\<And>a. x = Inr a \<Longrightarrow> f a = Inr r \<Longrightarrow> P"
  shows P
  using assms by auto

lemma addSacks_view:
  assumes r: "addSacks opts c = Inr (c', opts')"
  shows "view c' = view c"
proof -
  have "\<exists>d. c' = resetSackFlags d \<and> view d = view c"
    using r unfolding addSacks_def Let_def
  proof (elim bind_InrE if_InrE, goal_cases)
    case (1 ss0)
    then show ?case by (metis Inr_inject prod.inject sacks_array_view(1))
  next
    case (2 ss0 ss)
    then show ?case by (metis Inr_inject prod.inject sacks_array_view(1))
  next
    case (5 ss0 ss)
    then have "c' = resetSackFlags (c\<lparr>sacks_array := (if start_seqno c \<noteq> end_seqno c \<and> snd_dsack c then tl ss else ss),
        snd_sacks := snd_sacks c + of_nat (min (length ss) ((40 - getOptionsArrayLength opts - 2) div 8))\<rparr>)"
      by (simp only: sum.inject prod.inject)
    then show ?case by (metis sacks_array_view)
  qed (simp_all only: sum.distinct)
  then show ?thesis by (metis resetSackFlags_view)
qed

lemma writeSynOptions_view: "no_ws c \<Longrightarrow> view (fst (writeSynOptions ack c)) = view c"
  by (simp add: writeSynOptions_def writeWS_def writeSACKPermitted_def writeInitialTS_def no_ws_def Let_def view_def split_beta)

lemma writeHeaderOptions_view:
  assumes "no_ws c" "writeHeaderOptions syn ack c = Inr (c', opts)"
  shows "view c' = view c"
proof -
  consider opts' where "(c', opts') = writeSynOptions ack c" | opts' where "writeDataOptions ack c = Inr (c', opts')" | "c' = c"
    using assms(2) by (auto simp: writeHeaderOptions_def split: if_splits)
  then show ?thesis
  proof cases
    case 1 then show ?thesis using writeSynOptions_view [OF assms(1), of ack] by (metis fst_conv)
  next
    case 2 then show ?thesis by (auto simp: writeDataOptions_def Let_def dest: addSacks_view split: if_splits)
  qed simp
qed

lemma writeHeaderOptions_length: "writeHeaderOptions syn ack c = Inr (c', opts) \<Longrightarrow> getOptionsArrayLength opts \<le> 40"
  by (auto simp: writeHeaderOptions_def split: if_splits)

lemma sendToIP_view: "sendToIP g w opts c = Inr c' \<Longrightarrow> view c' = view c"
  by (auto simp: sendToIP_def split: if_splits)

lemma withRcvWnd_view:
  assumes "withRcvWnd c f = Inr x"
  obtains c1 w where "view c1 = view c" "f c1 w = Inr x" "iss c1 = iss c" "remotePort c1 = remotePort c"
    "snd_max (tcb c1) = snd_max (tcb c)" "sendQueue c1 = sendQueue c"
proof -
  obtain st w where u: "updateRcvWnd (tcb c) (receiveQueue c) = Inr (st, w)" "f (c\<lparr>tcb := st\<rparr>) w = Inr x"
    using assms by (auto simp: withRcvWnd_def)
  have "snd_max st = snd_max (tcb c)"
    using u(1) by (auto simp: updateRcvWnd_def Let_def updateRcvQueueVars_def split: if_splits)
  then show thesis using that [of "c\<lparr>tcb := st\<rparr>" w] u updateRcvWnd_ws [OF u(1)] by simp
qed

lemma sendSyn_view:
  assumes "no_ws c" "sendSyn c = Inr c'"
  shows "view c' = view c"
proof -
  note r = assms(2) [unfolded sendSyn_def Let_def]
  obtain c1 w where 1: "view c1 = view c" "outcome_bind (writeHeaderOptions True False (c1\<lparr>tcb := (tcb c1)\<lparr>snd_nxt := iss c1 + 1, snd_max := iss c1 + 1\<rparr>\<rparr>))
      (\<lambda>(c3, opts). sendToIP (newSegment\<lparr>sequenceNo := iss c, synBit := True\<rparr>) (ucast (rcv_wnd (tcb c1))) opts c3) = Inr c'"
    using r by (auto elim: withRcvWnd_view split: if_splits)
  then obtain c3 opts where "writeHeaderOptions True False (c1\<lparr>tcb := (tcb c1)\<lparr>snd_nxt := iss c1 + 1, snd_max := iss c1 + 1\<rparr>\<rparr>) = Inr (c3, opts)"
    "view c' = view c3"
    by (auto dest: sendToIP_view)
  moreover have "view (c1\<lparr>tcb := (tcb c1)\<lparr>snd_nxt := iss c1 + 1, snd_max := iss c1 + 1\<rparr>\<rparr>) = view c" using 1 by (simp add: view_def)
  ultimately show ?thesis using writeHeaderOptions_view no_ws_view assms(1) by metis
qed

lemma sendSynAck_view:
  assumes "no_ws c" "sendSynAck c = Inr c'"
  shows "view c' = view c"
proof -
  note r = assms(2) [unfolded sendSynAck_def Let_def]
  obtain c1 w where 1: "view c1 = view c" "outcome_bind (writeHeaderOptions True True (c1\<lparr>tcb := (tcb c1)\<lparr>snd_nxt := iss c1 + 1, snd_max := iss c1 + 1\<rparr>\<rparr>))
      (\<lambda>(c3, opts). outcome_bind (sendToIP (newSegment\<lparr>sequenceNo := iss c, ackNo := st_rcv_nxt (tcb c), synBit := True, ackBit := True\<rparr>)
                          (ucast (rcv_wnd (tcb c1))) opts c3) (\<lambda>c4. Inr (out (ToAlgorithm A_ackSent) c4))) = Inr c'"
    using r by (auto elim: withRcvWnd_view)
  then obtain c3 opts where "writeHeaderOptions True True (c1\<lparr>tcb := (tcb c1)\<lparr>snd_nxt := iss c1 + 1, snd_max := iss c1 + 1\<rparr>\<rparr>) = Inr (c3, opts)"
    "view c' = view c3"
    by (auto dest!: sendToIP_view)
  moreover have "view (c1\<lparr>tcb := (tcb c1)\<lparr>snd_nxt := iss c1 + 1, snd_max := iss c1 + 1\<rparr>\<rparr>) = view c" using 1 by (simp add: view_def)
  ultimately show ?thesis using writeHeaderOptions_view no_ws_view assms(1) by metis
qed

lemma sendAck_view:
  assumes "no_ws c" "sendAck c = Inr c'"
  shows "view c' = view c"
proof -
  obtain c1 w where 1: "view c1 = view c" "outcome_bind (writeHeaderOptions False True c1) (\<lambda>(c2, opts).
       outcome_bind (sendToIP (newSegment\<lparr>sequenceNo := snd_nxt (tcb c), ackNo := st_rcv_nxt (tcb c), ackBit := True\<rparr>)
                       w opts c2) (\<lambda>c3. Inr (out (ToAlgorithm A_ackSent) c3))) = Inr c'"
    using assms(2) unfolding sendAck_def by (rule withRcvWnd_view)
  then obtain c2 opts where "writeHeaderOptions False True c1 = Inr (c2, opts)" "view c' = view c2"
    by (auto dest!: sendToIP_view)
  then show ?thesis using 1(1) writeHeaderOptions_view no_ws_view assms(1) by metis
qed

lemma sendFin_view:
  assumes "sendFin c = Inr c'"
  shows "view c' = view c"
  using assms unfolding sendFin_def by (elim withRcvWnd_view) (auto dest!: sendToIP_view)

section \<open>The steps of segment processing\<close>

definition quiet :: "TCPConnection \<Rightarrow> bool" where
  "quiet c \<longleftrightarrow> no_ws c \<and> finWait2Timer c \<noteq> TimerScheduled"

lemma quiet_view: "view c' = view c \<Longrightarrow> quiet c' = quiet c"
  by (simp add: quiet_def view_def no_ws_def)

lemma quiet_no_ws: "quiet c \<Longrightarrow> no_ws c"
  by (simp add: quiet_def)

lemma sack_range_view [simp]:
  "view (c\<lparr>start_seqno := a\<rparr>) = view c" "view (c\<lparr>end_seqno := b\<rparr>) = view c" "view (c\<lparr>snd_dsack := d\<rparr>) = view c"
  "view (c\<lparr>snd_sack := d\<rparr>) = view c" "view (c\<lparr>rcv_oooseg := n\<rparr>) = view c" "view (c\<lparr>fin_rcvd := d\<rparr>) = view c"
  "view (c\<lparr>rcv_fin_seq := a\<rparr>) = view c" "view (c\<lparr>full_sized_segment_counter := n\<rparr>) = view c"
  "view (c\<lparr>iss := a\<rparr>) = view c" "view (c\<lparr>irs := a\<rparr>) = view c" "view (c\<lparr>send_fin := d\<rparr>) = view c" "view (c\<lparr>snd_fin_seq := a\<rparr>) = view c"
  "view (c\<lparr>syn_rexmit_count := k\<rparr>) = view c" "view (c\<lparr>syn_rexmit_timeout := k\<rparr>) = view c"
  "view (c\<lparr>algState := x\<rparr>) = view c" "view (c\<lparr>recoveryPoint := a\<rparr>) = view c" "view (c\<lparr>lossRecovery := d\<rparr>) = view c"
  "view (c\<lparr>last_ack_sent := a\<rparr>) = view c" "view (c\<lparr>time_last_data_sent := k\<rparr>) = view c" "view (c\<lparr>highRxt := a\<rparr>) = view c"
  "view (c\<lparr>pipe := a\<rparr>) = view c"
  by (simp_all add: view_def)

lemma updateWndInfo_view [simp]: "view (updateWndInfo g w b c) = view c"
  by (simp add: updateWndInfo_def view_def Let_def)

lemma sendRst_view [simp]: "view (sendRst n c) = view c"
  by (simp add: sendRst_def)

lemma seg_options_view: "no_ws c \<Longrightarrow> seg_options g h c = Inr (c', b) \<Longrightarrow> view c' = view c"
  unfolding seg_options_def Let_def
  by (elim bind_InrE if_InrE) (auto dest: readHeaderOptions_view)

lemma seg_unacceptable_view:
  assumes "no_ws c" "seg_unacceptable g c = Inr (c', e)"
  shows "view c' = view c \<and> e = E_IGNORE"
proof -
  define c0 where "c0 = (if \<not> synBit g \<and> payloadLength g > 0 \<and> sack_enabled c \<and> seqLess (sequenceNo g + payloadLength g) (st_rcv_nxt (tcb c))
      then c\<lparr>start_seqno := sequenceNo g, end_seqno := sequenceNo g + payloadLength g, snd_dsack := True\<rparr> else c)"
  have c0: "view c0 = view c" by (simp add: c0_def)
  obtain c1 where c1: "(if rstBit g then Inr c else sendAck c0) = Inr c1" "c' = c1\<lparr>rcv_naseg := rcv_naseg c1 + 1\<rparr>" "e = E_IGNORE"
    using assms(2) unfolding seg_unacceptable_def c0_def [symmetric] by auto
  then have "view c1 = view c"
    using sendAck_view [of c0 c1] c0 no_ws_view [OF c0] assms(1) by (auto split: if_splits)
  with c1 show ?thesis by simp
qed

lemma processRstInSynReceived_view: "processRstInSynReceived c = Inr (c', e) \<Longrightarrow> view c' = view c \<and> e = E_RCV_RST"
  unfolding processRstInSynReceived_def Let_def
  by (elim bind_InrE if_InrE) (auto dest!: onRexmitQueue_view)

lemma seg_rst_view: "seg_rst c = Inr (c', e) \<Longrightarrow> view c' = view c \<and> e = E_RCV_RST"
  by (auto simp: seg_rst_def dest: processRstInSynReceived_view split: TcpState.splits)

text \<open>The algorithms send segments and keep their own timers; none of them touches the state machine, the timers
  of the connection setup, the ports or window scaling, or closes the connection towards the application.\<close>

definition alg_keeps :: "TCPAlgorithm \<Rightarrow> bool" where
  "alg_keeps alg \<longleftrightarrow> (\<forall>a c c'. alg a c = Inr c' \<longrightarrow> view c' = view c)"

lemma callAlgorithm_view: "alg_keeps alg \<Longrightarrow> callAlgorithm alg a c = Inr c' \<Longrightarrow> view c' = view c"
  unfolding alg_keeps_def callAlgorithm_def by (metis TcpOut.distinct(5) view_out)

lemma dupAck_view: "alg_keeps alg \<Longrightarrow> dupAck alg g h c = Inr c' \<Longrightarrow> view c' = view c"
  unfolding dupAck_def by (elim if_InrE) (auto dest!: callAlgorithm_view)

lemma ackRtt_view: "alg_keeps alg \<Longrightarrow> ackRtt alg h c = Inr c' \<Longrightarrow> view c' = view c"
  unfolding ackRtt_def by (elim if_InrE bind_InrE) (auto dest!: callAlgorithm_view)

lemma dataAcked_view: "alg_keeps alg \<Longrightarrow> dataAcked alg n c = Inr c' \<Longrightarrow> view c' = view c"
  unfolding dataAcked_def by (elim bind_InrE) (auto dest!: callAlgorithm_view)

lemma ackDiscard_view: "ackDiscard g c = Inr c' \<Longrightarrow> view c' = view c"
  unfolding ackDiscard_def Let_def by (elim bind_InrE if_InrE) (auto dest!: onRexmitQueue_view)

lemma ackInWindow_view:
  assumes a: "alg_keeps alg" and r: "ackInWindow alg g h c = Inr c'"
  shows "view c' = view c"
  using r unfolding ackInWindow_def Let_def
  by (elim bind_InrE if_InrE) (auto dest!: ackRtt_view [OF a] ackDiscard_view dataAcked_view [OF a])

lemma processAck_view:
  assumes a: "alg_keeps alg" and r: "processAckInEstabEtc alg g h c = Inr (c', b)"
  shows "view c' = view c"
  using r unfolding processAckInEstabEtc_def
  by (elim bind_InrE if_InrE) (auto dest!: dupAck_view [OF a] ackInWindow_view [OF a] callAlgorithm_view [OF a])

lemma restart2MSL_view: "restart2MSL c = Inr c' \<Longrightarrow> view c' = view c"
  by (auto simp: restart2MSL_def)

lemma start2MSL_view: "start2MSL c = Inr c' \<Longrightarrow> view c' = view c"
  by (auto simp: start2MSL_def)

lemma seg_closing_view: "no_ws c \<Longrightarrow> seg_closing g e c = Inr (c', e', b) \<Longrightarrow> view c' = view c"
  unfolding seg_closing_def
  by (elim if_InrE bind_InrE) (auto dest!: start2MSL_view restart2MSL_view sendAck_view)

lemma finWait2_cancel_view: "quiet c \<Longrightarrow> cancel (finWait2Timer c) = Inr t \<Longrightarrow> view (c\<lparr>finWait2Timer := t\<rparr>) = view c"
  by (auto simp: cancel_def view_def quiet_def split: if_splits)

lemma finReached_view: "quiet c \<Longrightarrow> finReached c = Inr (c', e) \<Longrightarrow> view c' = view c"
  by (cases "fsm c") (auto simp: finReached_def Let_def finWait2_cancel_view dest!: start2MSL_view restart2MSL_view split: if_splits)

lemma outOfOrder_view: "alg_keeps alg \<Longrightarrow> outOfOrder alg g n c = Inr c' \<Longrightarrow> view c' = view c"
  unfolding outOfOrder_def Let_def by (drule (1) callAlgorithm_view) (simp split: if_splits)

lemma fold_out_view: "view (fold (\<lambda>n. out (ToApp (I_DATA n))) ns c) = view c"
  by (induction ns arbitrary: c) auto

lemma pendingFin_view:
  assumes "quiet c" "pendingFin e c = Inr (c', e')"
  shows "view c' = view c"
proof -
  have v: "view (c\<lparr>ack_now := True, tcb := (tcb c)\<lparr>st_rcv_nxt := rcv_fin_seq c + 1\<rparr>\<rparr>) = view c" by (simp add: view_def)
  from assms(2) show ?thesis
    unfolding pendingFin_def using finReached_view [OF iffD2 [OF quiet_view [OF v] assms(1)]] v by (elim if_InrE) auto
qed

lemma inOrder_view:
  assumes "quiet c" "inOrder e c = Inr (c', e')"
  shows "view c' = view c"
proof -
  obtain q ns where d: "pendingFin e (fold (\<lambda>n. out (ToApp (I_DATA n))) ns (c\<lparr>receiveQueue := q\<rparr>)) = Inr (c', e')"
    using assms(2) unfolding inOrder_def by (elim bind_InrE) auto
  have v: "view (fold (\<lambda>n. out (ToApp (I_DATA n))) ns (c\<lparr>receiveQueue := q\<rparr>)) = view c" by (simp add: fold_out_view)
  from pendingFin_view [OF iffD2 [OF quiet_view [OF v] assms(1)] d] v show ?thesis by simp
qed

lemma countText_view [simp]:
  "view (countText g h c) = view c" "tcb (countText g h c) = tcb c" "receiveQueue (countText g h c) = receiveQueue c"
  by (simp_all add: countText_def Let_def)

lemma storeText_view:
  assumes a: "alg_keeps alg" and r: "storeText alg n q nxt c = Inr c'"
  shows "view c' = view c"
proof -
  have v: "view (c\<lparr>tcb := (tcb c)\<lparr>st_rcv_nxt := nxt\<rparr>, receiveQueue := q\<rparr>) = view c" by (simp add: view_def)
  from r show ?thesis
    unfolding storeText_def Let_def using v by (elim if_InrE) (auto dest!: dataAcked_view [OF a])
qed

lemma seg_text_view:
  assumes a: "alg_keeps alg" and q: "quiet c" and r: "seg_text alg g h n e c = Inr (c', g', e', b)"
  shows "view c' = view c"
proof -
  define c2 where "c2 = (countText g h c)\<lparr>tcb := updateRcvQueueVars (tcb c) (receiveQueue c)\<rparr>"
  have c2: "view c2 = view c" by (simp add: c2_def view_def countText_def Let_def)
  have *: ?thesis if c4: "storeText alg n qu nxt c2 = Inr c4"
    and r4: "(if st_rcv_nxt (tcb c) = st_rcv_nxt (tcb c4)
        then outcome_bind (outOfOrder alg g1 (usedRcvBuffer (tcb c2)) c4) (\<lambda>c5. Inr (c5, g1, e, False))
        else outcome_bind (inOrder e c4) (\<lambda>(c5, event'). Inr (c5, g1, event', False))) = Inr (c', g', e', b)" for qu nxt c4 g1
  proof -
    have v4: "view c4 = view c" using storeText_view [OF a c4] c2 by simp
    then have q4: "quiet c4" using quiet_view q by metis
    from r4 v4 show ?thesis by (elim if_InrE bind_InrE) (auto dest!: outOfOrder_view [OF a] inOrder_view [OF q4])
  qed
  have drop: "view (c2\<lparr>tcpRcvQueueDrops := tcpRcvQueueDrops c2 + 1\<rparr>) = view c" using c2 by simp
  from r [unfolded seg_text_def Let_def, folded c2_def] show ?thesis
    by (elim bind_InrE if_InrE) (use drop * in \<open>auto elim!: bind_InrE simp del: outcome_bind_Inr\<close>)
qed

lemma seg_fin_view:
  assumes "quiet c" "seg_fin g e c = Inr (c', e')"
  shows "view c' = view c"
proof -
  have v: "view (c\<lparr>ack_now := True, tcb := (tcb c)\<lparr>st_rcv_nxt := st_rcv_nxt (tcb c) + 1\<rparr>\<rparr>) = view c" by (simp add: view_def)
  from assms(2) show ?thesis
    unfolding seg_fin_def Let_def using finReached_view [OF iffD2 [OF quiet_view [OF v] assms(1)]] v by (elim if_InrE) auto
qed

lemma seg_finish_view:
  assumes a: "alg_keeps alg" and r: "seg_finish alg g m n e c = Inr (c', e')"
  shows "view c' = view c"
  using r unfolding seg_finish_def
  by (elim bind_InrE if_InrE) (auto dest!: callAlgorithm_view [OF a] split: if_splits)

lemma seg_established_view:
  assumes a: "alg_keeps alg" and r: "seg_established alg g c = Inr (Some (c', e))"
  shows "view c' = view c"
  using r unfolding seg_established_def
  by (elim bind_InrE if_InrE) (auto dest!: callAlgorithm_view [OF a])

lemma seg_from_text_view:
  assumes a: "alg_keeps alg" and q: "quiet c" and r: "seg_from_text alg g h m n e c = Inr (c', e')"
  shows "view c' = view c"
proof -
  obtain c1 g' e1 b1 where s1: "seg_text alg g h m e c = Inr (c1, g', e1, b1)"
    and r1: "(if b1 then Inr (c1, e1) else outcome_bind (seg_fin g' e1 c1)
       (\<lambda>(c2, event2). seg_finish alg g' (st_rcv_nxt (tcb c)) n event2 c2)) = Inr (c', e')"
    using r unfolding seg_from_text_def by auto
  have v1: "view c1 = view c" using seg_text_view [OF a q s1] .
  then have q1: "quiet c1" using quiet_view q by metis
  from r1 v1 show ?thesis
    by (elim if_InrE bind_InrE) (auto dest!: seg_fin_view [OF q1] seg_finish_view [OF a])
qed

lemma seg_after_ack_view:
  assumes a: "alg_keeps alg" and q: "quiet c" and r: "seg_after_ack alg g h m n e c = Inr (c', e')"
  shows "view c' = view c"
proof -
  obtain c1 e1 b1 where s1: "seg_closing g e c = Inr (c1, e1, b1)"
    and r1: "(if b1 then Inr (c1, e1) else seg_from_text alg g h m n e1 c1) = Inr (c', e')"
    using r unfolding seg_after_ack_def by auto
  have v1: "view c1 = view c" using seg_closing_view [OF quiet_no_ws [OF q] s1] .
  then have "quiet c1" using quiet_view q by metis
  with r1 v1 show ?thesis using seg_from_text_view [OF a] by (elim if_InrE) auto
qed

lemma seg_from_ack_view:
  assumes a: "alg_keeps alg" and q: "quiet c" and r: "seg_from_ack alg g h c = Inr (c', e)"
  shows "view c' = view c"
proof -
  obtain x where x: "seg_established alg g c = Inr x"
    and r1: "(case x of None \<Rightarrow> Inr (sendRst (ackNo g) c, E_IGNORE)
      | Some (c1, event) \<Rightarrow>
          outcome_bind (if fsm c1 \<in> ack_states then processAckInEstabEtc alg g h c1 else Inr (c1, True)) (\<lambda>(c2, ok).
            if \<not> ok then Inr (c2, E_IGNORE)
            else seg_after_ack alg g h (snd_una (tcb c)) (snd_nxt (tcb c1)) event c2)) = Inr (c', e)"
    using r unfolding seg_from_ack_def by (elim bind_InrE)
  show ?thesis
  proof (cases x)
    case None
    with r1 show ?thesis by auto
  next
    case (Some ce)
    obtain c1 e1 where ce: "ce = (c1, e1)" by (cases ce) auto
    have v1: "view c1 = view c" using x Some ce seg_established_view [OF a] by simp
    obtain c2 ok where s2: "(if fsm c1 \<in> ack_states then processAckInEstabEtc alg g h c1 else Inr (c1, True)) = Inr (c2, ok)"
      and r2: "(if \<not> ok then Inr (c2, E_IGNORE) else seg_after_ack alg g h (snd_una (tcb c)) (snd_nxt (tcb c1)) e1 c2) = Inr (c', e)"
      using r1 Some ce by (auto simp del: not_True_eq_False)
    have v2: "view c2 = view c" using s2 v1 processAck_view [OF a] by (elim if_InrE) auto
    then have "quiet c2" using quiet_view q by metis
    with r2 v2 show ?thesis using seg_after_ack_view [OF a] by (elim if_InrE) auto
  qed
qed

lemma processSegment_view:
  assumes a: "alg_keeps alg" and q: "quiet c" and r: "processSegment1stThru8th alg g h c = Inr (c', e)"
  shows "view c' = view c"
proof -
  obtain c1 b where s1: "seg_options g h c = Inr (c1, b)" using r by (auto simp: processSegment1stThru8th_def)
  have v1: "view c1 = view c" using seg_options_view [OF quiet_no_ws [OF q] s1] .
  then have q1: "quiet c1" using quiet_view q by metis
  show ?thesis
    using r s1 v1 seg_unacceptable_view [OF quiet_no_ws [OF q1]] seg_rst_view seg_from_ack_view [OF a q1]
    unfolding processSegment1stThru8th_def by (auto elim!: if_InrE)
qed

end
