(* ===== verification/TCP_Invariant.thy ===== *)
theory TCP_Invariant
  imports TCP_Frame
begin

text \<open>
  The invariant of a connection, \<open>tcp_inv\<close>, and that every entry point keeps it: the application commands, the
  timers and the segments.  It relates the state of the machine to the setup timers, the ports, and what the
  application has been told.
\<close>

section \<open>The invariant\<close>

definition setup_states :: "TcpState set" where
  "setup_states = {S_INIT, S_LISTEN, S_SYN_SENT, S_SYN_RCVD}"

definition tcp_inv :: "TCPConnection \<Rightarrow> bool" where
  "tcp_inv c \<longleftrightarrow>
     (fsm c \<in> setup_states \<longrightarrow> connEstabTimer c \<noteq> TimerNull \<and> synRexmitTimer c \<noteq> TimerNull)
     \<and> (connEstabTimer c = TimerScheduled \<or> synRexmitTimer c = TimerScheduled \<longrightarrow> fsm c \<in> {S_SYN_SENT, S_SYN_RCVD})
     \<and> \<not> par_windowScalingSupport (par c) \<and> finWait2Timer c \<noteq> TimerScheduled
     \<and> (fsm c \<noteq> S_INIT \<longrightarrow> localPort c \<noteq> -1 \<and> no_ws c)
     \<and> (fsm c = S_SYN_SENT \<longrightarrow> \<not> remoteUnspecified c \<and> remotePort c \<noteq> -1)
     \<and> closed_in (outputs c) \<le> 1 \<and> (closed_in (outputs c) = 1 \<longrightarrow> fsm c = S_TIME_WAIT \<or> fsm c = S_CLOSED)
     \<and> (fsm c = S_TIME_WAIT \<longrightarrow> closed_in (outputs c) = 1)"

lemma inv_cong: "view c' = view c \<Longrightarrow> tcp_inv c' = tcp_inv c"
  by (simp add: view_def tcp_inv_def no_ws_def)

lemma inv_quiet: "tcp_inv c \<Longrightarrow> fsm c \<noteq> S_INIT \<Longrightarrow> quiet c"
  by (simp add: tcp_inv_def quiet_def)

text \<open>The edges of the transition table that matter.\<close>

lemma nextState_edges:
  "nextState a s E_IGNORE = s"
  "nextState a s e = S_INIT \<Longrightarrow> s = S_INIT"
  "nextState a s e = S_LISTEN \<Longrightarrow> s \<in> {S_INIT, S_LISTEN, S_SYN_RCVD}"
  "nextState a s e = S_SYN_SENT \<Longrightarrow> s \<in> {S_INIT, S_LISTEN, S_SYN_SENT}"
  "nextState a s e = S_SYN_RCVD \<Longrightarrow> s \<in> {S_LISTEN, S_SYN_SENT, S_SYN_RCVD}"
  "nextState a s e = S_ESTABLISHED \<Longrightarrow> s \<in> {S_SYN_SENT, S_SYN_RCVD, S_ESTABLISHED}"
  "nextState a s e = S_TIME_WAIT \<Longrightarrow> s \<in> {S_FIN_WAIT_1, S_FIN_WAIT_2, S_CLOSING, S_TIME_WAIT}"
  "nextState a S_TIME_WAIT e \<in> {S_TIME_WAIT, S_CLOSED}"
  by (cases s; cases e; simp split: if_splits)+

text \<open>What must hold before a transition to \<open>s'\<close>: the invariant, except that a handler that starts the setup
  of a connection has already started the timers.\<close>

definition pre_inv :: "TcpState \<Rightarrow> TCPConnection \<Rightarrow> bool" where
  "pre_inv s' c \<longleftrightarrow>
     (fsm c \<in> setup_states \<longrightarrow> connEstabTimer c \<noteq> TimerNull \<and> synRexmitTimer c \<noteq> TimerNull)
     \<and> (connEstabTimer c = TimerScheduled \<or> synRexmitTimer c = TimerScheduled \<longrightarrow>
         fsm c \<in> {S_SYN_SENT, S_SYN_RCVD} \<or> s' \<in> {S_SYN_SENT, S_SYN_RCVD})
     \<and> \<not> par_windowScalingSupport (par c) \<and> finWait2Timer c \<noteq> TimerScheduled
     \<and> (s' \<noteq> S_INIT \<longrightarrow> localPort c \<noteq> -1 \<and> no_ws c)
     \<and> (s' = S_SYN_SENT \<longrightarrow> \<not> remoteUnspecified c \<and> remotePort c \<noteq> -1)
     \<and> closed_in (outputs c) \<le> 1 \<and> (closed_in (outputs c) = 1 \<longrightarrow> fsm c = S_TIME_WAIT \<or> fsm c = S_CLOSED)
     \<and> (fsm c = S_TIME_WAIT \<longrightarrow> closed_in (outputs c) = 1)"

lemma inv_stays: "pre_inv (fsm c) c \<Longrightarrow> tcp_inv c"
  by (auto simp: pre_inv_def tcp_inv_def)

lemma stateEntered_fields:
  assumes "stateEntered s' old e c = Inr c'"
  shows "fsm c' = fsm c" "localPort c' = localPort c" "remoteUnspecified c' = remoteUnspecified c"
    "remotePort c' = remotePort c" "no_ws c' = no_ws c" "par c' = par c"
    "finWait2Timer c \<noteq> TimerScheduled \<Longrightarrow> finWait2Timer c' \<noteq> TimerScheduled"
    "connEstabTimer c' = (if s' \<in> {S_INIT, S_SYN_RCVD, S_SYN_SENT, S_TIME_WAIT} then connEstabTimer c
       else if s' = S_ESTABLISHED then TimerNull else cancel_if (connEstabTimer c))"
    "synRexmitTimer c' = (if s' \<in> {S_INIT, S_SYN_RCVD, S_SYN_SENT, S_TIME_WAIT} then synRexmitTimer c
       else if s' = S_ESTABLISHED then TimerNull else cancel_if (synRexmitTimer c))"
    "closed_in (outputs c') = closed_in (outputs c) + (if s' = S_TIME_WAIT \<or> (s' = S_CLOSED \<and> old \<noteq> S_TIME_WAIT \<and> e \<noteq> E_ABORT) then 1 else 0)"
proof -
  have "fsm c' = fsm c \<and> localPort c' = localPort c \<and> remoteUnspecified c' = remoteUnspecified c
    \<and> remotePort c' = remotePort c \<and> no_ws c' = no_ws c \<and> par c' = par c
    \<and> (finWait2Timer c \<noteq> TimerScheduled \<longrightarrow> finWait2Timer c' \<noteq> TimerScheduled)
    \<and> connEstabTimer c' = (if s' \<in> {S_INIT, S_SYN_RCVD, S_SYN_SENT, S_TIME_WAIT} then connEstabTimer c
       else if s' = S_ESTABLISHED then TimerNull else cancel_if (connEstabTimer c))
    \<and> synRexmitTimer c' = (if s' \<in> {S_INIT, S_SYN_RCVD, S_SYN_SENT, S_TIME_WAIT} then synRexmitTimer c
       else if s' = S_ESTABLISHED then TimerNull else cancel_if (synRexmitTimer c))
    \<and> closed_in (outputs c') = closed_in (outputs c) + (if s' = S_TIME_WAIT \<or> (s' = S_CLOSED \<and> old \<noteq> S_TIME_WAIT \<and> e \<noteq> E_ABORT) then 1 else 0)"
    (is ?fields)
  proof -
    have others: ?fields if s: "s' \<in> {S_CLOSE_WAIT, S_LAST_ACK, S_FIN_WAIT_1, S_FIN_WAIT_2, S_CLOSING}"
      and c': "c' = c1\<lparr>connEstabTimer := cancel_if (connEstabTimer c1), synRexmitTimer := cancel_if (synRexmitTimer c1)\<rparr>"
      and c1: "c1 = (if s' = S_CLOSE_WAIT then out (ToApp I_PEER_CLOSED) c else c)" for c1
    proof -
      have "finWait2Timer c1 = finWait2Timer c" "no_ws c1 = no_ws c" "fsm c1 = fsm c" "localPort c1 = localPort c"
        "remoteUnspecified c1 = remoteUnspecified c" "remotePort c1 = remotePort c" "par c1 = par c"
        "connEstabTimer c1 = connEstabTimer c" "synRexmitTimer c1 = synRexmitTimer c" "closed_in (outputs c1) = closed_in (outputs c)"
        by (simp_all add: c1 out_def no_ws_def)
      with s show ?thesis by (auto simp: c' no_ws_def)
    qed
    show ?fields
    proof (cases s')
      case S_INIT
      with assms have "c' = c" by (simp add: stateEntered_def)
      with S_INIT show ?thesis by simp
    next
      case S_CLOSED
      define c1 where "c1 = (if old \<noteq> S_TIME_WAIT \<and> e \<noteq> E_ABORT then out (ToApp I_CLOSED) c else c)"
      have c': "c' = out (ToAlgorithm A_connectionClosed)
                (c1\<lparr>the2MSLTimer := cancel_if (the2MSLTimer c1), connEstabTimer := cancel_if (connEstabTimer c1),
                    finWait2Timer := cancel_if (finWait2Timer c1), synRexmitTimer := cancel_if (synRexmitTimer c1)\<rparr>)"
        using assms S_CLOSED by (simp add: stateEntered_def Let_def c1_def)
      have "finWait2Timer c1 = finWait2Timer c" "no_ws c1 = no_ws c" "fsm c1 = fsm c" "localPort c1 = localPort c"
        "remoteUnspecified c1 = remoteUnspecified c" "remotePort c1 = remotePort c" "par c1 = par c"
        "connEstabTimer c1 = connEstabTimer c" "synRexmitTimer c1 = synRexmitTimer c"
        "closed_in (outputs c1) = closed_in (outputs c) + (if old \<noteq> S_TIME_WAIT \<and> e \<noteq> E_ABORT then 1 else 0)"
        by (simp_all add: c1_def out_def no_ws_def)
      then show ?thesis by (simp add: S_CLOSED c' out_def no_ws_def cancel_if_def)
    next
      case S_LISTEN
      with assms have "connEstabTimer c \<noteq> TimerNull \<and> synRexmitTimer c \<noteq> TimerNull
          \<and> c' = c\<lparr>connEstabTimer := TimerIdle, synRexmitTimer := TimerIdle\<rparr>"
        by (simp add: stateEntered_def cancel_def split: if_splits)
      with S_LISTEN show ?thesis by (auto simp: no_ws_def cancel_if_def)
    next
      case S_SYN_SENT
      with assms have "c' = c" by (simp add: stateEntered_def)
      with S_SYN_SENT show ?thesis by simp
    next
      case S_SYN_RCVD
      with assms have "c' = c" by (simp add: stateEntered_def)
      with S_SYN_RCVD show ?thesis by simp
    next
      case S_ESTABLISHED
      with assms have "c' = c\<lparr>connEstabTimer := TimerNull, synRexmitTimer := TimerNull\<rparr>"
        by (simp add: stateEntered_def cancel_def split: if_splits)
      with S_ESTABLISHED show ?thesis by (simp add: no_ws_def)
    next
      case S_CLOSE_WAIT
      show ?thesis by (rule others [OF _ _ refl]) (use assms S_CLOSE_WAIT in \<open>simp_all add: stateEntered_def Let_def\<close>)
    next
      case S_LAST_ACK
      show ?thesis by (rule others [OF _ _ refl]) (use assms S_LAST_ACK in \<open>simp_all add: stateEntered_def Let_def\<close>)
    next
      case S_FIN_WAIT_1
      show ?thesis by (rule others [OF _ _ refl]) (use assms S_FIN_WAIT_1 in \<open>simp_all add: stateEntered_def Let_def\<close>)
    next
      case S_FIN_WAIT_2
      show ?thesis by (rule others [OF _ _ refl]) (use assms S_FIN_WAIT_2 in \<open>simp_all add: stateEntered_def Let_def\<close>)
    next
      case S_CLOSING
      show ?thesis by (rule others [OF _ _ refl]) (use assms S_CLOSING in \<open>simp_all add: stateEntered_def Let_def\<close>)
    next
      case S_TIME_WAIT
      with assms have "c' = out (ToApp I_CLOSED) c" by (simp add: stateEntered_def)
      with S_TIME_WAIT show ?thesis by (simp add: out_def no_ws_def)
    qed
  qed
  then show "fsm c' = fsm c" "localPort c' = localPort c" "remoteUnspecified c' = remoteUnspecified c"
    "remotePort c' = remotePort c" "no_ws c' = no_ws c" "par c' = par c"
    "finWait2Timer c \<noteq> TimerScheduled \<Longrightarrow> finWait2Timer c' \<noteq> TimerScheduled"
    "connEstabTimer c' = (if s' \<in> {S_INIT, S_SYN_RCVD, S_SYN_SENT, S_TIME_WAIT} then connEstabTimer c
       else if s' = S_ESTABLISHED then TimerNull else cancel_if (connEstabTimer c))"
    "synRexmitTimer c' = (if s' \<in> {S_INIT, S_SYN_RCVD, S_SYN_SENT, S_TIME_WAIT} then synRexmitTimer c
       else if s' = S_ESTABLISHED then TimerNull else cancel_if (synRexmitTimer c))"
    "closed_in (outputs c') = closed_in (outputs c) + (if s' = S_TIME_WAIT \<or> (s' = S_CLOSED \<and> old \<noteq> S_TIME_WAIT \<and> e \<noteq> E_ABORT) then 1 else 0)"
    by blast+
qed

lemma stateEntered_inv:
  assumes pre: "pre_inv s' c" and new: "s' \<noteq> fsm c" "s' = nextState a (fsm c) e" "fsm c \<noteq> S_CLOSED"
    and ok: "stateEntered s' (fsm c) e (c\<lparr>fsm := s'\<rparr>) = Inr c'"
  shows "tcp_inv c'"
proof -
  note edges = nextState_edges(2-7) [where a = a and s = "fsm c" and e = e, folded new(2)]
  have tw: "fsm c = S_TIME_WAIT \<Longrightarrow> s' = S_CLOSED"
    using nextState_edges(8) [of a e] new by auto
  have nw: "no_ws (c\<lparr>fsm := s'\<rparr>) = no_ws c" by (simp add: no_ws_def)
  note f = stateEntered_fields [OF ok, simplified, unfolded nw]
  have "fsm c' \<in> setup_states \<longrightarrow> connEstabTimer c' \<noteq> TimerNull \<and> synRexmitTimer c' \<noteq> TimerNull"
    using f(1,8,9) pre new(1) edges unfolding pre_inv_def setup_states_def by (cases s') (auto simp: cancel_if_def)
  moreover have "connEstabTimer c' = TimerScheduled \<or> synRexmitTimer c' = TimerScheduled \<longrightarrow> fsm c' \<in> {S_SYN_SENT, S_SYN_RCVD}"
    using f(1,8,9) pre new(1) edges tw unfolding pre_inv_def by (cases s') (auto simp: cancel_if_def split: if_splits)
  moreover have "closed_in (outputs c') \<le> 1 \<and> (closed_in (outputs c') = 1 \<longrightarrow> fsm c' = S_TIME_WAIT \<or> fsm c' = S_CLOSED)
      \<and> (fsm c' = S_TIME_WAIT \<longrightarrow> closed_in (outputs c') = 1)"
    using f(1,10) pre new tw unfolding pre_inv_def by (cases s') auto
  moreover have "fsm c' \<noteq> S_INIT \<longrightarrow> localPort c' \<noteq> -1 \<and> no_ws c'"
    "fsm c' = S_SYN_SENT \<longrightarrow> \<not> remoteUnspecified c' \<and> remotePort c' \<noteq> -1"
    "\<not> par_windowScalingSupport (par c')" "finWait2Timer c' \<noteq> TimerScheduled"
    using f(1-7) pre unfolding pre_inv_def by auto
  ultimately show ?thesis by (simp add: tcp_inv_def)
qed

lemma transition_inv:
  assumes pre: "pre_inv (nextState (active c) (fsm c) e) c" and ok: "performStateTransition c e = Inr (c', b)"
  shows "tcp_inv c'"
proof (cases "nextState (active c) (fsm c) e = fsm c")
  case True
  then have "c' = c"
    using ok by (auto simp: performStateTransition_def Let_def split: if_splits)
  with True pre show ?thesis using inv_stays by simp
next
  case False
  then have "e \<noteq> E_IGNORE" using nextState_edges(1) by auto
  with False ok have "stateEntered (nextState (active c) (fsm c) e) (fsm c) e
      (c\<lparr>fsm := nextState (active c) (fsm c) e\<rparr>) = Inr c'" "fsm c \<noteq> S_CLOSED"
    by (auto simp: performStateTransition_def Let_def split: if_splits)
  with stateEntered_inv [OF pre False refl] show ?thesis by blast
qed

text \<open>A handler that leaves the view alone, in an open connection, followed by the transition.\<close>

lemma step_inv:
  assumes inv: "tcp_inv c0" and v: "view c = view c0" and opened: "fsm c0 \<noteq> S_INIT"
    and syn: "nextState (active c) (fsm c) e = S_SYN_SENT \<Longrightarrow> fsm c = S_SYN_SENT"
    and ok: "performStateTransition c e = Inr (c', b)"
  shows "tcp_inv c'"
proof (rule transition_inv [OF _ ok])
  have "tcp_inv c" using inv inv_cong [OF v] by simp
  then show "pre_inv (nextState (active c) (fsm c) e) c"
    using syn opened fsm_view [OF v] by (auto simp: tcp_inv_def pre_inv_def)
qed

section \<open>The handlers of the connection setup\<close>

lemma startSynRexmitTimer_view:
  "startSynRexmitTimer c = Inr c' \<Longrightarrow> view c' = view (c\<lparr>synRexmitTimer := TimerScheduled\<rparr>)"
  by (auto simp: startSynRexmitTimer_def scheduleTimeout_def view_def split: if_splits)

lemma scheduleConnEstab_view:
  "scheduleConnEstab c = Inr c' \<Longrightarrow> view c' = view (c\<lparr>connEstabTimer := TimerScheduled\<rparr>)"
  by (auto simp: scheduleConnEstab_def scheduleTimeout_def view_def split: if_splits)

lemma selectInitialSeqNum_view: "selectInitialSeqNum isn c = Inr c' \<Longrightarrow> view c' = view c"
  by (auto simp: selectInitialSeqNum_def dest!: onRexmitQueue_view)

lemma queueSynText_view: "queueSynText g e c = Inr (c', e') \<Longrightarrow> view c' = view c \<and> (e' = e \<or> e' = E_IGNORE)"
  by (auto simp: queueSynText_def Let_def split: if_splits)

lemma configureStateVariables_fields:
  assumes "configureStateVariables c = Inr c'" "\<not> par_windowScalingSupport (par c)"
  shows "\<not> ws_support c'" "ws_enabled (tcb c') = ws_enabled (tcb c)" "fsm c' = fsm c" "connEstabTimer c' = connEstabTimer c"
    "synRexmitTimer c' = synRexmitTimer c" "finWait2Timer c' = finWait2Timer c" "localPort c' = localPort c"
    "remoteUnspecified c' = remoteUnspecified c" "remotePort c' = remotePort c" "par c' = par c" "outputs c' = outputs c"
    "fork c' = fork c"
  using assms by (auto simp: configureStateVariables_def Let_def split: if_splits)

lemma initConnection_fields:
  assumes "initConnection c = Inr c'" "\<not> par_windowScalingSupport (par c)"
  shows "no_ws c'" "fsm c' = fsm c" "connEstabTimer c' = connEstabTimer c" "synRexmitTimer c' = synRexmitTimer c"
    "finWait2Timer c' = finWait2Timer c" "closed_in (outputs c') = closed_in (outputs c)"
proof -
  obtain c1 where "configureStateVariables (newStateBlock
      (c\<lparr>sendQueue := \<lparr>sq_begin = 0, sq_end = 0\<rparr>, receiveQueue := rcvq_init 0, rexmitQ := Some rq_new\<rparr>)) = Inr c1"
    "c' = out (ToAlgorithm A_initialize) c1"
    using assms(1) by (auto simp: initConnection_def)
  with configureStateVariables_fields [OF this(1)] assms(2)
  show "no_ws c'" "fsm c' = fsm c" "connEstabTimer c' = connEstabTimer c" "synRexmitTimer c' = synRexmitTimer c"
    "finWait2Timer c' = finWait2Timer c" "closed_in (outputs c') = closed_in (outputs c)"
    by (simp_all add: newStateBlock_def out_def no_ws_def TCPStateVariables_new_def)
qed

text \<open>The ephemeral ports handed out start at 1024.\<close>

fun cmd_ok :: "AppCommand \<Rightarrow> bool" where
  "cmd_ok (C_OPEN_ACTIVE oc) = (oc_ephemeralPort oc \<noteq> -1)"
| "cmd_ok _ = True"

lemma open_active_inv:
  assumes inv: "tcp_inv c" and ok: "oc_ephemeralPort oc \<noteq> -1" and h: "process_OPEN_ACTIVE oc c = Inr c1"
    and t: "performStateTransition c1 E_OPEN_ACTIVE = Inr (c', b)"
  shows "tcp_inv c'"
proof (rule transition_inv [OF _ t])
  have i: "fsm c = S_INIT" using h by (auto simp: process_OPEN_ACTIVE_def split: if_splits)
  from h i obtain d0 where d0: "initConnection c = Inr d0"
    and h1: "\<not> (oc_remoteUnspecified oc \<or> oc_remotePort oc = -1)"
    and h2: "outcome_bind (addSockPair (oc_inUse oc) (if oc_localPort oc = -1 then oc_ephemeralPort oc else oc_localPort oc)
         False (oc_remotePort oc) (d0\<lparr>active := True\<rparr>)) (\<lambda>c2.
         outcome_bind (selectInitialSeqNum (oc_isn oc) c2) (\<lambda>c3.
         outcome_bind (sendSyn c3) (\<lambda>c4.
         outcome_bind (startSynRexmitTimer c4) scheduleConnEstab))) = Inr c1"
    unfolding process_OPEN_ACTIVE_def Let_def by (auto split: if_splits simp del: outcome_bind_Inr elim!: bind_InrE)
  note f = initConnection_fields [OF d0]
  have ws: "\<not> par_windowScalingSupport (par c)" using inv by (simp add: tcp_inv_def)
  from h2 obtain d1 d2 d3 d4 where d1: "addSockPair (oc_inUse oc) (if oc_localPort oc = -1 then oc_ephemeralPort oc else oc_localPort oc)
         False (oc_remotePort oc) (d0\<lparr>active := True\<rparr>) = Inr d1"
    and d: "selectInitialSeqNum (oc_isn oc) d1 = Inr d2" "sendSyn d2 = Inr d3" "startSynRexmitTimer d3 = Inr d4"
      "scheduleConnEstab d4 = Inr c1"
    by (elim bind_InrE)
  have v1: "fsm d1 = S_INIT" "no_ws d1" "connEstabTimer d1 = connEstabTimer c" "synRexmitTimer d1 = synRexmitTimer c"
    "finWait2Timer d1 = finWait2Timer c" "closed_in (outputs d1) = closed_in (outputs c)" "localPort d1 \<noteq> -1"
    "\<not> remoteUnspecified d1" "remotePort d1 \<noteq> -1"
    using d1 f ws i h1 ok by (auto simp: addSockPair_def no_ws_def split: if_splits)
  have "view d2 = view d1" "view d3 = view d2"
    using selectInitialSeqNum_view [OF d(1)] sendSyn_view [OF _ d(2)] no_ws_view v1(2) by metis+
  then have "view c1 = view (d1\<lparr>synRexmitTimer := TimerScheduled, connEstabTimer := TimerScheduled\<rparr>)"
    using startSynRexmitTimer_view [OF d(3)] scheduleConnEstab_view [OF d(4)] by (simp add: view_def)
  then show "pre_inv (nextState (active c1) (fsm c1) E_OPEN_ACTIVE) c1"
    using v1 inv i by (auto simp: view_def pre_inv_def tcp_inv_def setup_states_def no_ws_def)
qed

lemma open_passive_inv:
  assumes inv: "tcp_inv c" and h: "process_OPEN_PASSIVE oc c = Inr c1"
    and t: "performStateTransition c1 E_OPEN_PASSIVE = Inr (c', b)"
  shows "tcp_inv c'"
proof (rule transition_inv [OF _ t])
  have i: "fsm c = S_INIT" using h by (auto simp: process_OPEN_PASSIVE_def split: if_splits)
  from h i obtain d0 where d0: "initConnection c = Inr d0" and "oc_localPort oc \<noteq> -1"
    and "addSockPair (oc_inUse oc) (oc_localPort oc) True (-1) (d0\<lparr>active := False, fork := oc_fork oc\<rparr>) = Inr c1"
    unfolding process_OPEN_PASSIVE_def by (auto split: if_splits)
  then show "pre_inv (nextState (active c1) (fsm c1) E_OPEN_PASSIVE) c1"
    using inv i initConnection_fields [OF d0]
    by (auto simp: addSockPair_def pre_inv_def tcp_inv_def setup_states_def no_ws_def split: if_splits)
qed

lemma process_SEND_view:
  assumes a: "alg_keeps alg" and w: "no_ws c" and l: "fsm c \<noteq> S_LISTEN" and h: "process_SEND alg n isn c = Inr c'"
  shows "view c' = view c"
  using h l by (cases "fsm c") (auto simp: process_SEND_def dest!: callAlgorithm_view [OF a])

lemma process_SEND_listen:
  assumes w: "no_ws c" and l: "fsm c = S_LISTEN" and h: "process_SEND alg n isn c = Inr c'"
  shows "view c' = view (c\<lparr>synRexmitTimer := TimerScheduled, connEstabTimer := TimerScheduled\<rparr>)
    \<and> \<not> remoteUnspecified c \<and> remotePort c \<noteq> -1"
proof -
  obtain c0 c1 c2 c3 where d: "selectInitialSeqNum isn (c\<lparr>active := True\<rparr>) = Inr c0" "sendSyn c0 = Inr c1"
      "startSynRexmitTimer c1 = Inr c2" "scheduleConnEstab c2 = Inr c3"
    and c': "view c' = view c3"
    using h l unfolding process_SEND_def by (simp del: outcome_bind_Inr) (elim bind_InrE, auto split: if_splits)
  have v0: "view c0 = view c" using selectInitialSeqNum_view [OF d(1)] by simp
  then have v1: "view c1 = view c" using sendSyn_view [OF _ d(2)] no_ws_view w by metis
  have "view c' = view c3" by (rule c')
  also have "\<dots> = view (c\<lparr>synRexmitTimer := TimerScheduled, connEstabTimer := TimerScheduled\<rparr>)"
    using v1 startSynRexmitTimer_view [OF d(3)] scheduleConnEstab_view [OF d(4)] by (simp add: view_def)
  finally have "view c' = view (c\<lparr>synRexmitTimer := TimerScheduled, connEstabTimer := TimerScheduled\<rparr>)" .
  moreover have "\<not> remoteUnspecified c0 \<and> remotePort c0 \<noteq> -1" using d(2) by (auto simp: sendSyn_def split: if_splits)
  ultimately show ?thesis using v0 by (simp add: view_def)
qed

lemma process_CLOSE_view:
  assumes "process_CLOSE c = Inr (c', e)"
  shows "view c' = view c \<and> (e = E_CLOSE \<or> e = E_IGNORE)"
proof -
  define r where "r = (if snd_max (tcb c) = sq_end (sendQueue c)
       then outcome_bind (sendFin (c\<lparr>tcb := (tcb c)\<lparr>snd_nxt := snd_max (tcb c)\<rparr>\<rparr>)) (\<lambda>c1.
              let c2 = out (ToAlgorithm A_restartRexmitTimer) c1
              in Inr (c2\<lparr>tcb := (tcb c2)\<lparr>snd_nxt := snd_nxt (tcb c2) + 1, snd_max := snd_nxt (tcb c2) + 1\<rparr>\<rparr>, E_CLOSE))
       else Inr (c, E_IGNORE))"
  have r: "view d = view c \<and> (e' = E_CLOSE \<or> e' = E_IGNORE)" if "r = Inr (d, e')" for d e'
    using that unfolding r_def Let_def by (elim if_InrE bind_InrE) (auto dest!: sendFin_view)
  have "outcome_bind r (\<lambda>(c1, event). Inr (c1\<lparr>send_fin := True, snd_fin_seq := sq_end (sendQueue c1)\<rparr>, event)) = Inr (c', e)
      \<or> c' = c \<and> e = E_CLOSE"
    using assms by (cases "fsm c") (simp_all add: process_CLOSE_def Let_def r_def)
  then show ?thesis using r by (auto elim!: bind_InrE)
qed

lemma process_ABORT_view: "process_ABORT c = Inr c' \<Longrightarrow> view c' = view c \<and> fsm c \<noteq> S_INIT"
  by (auto simp: process_ABORT_def split: if_splits)

lemma process_STATUS_view: "process_STATUS c = Inr c' \<Longrightarrow> view c' = view c \<and> fsm c \<noteq> S_INIT"
  by (auto simp: process_STATUS_def split: if_splits)

lemma nextState_syn_sent:
  "nextState a s e = S_SYN_SENT \<Longrightarrow> s = S_SYN_SENT \<or> s = S_INIT \<and> e = E_OPEN_ACTIVE \<or> s = S_LISTEN \<and> (e = E_SEND \<or> e = E_OPEN_ACTIVE)"
  by (cases s; cases e; simp split: if_splits)

lemma send_inv:
  assumes a: "alg_keeps alg" and inv: "tcp_inv c" and h: "process_SEND alg n isn c = Inr c1" and t: "performStateTransition c1 E_SEND = Inr (c', b)"
  shows "tcp_inv c'"
proof -
  have i: "fsm c \<noteq> S_INIT" using h by (auto simp: process_SEND_def)
  then have w: "no_ws c" using inv_quiet [OF inv] quiet_no_ws by blast
  show ?thesis
  proof (cases "fsm c = S_LISTEN")
    case True
    note s = process_SEND_listen [OF w True h]
    show ?thesis
      using s inv True w by (intro transition_inv [OF _ t]) (auto simp: view_def pre_inv_def tcp_inv_def setup_states_def no_ws_def)
  next
    case False
    have v: "view c1 = view c" using process_SEND_view [OF a w False h] .
    show ?thesis
      using nextState_syn_sent [of "active c1" "fsm c1" E_SEND] fsm_view [OF v] False i
      by (intro step_inv [OF inv v i _ t]) auto
  qed
qed

lemma app_command_inv:
  assumes a: "alg_keeps alg" and inv: "tcp_inv c" and ok: "cmd_ok cmd" and r: "processAppCommand alg c cmd = Inr (c', b)"
  shows "tcp_inv c'"
proof (cases cmd)
  case (C_OPEN_ACTIVE oc)
  with r ok open_active_inv [OF inv] show ?thesis by (auto simp: processAppCommand_def)
next
  case (C_OPEN_PASSIVE oc)
  with r open_passive_inv [OF inv] show ?thesis by (auto simp: processAppCommand_def)
next
  case (C_SEND n isn)
  with r send_inv [OF a inv] show ?thesis by (auto simp: processAppCommand_def)
next
  case C_CLOSE
  with r obtain c1 e where h: "process_CLOSE c = Inr (c1, e)" and t: "performStateTransition c1 e = Inr (c', b)"
    by (auto simp: processAppCommand_def)
  have i: "fsm c \<noteq> S_INIT" using h by (auto simp: process_CLOSE_def Let_def)
  show ?thesis
    using process_CLOSE_view [OF h] fsm_view [of c1 c] nextState_syn_sent [of "active c1" "fsm c1" e] i
    by (intro step_inv [OF inv _ i _ t]) auto
next
  case C_ABORT
  with r obtain c1 where h: "process_ABORT c = Inr c1" and t: "performStateTransition c1 E_ABORT = Inr (c', b)"
    by (auto simp: processAppCommand_def)
  show ?thesis
    using process_ABORT_view [OF h] fsm_view [of c1 c] nextState_syn_sent [of "active c1" "fsm c1" E_ABORT]
    by (intro step_inv [OF inv _ _ _ t]) auto
next
  case C_STATUS
  with r obtain c1 where h: "process_STATUS c = Inr c1" and t: "performStateTransition c1 E_STATUS = Inr (c', b)"
    by (auto simp: processAppCommand_def)
  show ?thesis
    using process_STATUS_view [OF h] fsm_view [of c1 c] nextState_syn_sent [of "active c1" "fsm c1" E_STATUS]
    by (intro step_inv [OF inv _ _ _ t]) auto
next
  case (C_QUEUE_BYTES_LIMIT n)
  with r obtain c1 where h: "process_QUEUE_BYTES_LIMIT n c = Inr c1" and t: "performStateTransition c1 E_QUEUE_BYTES_LIMIT = Inr (c', b)"
    by (auto simp: processAppCommand_def)
  have v: "view c1 = view c" "fsm c \<noteq> S_INIT" using h by (auto simp: process_QUEUE_BYTES_LIMIT_def split: if_splits)
  show ?thesis
    using v fsm_view [of c1 c] nextState_syn_sent [of "active c1" "fsm c1" E_QUEUE_BYTES_LIMIT]
    by (intro step_inv [OF inv _ _ _ t]) auto
qed

section \<open>Timers and segments\<close>

lemma pre_inv_view: "view c' = view c \<Longrightarrow> pre_inv s c' = pre_inv s c"
  by (simp add: view_def pre_inv_def no_ws_def)

lemma inv_pre:
  "tcp_inv c \<Longrightarrow> fsm c \<noteq> S_INIT \<Longrightarrow> (s = S_SYN_SENT \<Longrightarrow> fsm c = S_SYN_SENT) \<Longrightarrow> pre_inv s c"
  by (auto simp: tcp_inv_def pre_inv_def)

lemma rexmit_view:
  assumes w: "no_ws c" and r: "process_TIMEOUT_SYN_REXMIT c = Inr (c', e)"
  shows "view c' = view c \<and> e = E_ABORT \<or> view c' = view (c\<lparr>synRexmitTimer := TimerScheduled\<rparr>) \<and> e = E_IGNORE"
proof -
  define c1 where "c1 = c\<lparr>syn_rexmit_count := syn_rexmit_count c + 1\<rparr>"
  have v1: "view c1 = view c" by (simp add: c1_def)
  have w1: "no_ws c1" using no_ws_view [OF v1] w by simp
  from r [unfolded process_TIMEOUT_SYN_REXMIT_def Let_def, folded c1_def] show ?thesis
  proof (rule if_InrE)
    assume "outcome_bind (if fsm c1 = S_SYN_SENT then sendSyn c1 else if fsm c1 = S_SYN_RCVD then sendSynAck c1
         else Inl (RuntimeError ''Internal error: SYN-REXMIT timer expired''))
        (\<lambda>c2. outcome_bind (scheduleTimeout (synRexmitTimer c2)) (\<lambda>t.
           Inr (c2\<lparr>syn_rexmit_timeout := min 240 (2 * syn_rexmit_timeout c2), synRexmitTimer := t\<rparr>, E_IGNORE))) = Inr (c', e)"
    then obtain c2 where c2: "(if fsm c1 = S_SYN_SENT then sendSyn c1 else if fsm c1 = S_SYN_RCVD then sendSynAck c1
         else Inl (RuntimeError ''Internal error: SYN-REXMIT timer expired'')) = Inr c2"
      and t: "scheduleTimeout (synRexmitTimer c2) = Inr TimerScheduled"
      and c': "c' = c2\<lparr>syn_rexmit_timeout := min 240 (2 * syn_rexmit_timeout c2), synRexmitTimer := TimerScheduled\<rparr>" "e = E_IGNORE"
      by (elim bind_InrE) (auto simp: scheduleTimeout_def split: if_splits)
    have "view c2 = view c1" using c2 sendSyn_view [OF w1] sendSynAck_view [OF w1] by (elim if_InrE) auto
    then show ?thesis using v1 c' by (simp add: view_def)
  qed (use v1 in auto)
qed

text \<open>A timer of the algorithm leaves the same alone, and at most aborts the connection.\<close>

definition timer_keeps :: "TCPAlgorithmTimer \<Rightarrow> bool" where
  "timer_keeps algTimer \<longleftrightarrow> (\<forall>x c c' e. algTimer x c = Inr (c', e) \<longrightarrow> view c' = view c \<and> (e = E_IGNORE \<or> e = E_ABORT))"

lemma timer_inv:
  assumes a: "timer_keeps algTimer" and inv: "tcp_inv c" and s: "timer_of t c = TimerScheduled" and opened: "\<exists>x. t = T_ALGORITHM x \<Longrightarrow> fsm c \<noteq> S_INIT"
    and r: "processTimer algTimer c t = Inr (c', b)"
  shows "tcp_inv c'"
proof (cases t)
  case T_2MSL
  have v: "view (c\<lparr>the2MSLTimer := TimerIdle\<rparr>) = view c" by simp
  from T_2MSL r have "fsm c = S_TIME_WAIT" and p: "performStateTransition (c\<lparr>the2MSLTimer := TimerIdle\<rparr>) E_TIMEOUT_2MSL = Inr (c', b)"
    by (auto simp: processTimer_def Let_def process_TIMEOUT_2MSL_def split: if_splits)
  then show ?thesis by (intro step_inv [OF inv v _ _ p]) auto
next
  case T_FIN_WAIT_2
  with s inv show ?thesis by (simp add: tcp_inv_def)
next
  case T_CONN_ESTAB
  have st: "fsm c = S_SYN_SENT \<or> fsm c = S_SYN_RCVD" using T_CONN_ESTAB s inv by (auto simp: tcp_inv_def)
  define d where "d = c\<lparr>connEstabTimer := TimerIdle\<rparr>"
  have i: "tcp_inv d" using inv by (auto simp: tcp_inv_def d_def no_ws_def)
  define c1 where "c1 = (if active c then out (ToApp I_TIMED_OUT) d else d)"
  have p: "performStateTransition c1 E_TIMEOUT_CONN_ESTAB = Inr (c', b)"
    using T_CONN_ESTAB r st by (auto simp: processTimer_def Let_def process_TIMEOUT_CONN_ESTAB_def d_def c1_def)
  have v: "view c1 = view d" by (simp add: c1_def)
  show ?thesis
    using st nextState_syn_sent [of "active c1" "fsm c1" E_TIMEOUT_CONN_ESTAB] fsm_view [OF v]
    by (intro step_inv [OF i v _ _ p]) (auto simp: d_def)
next
  case T_SYN_REXMIT
  have st: "fsm c = S_SYN_SENT \<or> fsm c = S_SYN_RCVD" using T_SYN_REXMIT s inv by (auto simp: tcp_inv_def)
  define d where "d = c\<lparr>synRexmitTimer := TimerIdle\<rparr>"
  have i: "tcp_inv d" using inv by (auto simp: tcp_inv_def d_def no_ws_def)
  have fd: "fsm d = fsm c" by (simp add: d_def)
  from T_SYN_REXMIT r obtain c1 e where c1: "process_TIMEOUT_SYN_REXMIT d = Inr (c1, e)"
    and p: "performStateTransition c1 e = Inr (c', b)"
    by (auto simp: processTimer_def Let_def d_def)
  have w: "no_ws d" using inv_quiet [OF i] quiet_no_ws st fd by auto
  from rexmit_view [OF w c1] show ?thesis
  proof
    assume a: "view c1 = view d \<and> e = E_ABORT"
    then have "fsm c1 = fsm c" using fsm_view fd by metis
    with a st fd nextState_syn_sent [of "active c1" "fsm c1" e] show ?thesis
      by (intro step_inv [OF i _ _ _ p]) auto
  next
    assume a: "view c1 = view (d\<lparr>synRexmitTimer := TimerScheduled\<rparr>) \<and> e = E_IGNORE"
    have i': "tcp_inv (d\<lparr>synRexmitTimer := TimerScheduled\<rparr>)" using i st fd by (auto simp: tcp_inv_def no_ws_def)
    have "fsm c1 = fsm (d\<lparr>synRexmitTimer := TimerScheduled\<rparr>)" using a fsm_view by blast
    then have "fsm c1 = fsm c" using fd by simp
    with a st fd nextState_syn_sent [of "active c1" "fsm c1" e] show ?thesis
      by (intro step_inv [OF i' _ _ _ p]) auto
  qed
next
  case (T_ALGORITHM x)
  then obtain c1 e where c1: "algTimer x (c\<lparr>algState := algFired x (algState c)\<rparr>) = Inr (c1, e)" and p: "performStateTransition c1 e = Inr (c', b)"
    using r by (auto simp: processTimer_def)
  with a have v: "view c1 = view c" "e = E_IGNORE \<or> e = E_ABORT" by (fastforce simp: timer_keeps_def)+
  have "nextState (active c1) (fsm c1) e = S_SYN_SENT \<Longrightarrow> fsm c1 = S_SYN_SENT"
    using v(2) nextState_syn_sent [of "active c1" "fsm c1" e] by auto
  moreover have "fsm c \<noteq> S_INIT" using opened T_ALGORITHM by blast
  ultimately show ?thesis using step_inv [OF inv v(1) _ _ p] by blast
qed

lemma updateSockPair_fields:
  "view (updateSockPair p c) = view (c\<lparr>remoteUnspecified := False, remotePort := p\<rparr>)"
  by (simp add: updateSockPair_def)

lemma acceptSyn_view [simp]: "view (acceptSyn g c) = view c"
  by (simp add: acceptSyn_def)

lemma clone_view:
  assumes inv: "tcp_inv c" and l: "fsm c = S_LISTEN" and r: "cloneListeningConnection c = Inr (c1, conn)"
  shows "view c1 = view c" "tcp_inv conn"
proof -
  have w: "no_ws c" "\<not> par_windowScalingSupport (par c)" using inv l by (auto simp: tcp_inv_def)
  have p: "\<not> par_windowScalingSupport (par (c\<lparr>rexmitQ := Some rq_new\<rparr>))" using w by simp
  from r have c1: "configureStateVariables (c\<lparr>rexmitQ := Some rq_new\<rparr>) = Inr c1"
    and conn: "conn = out (ToAlgorithm A_initialize) ((newStateBlock (TCPConnection_new c))\<lparr>sendQueue := \<lparr>sq_begin = 0, sq_end = 0\<rparr>,
        receiveQueue := rcvq_init 0, active := False, fork := True, localPort := localPort c, fsm := S_LISTEN\<rparr>)"
    by (auto simp: cloneListeningConnection_def)
  show "view c1 = view c"
    using configureStateVariables_fields [OF c1 p] w by (simp add: view_def no_ws_def)
  show "tcp_inv conn"
    using inv l unfolding conn
    by (simp add: tcp_inv_def no_ws_def out_def newStateBlock_def TCPConnection_new_def TCPStateVariables_new_def)
qed

lemma forkIfAsked_view:
  assumes inv: "tcp_inv c" and l: "fsm c = S_LISTEN" and r: "forkIfAsked p c = Inr (c1, conn)"
  shows "view c1 = view (c\<lparr>remoteUnspecified := False, remotePort := p\<rparr>)" "conn = Some d \<Longrightarrow> tcp_inv d"
proof -
  from r show "view c1 = view (c\<lparr>remoteUnspecified := False, remotePort := p\<rparr>)"
    unfolding forkIfAsked_def
    by (elim if_InrE bind_InrE) (auto simp: updateSockPair_fields dest!: clone_view(1) [OF inv l], simp add: view_def)
  from r show "conn = Some d \<Longrightarrow> tcp_inv d"
    unfolding forkIfAsked_def by (elim if_InrE bind_InrE) (auto dest!: clone_view(2) [OF inv l])
qed

lemma listen_view:
  assumes inv: "tcp_inv c" and l: "fsm c = S_LISTEN" and r: "processSegmentInListen g h isn c = Inr (c', conn, e)"
    and fits: "synBit g \<Longrightarrow> payloadLength g = 0"
  shows "(view c' = view c \<and> e = E_IGNORE
      \<or> view c' = view (c\<lparr>remoteUnspecified := False, remotePort := hd_srcPort h, synRexmitTimer := TimerScheduled,
           connEstabTimer := TimerScheduled\<rparr>) \<and> e = E_RCV_SYN)
    \<and> (\<forall>d. conn = Some d \<longrightarrow> tcp_inv d)"
proof (cases "\<not> rstBit g \<and> \<not> ackBit g \<and> synBit g")
  case False
  with r show ?thesis unfolding processSegmentInListen_def by (auto split: if_splits)
next
  case True
  let ?o = "c\<lparr>remoteUnspecified := False, remotePort := hd_srcPort h\<rparr>"
  from r True obtain c1 c2 c3 c4 c5 c6 where s: "forkIfAsked (hd_srcPort h) c = Inr (c1, conn)"
    "selectInitialSeqNum isn (acceptSyn g c1) = Inr c2" "optionsIfAny g h (updateWndInfo g (hd_window h) True c2) = Inr c3"
    "sendSynAck (c3\<lparr>ack_now := True\<rparr>) = Inr c4" "startSynRexmitTimer c4 = Inr c5"
    "(if connEstabTimer c5 \<noteq> TimerScheduled then scheduleConnEstab c5 else Inr c5) = Inr c6"
    "queueSynText g E_RCV_SYN c6 = Inr (c', e)"
    unfolding processSegmentInListen_def by (auto simp del: outcome_bind_Inr elim!: bind_InrE)
  have w: "no_ws ?o" using inv l by (auto simp: tcp_inv_def no_ws_def)
  have v2: "view c2 = view ?o" using selectInitialSeqNum_view [OF s(2)] forkIfAsked_view(1) [OF inv l s(1)] by simp
  then have "view (updateWndInfo g (hd_window h) True c2) = view ?o" by simp
  then have v3: "view c3 = view ?o" using optionsIfAny_view [OF _ s(3)] no_ws_view w by metis
  then have "view (c3\<lparr>ack_now := True\<rparr>) = view ?o" by simp
  then have v4: "view c4 = view ?o" using sendSynAck_view [OF _ s(4)] no_ws_view w by metis
  have v5: "view c5 = view (?o\<lparr>synRexmitTimer := TimerScheduled\<rparr>)" using startSynRexmitTimer_view [OF s(5)] v4 by (simp add: view_def)
  have "view c6 = view (?o\<lparr>synRexmitTimer := TimerScheduled, connEstabTimer := TimerScheduled\<rparr>)"
    using s(6)
  proof (rule if_InrE)
    assume "scheduleConnEstab c5 = Inr c6"
    from scheduleConnEstab_view [OF this] v5 show ?thesis by (simp add: view_def)
  qed (use v5 in \<open>simp add: view_def\<close>)
  moreover have "c' = c6" "e = E_RCV_SYN" using s(7) fits True by (auto simp: queueSynText_def)
  ultimately show ?thesis using forkIfAsked_view(2) [OF inv l s(1)] by simp
qed

lemma synSentAck_view: "synSentAck g h c = Inr c' \<Longrightarrow> view c' = view c"
  unfolding synSentAck_def Let_def by (elim if_InrE bind_InrE) (auto dest!: onRexmitQueue_view)

lemma synSentEstablish_view:
  assumes a: "alg_keeps alg" and w: "no_ws c" and r: "synSentEstablish alg g h c = Inr (c', e)"
  shows "view c' = view c"
proof -
  obtain c1 e1 where q: "queueSynText g E_RCV_SYN_ACK c = Inr (c1, e1)"
    and r1: "(if e1 = E_IGNORE then Inr (c1, E_IGNORE)
       else outcome_bind (optionsIfAny g h c1) (\<lambda>c2.
       outcome_bind (callAlgorithm alg (A_established True) (c2\<lparr>ack_now := True\<rparr>)) (\<lambda>c3.
         Inr (out (ToApp I_ESTABLISHED) c3, e1)))) = Inr (c', e)"
    using r unfolding synSentEstablish_def by auto
  have v1: "view c1 = view c" using queueSynText_view [OF q] by simp
  then have w1: "no_ws c1" using no_ws_view w by blast
  from r1 show ?thesis using v1 by (elim if_InrE bind_InrE) (auto dest!: optionsIfAny_view [OF w1] callAlgorithm_view [OF a])
qed

lemma synSentSimultaneous_view:
  assumes w: "no_ws c" and r: "synSentSimultaneous g c = Inr (c', e)"
  shows "view c' = view (c\<lparr>synRexmitTimer := TimerScheduled\<rparr>)"
proof -
  define c0 where "c0 = c\<lparr>tcb := (tcb c)\<lparr>snd_nxt := iss c, snd_max := iss c\<rparr>\<rparr>"
  have v0: "view c0 = view c" by (simp add: c0_def)
  then have w0: "no_ws c0" using no_ws_view w by blast
  obtain c1 c2 where s: "sendSynAck c0 = Inr c1" "startSynRexmitTimer c1 = Inr c2" "queueSynText g E_RCV_SYN c2 = Inr (c', e)"
    using r unfolding synSentSimultaneous_def c0_def [symmetric] by (elim bind_InrE)
  have "view c' = view (c1\<lparr>synRexmitTimer := TimerScheduled\<rparr>)"
    using queueSynText_view [OF s(3)] startSynRexmitTimer_view [OF s(2)] by simp
  then show ?thesis using sendSynAck_view [OF w0 s(1)] v0 by (simp add: view_def)
qed

lemma synsent_view:
  assumes a: "alg_keeps alg" and w: "no_ws c" and r: "processSegmentInSynSent alg g h c = Inr (c', e)"
  shows "view c' = view c \<or> view c' = view (updateSockPair (hd_srcPort h) c)
    \<or> view c' = view ((updateSockPair (hd_srcPort h) c)\<lparr>synRexmitTimer := TimerScheduled\<rparr>)"
proof -
  have *: ?thesis if b: "outcome_bind (synSentAck g h (acceptSyn g c)) (\<lambda>c1.
          let c2 = updateSockPair (hd_srcPort h) c1
          in if seqGreater (snd_una (tcb c2)) (iss c2) then synSentEstablish alg g h c2 else synSentSimultaneous g c2) = Inr (c', e)"
  proof -
    obtain c1 where c1: "synSentAck g h (acceptSyn g c) = Inr c1"
      and r1: "(if seqGreater (snd_una (tcb (updateSockPair (hd_srcPort h) c1))) (iss (updateSockPair (hd_srcPort h) c1))
         then synSentEstablish alg g h (updateSockPair (hd_srcPort h) c1) else synSentSimultaneous g (updateSockPair (hd_srcPort h) c1)) = Inr (c', e)"
      using b unfolding Let_def by (elim bind_InrE)
    have v1: "view c1 = view c" using synSentAck_view [OF c1] by simp
    have v2: "view (updateSockPair (hd_srcPort h) c1) = view (updateSockPair (hd_srcPort h) c)"
      "view ((updateSockPair (hd_srcPort h) c1)\<lparr>synRexmitTimer := TimerScheduled\<rparr>)
       = view ((updateSockPair (hd_srcPort h) c)\<lparr>synRexmitTimer := TimerScheduled\<rparr>)"
      using v1 by (simp_all add: updateSockPair_def view_def)
    have w2: "no_ws (updateSockPair (hd_srcPort h) c1)" using w v1 by (simp add: updateSockPair_def view_def no_ws_def)
    from r1 show ?thesis
      using synSentEstablish_view [OF a w2] synSentSimultaneous_view [OF w2] v2 by (elim if_InrE) auto
  qed
  from r show ?thesis
    unfolding processSegmentInSynSent_def by (elim if_InrE *) (auto split: if_splits)
qed

lemma segment_inv:
  assumes a: "alg_keeps alg" and inv: "tcp_inv c" and port: "hd_srcPort h \<noteq> -1"
    and fits: "fsm c = S_LISTEN \<Longrightarrow> synBit g \<Longrightarrow> payloadLength g = 0"
    and opened: "fsm c \<noteq> S_INIT" and r: "processTCPSegment alg g h isn c = Inr (c', conn, b)"
  shows "tcp_inv c' \<and> (\<forall>d. conn = Some d \<longrightarrow> tcp_inv d)"
proof -
  from r obtain c1 e where h: "process_RCV_SEGMENT alg g h isn c = Inr (c1, conn, e)" and t: "performStateTransition c1 e = Inr (c', b)"
    unfolding processTCPSegment_def by (auto split: if_splits)
  have w: "no_ws c" using inv_quiet [OF inv opened] quiet_no_ws by blast
  consider "fsm c = S_LISTEN" | "fsm c = S_SYN_SENT" | "fsm c \<noteq> S_LISTEN" "fsm c \<noteq> S_SYN_SENT" by blast
  then show ?thesis
  proof cases
    case 1
    with h have l: "processSegmentInListen g h isn c = Inr (c1, conn, e)" by (simp add: process_RCV_SEGMENT_def)
    note v = listen_view [OF inv 1 l fits [OF 1]]
    have "pre_inv (nextState (active c1) (fsm c1) e) c1"
      using v inv 1 w port by (auto simp: view_def pre_inv_def tcp_inv_def setup_states_def no_ws_def)
    with v show ?thesis using transition_inv [OF _ t] by blast
  next
    case 2
    with h have l: "processSegmentInSynSent alg g h c = Inr (c1, e)" and n: "conn = None" by (auto simp: process_RCV_SEGMENT_def)
    have "pre_inv (nextState (active c1) (fsm c1) e) c1"
      using synsent_view [OF a w l] inv 2 w port
      by (auto simp: updateSockPair_def view_def pre_inv_def tcp_inv_def setup_states_def no_ws_def)
    with n show ?thesis using transition_inv [OF _ t] by blast
  next
    case 3
    with h have l: "processSegment1stThru8th alg g h c = Inr (c1, e)" and n: "conn = None" by (auto simp: process_RCV_SEGMENT_def)
    have v: "view c1 = view c" using processSegment_view [OF a inv_quiet [OF inv opened] l] .
    have "nextState (active c1) (fsm c1) e \<noteq> S_SYN_SENT"
      using nextState_syn_sent [of "active c1" "fsm c1" e] fsm_view [OF v] 3 opened by auto
    with n show ?thesis using step_inv [OF inv v opened _ t] by blast
  qed
qed

end
