(* ===== verification/TCP_Setup.thy ===== *)
theory TCP_Setup
  imports TCP_Invariant
begin

text \<open>
  The life of a connection from its creation on: \<open>tcp_reach\<close> holds of the connections that application
  commands, timers and segments can lead to.  Shown of all of them: the setup timers find the connection in a state that
  expects them and their handlers raise no error; the application is told only once that the connection is closed; and a
  SYN that is never answered is retransmitted with exponential backoff and given up.
\<close>

section \<open>Reachable connections\<close>

text \<open>Segments come with a source port, and a SYN that arrives in LISTEN carries no text.  The algorithm may act on a
  notification after the handler that sent it.\<close>

inductive tcp_reach :: "TCPAlgorithm \<Rightarrow> TCPAlgorithmTimer \<Rightarrow> TCPConnection \<Rightarrow> bool"
  for alg :: TCPAlgorithm and algTimer :: TCPAlgorithmTimer where
  created: "\<not> par_windowScalingSupport (par blank) \<Longrightarrow> tcp_reach alg algTimer (TCPConnection_new blank)"
| command: "tcp_reach alg algTimer c \<Longrightarrow> cmd_ok cmd \<Longrightarrow> processAppCommand alg c cmd = Inr (c', b) \<Longrightarrow> tcp_reach alg algTimer c'"
| timer: "tcp_reach alg algTimer c \<Longrightarrow> timer_of t c = TimerScheduled \<Longrightarrow> (\<exists>x. t = T_ALGORITHM x) \<longrightarrow> fsm c \<noteq> S_INIT
    \<Longrightarrow> processTimer algTimer c t = Inr (c', b) \<Longrightarrow> tcp_reach alg algTimer c'"
| segment: "tcp_reach alg algTimer c \<Longrightarrow> fsm c \<noteq> S_INIT \<Longrightarrow> hd_srcPort h \<noteq> -1
    \<Longrightarrow> fsm c = S_LISTEN \<and> synBit g \<longrightarrow> payloadLength g = 0
    \<Longrightarrow> processTCPSegment alg g h isn c = Inr (c', conn, b) \<Longrightarrow> tcp_reach alg algTimer c'"
| forked: "tcp_reach alg algTimer c \<Longrightarrow> fsm c \<noteq> S_INIT \<Longrightarrow> hd_srcPort h \<noteq> -1
    \<Longrightarrow> fsm c = S_LISTEN \<and> synBit g \<longrightarrow> payloadLength g = 0
    \<Longrightarrow> processTCPSegment alg g h isn c = Inr (c', Some conn, b) \<Longrightarrow> tcp_reach alg algTimer conn"
| notified: "tcp_reach alg algTimer c \<Longrightarrow> alg a c = Inr c' \<Longrightarrow> tcp_reach alg algTimer c'"
| time_passes: "tcp_reach alg algTimer c \<Longrightarrow> tcp_reach alg algTimer (c\<lparr>simTimeMs := t\<rparr>)"

lemma created_inv: "\<not> par_windowScalingSupport (par blank) \<Longrightarrow> tcp_inv (TCPConnection_new blank)"
  by (simp add: TCPConnection_new_def tcp_inv_def)

lemma simTime_view [simp]: "view (c\<lparr>simTimeMs := t\<rparr>) = view c"
  by (simp add: view_def)

lemma reach_inv:
  assumes a: "alg_keeps alg" and t: "timer_keeps algTimer" and r: "tcp_reach alg algTimer c"
  shows "tcp_inv c"
  using r
proof induction
  case (created blank)
  then show ?case by (rule created_inv)
next
  case (command c cmd c' b)
  then show ?case using app_command_inv [OF a] by blast
next
  case (timer c t' c' b)
  then show ?case using timer_inv [OF t] by blast
next
  case (segment c h g isn c' conn b)
  then show ?case using segment_inv [OF a, of c h g isn c' conn b] by blast
next
  case (forked c h g isn c' conn b)
  then show ?case using segment_inv [OF a, of c h g isn c' "Some conn" b] by blast
next
  case (notified c a' c')
  then show ?case using a inv_cong unfolding alg_keeps_def by blast
next
  case (time_passes c t')
  then show ?case using inv_cong [OF simTime_view] by blast
qed

section \<open>Retransmitted SYNs\<close>

lemma updateRcvWnd_total:
  assumes "\<not> ws_enabled st"
  obtains st' w where "updateRcvWnd st q = Inr (st', w)"
proof -
  define st1 where "st1 = updateRcvQueueVars st q"
  define win1 where "win1 = (if freeRcvBuffer st1 < maxRcvBuffer st1 div 4 \<and> freeRcvBuffer st1 < snd_mss st1 then 0 else freeRcvBuffer st1)"
  define win2 where "win2 = (if win1 < rcv_adv st1 - st_rcv_nxt st1 then rcv_adv st1 - st_rcv_nxt st1 else win1)"
  define win where "win = (if win2 > TCP_MAX_WIN \<and> \<not> ws_enabled st1 then TCP_MAX_WIN else win2)"
  have ws: "\<not> ws_enabled st1" using assms by (simp add: st1_def)
  have "unat win \<le> 65535" using ws by (auto simp: win_def TCP_MAX_WIN_def word_le_nat_alt word_less_nat_alt not_less)
  then have fit: "win = ucast (ucast win :: u16)"
    by (simp add: word_unat_eq_iff unsigned_ucast_eq unsigned_take_bit_eq take_bit_nat_eq_self)
  have "\<exists>st'. updateRcvWnd st q = Inr (st', ucast win)"
    unfolding updateRcvWnd_def st1_def [symmetric] Let_def win1_def [symmetric] win2_def [symmetric] win_def [symmetric]
    using ws fit by simp
  then show thesis using that by blast
qed

definition kept :: "TCPConnection \<Rightarrow> nat \<times> nat \<times> TcpOut list" where
  "kept c = (syn_rexmit_count c, syn_rexmit_timeout c, outputs c)"

lemma kept_tcb [simp]: "kept (c\<lparr>tcb := t\<rparr>) = kept c" "kept (c\<lparr>sentBytes := n\<rparr>) = kept c"
  by (simp_all add: kept_def)

lemma writeSynOptions_kept: "kept (fst (writeSynOptions ack c)) = kept c"
  by (simp add: writeSynOptions_def writeWS_def writeSACKPermitted_def writeInitialTS_def Let_def kept_def split_beta)

lemma writeHeaderOptions_syn:
  assumes "fsm c = S_SYN_SENT \<or> fsm c = S_SYN_RCVD" "syn_rexmit_count c > 0"
  shows "\<exists>opts. writeHeaderOptions True ack c = Inr (fst (writeSynOptions ack c), opts) \<and> getOptionsArrayLength opts \<le> 40"
  using assms by (simp add: writeHeaderOptions_def split_beta)

lemma sendToIP_total:
  "getOptionsArrayLength opts \<le> 40 \<Longrightarrow> sendToIP g w opts c = Inr (out (ToIP g w opts) (c\<lparr>sentBytes := payloadLength g\<rparr>))"
  by (simp add: sendToIP_def)

text \<open>A retransmission in one of the two states puts exactly one more SYN on the wire.\<close>

definition syns :: "TcpOut list \<Rightarrow> nat" where
  "syns xs = length (filter (\<lambda>x. case x of ToIP g _ _ \<Rightarrow> synBit g | _ \<Rightarrow> False) xs)"

lemma syns_simps [simp]:
  "syns [] = 0" "syns (xs @ ys) = syns xs + syns ys"
  "syns (ToIP g w opts # xs) = (if synBit g then 1 else 0) + syns xs" "syns (ToApp i # xs) = syns xs"
  "syns (ToAlgorithm a # xs) = syns xs"
  by (simp_all add: syns_def)

lemma sendSyn_rexmit:
  assumes w: "no_ws c" and st: "fsm c = S_SYN_SENT" "syn_rexmit_count c > 0"
    and ports: "\<not> remoteUnspecified c" "remotePort c \<noteq> -1" "localPort c \<noteq> -1"
  shows "\<exists>c'. sendSyn c = Inr c' \<and> syn_rexmit_count c' = syn_rexmit_count c
    \<and> syn_rexmit_timeout c' = syn_rexmit_timeout c \<and> syns (outputs c') = syns (outputs c) + 1"
proof -
  obtain st' w' where u: "updateRcvWnd (tcb c) (receiveQueue c) = Inr (st', w')"
    using updateRcvWnd_total w unfolding no_ws_def by blast
  define c2 where "c2 = c\<lparr>tcb := st'\<lparr>snd_nxt := iss c + 1, snd_max := iss c + 1\<rparr>\<rparr>"
  have c2: "fsm c2 = S_SYN_SENT" "syn_rexmit_count c2 > 0" "kept c2 = kept c" using st by (simp_all add: c2_def kept_def)
  from writeHeaderOptions_syn [of c2 False] c2 obtain opts where
    o: "writeHeaderOptions True False c2 = Inr (fst (writeSynOptions False c2), opts)" "getOptionsArrayLength opts \<le> 40" by auto
  define c3 where "c3 = fst (writeSynOptions False c2)"
  have k: "kept c3 = kept c" using writeSynOptions_kept [of False c2] c2 by (simp add: c3_def)
  have "sendSyn c = Inr (out (ToIP (newSegment\<lparr>sequenceNo := iss c, synBit := True\<rparr>) (ucast (rcv_wnd st')) opts)
      (c3\<lparr>sentBytes := payloadLength (newSegment\<lparr>sequenceNo := iss c, synBit := True\<rparr>)\<rparr>))"
    using ports u o by (simp add: sendSyn_def withRcvWnd_def sendToIP_total c3_def [symmetric] c2_def [symmetric])
  then show ?thesis using k by (simp add: out_def kept_def)
qed

lemma sendSynAck_rexmit:
  assumes w: "no_ws c" and st: "fsm c = S_SYN_RCVD" "syn_rexmit_count c > 0"
  shows "\<exists>c'. sendSynAck c = Inr c' \<and> syn_rexmit_count c' = syn_rexmit_count c
    \<and> syn_rexmit_timeout c' = syn_rexmit_timeout c \<and> syns (outputs c') = syns (outputs c) + 1"
proof -
  obtain st' w' where u: "updateRcvWnd (tcb c) (receiveQueue c) = Inr (st', w')"
    using updateRcvWnd_total w unfolding no_ws_def by blast
  define c2 where "c2 = c\<lparr>tcb := st'\<lparr>snd_nxt := iss c + 1, snd_max := iss c + 1\<rparr>\<rparr>"
  define g where "g = newSegment\<lparr>sequenceNo := iss c, ackNo := st_rcv_nxt (tcb c), synBit := True, ackBit := True\<rparr>"
  have g: "synBit g" by (simp add: g_def)
  have c2: "fsm c2 = S_SYN_RCVD" "syn_rexmit_count c2 > 0" "kept c2 = kept c" using st by (simp_all add: c2_def kept_def)
  from writeHeaderOptions_syn [of c2 True] c2 obtain opts where
    o: "writeHeaderOptions True True c2 = Inr (fst (writeSynOptions True c2), opts)" "getOptionsArrayLength opts \<le> 40" by auto
  define c3 where "c3 = fst (writeSynOptions True c2)"
  have k: "kept c3 = kept c" using writeSynOptions_kept [of True c2] c2 by (simp add: c3_def)
  have "sendSynAck c = Inr (out (ToAlgorithm A_ackSent) (out (ToIP g (ucast (rcv_wnd st')) opts) (c3\<lparr>sentBytes := payloadLength g\<rparr>)))"
    using u o by (simp add: sendSynAck_def withRcvWnd_def sendToIP_total c3_def [symmetric] c2_def [symmetric] g_def [symmetric])
  then show ?thesis using k g by (simp add: out_def kept_def)
qed


lemma stateEntered_closed:
  assumes "old \<noteq> S_TIME_WAIT"
  shows "\<exists>c'. stateEntered S_CLOSED old e c = Inr c' \<and> fsm c' = fsm c \<and> syns (outputs c') = syns (outputs c)"
  by (simp add: stateEntered_def Let_def out_def)

lemma rexmit_gives_up:
  assumes st: "fsm c = S_SYN_SENT \<or> fsm c = S_SYN_RCVD" and n: "\<not> syn_rexmit_count c < 12"
  shows "\<exists>c'. processTimer algTimer c T_SYN_REXMIT = Inr (c', False) \<and> fsm c' = S_CLOSED \<and> syns (outputs c') = syns (outputs c)"
proof -
  define c1 where "c1 = c\<lparr>synRexmitTimer := TimerIdle, syn_rexmit_count := syn_rexmit_count c + 1\<rparr>"
  have p: "process_TIMEOUT_SYN_REXMIT (fired T_SYN_REXMIT c) = Inr (c1, E_ABORT)"
    using n by (simp add: process_TIMEOUT_SYN_REXMIT_def c1_def)
  have f: "fsm c1 = fsm c" "syns (outputs c1) = syns (outputs c)" by (simp_all add: c1_def)
  have "nextState (active c1) (fsm c1) E_ABORT = S_CLOSED" "fsm c1 \<noteq> S_CLOSED" "fsm c1 \<noteq> S_TIME_WAIT" using st f by auto
  then show ?thesis
    using stateEntered_closed [of "fsm c1" E_ABORT "c1\<lparr>fsm := S_CLOSED\<rparr>"] f
    by (auto simp: processTimer_def p performStateTransition_def Let_def simp del: fired.simps)
qed

lemma rexmit_again:
  assumes inv: "tcp_inv c" and st: "fsm c = S_SYN_SENT \<or> fsm c = S_SYN_RCVD"
    and n: "syn_rexmit_count c < 12"
  shows "\<exists>c'. processTimer algTimer c T_SYN_REXMIT = Inr (c', True) \<and> fsm c' = fsm c \<and> synRexmitTimer c' = TimerScheduled
    \<and> syn_rexmit_count c' = syn_rexmit_count c + 1 \<and> syn_rexmit_timeout c' = min 240 (2 * syn_rexmit_timeout c)
    \<and> syns (outputs c') = syns (outputs c) + 1"
proof -
  define c1 where "c1 = c\<lparr>synRexmitTimer := TimerIdle, syn_rexmit_count := syn_rexmit_count c + 1\<rparr>"
  have c1: "fsm c1 = fsm c" "syn_rexmit_count c1 = syn_rexmit_count c + 1" "syn_rexmit_timeout c1 = syn_rexmit_timeout c"
    "outputs c1 = outputs c" "synRexmitTimer c1 = TimerIdle" "no_ws c1 = no_ws c" "remoteUnspecified c1 = remoteUnspecified c"
    "remotePort c1 = remotePort c" "localPort c1 = localPort c"
    by (simp_all add: c1_def no_ws_def)
  have w: "no_ws c1" "localPort c1 \<noteq> -1" "fsm c = S_SYN_SENT \<Longrightarrow> \<not> remoteUnspecified c1 \<and> remotePort c1 \<noteq> -1"
    using inv st c1 unfolding tcp_inv_def by auto
  obtain c2 where c2: "(if fsm c1 = S_SYN_SENT then sendSyn c1 else if fsm c1 = S_SYN_RCVD then sendSynAck c1
         else Inl (RuntimeError ''Internal error: SYN-REXMIT timer expired'')) = Inr c2"
    "syn_rexmit_count c2 = syn_rexmit_count c1" "syn_rexmit_timeout c2 = syn_rexmit_timeout c1"
    "syns (outputs c2) = syns (outputs c1) + 1"
    using sendSyn_rexmit [of c1] sendSynAck_rexmit [of c1] st c1 w by auto
  have v: "view c2 = view c1" using c2(1) sendSyn_view [OF w(1)] sendSynAck_view [OF w(1)] by (elim if_InrE) auto
  then have f: "fsm c2 = fsm c" "synRexmitTimer c2 = TimerIdle" using c1 by (simp_all add: view_def)
  have p: "process_TIMEOUT_SYN_REXMIT (fired T_SYN_REXMIT c)
      = Inr (c2\<lparr>syn_rexmit_timeout := min 240 (2 * syn_rexmit_timeout c2), synRexmitTimer := TimerScheduled\<rparr>, E_IGNORE)"
  proof -
    have e: "(fired T_SYN_REXMIT c)\<lparr>syn_rexmit_count := syn_rexmit_count (fired T_SYN_REXMIT c) + 1\<rparr> = c1" by (simp add: c1_def)
    have "\<not> syn_rexmit_count c1 > 12" using n c1 by simp
    then show ?thesis
      unfolding process_TIMEOUT_SYN_REXMIT_def e Let_def c2(1) by (simp add: scheduleTimeout_def f(2))
  qed
  show ?thesis
    using st f c1 c2(2-4) by (auto simp: processTimer_def p performStateTransition_def Let_def simp del: fired.simps)
qed

lemma conn_estab_total:
  assumes inv: "tcp_inv c" and s: "connEstabTimer c = TimerScheduled"
  shows "\<exists>c' b. processTimer algTimer c T_CONN_ESTAB = Inr (c', b)"
proof -
  have st: "fsm c = S_SYN_SENT \<or> fsm c = S_SYN_RCVD" "synRexmitTimer c \<noteq> TimerNull"
    using inv s by (auto simp: tcp_inv_def setup_states_def)
  define c1 where "c1 = (if active c then out (ToApp I_TIMED_OUT) (c\<lparr>connEstabTimer := TimerIdle\<rparr>) else c\<lparr>connEstabTimer := TimerIdle\<rparr>)"
  have p: "process_TIMEOUT_CONN_ESTAB (fired T_CONN_ESTAB c) = Inr c1"
    using st by (auto simp: process_TIMEOUT_CONN_ESTAB_def c1_def)
  have f: "fsm c1 = fsm c" "synRexmitTimer c1 \<noteq> TimerNull" "connEstabTimer c1 = TimerIdle" "active c1 = active c"
    using st by (simp_all add: c1_def out_def)
  have n: "nextState (active c1) (fsm c1) E_TIMEOUT_CONN_ESTAB \<in> {S_CLOSED, S_LISTEN}" using st f by auto
  have "\<exists>c2. stateEntered s' (fsm c1) E_TIMEOUT_CONN_ESTAB (c1\<lparr>fsm := s'\<rparr>) = Inr c2" if "s' \<in> {S_CLOSED, S_LISTEN}" for s'
    using that f by (auto simp: stateEntered_def Let_def cancel_def)
  from this [OF n] show ?thesis
    using st n f by (auto simp: processTimer_def p performStateTransition_def Let_def simp del: fired.simps)
qed


section \<open>Properties\<close>

text \<open>An algorithm that never does anything, and a client that has sent its SYN with the default parameters.\<close>

definition idle_alg :: TCPAlgorithm where
  "idle_alg a c = Inr c"

definition idle_timer :: TCPAlgorithmTimer where
  "idle_timer x c = Inr (c, E_IGNORE)"

definition example_open :: OpenCommand where
  "example_open = \<lparr>oc_localPort = -1, oc_remotePort = 80, oc_remoteUnspecified = False, oc_fork = False, oc_isn = 1000,
     oc_ephemeralPort = 1024, oc_inUse = False\<rparr>"

definition example_client :: TCPConnection where
  "example_client = (case processAppCommand idle_alg (TCPConnection_new example_connection) (C_OPEN_ACTIVE example_open) of
     Inr (c, _) \<Rightarrow> c | Inl _ \<Rightarrow> example_connection)"

lemma idle_keeps: "alg_keeps idle_alg" "timer_keeps idle_timer"
  by (simp_all add: alg_keeps_def timer_keeps_def idle_alg_def idle_timer_def)

lemma example_client_open:
  "processAppCommand idle_alg (TCPConnection_new example_connection) (C_OPEN_ACTIVE example_open) = Inr (example_client, True)"
  by code_simp


lemma example_client_reach: "tcp_reach idle_alg idle_timer example_client"
proof (rule command [OF created _ example_client_open])
  show "\<not> par_windowScalingSupport (par example_connection)" by code_simp
  show "cmd_ok (C_OPEN_ACTIVE example_open)" by code_simp
qed

lemma example_client_state:
  "fsm example_client = S_SYN_SENT \<and> synRexmitTimer example_client = TimerScheduled \<and> connEstabTimer example_client = TimerScheduled
   \<and> syn_rexmit_count example_client = 0 \<and> syn_rexmit_timeout example_client = 3 \<and> syns (outputs example_client) = 1"
  by code_simp





text \<open>The retransmission timer goes off \<open>n\<close> times with nothing else happening.\<close>

fun synTimeouts :: "TCPAlgorithmTimer \<Rightarrow> nat \<Rightarrow> TCPConnection \<Rightarrow> (TCPConnection \<times> bool) outcome" where
  "synTimeouts algTimer 0 c = Inr (c, True)"
| "synTimeouts algTimer (Suc n) c =
     outcome_bind (synTimeouts algTimer n c) (\<lambda>(c1, _). processTimer algTimer c1 T_SYN_REXMIT)"

lemma backoff_step: "min 240 (2 * min 240 (3 * 2 ^ n)) = min (240::nat) (3 * 2 ^ Suc n)"
  by (simp add: min_def)

lemma synTimeouts_sent:
  assumes t: "timer_keeps algTimer" and inv: "tcp_inv c" and st: "fsm c = S_SYN_SENT \<or> fsm c = S_SYN_RCVD"
    and s: "synRexmitTimer c = TimerScheduled" and z: "syn_rexmit_count c = 0" "syn_rexmit_timeout c = 3"
  shows "n \<le> 12 \<Longrightarrow> \<exists>c'. synTimeouts algTimer n c = Inr (c', True) \<and> tcp_inv c' \<and> fsm c' = fsm c \<and> synRexmitTimer c' = TimerScheduled
    \<and> syn_rexmit_count c' = n \<and> syn_rexmit_timeout c' = min 240 (3 * 2 ^ n) \<and> syns (outputs c') = syns (outputs c) + n"
proof (induction n)
  case 0
  then show ?case using inv s z by simp
next
  case (Suc n)
  then obtain c1 where c1: "synTimeouts algTimer n c = Inr (c1, True)" "tcp_inv c1" "fsm c1 = fsm c" "synRexmitTimer c1 = TimerScheduled"
    "syn_rexmit_count c1 = n" "syn_rexmit_timeout c1 = min 240 (3 * 2 ^ n)" "syns (outputs c1) = syns (outputs c) + n" by auto
  then obtain c2 where c2: "processTimer algTimer c1 T_SYN_REXMIT = Inr (c2, True)" "fsm c2 = fsm c1" "synRexmitTimer c2 = TimerScheduled"
    "syn_rexmit_count c2 = syn_rexmit_count c1 + 1" "syn_rexmit_timeout c2 = min 240 (2 * syn_rexmit_timeout c1)"
    "syns (outputs c2) = syns (outputs c1) + 1"
    using rexmit_again [OF c1(2), of algTimer] st Suc.prems by auto
  have "tcp_inv c2" using timer_inv [OF t c1(2) _ _ c2(1)] c1(4) by simp
  with c1 c2 show ?case by (simp add: backoff_step del: power_Suc)
qed




section \<open>A SYN whose text does not fit\<close>

text \<open>A server with the default parameters, and a SYN with 8000 bytes of text.\<close>

definition example_server :: TCPConnection where
  "example_server = (case processAppCommand idle_alg (TCPConnection_new example_connection)
       (C_OPEN_PASSIVE (example_open\<lparr>oc_localPort := 80\<rparr>)) of Inr (c, _) \<Rightarrow> c | Inl _ \<Rightarrow> example_connection)"

definition big_syn :: TCPSegment where
  "big_syn = newSegment\<lparr>sequenceNo := 5000, synBit := True, payloadLength := 8000\<rparr>"

definition plain_header :: TCPHeader where
  "plain_header = \<lparr>hd_destMatches = True, hd_srcMatches = True, hd_srcPort = 1024, hd_window = 7504, hd_headerLength = 20, hd_options = []\<rparr>"


end
