(* ===== verification/TCP_Sender.thy ===== *)
theory TCP_Sender
  imports TCP_Setup
begin

text \<open>
  The sending side of a connection: \<^verbatim>\<open>sendSegment\<close>, \<^verbatim>\<open>sendData\<close>,
  \<^verbatim>\<open>sendProbe\<close>, the retransmissions and \<^verbatim>\<open>sendOneNewSegment\<close> of
  \<^verbatim>\<open>src/src/transport/tcp/TCPConnectionUtil.cc\<close>.  The congestion control algorithm calls
  these; the notifications they send back to it are recorded.  The two loops are partial functions, because whether
  they end depends on the amount each \<^verbatim>\<open>sendSegment\<close> really sends.
\<close>

section \<open>One segment\<close>

text \<open>After a retransmission timeout, bytes that are known to have arrived are skipped.\<close>

definition skipSacked :: "TCPConnection \<Rightarrow> TCPConnection outcome" where
  "skipSacked c =
     (if sack_enabled c \<and> afterRto (tcb c)
      then askRexmitQueue c (\<lambda>q.
        outcome_bind (checkRexmitQueueForSackedOrRexmittedSegments q (snd_nxt (tcb c))) (\<lambda>forward.
          Inr (c\<lparr>tcb := (tcb c)\<lparr>snd_nxt := snd_nxt (tcb c) + forward\<rparr>\<rparr>)))
      else Inr c)"

text \<open>The application is asked for more data when there is room for a segment in the send queue.\<close>

definition requestData :: "TCPConnection \<Rightarrow> TCPConnection" where
  "requestData c =
     (let alreadyQueued = getBytesAvailable (sendQueue c) (sq_begin (sendQueue c));
          abated = (if sendQueueLimit c > alreadyQueued then sendQueueLimit c - alreadyQueued else 0)
      in if sendQueueLimit c > 0 \<and> \<not> queueUpdate c \<and> abated \<ge> snd_mss (tcb c)
         then (out (ToApp (I_SEND_MSG abated)) c)\<lparr>queueUpdate := True\<rparr> else c)"

definition advanceNxt :: "u32 \<Rightarrow> TCPConnection \<Rightarrow> TCPConnection \<times> bool" where
  "advanceNxt bytes c =
     (let nxt = snd_nxt (tcb c) + bytes; fin = (send_fin c \<and> nxt = snd_fin_seq c)
      in (c\<lparr>tcb := (tcb c)\<lparr>snd_nxt := (if fin then snd_fin_seq c + 1 else nxt),
                          afterRto := (afterRto (tcb c) \<and> \<not> seqGE nxt (snd_max (tcb c)))\<rparr>\<rparr>, fin))"

definition transmit :: "u32 \<Rightarrow> TCPOption list \<Rightarrow> TCPConnection \<Rightarrow> TCPConnection outcome" where
  "transmit bytes opts c =
     outcome_bind (createSegmentWithBytes (sendQueue c) (snd_nxt (tcb c)) bytes) (\<lambda>g.
     outcome_bind (if sack_enabled c
                   then onRexmitQueue c (\<lambda>q. enqueueSentData q (snd_nxt (tcb c)) (snd_nxt (tcb c) + bytes)) else Inr c) (\<lambda>c1.
     withRcvWnd c1 (\<lambda>c2 w.
       if bytes \<noteq> payloadLength g then Inl (AssertFailed ''bytes == tcpseg->getPayloadLength()'')
       else
         let (c3, fin) = advanceNxt bytes c2
         in outcome_bind (sendToIP (g\<lparr>ackNo := st_rcv_nxt (tcb c1), ackBit := True, finBit := fin\<rparr>) w opts c3) (\<lambda>c4.
              Inr (requestData c4)))))"

definition sendSegment :: "u32 \<Rightarrow> TCPConnection \<Rightarrow> TCPConnection outcome" where
  "sendSegment bytes0 c =
     outcome_bind (skipSacked c) (\<lambda>c0.
       let buffered = getBytesAvailable (sendQueue c0) (snd_nxt (tcb c0));
           bytes1 = (if bytes0 > buffered then buffered else bytes0)
       in outcome_bind (writeHeaderOptions False True c0) (\<lambda>(c1, opts).
            let options_len = of_nat (getOptionsArrayLength opts) :: u32; mss = snd_mss (tcb c1)
            in if \<not> options_len < mss then Inl (AssertFailed ''options_len < state->snd_mss'')
               else
                 let bytes = (if bytes1 + options_len > mss then mss - options_len else bytes1)
                 in transmit bytes opts (c1\<lparr>sentBytes := bytes\<rparr>)))"

section \<open>New data\<close>

text \<open>\<^verbatim>\<open>SND.MAX\<close> follows \<open>SND.NXT\<close>.\<close>

definition raiseMax :: "TCPConnection \<Rightarrow> TCPConnection" where
  "raiseMax c =
     (if seqGreater (snd_nxt (tcb c)) (snd_max (tcb c)) then c\<lparr>tcb := (tcb c)\<lparr>snd_max := snd_nxt (tcb c)\<rparr>\<rparr> else c)"

text \<open>Whole segments as long as the window has room for one; \<open>bytesToSend\<close> is an \<^verbatim>\<open>ulong\<close>.\<close>

partial_function (option) sendLoop :: "u32 \<Rightarrow> u64 \<Rightarrow> TCPConnection \<Rightarrow> (TCPConnection \<times> u64) outcome option" where
  "sendLoop effectiveMaxBytesSend bytesToSend c =
     (if bytesToSend \<ge> ucast effectiveMaxBytesSend then
        (case sendSegment (snd_mss (tcb c)) c of
           Inl e \<Rightarrow> Some (Inl e)
         | Inr c1 \<Rightarrow> sendLoop effectiveMaxBytesSend (bytesToSend - ucast (sentBytes c1)) c1)
      else Some (Inr (c, bytesToSend)))"

declare sendLoop.simps [code]

definition sendSegments :: "u32 \<Rightarrow> u64 \<Rightarrow> TCPConnection \<Rightarrow> (TCPConnection \<times> u64) outcome" where
  "sendSegments effectiveMaxBytesSend bytesToSend c =
     (if bytesToSend \<le> ucast (snd_mss (tcb c))
      then outcome_bind (sendSegment (ucast bytesToSend) c) (\<lambda>c1. Inr (c1, bytesToSend - ucast (sentBytes c1)))
      else returning (sendLoop effectiveMaxBytesSend bytesToSend c))"

definition lastSegment :: "u64 \<Rightarrow> TCPConnection \<Rightarrow> TCPConnection outcome" where
  "lastSegment bytesToSend c =
     (let buffered = ucast (getBytesAvailable (sendQueue c) (snd_nxt (tcb c))) :: u64
      in if bytesToSend = buffered \<and> buffered \<noteq> 0 then sendSegment (ucast bytesToSend) c else Inr c)"

definition highestRexmitted :: "TCPConnection \<Rightarrow> u32 outcome" where
  "highestRexmitted c = askRexmitQueue c (\<lambda>q. Inr (getHighestRexmittedSeqNum q))"

definition dataSentNotice :: "u32 \<Rightarrow> u32 \<Rightarrow> TCPConnection \<Rightarrow> TCPConnection" where
  "dataSentNotice old_highRxt old_snd_nxt c =
     (let c1 = out (ToAlgorithm A_ackSent) c
      in if sack_enabled c1 \<and> lossRecovery c1 \<and> old_highRxt \<noteq> highRxt c1 then out (ToAlgorithm A_restartRexmitTimer) c1
         else out (ToAlgorithm (A_dataSent old_snd_nxt)) c1)"

text \<open>The bytes the effective window lets out: a \<^verbatim>\<open>long\<close>, so no wrap-around.\<close>

definition effectiveWin :: "u32 \<Rightarrow> TCPConnection \<Rightarrow> int" where
  "effectiveWin congestionWindow c = uint (min (snd_wnd c) congestionWindow) - uint (snd_nxt (tcb c) - snd_una (tcb c))"

definition effectiveMaxBytes :: "TCPConnection \<Rightarrow> u32" where
  "effectiveMaxBytes c = (if ts_enabled c then snd_mss (tcb c) - TCP_OPTION_TS_SIZE else snd_mss (tcb c))"

text \<open>New data is sent from \<open>SND.MAX\<close> on, except after a retransmission timeout.\<close>

definition sendFrom :: "TCPConnection \<Rightarrow> TCPConnection" where
  "sendFrom c = (if \<not> afterRto (tcb c) then c\<lparr>tcb := (tcb c)\<lparr>snd_nxt := snd_max (tcb c)\<rparr>\<rparr> else c)"

definition sendData :: "bool \<Rightarrow> u32 \<Rightarrow> TCPConnection \<Rightarrow> (TCPConnection \<times> bool) outcome" where
  "sendData fullSegmentsOnly congestionWindow c0 =
     (let c = sendFrom c0
      in outcome_bind (if sack_enabled c then highestRexmitted c else Inr 0) (\<lambda>old_highRxt.
        let buffered = getBytesAvailable (sendQueue c) (snd_nxt (tcb c)); win = effectiveWin congestionWindow c
        in if buffered = 0 then Inr (c, False)
           else if win \<le> 0 then Inr (c, False)
           else
             let bytesToSend = (if word_of_int win > (ucast buffered :: u64) then ucast buffered else word_of_int win)
             in if fullSegmentsOnly \<and> bytesToSend < ucast (effectiveMaxBytes c) then Inr (c, False)
                else outcome_bind (sendSegments (effectiveMaxBytes c) bytesToSend c) (\<lambda>(c1, rest).
                     outcome_bind (lastSegment rest c1) (\<lambda>c2.
                       Inr (dataSentNotice old_highRxt (snd_nxt (tcb c)) (raiseMax c2), True)))))"

definition sendProbe :: "TCPConnection \<Rightarrow> (TCPConnection \<times> bool) outcome" where
  "sendProbe c0 =
     (let c = c0\<lparr>tcb := (tcb c0)\<lparr>snd_nxt := snd_max (tcb c0)\<rparr>\<rparr>
      in if getBytesAvailable (sendQueue c) (snd_nxt (tcb c)) = 0 then Inr (c, False)
         else outcome_bind (sendSegment 1 c) (\<lambda>c1.
           let c2 = c1\<lparr>tcb := (tcb c1)\<lparr>snd_max := snd_nxt (tcb c1)\<rparr>\<rparr>
           in Inr (out (ToAlgorithm (A_dataSent (snd_nxt (tcb c)))) (out (ToAlgorithm A_ackSent) c2), True)))"

section \<open>Retransmission\<close>

text \<open>Our FIN alone is sent again; \<open>notify\<close> is what the algorithm is told in between.\<close>

definition resendFin :: "(TCPConnection \<Rightarrow> TCPConnection) \<Rightarrow> TCPConnection \<Rightarrow> TCPConnection outcome" where
  "resendFin notify c =
     (let e = sq_end (sendQueue c); c1 = c\<lparr>tcb := (tcb c)\<lparr>snd_max := e, snd_nxt := e\<rparr>\<rparr>
      in outcome_bind (sendFin c1) (\<lambda>c2.
           let c3 = notify c2; nxt = snd_nxt (tcb c3) + 1
           in Inr (c3\<lparr>tcb := (tcb c3)\<lparr>snd_nxt := nxt, snd_max := nxt\<rparr>\<rparr>)))"

definition retransmitOneSegment :: "bool \<Rightarrow> TCPConnection \<Rightarrow> TCPConnection outcome" where
  "retransmitOneSegment called_at_rto c0 =
     (let old_snd_nxt = snd_nxt (tcb c0); c = c0\<lparr>tcb := (tcb c0)\<lparr>snd_nxt := snd_una (tcb c0)\<rparr>\<rparr>;
          bytes = min (min (snd_mss (tcb c)) (snd_max (tcb c) - snd_nxt (tcb c))) (getBytesAvailable (sendQueue c) (snd_nxt (tcb c)))
      in if bytes = 0 \<and> send_fin c \<and> snd_fin_seq c = sq_end (sendQueue c)
         then resendFin (\<lambda>c2. out (ToAlgorithm (A_segmentRetransmitted (snd_nxt (tcb c2)) (snd_nxt (tcb c2) + 1))) c2) c
         else if bytes = 0 then Inl (AssertFailed ''bytes != 0'')
         else outcome_bind (sendSegment bytes c) (\<lambda>c1.
           let c2 = out (ToAlgorithm (A_segmentRetransmitted (snd_una (tcb c1)) (snd_nxt (tcb c1)))) c1;
               c3 = (if \<not> called_at_rto \<and> seqGreater old_snd_nxt (snd_nxt (tcb c2))
                     then c2\<lparr>tcb := (tcb c2)\<lparr>snd_nxt := old_snd_nxt\<rparr>\<rparr> else c2);
               c4 = out (ToAlgorithm A_ackSent) c3
           in if sack_enabled c4 then outcome_bind (highestRexmitted c4) (\<lambda>h. Inr (c4\<lparr>highRxt := h\<rparr>)) else Inr c4))"

partial_function (option) retransmitLoop :: "u32 \<Rightarrow> TCPConnection \<Rightarrow> TCPConnection outcome option" where
  "retransmitLoop bytesToSend c =
     (if bytesToSend > 0 then
        (case sendSegment (min (min bytesToSend (snd_mss (tcb c))) (getBytesAvailable (sendQueue c) (snd_nxt (tcb c)))) c of
           Inl e \<Rightarrow> Some (Inl e)
         | Inr c1 \<Rightarrow>
             if send_fin c1 \<and> snd_nxt (tcb c1) = snd_fin_seq c1 + 1 then Some (Inr c1)
             else retransmitLoop (bytesToSend - sentBytes c1) c1)
      else Some (Inr c))"

declare retransmitLoop.simps [code]

definition retransmitData :: "TCPConnection \<Rightarrow> TCPConnection outcome" where
  "retransmitData c0 =
     (let c = c0\<lparr>tcb := (tcb c0)\<lparr>snd_nxt := snd_una (tcb c0)\<rparr>\<rparr>; bytesToSend = snd_max (tcb c) - snd_nxt (tcb c)
      in if bytesToSend = 0 \<and> send_fin c \<and> snd_fin_seq c = sq_end (sendQueue c) then resendFin (\<lambda>c2. c2) c
         else if bytesToSend = 0 then Inl (AssertFailed ''bytesToSend != 0'')
         else outcome_bind (returning (retransmitLoop bytesToSend c)) (\<lambda>c1.
           Inr (out (ToAlgorithm (A_segmentRetransmitted (snd_una (tcb c1)) (snd_nxt (tcb c1)))) c1)))"

section \<open>Limited transmit\<close>

definition sendOneNewSegment :: "bool \<Rightarrow> u32 \<Rightarrow> TCPConnection \<Rightarrow> TCPConnection outcome" where
  "sendOneNewSegment fullSegmentsOnly congestionWindow c =
     (let buffered = getBytesAvailable (sendQueue c) (snd_max (tcb c)); mss = snd_mss (tcb c);
          outstanding = snd_max (tcb c) - snd_una (tcb c);
          bytes = min (min (snd_wnd c) congestionWindow - outstanding + 2 * mss) mss
      in if \<not> limited_transmit_enabled c then Inl (AssertFailed ''state->limited_transmit_enabled'')
         else if (\<not> sack_enabled c \<or> sackedBytes_old c \<noteq> sackedBytes c)
           \<and> (buffered \<ge> mss \<or> (\<not> fullSegmentsOnly \<and> buffered > 0))
           \<and> uint outstanding + uint mss \<le> uint (snd_wnd c) \<and> uint outstanding + uint mss \<le> uint (congestionWindow + 2 * mss)
           \<and> (bytes \<ge> mss \<or> (\<not> fullSegmentsOnly \<and> bytes > 0))
         then outcome_bind (sendSegment bytes (c\<lparr>tcb := (tcb c)\<lparr>snd_nxt := snd_max (tcb c)\<rparr>\<rparr>)) (\<lambda>c1.
           let c2 = raiseMax c1;
               c3 = (if afterRto (tcb c2) then c2\<lparr>tcb := (tcb c2)\<lparr>snd_nxt := snd_nxt (tcb c) + sentBytes c2\<rparr>\<rparr> else c2)
           in Inr (out (ToAlgorithm (A_dataSent (snd_nxt (tcb c)))) (out (ToAlgorithm A_ackSent) c3)))
         else Inr c)"

end
