(* ===== verification/TCP_Send_Props.thy ===== *)
theory TCP_Send_Props
  imports TCP_Sender
begin

text \<open>
  What the sending side puts on the wire, for a sender without SACK: the segments follow each other without gap, stay in
  the window, and the loops end; and one case, data sent in CLOSE-WAIT with timestamps, where they do not.
\<close>

section \<open>What one segment does\<close>

text \<open>The data segments among the outputs: where they start and how long they are.\<close>

fun segs :: "TcpOut list \<Rightarrow> (u32 \<times> u32) list" where
  "segs [] = []"
| "segs (ToIP g w opts # xs) = (sequenceNo g, payloadLength g) # segs xs"
| "segs (ToApp i # xs) = segs xs"
| "segs (ToAlgorithm a # xs) = segs xs"

lemma segs_append [simp]: "segs (xs @ ys) = segs xs @ segs ys"
  by (induction xs rule: segs.induct) auto

text \<open>What sending leaves alone.\<close>

definition sview :: "TCPConnection \<Rightarrow> (u32 \<times> u32 \<times> u32 \<times> u32) \<times> (TCPVirtualDataSendQueue \<times> bool \<times> u32) \<times> (bool \<times> bool \<times> bool \<times> TcpState)" where
  "sview c = ((snd_una (tcb c), snd_max (tcb c), snd_mss (tcb c), snd_wnd c), (sendQueue c, send_fin c, snd_fin_seq c),
     (ws_enabled (tcb c), ts_enabled c, sack_enabled c, fsm c))"

definition option_states :: "TcpState set" where
  "option_states = {S_SYN_SENT, S_SYN_RCVD, S_ESTABLISHED, S_FIN_WAIT_1, S_FIN_WAIT_2}"

definition optBytes :: "TCPConnection \<Rightarrow> nat" where
  "optBytes c = (if ts_enabled c \<and> fsm c \<in> option_states then 12 else 0)"

text \<open>A sender without SACK and window scaling, with room in the sequence space: the send queue holds less than half
  of it, the next byte to send is in it, and a FIN that is waiting comes right after it.\<close>

definition sender_ok :: "TCPConnection \<Rightarrow> bool" where
  "sender_ok c \<longleftrightarrow> \<not> sack_enabled c \<and> \<not> ws_enabled (tcb c) \<and> 12 < snd_mss (tcb c) \<and> snd_mss (tcb c) \<le> 65535
     \<and> off (sq_begin (sendQueue c)) (sq_end (sendQueue c)) < 2 ^ 31 - 1 \<and> (send_fin c \<longrightarrow> snd_fin_seq c = sq_end (sendQueue c))"

definition unsent :: "TCPConnection \<Rightarrow> nat" where
  "unsent c = unat (getBytesAvailable (sendQueue c) (snd_nxt (tcb c)))"

definition nxt_ok :: "TCPConnection \<Rightarrow> bool" where
  "nxt_ok c \<longleftrightarrow> off (sq_begin (sendQueue c)) (snd_nxt (tcb c)) \<le> off (sq_begin (sendQueue c)) (sq_end (sendQueue c))"

lemma sender_ok_view: "sview c' = sview c \<Longrightarrow> sender_ok c' = sender_ok c"
  by (simp add: sview_def sender_ok_def)

lemma sviewD:
  assumes "sview c' = sview c"
  shows "sendQueue c' = sendQueue c" "send_fin c' = send_fin c" "snd_fin_seq c' = snd_fin_seq c" "snd_mss (tcb c') = snd_mss (tcb c)"
    "snd_una (tcb c') = snd_una (tcb c)" "snd_max (tcb c') = snd_max (tcb c)" "snd_wnd c' = snd_wnd c" "ts_enabled c' = ts_enabled c"
    "sack_enabled c' = sack_enabled c" "fsm c' = fsm c" "ws_enabled (tcb c') = ws_enabled (tcb c)"
  using assms by (simp_all add: sview_def)

lemma optBytes_view: "sview c' = sview c \<Longrightarrow> optBytes c' = optBytes c"
  by (simp add: sview_def optBytes_def)

lemma unsent_off:
  assumes "sender_ok c" "nxt_ok c"
  shows "unsent c = off (sq_begin (sendQueue c)) (sq_end (sendQueue c)) - off (sq_begin (sendQueue c)) (snd_nxt (tcb c))"
proof -
  let ?b = "sq_begin (sendQueue c)"
  have w: "in_win ?b (sq_end (sendQueue c))" "in_win ?b (snd_nxt (tcb c))"
    using assms by (auto simp: sender_ok_def nxt_ok_def in_win_def)
  show ?thesis
    using assms unat_diff_off [of ?b "snd_nxt (tcb c)" "sq_end (sendQueue c)"] seqLess_off [OF w(2) w(1)]
    by (auto simp: unsent_def getBytesAvailable_def nxt_ok_def)
qed

lemma nopOption_simps [simp]: "optLength nopOption = 1"
  by (simp add: nopOption_def)

lemma writeHeaderOptions_data:
  assumes "\<not> sack_enabled c"
  shows "\<exists>opts. writeHeaderOptions False True c = Inr (c, opts) \<and> getOptionsArrayLength opts = optBytes c"
  using assms
  by (auto simp: writeHeaderOptions_def writeDataOptions_def Let_def optBytes_def option_states_def getOptionsArrayLength_def tsOption_def)


definition finNow :: "nat \<Rightarrow> TCPConnection \<Rightarrow> bool" where
  "finNow n c \<longleftrightarrow> send_fin c \<and> n = unsent c"

lemma nxt_plus:
  assumes ok: "sender_ok c" "nxt_ok c" and k: "unat n \<le> unsent c"
  shows "off (sq_begin (sendQueue c)) (snd_nxt (tcb c) + n) = off (sq_begin (sendQueue c)) (snd_nxt (tcb c)) + unat n"
    "snd_nxt (tcb c) + n = sq_end (sendQueue c) \<longleftrightarrow> unat n = unsent c"
proof -
  let ?b = "sq_begin (sendQueue c)"
  have e: "off ?b (sq_end (sendQueue c)) < 2 ^ 31 - 1" "off ?b (snd_nxt (tcb c)) \<le> off ?b (sq_end (sendQueue c))"
    using ok by (auto simp: sender_ok_def nxt_ok_def)
  have "off ?b (snd_nxt (tcb c)) + unat n \<le> off ?b (sq_end (sendQueue c))"
    using k unsent_off [OF ok] e(2) by linarith
  then show o: "off ?b (snd_nxt (tcb c) + n) = off ?b (snd_nxt (tcb c)) + unat n"
    using e(1) by (intro off_add) simp
  show "snd_nxt (tcb c) + n = sq_end (sendQueue c) \<longleftrightarrow> unat n = unsent c"
    using off_eq_iff [of ?b "snd_nxt (tcb c) + n" "sq_end (sendQueue c)"] o unsent_off [OF ok] e(2) by auto
qed

lemma createSegment_plain:
  assumes ok: "sender_ok c" "nxt_ok c" and k: "unat n \<le> unsent c"
  shows "\<exists>g. createSegmentWithBytes (sendQueue c) (snd_nxt (tcb c)) n = Inr g \<and> sequenceNo g = snd_nxt (tcb c) \<and> payloadLength g = n"
proof -
  let ?b = "sq_begin (sendQueue c)"
  have e: "off ?b (sq_end (sendQueue c)) < 2 ^ 31 - 1" "off ?b (snd_nxt (tcb c)) \<le> off ?b (sq_end (sendQueue c))"
    using ok by (auto simp: sender_ok_def nxt_ok_def)
  have n: "off ?b (snd_nxt (tcb c) + n) \<le> off ?b (sq_end (sendQueue c))"
    using k unsent_off [OF ok] nxt_plus(1) [OF ok k] e(2) by linarith
  have w: "in_win ?b (snd_nxt (tcb c))" "in_win ?b (snd_nxt (tcb c) + n)" "in_win ?b (sq_end (sendQueue c))"
    using e n by (auto simp: in_win_def)
  have "seqLE ?b (snd_nxt (tcb c))" "seqLE (snd_nxt (tcb c) + n) (sq_end (sendQueue c))"
    using seqLE_off [OF in_win_self w(1)] seqLE_off [OF w(2,3)] n by auto
  then show ?thesis by (simp add: createSegmentWithBytes_def)
qed

lemma updateRcvWnd_plain:
  assumes ws: "\<not> ws_enabled (tcb c)"
  shows "\<exists>st w. updateRcvWnd (tcb c) (receiveQueue c) = Inr (st, w) \<and> sview (c\<lparr>tcb := st\<rparr>) = sview c
    \<and> snd_nxt st = snd_nxt (tcb c) \<and> afterRto st = afterRto (tcb c)"
proof -
  obtain st w where u: "updateRcvWnd (tcb c) (receiveQueue c) = Inr (st, w)" using updateRcvWnd_total [OF ws] by blast
  have "snd_una st = snd_una (tcb c) \<and> snd_max st = snd_max (tcb c) \<and> snd_mss st = snd_mss (tcb c) \<and> ws_enabled st = ws_enabled (tcb c)
      \<and> snd_nxt st = snd_nxt (tcb c) \<and> afterRto st = afterRto (tcb c)"
    using u by (auto simp: updateRcvWnd_def Let_def updateRcvQueueVars_def split: if_splits)
  then show ?thesis using u by (simp add: sview_def)
qed

lemma requestData_plain:
  "sview (requestData c) = sview c" "segs (outputs (requestData c)) = segs (outputs c)" "snd_nxt (tcb (requestData c)) = snd_nxt (tcb c)"
  "afterRto (tcb (requestData c)) = afterRto (tcb c)" "sentBytes (requestData c) = sentBytes c"
  by (simp_all add: requestData_def Let_def out_def sview_def)

lemma transmit_plain:
  assumes ok: "sender_ok c" "nxt_ok c" and k: "unat n \<le> unsent c" and opts: "getOptionsArrayLength opts \<le> 40"
  shows "\<exists>c'. transmit n opts c = Inr c' \<and> sview c' = sview c \<and> sentBytes c' = n
    \<and> segs (outputs c') = segs (outputs c) @ [(snd_nxt (tcb c), n)]
    \<and> snd_nxt (tcb c') = snd_nxt (tcb c) + n + (if finNow (unat n) c then 1 else 0)
    \<and> (afterRto (tcb c') \<longrightarrow> afterRto (tcb c))"
proof -
  obtain g where g: "createSegmentWithBytes (sendQueue c) (snd_nxt (tcb c)) n = Inr g" "sequenceNo g = snd_nxt (tcb c)" "payloadLength g = n"
    using createSegment_plain [OF ok k] by blast
  obtain st w where w: "updateRcvWnd (tcb c) (receiveQueue c) = Inr (st, w)"
    and st: "sview (c\<lparr>tcb := st\<rparr>) = sview c" "snd_nxt st = snd_nxt (tcb c)" "afterRto st = afterRto (tcb c)"
    using updateRcvWnd_plain [of c] ok(1) unfolding sender_ok_def by blast
  define c1 where "c1 = c\<lparr>tcb := st\<rparr>"
  have c1: "sview c1 = sview c" "outputs c1 = outputs c" "snd_nxt (tcb c1) = snd_nxt (tcb c)" "afterRto (tcb c1) = afterRto (tcb c)"
    using st by (simp_all add: c1_def)
  define fin where "fin = (send_fin c1 \<and> snd_nxt (tcb c1) + n = snd_fin_seq c1)"
  define c2 where "c2 = fst (advanceNxt n c1)"
  have a: "advanceNxt n c1 = (c2, fin)" by (simp add: advanceNxt_def Let_def c2_def fin_def)
  have c2: "sview c2 = sview c1" "outputs c2 = outputs c1" "snd_nxt (tcb c2) = snd_nxt (tcb c1) + n + (if fin then 1 else 0)"
    "afterRto (tcb c2) \<longrightarrow> afterRto (tcb c1)"
    by (auto simp: c2_def advanceNxt_def Let_def sview_def fin_def)
  have fin: "fin = finNow (unat n) c"
    using nxt_plus(2) [OF ok k] ok(1) c1 by (auto simp: fin_def finNow_def sender_ok_def sview_def)
  define g' where "g' = g\<lparr>ackNo := st_rcv_nxt (tcb c), ackBit := True, finBit := fin\<rparr>"
  define c3 where "c3 = out (ToIP g' w opts) (c2\<lparr>sentBytes := n\<rparr>)"
  have c3: "sview c3 = sview c2" "outputs c3 = outputs c2 @ [ToIP g' w opts]" "tcb c3 = tcb c2" "sentBytes c3 = n"
    using g by (simp_all add: c3_def out_def sview_def g'_def)
  have "transmit n opts c = Inr (requestData c3)"
    using ok(1) g a w
    by (simp add: transmit_def withRcvWnd_def sender_ok_def c1_def [symmetric] g'_def [symmetric] sendToIP_total [OF opts] c3_def [symmetric])
  then show ?thesis
    using c1 c2 c3 g fin by (intro exI [of _ "requestData c3"]) (simp add: requestData_plain g'_def)
qed

lemma sendSegment_plain:
  assumes ok: "sender_ok c" "nxt_ok c" and b: "b \<le> snd_mss (tcb c)"
  defines "k \<equiv> min (min (unat b) (unsent c)) (unat (snd_mss (tcb c)) - optBytes c)"
  shows "\<exists>c'. sendSegment b c = Inr c' \<and> sview c' = sview c \<and> unat (sentBytes c') = k
    \<and> segs (outputs c') = segs (outputs c) @ [(snd_nxt (tcb c), of_nat k)]
    \<and> snd_nxt (tcb c') = snd_nxt (tcb c) + of_nat k + (if finNow k c then 1 else 0)
    \<and> (afterRto (tcb c') \<longrightarrow> afterRto (tcb c))"
proof -
  obtain opts where o: "writeHeaderOptions False True c = Inr (c, opts)" "getOptionsArrayLength opts = optBytes c"
    using writeHeaderOptions_data [of c] ok(1) by (auto simp: sender_ok_def)
  let ?m = "snd_mss (tcb c)" and ?T = "of_nat (optBytes c) :: u32"
  define b1 where "b1 = (if b > getBytesAvailable (sendQueue c) (snd_nxt (tcb c)) then getBytesAvailable (sendQueue c) (snd_nxt (tcb c)) else b)"
  define n where "n = (if b1 + ?T > ?m then ?m - ?T else b1)"
  have m: "12 < unat ?m" "unat ?m \<le> 65535" using ok(1) by (auto simp: sender_ok_def word_less_nat_alt word_le_nat_alt)
  have T: "unat ?T = optBytes c" "optBytes c \<le> 12" by (auto simp: optBytes_def)
  have b1: "unat b1 = min (unat b) (unsent c)"
    by (auto simp: b1_def unsent_def word_less_nat_alt min_def not_less)
  have "unat b1 \<le> 65535" using b1 b m(2) by (simp add: word_le_nat_alt)
  then have "unat (b1 + ?T) = unat b1 + optBytes c" "unat (?m - ?T) = unat ?m - optBytes c"
    using T m unat_add_lem [of b1 ?T] unat_sub [of ?T ?m] by (simp_all add: word_le_nat_alt)
  then have n: "unat n = k" using m T b1 by (auto simp: n_def k_def word_less_nat_alt)
  have lt: "?T < ?m" using T m by (simp add: word_less_nat_alt)
  have sk: "skipSacked c = Inr c" using ok(1) by (simp add: skipSacked_def sender_ok_def)
  have s: "sendSegment b c = transmit n opts (c\<lparr>sentBytes := n\<rparr>)"
    unfolding sendSegment_def sk outcome_bind.simps Let_def b1_def [symmetric] o(1) prod.case o(2) n_def [symmetric]
    using lt by simp
  have v: "sview (c\<lparr>sentBytes := n\<rparr>) = sview c" "nxt_ok (c\<lparr>sentBytes := n\<rparr>)" "unsent (c\<lparr>sentBytes := n\<rparr>) = unsent c"
    "finNow k (c\<lparr>sentBytes := n\<rparr>) = finNow k c"
    using ok(2) by (simp_all add: sview_def nxt_ok_def unsent_def finNow_def)
  have "unat n \<le> unsent (c\<lparr>sentBytes := n\<rparr>)" using n k_def v(3) by simp
  moreover have "n = of_nat k" by (simp flip: n)
  moreover have "sender_ok (c\<lparr>sentBytes := n\<rparr>)" using sender_ok_view [OF v(1)] ok(1) by simp
  ultimately obtain c' where "transmit n opts (c\<lparr>sentBytes := n\<rparr>) = Inr c'" "sview c' = sview c" "sentBytes c' = n"
    "segs (outputs c') = segs (outputs c) @ [(snd_nxt (tcb c), n)]"
    "snd_nxt (tcb c') = snd_nxt (tcb c) + n + (if finNow k c then 1 else 0)" "afterRto (tcb c') \<longrightarrow> afterRto (tcb c)"
    using transmit_plain [of "c\<lparr>sentBytes := n\<rparr>" n opts] v o(2) T(2) n by auto
  then show ?thesis using n \<open>n = of_nat k\<close> unfolding s by (intro exI [of _ c']) simp
qed

section \<open>Runs of segments\<close>

text \<open>\<open>seg_chain a xs n\<close>: the segments follow each other without gap from \<open>a\<close> and hold \<open>n\<close> bytes.\<close>

fun seg_chain :: "u32 \<Rightarrow> (u32 \<times> u32) list \<Rightarrow> nat \<Rightarrow> bool" where
  "seg_chain a [] n = (n = 0)"
| "seg_chain a (x # xs) n = (fst x = a \<and> unat (snd x) \<le> n \<and> seg_chain (a + snd x) xs (n - unat (snd x)))"

lemma seg_chain_append: "seg_chain a xs n \<Longrightarrow> seg_chain (a + of_nat n) ys m \<Longrightarrow> seg_chain a (xs @ ys) (n + m)"
proof (induction xs arbitrary: a n)
  case (Cons x xs)
  have x: "fst x = a" "unat (snd x) \<le> n" "seg_chain (a + snd x) xs (n - unat (snd x))" using Cons.prems(1) by simp_all
  have e: "a + snd x + of_nat (n - unat (snd x)) = a + of_nat n" using x(2) by (simp add: of_nat_diff)
  have "seg_chain (a + snd x) (xs @ ys) (n - unat (snd x) + m)" by (rule Cons.IH [OF x(3), unfolded e, OF Cons.prems(2)])
  moreover have "n - unat (snd x) + m = n + m - unat (snd x)" using x(2) by simp
  ultimately show ?case using x by simp
qed simp

text \<open>Between \<open>c\<close> and \<open>c'\<close> the next \<open>n\<close> bytes went out in the segments \<open>L\<close>, with the FIN if that was all.\<close>

definition sent :: "TCPConnection \<Rightarrow> nat \<Rightarrow> (u32 \<times> u32) list \<Rightarrow> TCPConnection \<Rightarrow> bool" where
  "sent c n L c' \<longleftrightarrow> sview c' = sview c \<and> segs (outputs c') = segs (outputs c) @ L \<and> seg_chain (snd_nxt (tcb c)) L n
     \<and> (\<forall>x\<in>set L. 0 < snd x \<and> snd x \<le> snd_mss (tcb c)) \<and> n \<le> unsent c
     \<and> snd_nxt (tcb c') = snd_nxt (tcb c) + of_nat n + (if finNow n c \<and> 0 < n then 1 else 0)
     \<and> unsent c' = unsent c - n \<and> (n < unsent c \<longrightarrow> nxt_ok c') \<and> (afterRto (tcb c') \<longrightarrow> afterRto (tcb c))"

lemma seg_chain_zero: "seg_chain a L 0 \<Longrightarrow> \<forall>x\<in>set L. 0 < snd x \<Longrightarrow> L = []"
  by (cases L) (auto simp: word_less_nat_alt)

lemma sent_refl: "(0 < unsent c \<Longrightarrow> nxt_ok c) \<Longrightarrow> sent c 0 [] c"
  by (simp add: sent_def)

lemma sentD:
  assumes "sent c n L c'"
  shows "sview c' = sview c" "segs (outputs c') = segs (outputs c) @ L" "seg_chain (snd_nxt (tcb c)) L n"
    "\<forall>x\<in>set L. 0 < snd x \<and> snd x \<le> snd_mss (tcb c)" "n \<le> unsent c"
    "snd_nxt (tcb c') = snd_nxt (tcb c) + of_nat n + (if finNow n c \<and> 0 < n then 1 else 0)"
    "unsent c' = unsent c - n" "n < unsent c \<Longrightarrow> nxt_ok c'" "afterRto (tcb c') \<Longrightarrow> afterRto (tcb c)"
  using assms unfolding sent_def by blast+

lemma sent_trans:
  assumes 1: "sent c n L c1" and 2: "sent c1 m M c2"
  shows "sent c (n + m) (L @ M) c2"
proof (cases "m = 0")
  case True
  then have M: "M = []" using seg_chain_zero sentD(3,4) [OF 2] by blast
  have "snd_nxt (tcb c2) = snd_nxt (tcb c1)" using sentD(6) [OF 2] True by simp
  moreover have "n < unsent c \<longrightarrow> nxt_ok c2" using sentD(8) [OF 2] sentD(7) [OF 1] True by simp
  ultimately show ?thesis
    unfolding sent_def using True M sentD [OF 1] sentD(1,2,7,9) [OF 2] by simp
next
  case False
  then have m: "n < unsent c" using sentD(7) [OF 1] sentD(5) [OF 2] by linarith
  then have nx: "snd_nxt (tcb c1) = snd_nxt (tcb c) + of_nat n" using sentD(6) [OF 1] by (simp add: finNow_def)
  have f: "finNow m c1 \<longleftrightarrow> finNow (n + m) c"
    using sentD(7) [OF 1] m sviewD(2) [OF sentD(1) [OF 1]] by (auto simp: finNow_def)
  have mss: "snd_mss (tcb c1) = snd_mss (tcb c)" using sviewD(4) [OF sentD(1) [OF 1]] .
  have "seg_chain (snd_nxt (tcb c)) (L @ M) (n + m)" using sentD(3) [OF 1] sentD(3) [OF 2] nx by (simp add: seg_chain_append)
  moreover have "\<forall>x\<in>set (L @ M). 0 < snd x \<and> snd x \<le> snd_mss (tcb c)" using sentD(4) [OF 1] sentD(4) [OF 2] mss by auto
  moreover have "n + m < unsent c \<longrightarrow> nxt_ok c2" using sentD(8) [OF 2] sentD(7) [OF 1] by auto
  moreover have "snd_nxt (tcb c2) = snd_nxt (tcb c) + of_nat (n + m) + (if finNow (n + m) c \<and> 0 < n + m then 1 else 0)"
    using sentD(6) [OF 2] nx f False by (simp add: algebra_simps)
  ultimately show ?thesis
    unfolding sent_def using sentD(1,2,5,7,9) [OF 1] sentD(1,2,5,7,9) [OF 2] m by simp
qed

lemma sendSegment_sent:
  assumes ok: "sender_ok c" "nxt_ok c" and b: "0 < b" "b \<le> snd_mss (tcb c)" "0 < unsent c"
  defines "k \<equiv> min (min (unat b) (unsent c)) (unat (snd_mss (tcb c)) - optBytes c)"
  shows "\<exists>c'. sendSegment b c = Inr c' \<and> unat (sentBytes c') = k \<and> 0 < k \<and> sent c k [(snd_nxt (tcb c), of_nat k)] c'"
proof -
  obtain c' where c': "sendSegment b c = Inr c'" "sview c' = sview c" "unat (sentBytes c') = k"
    "segs (outputs c') = segs (outputs c) @ [(snd_nxt (tcb c), of_nat k)]"
    "snd_nxt (tcb c') = snd_nxt (tcb c) + of_nat k + (if finNow k c then 1 else 0)" "afterRto (tcb c') \<longrightarrow> afterRto (tcb c)"
    using sendSegment_plain [OF ok b(2)] unfolding k_def by blast
  have m: "12 < unat (snd_mss (tcb c))" "unat (snd_mss (tcb c)) \<le> 65535" "optBytes c \<le> 12"
    using ok(1) by (auto simp: sender_ok_def optBytes_def word_less_nat_alt word_le_nat_alt)
  then have k: "0 < k" "k \<le> unsent c" "k \<le> unat (snd_mss (tcb c))"
    using b by (auto simp: k_def word_less_nat_alt)
  then have kw: "unat (of_nat k :: u32) = k" using m by (simp add: unat_of_nat)
  let ?b = "sq_begin (sendQueue c)"
  have q: "sendQueue c' = sendQueue c" "sender_ok c'" using sviewD(1) [OF c'(2)] ok(1) sender_ok_view [OF c'(2)] by simp_all
  have "unsent c' = unsent c - k \<and> (k < unsent c \<longrightarrow> nxt_ok c')"
  proof (cases "finNow k c")
    case True
    have e: "snd_nxt (tcb c) + of_nat k = sq_end (sendQueue c)"
      using nxt_plus(2) [OF ok, of "of_nat k"] True kw by (simp add: finNow_def)
    then have "snd_nxt (tcb c') = sq_end (sendQueue c) + 1" using c'(5) True by simp
    then have "\<not> seqLess (snd_nxt (tcb c')) (sq_end (sendQueue c))" by (simp add: seqLess_def)
    then show ?thesis using True q by (simp add: unsent_def getBytesAvailable_def finNow_def)
  next
    case False
    then have "snd_nxt (tcb c') = snd_nxt (tcb c) + of_nat k" using c'(5) by simp
    then have o: "off ?b (snd_nxt (tcb c')) = off ?b (snd_nxt (tcb c)) + k"
      using nxt_plus(1) [OF ok, of "of_nat k"] k kw by simp
    then have n: "nxt_ok c'" using k unsent_off [OF ok] q by (simp add: nxt_ok_def)
    then show ?thesis using o unsent_off [OF q(2) n] unsent_off [OF ok] q by simp
  qed
  then have "sent c k [(snd_nxt (tcb c), of_nat k)] c'"
    unfolding sent_def using c'(2,4,5,6) k kw by (simp add: word_less_nat_alt word_le_nat_alt)
  then show ?thesis using c'(1,3) k by blast
qed


section \<open>New data\<close>

definition ts_ok :: "TCPConnection \<Rightarrow> bool" where
  "ts_ok c \<longleftrightarrow> (ts_enabled c \<longrightarrow> fsm c \<in> option_states)"

lemma effectiveMaxBytes_plain:
  assumes "sender_ok c" "ts_ok c"
  shows "unat (effectiveMaxBytes c) = unat (snd_mss (tcb c)) - optBytes c" "0 < unat (effectiveMaxBytes c)"
    "unat (effectiveMaxBytes c) \<le> unat (snd_mss (tcb c))"
proof -
  have m: "12 < unat (snd_mss (tcb c))" using assms(1) by (simp add: sender_ok_def word_less_nat_alt)
  then have "unat (snd_mss (tcb c) - 12) = unat (snd_mss (tcb c)) - 12" using unat_sub [of 12 "snd_mss (tcb c)"] by (simp add: word_le_nat_alt)
  then show "unat (effectiveMaxBytes c) = unat (snd_mss (tcb c)) - optBytes c" "0 < unat (effectiveMaxBytes c)"
    "unat (effectiveMaxBytes c) \<le> unat (snd_mss (tcb c))"
    using m assms(2) by (auto simp: effectiveMaxBytes_def optBytes_def ts_ok_def)
qed

lemma sent_keeps:
  assumes "sent c n L c'"
  shows "sender_ok c' = sender_ok c" "ts_ok c' = ts_ok c" "effectiveMaxBytes c' = effectiveMaxBytes c"
  using sviewD [OF sentD(1) [OF assms]] sender_ok_view [OF sentD(1) [OF assms]] by (simp_all add: ts_ok_def effectiveMaxBytes_def)

text \<open>Each turn of the loop sends at most what is left of the window, and at least one byte: it ends, and leaves less than
  a full segment.\<close>

lemma unat_ucast64 [simp]: "unat (ucast (x :: u32) :: u64) = unat x"
proof -
  have "unat x < 2 ^ 64" using off_lt [of 0 x] by (simp add: off_def)
  then show ?thesis by (simp add: unsigned_ucast_eq unsigned_take_bit_eq take_bit_nat_eq_self)
qed

lemma unat_le64: "x \<le> (y :: u64) \<longleftrightarrow> unat x \<le> unat y"
  by (simp add: word_le_nat_alt)

lemma sendLoop_plain:
  assumes "sender_ok c" "nxt_ok c" "ts_ok c" "unat R \<le> unsent c"
  shows "\<exists>c' R' n L. sendLoop (effectiveMaxBytes c) R c = Some (Inr (c', R')) \<and> n + unat R' = unat R
    \<and> unat R' < unat (effectiveMaxBytes c) \<and> sent c n L c'"
  using assms
proof (induction "unat R" arbitrary: R c rule: less_induct)
  case less
  let ?e = "effectiveMaxBytes c"
  note e = effectiveMaxBytes_plain [OF less.prems(1,3)]
  show ?case
  proof (cases "unat ?e \<le> unat R")
    case False
    then have "sendLoop ?e R c = Some (Inr (c, R))" by (subst sendLoop.simps) (simp add: unat_le64)
    with False sent_refl [of c] less.prems(2) show ?thesis by (intro exI [of _ c] exI [of _ R] exI [of _ 0] exI [of _ "[]"]) simp
  next
    case True
    define k where "k = min (min (unat (snd_mss (tcb c))) (unsent c)) (unat (snd_mss (tcb c)) - optBytes c)"
    have k: "k = unat ?e" using e True less.prems(4) by (simp add: k_def)
    obtain c1 where c1: "sendSegment (snd_mss (tcb c)) c = Inr c1" "unat (sentBytes c1) = k" "sent c k [(snd_nxt (tcb c), of_nat k)] c1"
      using sendSegment_sent [OF less.prems(1,2), of "snd_mss (tcb c)"] e True less.prems(4) unfolding k_def
      by (auto simp: word_less_nat_alt)
    have r: "unat (R - ucast (sentBytes c1)) = unat R - k" using True k c1(2) unat_sub [of "ucast (sentBytes c1)" R] by (simp add: unat_le64)
    have step: "sendLoop ?e R c = sendLoop (effectiveMaxBytes c1) (R - ucast (sentBytes c1)) c1"
      using True c1(1) sent_keeps(3) [OF c1(3)] by (subst sendLoop.simps) (simp add: unat_le64)
    have lt: "unat (R - ucast (sentBytes c1)) < unat R" "unat (R - ucast (sentBytes c1)) \<le> unsent c1"
      using r k e(2) True less.prems(4) sentD(7) [OF c1(3)] by simp_all
    show ?thesis
    proof (cases "k < unsent c")
      case True
      then have "nxt_ok c1" using sentD(8) [OF c1(3)] by simp
      with less.hyps [OF lt(1) _ this _ lt(2)] sent_keeps [OF c1(3)] less.prems(1,3)
      obtain c' R' n L where i: "sendLoop (effectiveMaxBytes c1) (R - ucast (sentBytes c1)) c1 = Some (Inr (c', R'))"
        "n + unat R' = unat (R - ucast (sentBytes c1))" "unat R' < unat (effectiveMaxBytes c1)" "sent c1 n L c'" by auto
      have "k + n + unat R' = unat R" using i(2) r True k \<open>unat ?e \<le> unat R\<close> by simp
      then show ?thesis using i step sent_keeps(3) [OF c1(3)] sent_trans [OF c1(3) i(4)] by auto
    next
      case False
      then have z: "unat (R - ucast (sentBytes c1)) = 0" using r less.prems(4) by simp
      then have "sendLoop (effectiveMaxBytes c1) (R - ucast (sentBytes c1)) c1 = Some (Inr (c1, R - ucast (sentBytes c1)))"
        using e(2) sent_keeps(3) [OF c1(3)] by (subst sendLoop.simps) (simp add: unat_le64)
      moreover have "k + 0 = unat R" using z r True k by simp
      ultimately show ?thesis using step c1(3) z e(2)
        by (intro exI [of _ c1] exI [of _ "R - ucast (sentBytes c1)"] exI [of _ k] exI [of _ "[(snd_nxt (tcb c), of_nat k)]"]) simp
    qed
  qed
qed


lemma sendSegments_plain:
  assumes ok: "sender_ok c" "nxt_ok c" "ts_ok c" and R: "unat R \<le> unsent c" "0 < unat R"
  shows "\<exists>c' R' n L. sendSegments (effectiveMaxBytes c) R c = Inr (c', R') \<and> n + unat R' = unat R \<and> 0 < n
    \<and> unat R' < unat (snd_mss (tcb c)) \<and> sent c n L c'"
proof (cases "unat R \<le> unat (snd_mss (tcb c))")
  case True
  define k where "k = min (min (unat (ucast R :: u32)) (unsent c)) (unat (snd_mss (tcb c)) - optBytes c)"
  have m: "unat (snd_mss (tcb c)) \<le> 65535" using ok(1) by (simp add: sender_ok_def word_le_nat_alt)
  have u: "unat (ucast R :: u32) = unat R" using True m by (simp add: unsigned_ucast_eq unsigned_take_bit_eq take_bit_nat_eq_self)
  obtain c1 where c1: "sendSegment (ucast R) c = Inr c1" "unat (sentBytes c1) = k" "0 < k" "sent c k [(snd_nxt (tcb c), of_nat k)] c1"
    using sendSegment_sent [OF ok(1,2), of "ucast R"] u R True unfolding k_def by (auto simp: word_less_nat_alt word_le_nat_alt)
  have "k \<le> unat R" using u by (simp add: k_def)
  then have r: "unat (R - ucast (sentBytes c1)) = unat R - k" using c1(2) unat_sub [of "ucast (sentBytes c1)" R] by (simp add: unat_le64)
  have "sendSegments (effectiveMaxBytes c) R c = Inr (c1, R - ucast (sentBytes c1))"
    using True c1(1) by (simp add: sendSegments_def unat_le64)
  then show ?thesis using r c1(3,4) True \<open>k \<le> unat R\<close>
    by (intro exI [of _ c1] exI [of _ "R - ucast (sentBytes c1)"] exI [of _ k] exI [of _ "[(snd_nxt (tcb c), of_nat k)]"]) simp
next
  case False
  obtain c' R' n L where l: "sendLoop (effectiveMaxBytes c) R c = Some (Inr (c', R'))" "n + unat R' = unat R"
    "unat R' < unat (effectiveMaxBytes c)" "sent c n L c'"
    using sendLoop_plain [OF ok R(1)] by blast
  have "0 < n" "unat R' < unat (snd_mss (tcb c))" using l(2,3) False effectiveMaxBytes_plain [OF ok(1,3)] by simp_all
  then show ?thesis using l False by (auto simp: sendSegments_def unat_le64)
qed

lemma lastSegment_plain:
  assumes ok: "sender_ok c" "0 < unsent c \<Longrightarrow> nxt_ok c" and R: "unat R < unat (snd_mss (tcb c))"
  shows "\<exists>c' n L. lastSegment R c = Inr c' \<and> n \<le> unat R \<and> sent c n L c'"
proof (cases "unat R = unsent c \<and> 0 < unsent c")
  case True
  define k where "k = min (min (unat (ucast R :: u32)) (unsent c)) (unat (snd_mss (tcb c)) - optBytes c)"
  have m: "unat (snd_mss (tcb c)) \<le> 65535" using ok(1) by (simp add: sender_ok_def word_le_nat_alt)
  have u: "unat (ucast R :: u32) = unat R" using R m by (simp add: unsigned_ucast_eq unsigned_take_bit_eq take_bit_nat_eq_self)
  obtain c1 where c1: "sendSegment (ucast R) c = Inr c1" "sent c k [(snd_nxt (tcb c), of_nat k)] c1"
    using sendSegment_sent [OF ok(1) ok(2), of "ucast R"] u R True unfolding k_def by (auto simp: word_less_nat_alt word_le_nat_alt)
  have "R = ucast (getBytesAvailable (sendQueue c) (snd_nxt (tcb c)))" "R \<noteq> 0"
    using True by (auto simp: word_unat_eq_iff unsent_def)
  then have "lastSegment R c = Inr c1" using c1(1) by (simp add: lastSegment_def Let_def)
  then show ?thesis using c1(2) u by (intro exI [of _ c1] exI [of _ k]) (auto simp: k_def)
next
  case False
  then have "lastSegment R c = Inr c" by (auto simp: lastSegment_def Let_def unsent_def word_unat_eq_iff)
  then show ?thesis using sent_refl [of c] ok(2) by (intro exI [of _ c] exI [of _ 0] exI [of _ "[]"]) simp
qed

lemma finish_plain:
  "segs (outputs (dataSentNotice h n (raiseMax c))) = segs (outputs c)" "snd_nxt (tcb (dataSentNotice h n (raiseMax c))) = snd_nxt (tcb c)"
  "snd_una (tcb (dataSentNotice h n (raiseMax c))) = snd_una (tcb c)"
  by (simp_all add: dataSentNotice_def raiseMax_def Let_def out_def)

text \<open>The bytes that may go out now: the effective window, as far as there is data.\<close>

definition room :: "u32 \<Rightarrow> TCPConnection \<Rightarrow> nat" where
  "room congestionWindow c = min (nat (effectiveWin congestionWindow c)) (unsent c)"


lemma sendFrom_plain:
  "sview (sendFrom c) = sview c" "outputs (sendFrom c) = outputs c" "sack_enabled (sendFrom c) = sack_enabled c"
  by (simp_all add: sendFrom_def sview_def)

lemma bytesToSend_room:
  assumes "0 < effectiveWin cw c"
  shows "unat ((if word_of_int (effectiveWin cw c) > (ucast (getBytesAvailable (sendQueue c) (snd_nxt (tcb c))) :: u64)
    then ucast (getBytesAvailable (sendQueue c) (snd_nxt (tcb c))) else word_of_int (effectiveWin cw c)) :: u64) = room cw c"
proof -
  have "uint (min (snd_wnd c) cw) < 2 ^ 32" using uint_lt2p [of "min (snd_wnd c) cw"] by simp
  then have "effectiveWin cw c < 2 ^ 32" using uint_ge_0 [of "snd_nxt (tcb c) - snd_una (tcb c)"] unfolding effectiveWin_def by linarith
  then have "effectiveWin cw c < 2 ^ 64" by simp
  then have "unat (word_of_int (effectiveWin cw c) :: u64) = nat (effectiveWin cw c)"
    using assms by (simp add: unat_eq_nat_uint uint_word_of_int_eq take_bit_int_eq_self)
  then show ?thesis by (auto simp: room_def unsent_def word_less_nat_alt min_def)
qed


text \<open>A client with 3000 bytes to send, and a window of 1066.\<close>

definition example_sender :: TCPConnection where
  "example_sender = example_connection\<lparr>fsm := S_ESTABLISHED, snd_wnd := 1066,
     tcb := TCPStateVariables_new\<lparr>snd_una := 1001, snd_nxt := 1001, snd_max := 1001, snd_mss := 536\<rparr>,
     sendQueue := \<lparr>sq_begin = 1001, sq_end = 4001\<rparr>\<rparr>"



section \<open>Retransmission\<close>

lemma fin_not_passed:
  assumes "sender_ok c" "nxt_ok c" "send_fin c"
  shows "snd_nxt (tcb c) \<noteq> snd_fin_seq c + 1"
proof
  assume "snd_nxt (tcb c) = snd_fin_seq c + 1"
  then have "snd_nxt (tcb c) = sq_end (sendQueue c) + 1" using assms(1,3) by (simp add: sender_ok_def)
  then have "off (sq_begin (sendQueue c)) (snd_nxt (tcb c)) = off (sq_begin (sendQueue c)) (sq_end (sendQueue c)) + 1"
    using off_add [of "sq_begin (sendQueue c)" "sq_end (sendQueue c)" 1] assms(1) by (simp add: sender_ok_def)
  then show False using assms(2) by (simp add: nxt_ok_def)
qed

lemma retransmitLoop_plain:
  assumes "sender_ok c" "nxt_ok c" "0 < unsent c" "unat B \<le> unsent c + (if send_fin c then 1 else 0)"
  shows "\<exists>c' L. retransmitLoop B c = Some (Inr c') \<and> sent c (min (unat B) (unsent c)) L c'"
  using assms
proof (induction "unat B" arbitrary: B c rule: less_induct)
  case less
  show ?case
  proof (cases "B = 0")
    case True
    then have "retransmitLoop B c = Some (Inr c)" by (subst retransmitLoop.simps) simp
    with True less.prems(2) show ?thesis using sent_refl [of c] by auto
  next
    case False
    let ?b = "min (min B (snd_mss (tcb c))) (getBytesAvailable (sendQueue c) (snd_nxt (tcb c)))"
    have m: "12 < unat (snd_mss (tcb c))" "optBytes c \<le> 12"
      using less.prems(1) by (auto simp: sender_ok_def optBytes_def word_less_nat_alt)
    have ub: "unat ?b = min (min (unat B) (unat (snd_mss (tcb c)))) (unsent c)"
      by (simp add: unsent_def min_def word_le_nat_alt)
    define k where "k = min (min (unat ?b) (unsent c)) (unat (snd_mss (tcb c)) - optBytes c)"
    have "0 < unat B" using False by (simp add: unat_gt_0)
    then have b: "0 < ?b" "?b \<le> snd_mss (tcb c)" using ub m less.prems(3) by (simp_all add: word_less_nat_alt word_le_nat_alt)
    obtain c1 where c1: "sendSegment ?b c = Inr c1" "unat (sentBytes c1) = k" "0 < k" "sent c k [(snd_nxt (tcb c), of_nat k)] c1"
      using sendSegment_sent [OF less.prems(1,2) b less.prems(3)] unfolding k_def by blast
    have k: "k \<le> unat B" "k \<le> unsent c" using ub by (auto simp: k_def)
    have f: "send_fin c1 = send_fin c" "snd_fin_seq c1 = snd_fin_seq c" using sviewD(2,3) [OF sentD(1) [OF c1(4)]] by simp_all
    have kw: "of_nat k = sentBytes c1" by (simp flip: c1(2))
    have step: "retransmitLoop B c = (if send_fin c1 \<and> snd_nxt (tcb c1) = snd_fin_seq c1 + 1 then Some (Inr c1)
        else retransmitLoop (B - sentBytes c1) c1)"
      using False c1(1) by (subst retransmitLoop.simps) (simp add: word_gt_0)
    have r: "unat (B - sentBytes c1) = unat B - k" using k(1) c1(2) unat_sub [of "sentBytes c1" B] by (simp add: word_le_nat_alt)
    show ?thesis
    proof (cases "k = unsent c")
      case True
      have "retransmitLoop B c = Some (Inr c1)"
      proof (cases "send_fin c")
        case fin: True
        then have "snd_nxt (tcb c) + of_nat k = snd_fin_seq c"
          using nxt_plus(2) [OF less.prems(1,2), of "sentBytes c1"] True less.prems(1) c1(2) kw by (simp add: sender_ok_def)
        moreover have "snd_nxt (tcb c1) = snd_nxt (tcb c) + of_nat k + 1" using sentD(6) [OF c1(4)] True fin c1(3) by (simp add: finNow_def)
        ultimately show ?thesis using step f fin by simp
      next
        case fin: False
        then have "B - sentBytes c1 = 0" using r True less.prems(4) by (simp add: unat_eq_0 [symmetric] del: unat_eq_0)
        then have "retransmitLoop (B - sentBytes c1) c1 = Some (Inr c1)" by (subst retransmitLoop.simps) simp
        then show ?thesis using step f fin by simp
      qed
      moreover have "min (unat B) (unsent c) = k" using True k by simp
      ultimately show ?thesis using c1(4) by auto
    next
      case False
      then have lt: "k < unsent c" using k by simp
      then have n1: "nxt_ok c1" using sentD(8) [OF c1(4)] by simp
      have ok1: "sender_ok c1" using sent_keeps(1) [OF c1(4)] less.prems(1) by simp
      have u1: "unsent c1 = unsent c - k" using sentD(7) [OF c1(4)] .
      have h: "unat (B - sentBytes c1) < unat B" "0 < unsent c1" "unat (B - sentBytes c1) \<le> unsent c1 + (if send_fin c1 then 1 else 0)"
        using r c1(3) k u1 lt less.prems(4) f by (simp_all split: if_splits)
      have "retransmitLoop B c = retransmitLoop (B - sentBytes c1) c1" using step fin_not_passed [OF ok1 n1] by auto
      moreover obtain c' L where "retransmitLoop (B - sentBytes c1) c1 = Some (Inr c')" "sent c1 (min (unat (B - sentBytes c1)) (unsent c1)) L c'"
        using less.hyps [OF h(1) ok1 n1 h(2,3)] by blast
      moreover have "k + min (unat (B - sentBytes c1)) (unsent c1) = min (unat B) (unsent c)" using r u1 k by simp
      ultimately show ?thesis using sent_trans [OF c1(4)] by metis
    qed
  qed
qed

text \<open>
  C31: when data is outstanding, \<open>retransmitData\<close> returns after having sent again exactly the bytes between
  \<open>SND.UNA\<close> and \<open>SND.MAX\<close> (less our FIN, which has no byte), in order, without gap and in segments
  of at most the maximum segment size.
\<close>

theorem retransmitData_exact:
  assumes ok: "sender_ok c" "nxt_ok (c\<lparr>tcb := (tcb c)\<lparr>snd_nxt := snd_una (tcb c)\<rparr>\<rparr>)"
    and out: "snd_max (tcb c) \<noteq> snd_una (tcb c)" "0 < getBytesAvailable (sendQueue c) (snd_una (tcb c))"
      "unat (snd_max (tcb c) - snd_una (tcb c)) \<le> unat (getBytesAvailable (sendQueue c) (snd_una (tcb c))) + (if send_fin c then 1 else 0)"
  shows "\<exists>c' L. retransmitData c = Inr c' \<and> segs (outputs c') = segs (outputs c) @ L
    \<and> seg_chain (snd_una (tcb c)) L (min (unat (snd_max (tcb c) - snd_una (tcb c))) (unat (getBytesAvailable (sendQueue c) (snd_una (tcb c)))))
    \<and> (\<forall>x\<in>set L. 0 < snd x \<and> snd x \<le> snd_mss (tcb c))"
proof -
  define d where "d = c\<lparr>tcb := (tcb c)\<lparr>snd_nxt := snd_una (tcb c)\<rparr>\<rparr>"
  have d: "sender_ok d" "unsent d = unat (getBytesAvailable (sendQueue c) (snd_una (tcb c)))" "outputs d = outputs c"
    "snd_mss (tcb d) = snd_mss (tcb c)" "snd_nxt (tcb d) = snd_una (tcb c)" "send_fin d = send_fin c"
    "snd_max (tcb d) - snd_nxt (tcb d) = snd_max (tcb c) - snd_una (tcb c)"
    using ok(1) by (simp_all add: d_def sender_ok_def unsent_def)
  obtain c1 L where r: "retransmitLoop (snd_max (tcb c) - snd_una (tcb c)) d = Some (Inr c1)"
    "sent d (min (unat (snd_max (tcb c) - snd_una (tcb c))) (unsent d)) L c1"
    using retransmitLoop_plain [OF d(1) ok(2) [folded d_def], of "snd_max (tcb c) - snd_una (tcb c)"] out d
    by (auto simp: word_less_nat_alt)
  define c' where "c' = out (ToAlgorithm (A_segmentRetransmitted (snd_una (tcb c1)) (snd_nxt (tcb c1)))) c1"
  have "retransmitData c = Inr c'"
    unfolding retransmitData_def d_def [symmetric] Let_def d(7) using r(1) out(1) by (simp add: c'_def)
  moreover have "segs (outputs c') = segs (outputs c1)" by (simp add: c'_def out_def)
  ultimately show ?thesis using sentD(2,3,4) [OF r(2)] d by auto
qed

theorem retransmitData_exact_witness:
  "\<exists>c' L. retransmitData (example_sender\<lparr>tcb := (tcb example_sender)\<lparr>snd_nxt := 2073, snd_max := 2073\<rparr>\<rparr>) = Inr c' \<and> seg_chain 1001 L 1072"
proof -
  note d = example_sender_def example_connection_def TCPStateVariables_new_def
  let ?c = "example_sender\<lparr>tcb := (tcb example_sender)\<lparr>snd_nxt := 2073, snd_max := 2073\<rparr>\<rparr>"
  have ok: "sender_ok ?c" "nxt_ok (?c\<lparr>tcb := (tcb ?c)\<lparr>snd_nxt := snd_una (tcb ?c)\<rparr>\<rparr>)"
    by (simp_all add: sender_ok_def nxt_ok_def off_def d)
  have v: "snd_una (tcb ?c) = 1001" "snd_max (tcb ?c) = 2073" "getBytesAvailable (sendQueue ?c) 1001 = 3000"
    by (simp_all add: getBytesAvailable_def seqLess_def d)
  show ?thesis using retransmitData_exact [OF ok] unfolding v by auto
qed

section \<open>A sender that never stops\<close>

lemma sendSegment_nofin:
  assumes ok: "sender_ok c" "nxt_ok c" "\<not> send_fin c"
  defines "k \<equiv> min (min (unat (snd_mss (tcb c))) (unsent c)) (unat (snd_mss (tcb c)) - optBytes c)"
  shows "\<exists>c'. sendSegment (snd_mss (tcb c)) c = Inr c' \<and> sview c' = sview c \<and> unat (sentBytes c') = k \<and> nxt_ok c' \<and> unsent c' = unsent c - k
    \<and> unat (sentBytes c') \<le> unsent c"
proof -
  obtain c' where c': "sendSegment (snd_mss (tcb c)) c = Inr c'" "sview c' = sview c" "unat (sentBytes c') = k"
    "snd_nxt (tcb c') = snd_nxt (tcb c) + of_nat k"
    using sendSegment_plain [OF ok(1,2), of "snd_mss (tcb c)"] ok(3) unfolding k_def by (auto simp: finNow_def)
  have k: "k \<le> unsent c" "k \<le> unat (snd_mss (tcb c))" by (simp_all add: k_def)
  have q: "sendQueue c' = sendQueue c" "sender_ok c'" using sviewD(1) [OF c'(2)] ok(1) sender_ok_view [OF c'(2)] by simp_all
  have "unat (snd_mss (tcb c)) \<le> 65535" using ok(1) by (simp add: sender_ok_def word_le_nat_alt)
  then have kw: "unat (of_nat k :: u32) = k" using k by (simp add: unat_of_nat)
  then have o: "off (sq_begin (sendQueue c)) (snd_nxt (tcb c')) = off (sq_begin (sendQueue c)) (snd_nxt (tcb c)) + k"
    using nxt_plus(1) [OF ok(1,2), of "of_nat k"] k c'(4) by simp
  then have n: "nxt_ok c'" using k unsent_off [OF ok(1,2)] q ok(2) by (simp add: nxt_ok_def)
  then show ?thesis using o unsent_off [OF q(2) n] unsent_off [OF ok(1,2)] q c' k(1) by auto
qed

lemma sendLoop_diverges:
  assumes "sender_ok c" "nxt_ok c" "\<not> send_fin c" "unat e \<le> 65535" "unsent c + 65536 \<le> unat R"
  shows "sendLoop e R c = None"
proof (rule ccontr)
  assume "sendLoop e R c \<noteq> None"
  then obtain r where r: "sendLoop e R c = Some r" by auto
  have "\<not> (sender_ok c \<and> nxt_ok c \<and> \<not> send_fin c \<and> unat e \<le> 65535 \<and> unsent c + 65536 \<le> unat R)"
  proof (rule sendLoop.raw_induct [where P = "\<lambda>e R c r. \<not> (sender_ok c \<and> nxt_ok c \<and> \<not> send_fin c \<and> unat e \<le> 65535 \<and> unsent c + 65536 \<le> unat R)", OF _ r])
    fix loop :: "u32 \<Rightarrow> u64 \<Rightarrow> TCPConnection \<Rightarrow> (TCPConnection \<times> u64) outcome option" and e R c r
    assume IH: "\<And>e R c r. loop e R c = Some r \<Longrightarrow> \<not> (sender_ok c \<and> nxt_ok c \<and> \<not> send_fin c \<and> unat e \<le> 65535 \<and> unsent c + 65536 \<le> unat R)"
      and eq: "(if ucast e \<le> R then case sendSegment (snd_mss (tcb c)) c of Inl e \<Rightarrow> Some (Inl e) | Inr c1 \<Rightarrow> loop e (R - ucast (sentBytes c1)) c1
         else Some (Inr (c, R))) = Some r"
    show "\<not> (sender_ok c \<and> nxt_ok c \<and> \<not> send_fin c \<and> unat e \<le> 65535 \<and> unsent c + 65536 \<le> unat R)"
    proof
      assume bad: "sender_ok c \<and> nxt_ok c \<and> \<not> send_fin c \<and> unat e \<le> 65535 \<and> unsent c + 65536 \<le> unat R"
      then obtain c1 where c1: "sendSegment (snd_mss (tcb c)) c = Inr c1" "sview c1 = sview c" "unat (sentBytes c1) \<le> unsent c" "nxt_ok c1"
        "unsent c1 = unsent c - unat (sentBytes c1)"
        using sendSegment_nofin [of c] by metis
      have "unat (R - ucast (sentBytes c1)) = unat R - unat (sentBytes c1)"
        using bad c1(3) unat_sub [of "ucast (sentBytes c1)" R] by (simp add: unat_le64)
      moreover have "loop e (R - ucast (sentBytes c1)) c1 = Some r" using eq c1(1) bad by (simp add: unat_le64)
      ultimately show False
        using IH [of e "R - ucast (sentBytes c1)" c1 r] bad c1 sender_ok_view [OF c1(2)] sviewD(2) [OF c1(2)] by auto
    qed
  qed
  then show False using assms by blast
qed

text \<open>The same sender in CLOSE-WAIT, using timestamps.\<close>

definition stuck_sender :: TCPConnection where
  "stuck_sender = example_sender\<lparr>fsm := S_CLOSE_WAIT, ts_enabled := True\<rparr>"

text \<open>
  C30: in CLOSE-WAIT no options are written, so a segment carries a full maximum segment size although \<open>sendData\<close>
  reckons with 12 bytes of timestamps.  With 3000 bytes to send, a window of 1066 and segments of 536 bytes, the second
  segment overruns what is left of the window, the unsigned rest wraps around, and \<open>sendData\<close> does not return.
\<close>

theorem sendData_close_wait_diverges: "sendData False 65535 stuck_sender = Inl DoesNotReturn"
proof -
  note d = stuck_sender_def example_sender_def example_connection_def TCPStateVariables_new_def
  have f: "sendFrom stuck_sender = stuck_sender" by (simp add: sendFrom_def d)
  have ok: "sender_ok stuck_sender" "nxt_ok stuck_sender" "\<not> send_fin stuck_sender"
    by (simp_all add: sender_ok_def nxt_ok_def off_def d)
  have v: "snd_mss (tcb stuck_sender) = 536" "optBytes stuck_sender = 0" "unsent stuck_sender = 3000" "effectiveMaxBytes stuck_sender = 524"
    "effectiveWin 65535 stuck_sender = 1066" "getBytesAvailable (sendQueue stuck_sender) (snd_nxt (tcb stuck_sender)) = 3000"
    "\<not> sack_enabled stuck_sender"
    by (simp_all add: optBytes_def option_states_def unsent_def getBytesAvailable_def seqLess_def effectiveMaxBytes_def effectiveWin_def d)
  obtain c1 where c1: "sendSegment 536 stuck_sender = Inr c1" "sview c1 = sview stuck_sender" "sentBytes c1 = 536" "nxt_ok c1" "unsent c1 = 2464"
    using sendSegment_nofin [OF ok] v by (auto simp: word_unat_eq_iff)
  have k1: "sender_ok c1" "\<not> send_fin c1" "snd_mss (tcb c1) = 536" "optBytes c1 = 0"
    using sender_ok_view [OF c1(2)] sviewD [OF c1(2)] optBytes_view [OF c1(2)] ok v by simp_all
  obtain c2 where c2: "sendSegment 536 c1 = Inr c2" "sview c2 = sview c1" "sentBytes c2 = 536" "nxt_ok c2" "unsent c2 = 1928"
    using sendSegment_nofin [OF k1(1) c1(4) k1(2)] k1 c1(5) by (auto simp: word_unat_eq_iff)
  have "sender_ok c2" "\<not> send_fin c2" using sender_ok_view [OF c2(2)] sviewD(2) [OF c2(2)] k1 by simp_all
  then have "sendLoop 524 (- 6) c2 = None" using c2(4,5) by (intro sendLoop_diverges) simp_all
  then have "sendLoop 524 530 c1 = None" using c2(1,3) k1(3) by (subst sendLoop.simps) simp
  then have "sendLoop 524 1066 stuck_sender = None" using c1(1,3) v by (subst sendLoop.simps) simp
  then show ?thesis using v by (simp add: sendData_def f sendSegments_def)
qed

end
