(* ===== verification/TCP_Loss.thy ===== *)
theory TCP_Loss
  imports TCP_Send_Props
begin

text \<open>
  Loss recovery with selective acknowledgements:
  \<^verbatim>\<open>src/src/transport/tcp/TCPConnectionSackUtil.cc\<close>, the functions that implement RFC 3517
  (\<^verbatim>\<open>isLost\<close>, \<^verbatim>\<open>setPipe\<close>, \<^verbatim>\<open>nextSeg\<close> and the sending during
  the recovery phase).  They walk the retransmission queue block by block; the properties compare them with the text of the RFC,
  which speaks of single octets.
\<close>

section \<open>The functions\<close>

definition isLost :: "TCPConnection \<Rightarrow> u32 \<Rightarrow> bool outcome" where
  "isLost c seqNum =
     (if \<not> sack_enabled c then Inl (AssertFailed ''state->sack_enabled'')
      else if \<not> seqGE seqNum (snd_una (tcb c)) then Inl (AssertFailed ''seqGE(seqNum, state->snd_una)'')
      else askRexmitQueue c (\<lambda>q.
        outcome_bind (getNumOfDiscontiguousSacks q seqNum) (\<lambda>n.
          if n \<ge> DUPTHRESH then Inr True
          else outcome_bind (getAmountOfSackedBytes q seqNum) (\<lambda>b. Inr (b \<ge> DUPTHRESH * snd_mss (tcb c))))))"

text \<open>What one unsacked block adds to the estimate.\<close>

definition pipeShare :: "TCPConnection \<Rightarrow> u32 \<Rightarrow> u32 \<Rightarrow> u32 outcome" where
  "pipeShare c s1 len =
     outcome_bind (isLost c s1) (\<lambda>lost.
       Inr ((if lost then 0 else len) + (if seqLess s1 (highRxt c) then len else 0)))"

partial_function (option) pipeLoop :: "TCPConnection \<Rightarrow> u32 \<Rightarrow> u32 \<Rightarrow> u32 outcome option" where
  "pipeLoop c s1 p =
     (if seqLess s1 (snd_max (tcb c)) then
        (case askRexmitQueue c (\<lambda>q. checkSackBlock q s1) of
           Inl e \<Rightarrow> Some (Inl e)
         | Inr b \<Rightarrow>
             (if fst (snd b) then pipeLoop c (s1 + fst b) p
              else (case pipeShare c s1 (fst b) of
                      Inl e \<Rightarrow> Some (Inl e)
                    | Inr d \<Rightarrow> pipeLoop c (s1 + fst b) (p + d))))
      else Some (Inr p))"

declare pipeLoop.simps [code]

definition setPipe :: "TCPConnection \<Rightarrow> TCPConnection outcome" where
  "setPipe c =
     (if \<not> sack_enabled c then Inl (AssertFailed ''state->sack_enabled'')
      else outcome_bind (highestRexmitted c) (\<lambda>h.
        let c1 = c\<lparr>highRxt := h\<rparr>
        in outcome_bind (returning (pipeLoop c1 (snd_una (tcb c1)) 0)) (\<lambda>p. Inr (c1\<lparr>pipe := p\<rparr>))))"

text \<open>
  The two searches of \<^verbatim>\<open>nextSeg\<close> go from block to block over what has been sacked; they stop at the first
  block that has not, or at the highest sacked octet.
\<close>

partial_function (option) firstUnsacked :: "TCPConnection \<Rightarrow> u32 \<Rightarrow> u32 \<Rightarrow> u32 option outcome option" where
  "firstUnsacked c highestSacked s2 =
     (if seqLess s2 (snd_max (tcb c)) \<and> seqLess s2 highestSacked then
        (case askRexmitQueue c (\<lambda>q. checkSackBlock q s2) of
           Inl e \<Rightarrow> Some (Inl e)
         | Inr b \<Rightarrow> (if fst (snd b) then firstUnsacked c highestSacked (s2 + fst b) else Some (Inr (Some s2))))
      else Some (Inr None))"

declare firstUnsacked.simps [code]

text \<open>Rule (2): unsent data; the room left in the window is an \<^verbatim>\<open>ulong\<close>.\<close>

definition newDataAllowed :: "TCPConnection \<Rightarrow> bool" where
  "newDataAllowed c =
     (getBytesAvailable (sendQueue c) (snd_max (tcb c)) > 0
      \<and> (ucast (snd_wnd c) - ucast (pipe c) :: u64) \<ge> ucast (snd_mss (tcb c)))"

definition nextSeg :: "TCPConnection \<Rightarrow> (TCPConnection \<times> u32 option) outcome" where
  "nextSeg c0 =
     (if \<not> sack_enabled c0 then Inl (AssertFailed ''state->sack_enabled'')
      else outcome_bind (highestRexmitted c0) (\<lambda>h.
        let c = c0\<lparr>highRxt := h\<rparr>
        in outcome_bind (askRexmitQueue c (\<lambda>q. Inr (getHighestSackedSeqNum q))) (\<lambda>hs.
           outcome_bind (returning (firstUnsacked c hs (highRxt c))) (\<lambda>s2.
           outcome_bind (case s2 of None \<Rightarrow> Inr False | Some s \<Rightarrow> isLost c s) (\<lambda>lost.
             if lost then Inr (c, s2)
             else if newDataAllowed c then Inr (c, Some (snd_max (tcb c)))
             else outcome_bind (returning (firstUnsacked c hs (highRxt c))) (\<lambda>s3. Inr (c, s3)))))))"

definition sendSegmentDuringLossRecoveryPhase :: "u32 \<Rightarrow> TCPConnection \<Rightarrow> TCPConnection outcome" where
  "sendSegmentDuringLossRecoveryPhase seqNum c0 =
     (if \<not> (sack_enabled c0 \<and> lossRecovery c0) then Inl (AssertFailed ''state->sack_enabled && state->lossRecovery'')
      else
        let c = c0\<lparr>tcb := (tcb c0)\<lparr>snd_nxt := seqNum\<rparr>\<rparr>
        in outcome_bind (highestRexmitted c) (\<lambda>old_highRxt.
           outcome_bind (sendSegment (snd_mss (tcb c)) c) (\<lambda>c1.
             let sentSeqNum = seqNum + sentBytes c1
             in if \<not> seqLE (snd_nxt (tcb c1)) (sentSeqNum + 1) then Inl (AssertFailed ''seqLE(state->snd_nxt, sentSeqNum + 1)'')
                else outcome_bind (if seqLess seqNum (snd_max (tcb c1))
                                   then outcome_bind (highestRexmitted c1) (\<lambda>h. Inr (c1\<lparr>highRxt := h\<rparr>)) else Inr c1) (\<lambda>c2.
                  let c3 = (if seqGreater sentSeqNum (snd_max (tcb c2)) then c2\<lparr>tcb := (tcb c2)\<lparr>snd_max := sentSeqNum\<rparr>\<rparr> else c2);
                      c4 = out (ToAlgorithm A_ackSent) c3
                  in Inr (if old_highRxt \<noteq> highRxt c4 then out (ToAlgorithm A_restartRexmitTimer) c4
                          else out (ToAlgorithm (A_dataSent seqNum)) c4)))))"

text \<open>
  The loop compares as \<^verbatim>\<open>int\<close>: the difference is read as a signed 32-bit number.
\<close>

partial_function (option) lossRecoveryLoop :: "u32 \<Rightarrow> TCPConnection \<Rightarrow> TCPConnection outcome option" where
  "lossRecoveryLoop congestionWindow c =
     (if sint (congestionWindow - pipe c) \<ge> sint (snd_mss (tcb c)) then
        (case nextSeg c of
           Inl e \<Rightarrow> Some (Inl e)
         | Inr r \<Rightarrow>
             (case snd r of
                None \<Rightarrow> Some (Inr (fst r))
              | Some seqNum \<Rightarrow>
                  (case sendSegmentDuringLossRecoveryPhase seqNum (fst r) of
                     Inl e \<Rightarrow> Some (Inl e)
                   | Inr c1 \<Rightarrow> lossRecoveryLoop congestionWindow (c1\<lparr>pipe := pipe c1 + sentBytes c1\<rparr>))))
      else Some (Inr c))"

declare lossRecoveryLoop.simps [code]

definition sendDataDuringLossRecoveryPhase :: "u32 \<Rightarrow> TCPConnection \<Rightarrow> TCPConnection outcome" where
  "sendDataDuringLossRecoveryPhase congestionWindow c =
     (if \<not> (sack_enabled c \<and> lossRecovery c) then Inl (AssertFailed ''state->sack_enabled && state->lossRecovery'')
      else returning (lossRecoveryLoop congestionWindow c))"

section \<open>RFC 3517, octet by octet\<close>

text \<open>
  A scoreboard has one pair of flags (sacked, retransmitted) for each octet from \<open>HighACK\<close> on.  These are the definitions of
  the RFC on it.
\<close>

definition rfc_lost :: "u32 \<Rightarrow> (bool \<times> bool) list \<Rightarrow> nat \<Rightarrow> bool" where
  "rfc_lost mss bs k \<longleftrightarrow> 3 \<le> runs False (map fst (drop k bs)) \<or> 3 * unat mss \<le> length (filter fst (drop k bs))"

definition past_last :: "('f \<Rightarrow> bool) \<Rightarrow> 'f list \<Rightarrow> nat" where
  "past_last p bs = length (dropWhile (\<lambda>f. \<not> p f) (rev bs))"

definition rfc_octet :: "u32 \<Rightarrow> (bool \<times> bool) list \<Rightarrow> nat \<Rightarrow> nat" where
  "rfc_octet mss bs k =
     (if fst (bs ! k) then 0
      else (if rfc_lost mss bs k then 0 else 1) + (if k < past_last snd bs then 1 else 0))"

definition rfc_pipe :: "u32 \<Rightarrow> (bool \<times> bool) list \<Rightarrow> nat" where
  "rfc_pipe mss bs = (\<Sum>k<length bs. rfc_octet mss bs k)"

definition rfc_candidates :: "(bool \<times> bool) list \<Rightarrow> nat list" where
  "rfc_candidates bs = filter (\<lambda>k. \<not> fst (bs ! k)) [past_last snd bs ..< past_last fst bs]"

definition rfc_nextSeg :: "u32 \<Rightarrow> (bool \<times> bool) list \<Rightarrow> nat option \<Rightarrow> nat option" where
  "rfc_nextSeg mss bs newData =
     (case filter (rfc_lost mss bs) (rfc_candidates bs) of
        k # _ \<Rightarrow> Some k
      | [] \<Rightarrow> (case newData of Some n \<Rightarrow> Some n
               | None \<Rightarrow> (case rfc_candidates bs of k # _ \<Rightarrow> Some k | [] \<Rightarrow> None)))"

subsection \<open>Runs and blocks\<close>

lemma past_last_le: "past_last p bs \<le> length bs"
  unfolding past_last_def by (metis length_dropWhile_le length_rev)

lemma past_last_snoc: "past_last p (bs @ [b]) = (if p b then Suc (length bs) else past_last p bs)"
  by (simp add: past_last_def)

lemma past_last_above: "past_last p bs \<le> k \<Longrightarrow> k < length bs \<Longrightarrow> \<not> p (bs ! k)"
  by (induction bs rule: rev_induct) (auto simp: past_last_snoc nth_append less_Suc_eq split: if_splits)

lemma past_last_nth: "0 < past_last p bs \<Longrightarrow> p (bs ! (past_last p bs - 1))"
proof (induction bs rule: rev_induct)
  case (snoc b bs)
  then show ?case
    using past_last_le [of p bs] by (cases "p b") (simp_all add: past_last_snoc nth_append less_le_trans)
qed (simp add: past_last_def)

lemma runs_le: "runs prev ss \<le> length ss"
  by (induction prev ss rule: runs.induct) auto

lemma runs_prev: "runs False ss \<le> Suc (runs True ss)"
  by (cases ss) auto

lemma runs_drop: "runs False (drop k ss) \<le> runs False ss"
proof (induction k arbitrary: ss)
  case (Suc k)
  show ?case
  proof (cases ss)
    case (Cons s rest)
    have "runs False (drop k rest) \<le> runs False rest" by (rule Suc.IH)
    also have "\<dots> \<le> runs False (s # rest)" using runs_prev [of rest] by (cases s) auto
    finally show ?thesis using Cons by simp
  qed simp
qed simp

lemma rfc_lost_mono:
  assumes "j \<le> k" "rfc_lost mss bs k"
  shows "rfc_lost mss bs j"
proof -
  have d: "drop k bs = drop (k - j) (drop j bs)" using assms(1) by simp
  have "runs False (map fst (drop k bs)) \<le> runs False (map fst (drop j bs))"
    unfolding d using runs_drop [of "k - j" "map fst (drop j bs)"] by (simp add: drop_map)
  moreover have "length (filter fst (drop k bs)) \<le> length (filter fst (drop j bs))"
  proof -
    have "filter fst (drop j bs) = filter fst (take (k - j) (drop j bs)) @ filter fst (drop k bs)"
      unfolding d by (metis append_take_drop_id filter_append)
    then show ?thesis by simp
  qed
  ultimately show ?thesis using assms(2) by (auto simp: rfc_lost_def)
qed

text \<open>Inside a block with the same flags every octet counts the same.\<close>

lemma block_nth:
  assumes "take n (drop k bs) = replicate n v" "k \<le> length bs"
  shows "k + n \<le> length bs" and "\<And>j. k \<le> j \<Longrightarrow> j < k + n \<Longrightarrow> bs ! j = v"
    and "\<And>j. k \<le> j \<Longrightarrow> j < k + n \<Longrightarrow> drop j bs = replicate (k + n - j) v @ drop (k + n) bs"
proof -
  have "length (take n (drop k bs)) = n" using assms by simp
  then show le: "k + n \<le> length bs" using assms(2) by (simp add: min_def split: if_splits)
  fix j assume j: "k \<le> j" "j < k + n"
  have "take n (drop k bs) ! (j - k) = v" using assms(1) j by simp
  then show "bs ! j = v" using j le by simp
  have "drop k bs = replicate n v @ drop (k + n) bs"
    using append_take_drop_id [of n "drop k bs"] assms(1) by (simp add: add.commute)
  then have "drop (j - k) (drop k bs) = drop (j - k) (replicate n v @ drop (k + n) bs)" by simp
  then show "drop j bs = replicate (k + n - j) v @ drop (k + n) bs" using j by simp
qed

lemma block_octets:
  assumes b: "take n (drop k bs) = replicate n v" "k \<le> length bs" and j: "k \<le> j" "j < k + n" and v: "\<not> fst v"
  shows "rfc_octet mss bs j = rfc_octet mss bs k"
proof -
  note nth = block_nth(2) [OF b] and le = block_nth(1) [OF b] and dr = block_nth(3) [OF b]
  have "rfc_lost mss bs j = rfc_lost mss bs k"
    using dr [OF j] dr [of k] j v runs_replicate [of "k + n - j" False False] runs_replicate [of n False False]
    by (simp add: rfc_lost_def)
  moreover have "j < past_last snd bs \<longleftrightarrow> k < past_last snd bs"
  proof
    assume "k < past_last snd bs"
    show "j < past_last snd bs"
    proof (rule ccontr)
      assume h: "\<not> j < past_last snd bs"
      then have "snd (bs ! (past_last snd bs - 1))" "\<not> snd (bs ! j)"
        using past_last_nth [of snd bs] past_last_above [of snd bs j] \<open>k < past_last snd bs\<close> j le by auto
      moreover have "bs ! (past_last snd bs - 1) = v" "bs ! j = v" using nth h \<open>k < past_last snd bs\<close> j by auto
      ultimately show False by simp
    qed
  qed (use j in simp)
  ultimately show ?thesis using nth [OF j] nth [of k] j by (simp add: rfc_octet_def)
qed

lemma block_sum:
  assumes "take n (drop k bs) = replicate n (bs ! k)" "k \<le> length bs"
  shows "(\<Sum>j\<in>{k..<k + n}. rfc_octet mss bs j) = n * rfc_octet mss bs k"
proof (cases "fst (bs ! k)")
  case True
  have "rfc_octet mss bs j = 0" if "j \<in> {k..<k + n}" for j
    using block_nth(2) [OF assms, of j] that True by (simp add: rfc_octet_def)
  then show ?thesis using True by (simp add: rfc_octet_def)
next
  case False
  have "(\<Sum>j\<in>{k..<k + n}. rfc_octet mss bs j) = (\<Sum>j\<in>{k..<k + n}. rfc_octet mss bs k)"
    by (rule sum.cong [OF refl], rule block_octets [OF assms]) (use False in simp_all)
  then show ?thesis by simp
qed

section \<open>The functions follow the RFC\<close>

text \<open>
  A connection that uses selective acknowledgements, with its retransmission queue: everything not acknowledged is on the
  scoreboard, and \<open>SND.MAX\<close> is its end or, when our FIN is outstanding, one after it.
\<close>

definition loss_ok :: "TCPConnection \<Rightarrow> TCPSACKRexmitQueue \<Rightarrow> bool" where
  "loss_ok c q \<longleftrightarrow> sack_enabled c \<and> rexmitQ c = Some q \<and> rq_inv q \<and> rq_begin q = snd_una (tcb c)
     \<and> unat (snd_mss (tcb c)) < 2 ^ 30 \<and> length (scoreboard q) \<le> off (rq_begin q) (snd_max (tcb c))
     \<and> in_win (rq_begin q) (snd_max (tcb c))"

lemma loss_okD:
  assumes "loss_ok c q"
  shows "sack_enabled c" "rexmitQ c = Some q" "rq_inv q" "rq_begin q = snd_una (tcb c)" "unat (snd_mss (tcb c)) < 2 ^ 30"
    "length (scoreboard q) \<le> off (rq_begin q) (snd_max (tcb c))" "in_win (rq_begin q) (snd_max (tcb c))"
    "length (scoreboard q) < 2 ^ 31"
  using assms unfolding loss_ok_def rq_inv_def by blast+

lemma loss_ok_highRxt [simp]: "loss_ok (c\<lparr>highRxt := h\<rparr>) q = loss_ok c q"
  by (simp add: loss_ok_def)

lemma le_of_nat_u32: "n < 2 ^ 32 \<Longrightarrow> a \<le> (of_nat n :: u32) \<longleftrightarrow> unat a \<le> n"
  by (simp add: word_le_nat_alt unat_of_nat take_bit_nat_eq_self)

lemma isLost_board:
  assumes "loss_ok c q" "off (rq_begin q) x \<le> length (scoreboard q)"
  shows "isLost c x = Inr (rfc_lost (snd_mss (tcb c)) (scoreboard q) (off (rq_begin q) x))"
proof -
  note k = loss_okD [OF assms(1)]
  let ?bs = "drop (off (rq_begin q) x) (scoreboard q)"
  have r: "runs False (map fst ?bs) < 2 ^ 32" "length (filter fst ?bs) < 2 ^ 32"
    using runs_le [of False "map fst ?bs"] length_filter_le [of fst ?bs] k(8) by simp_all
  have m: "unat (3 * snd_mss (tcb c)) = 3 * unat (snd_mss (tcb c))"
    using k(5) by (simp add: unat_word_ariths)
  show ?thesis
    using k rq_guards [OF k(3) assms(2)] getNumOfDiscontiguousSacks_board [OF k(3) assms(2)]
      getAmountOfSackedBytes_board [OF k(3) assms(2)] le_of_nat_u32 [OF r(1), of 3] le_of_nat_u32 [OF r(2), of "3 * snd_mss (tcb c)"] m
    by (auto simp: isLost_def askRexmitQueue_def rfc_lost_def seqGE_seqLE)
qed

lemma highest_board:
  assumes "loss_ok c q"
  shows "highestRexmitted c = Inr (getHighestRexmittedSeqNum q)"
    and "off (rq_begin q) (getHighestRexmittedSeqNum q) = past_last snd (scoreboard q)"
    and "off (rq_begin q) (getHighestSackedSeqNum q) = past_last fst (scoreboard q)"
  using loss_okD [OF assms]
    highestWith_bytes [of rx_rexmitted snd "rq_begin q" "rexmitQueue q" "rq_end q" "rq_begin q"]
    highestWith_bytes [of rx_sacked fst "rq_begin q" "rexmitQueue q" "rq_end q" "rq_begin q"]
  by (simp_all add: highestRexmitted_def askRexmitQueue_def rq_inv_def getHighestRexmittedSeqNum_def getHighestSackedSeqNum_def past_last_def)

text \<open>The block at an octet, and the octet after it.\<close>

lemma block_at:
  assumes "loss_ok c q" "off (rq_begin q) x < length (scoreboard q)"
  obtains n where "askRexmitQueue c (\<lambda>q. checkSackBlock q x) = Inr (n, scoreboard q ! off (rq_begin q) x)" "0 < unat n"
    "take (unat n) (drop (off (rq_begin q) x) (scoreboard q)) = replicate (unat n) (scoreboard q ! off (rq_begin q) x)"
    "off (rq_begin q) (x + n) = off (rq_begin q) x + unat n" "off (rq_begin q) x + unat n \<le> length (scoreboard q)"
proof -
  note k = loss_okD [OF assms(1)]
  obtain n where n: "checkSackBlock q x = Inr (n, scoreboard q ! off (rq_begin q) x)" "0 < unat n"
    "take (unat n) (drop (off (rq_begin q) x) (scoreboard q)) = replicate (unat n) (scoreboard q ! off (rq_begin q) x)"
    using checkSackBlock_board [OF k(3) assms(2)] by blast
  have le: "off (rq_begin q) x + unat n \<le> length (scoreboard q)" using block_nth(1) [OF n(3)] assms(2) by simp
  moreover have "off (rq_begin q) (x + n) = off (rq_begin q) x + unat n" using off_add [of "rq_begin q" x n] le k(8) by simp
  ultimately show thesis using that [of n] n k(2) by (simp add: askRexmitQueue_def)
qed

lemma inside_max:
  assumes "loss_ok c q" "off (rq_begin q) x < length (scoreboard q)"
  shows "seqLess x (snd_max (tcb c))"
  using loss_okD [OF assms(1)] assms(2) seqLess_off [of "rq_begin q" x "snd_max (tcb c)"] by (simp add: in_win_def)


subsection \<open>The estimate of what is in flight\<close>

lemma pipeShare_board:
  assumes "loss_ok c q" "off (rq_begin q) x < length (scoreboard q)" "off (rq_begin q) (highRxt c) = past_last snd (scoreboard q)"
    and "\<not> fst (scoreboard q ! off (rq_begin q) x)"
  shows "pipeShare c x n = Inr (n * of_nat (rfc_octet (snd_mss (tcb c)) (scoreboard q) (off (rq_begin q) x)))"
proof -
  have "seqLess x (highRxt c) \<longleftrightarrow> off (rq_begin q) x < past_last snd (scoreboard q)"
    using assms(2,3) past_last_le [of snd "scoreboard q"] loss_okD(8) [OF assms(1)] seqLess_off [of "rq_begin q" x "highRxt c"]
    by (simp add: in_win_def)
  then show ?thesis
    using isLost_board [OF assms(1), of x] assms(2,4) by (simp add: pipeShare_def rfc_octet_def)
qed

text \<open>The walk over the scoreboard adds up the octets, and arrives at the end of the queue.\<close>

lemma pipeLoop_board:
  assumes ok: "loss_ok c q" "off (rq_begin q) (highRxt c) = past_last snd (scoreboard q)"
    and x: "off (rq_begin q) x \<le> length (scoreboard q)"
  shows "pipeLoop c x p = pipeLoop c (rq_end q)
      (p + of_nat (\<Sum>k\<in>{off (rq_begin q) x..<length (scoreboard q)}. rfc_octet (snd_mss (tcb c)) (scoreboard q) k))"
  using x
proof (induction "length (scoreboard q) - off (rq_begin q) x" arbitrary: x p rule: less_induct)
  case less
  let ?bs = "scoreboard q" and ?o = "rfc_octet (snd_mss (tcb c)) (scoreboard q)"
  show ?case
  proof (cases "off (rq_begin q) x < length ?bs")
    case True
    obtain n where n: "askRexmitQueue c (\<lambda>q. checkSackBlock q x) = Inr (n, ?bs ! off (rq_begin q) x)" "0 < unat n"
      "take (unat n) (drop (off (rq_begin q) x) ?bs) = replicate (unat n) (?bs ! off (rq_begin q) x)"
      "off (rq_begin q) (x + n) = off (rq_begin q) x + unat n" "off (rq_begin q) x + unat n \<le> length ?bs"
      using block_at [OF ok(1) True] by metis
    define d where "d = (n * of_nat (?o (off (rq_begin q) x)) :: u32)"
    have "pipeLoop c x p = pipeLoop c (x + n) (p + d)"
      using inside_max [OF ok(1) True] n(1) pipeShare_board [OF ok(1) True ok(2)]
      by (subst pipeLoop.simps) (simp add: d_def rfc_octet_def)
    also have "\<dots> = pipeLoop c (rq_end q) (p + d + of_nat (\<Sum>k\<in>{off (rq_begin q) x + unat n..<length ?bs}. ?o k))"
      using less.hyps [of "x + n" "p + d"] n(2,4,5) True by simp
    also have "d = of_nat (\<Sum>k\<in>{off (rq_begin q) x..<off (rq_begin q) x + unat n}. ?o k)"
      using block_sum [OF n(3)] True by (simp add: d_def)
    also have "p + \<dots> + of_nat (\<Sum>k\<in>{off (rq_begin q) x + unat n..<length ?bs}. ?o k)
        = p + of_nat (\<Sum>k\<in>{off (rq_begin q) x..<length ?bs}. ?o k)"
      using sum.atLeastLessThan_concat [of "off (rq_begin q) x" "off (rq_begin q) x + unat n" "length ?bs" ?o] n(5)
      by (metis (no_types, lifting) add.assoc le_add1 of_nat_add)
    finally show ?thesis .
  next
    case False
    then have "x = rq_end q" using rq_guards(4) [OF loss_okD(3) [OF ok(1)] less.prems] less.prems by simp
    then show ?thesis using False by simp
  qed
qed

lemma rfc_pipe_bound: "rfc_pipe mss bs \<le> 2 * length bs"
proof -
  have "rfc_pipe mss bs \<le> (\<Sum>k<length bs. 2)" unfolding rfc_pipe_def by (rule sum_mono) (simp add: rfc_octet_def)
  then show ?thesis by simp
qed

lemma setPipe_walk:
  assumes "loss_ok c q"
  shows "setPipe c = outcome_bind (returning (pipeLoop (c\<lparr>highRxt := getHighestRexmittedSeqNum q\<rparr>) (rq_end q)
     (of_nat (rfc_pipe (snd_mss (tcb c)) (scoreboard q))))) (\<lambda>p. Inr (c\<lparr>highRxt := getHighestRexmittedSeqNum q, pipe := p\<rparr>))"
proof -
  note h = highest_board [OF assms] and k = loss_okD [OF assms]
  have "pipeLoop (c\<lparr>highRxt := getHighestRexmittedSeqNum q\<rparr>) (rq_begin q) 0
      = pipeLoop (c\<lparr>highRxt := getHighestRexmittedSeqNum q\<rparr>) (rq_end q) (of_nat (rfc_pipe (snd_mss (tcb c)) (scoreboard q)))"
    using pipeLoop_board [of "c\<lparr>highRxt := getHighestRexmittedSeqNum q\<rparr>" q "rq_begin q" 0] assms h(2)
    by (simp add: rfc_pipe_def lessThan_atLeast0)
  then show ?thesis using k(1) h(1) unfolding k(4) by (simp add: setPipe_def Let_def)
qed


text \<open>
  C34: when our FIN is outstanding, \<open>SND.MAX\<close> is one past the queue, since the FIN is never put there; the walk goes on to
  that number and the assertion of \<^verbatim>\<open>checkSackBlock\<close> fails, whatever the scoreboard holds.
\<close>

theorem setPipe_fails_after_fin:
  assumes ok: "loss_ok c q" and m: "snd_max (tcb c) = rq_end q + 1"
  shows "setPipe c = Inl (AssertFailed ''seqLE(begin, fromSeqNum) && seqLess(fromSeqNum, end)'')"
proof -
  have "seqLess (rq_end q) (rq_end q + 1)" by (simp add: seqLess_def)
  moreover have "\<not> seqLess (rq_end q) (rq_end q)" by (simp add: seqLess_def)
  ultimately show ?thesis
    using setPipe_walk [OF ok] loss_okD(2) [OF ok] m by (simp add: pipeLoop.simps askRexmitQueue_def checkSackBlock_def)
qed

subsection \<open>The next segment\<close>

lemma ucast_room:
  fixes w p m :: u32
  assumes "p \<le> w"
  shows "ucast m \<le> (ucast w - ucast p :: u64) \<longleftrightarrow> unat p + unat m \<le> unat w"
proof -
  have "unat (ucast w - ucast p :: u64) = unat w - unat p"
    using assms by (subst unat_sub) (simp_all add: word_le_nat_alt)
  then show ?thesis using assms by (auto simp: word_le_nat_alt)
qed

lemma ucast_wraps:
  fixes w p m :: u32
  assumes "w < p"
  shows "ucast m \<le> (ucast w - ucast p :: u64)"
proof -
  have b: "unat m < 2 ^ 32" "unat p < 2 ^ 32" using unsigned_less [of m] unsigned_less [of p] by simp_all
  have "unat (ucast w - ucast p :: u64) = 2 ^ 64 + unat w - unat p"
    using assms b by (simp add: unat_sub_if' word_le_nat_alt word_less_nat_alt)
  then show ?thesis using b by (simp add: word_le_nat_alt)
qed

lemma filter_upt_skip:
  assumes "\<And>j. k \<le> j \<Longrightarrow> j < k + n \<Longrightarrow> \<not> P j"
  shows "filter P [k..<h] = filter P [k + n..<h]"
proof (cases "k + n \<le> h")
  case True
  then have "[k..<h] = [k..<k + n] @ [k + n..<h]" using upt_add_eq_append [of k "k + n" "h - (k + n)"] by simp
  then show ?thesis using assms by (simp add: filter_empty_conv)
next
  case False
  then show ?thesis using assms by (simp add: filter_empty_conv)
qed

definition first_at :: "u32 \<Rightarrow> nat list \<Rightarrow> u32 option" where
  "first_at b ks = (case ks of [] \<Rightarrow> None | k # _ \<Rightarrow> Some (b + of_nat k))"

lemma firstUnsacked_board:
  assumes ok: "loss_ok c q" and h: "h = getHighestSackedSeqNum q" and x: "off (rq_begin q) x \<le> length (scoreboard q)"
  shows "firstUnsacked c h x =
    Some (Inr (first_at (rq_begin q) (filter (\<lambda>k. \<not> fst (scoreboard q ! k)) [off (rq_begin q) x..<past_last fst (scoreboard q)])))"
  using x
proof (induction "length (scoreboard q) - off (rq_begin q) x" arbitrary: x rule: less_induct)
  case less
  let ?bs = "scoreboard q" and ?k = "off (rq_begin q) x"
  have seq: "seqLess x h \<longleftrightarrow> ?k < past_last fst ?bs"
    using less.prems highest_board(3) [OF ok] past_last_le [of fst ?bs] loss_okD(8) [OF ok] seqLess_off [of "rq_begin q" x h]
    by (simp add: in_win_def h)
  show ?case
  proof (cases "?k < past_last fst ?bs")
    case True
    then have inside: "?k < length ?bs" using past_last_le [of fst ?bs] by simp
    obtain n where n: "askRexmitQueue c (\<lambda>q. checkSackBlock q x) = Inr (n, ?bs ! ?k)" "0 < unat n"
      "take (unat n) (drop ?k ?bs) = replicate (unat n) (?bs ! ?k)"
      "off (rq_begin q) (x + n) = ?k + unat n" "?k + unat n \<le> length ?bs"
      using block_at [OF ok inside] by metis
    have step: "firstUnsacked c h x = (if fst (?bs ! ?k) then firstUnsacked c h (x + n) else Some (Inr (Some x)))"
      using inside_max [OF ok inside] n(1) seq True by (subst firstUnsacked.simps) simp
    show ?thesis
    proof (cases "fst (?bs ! ?k)")
      case True
      then have "\<not> \<not> fst (?bs ! j)" if "?k \<le> j" "j < ?k + unat n" for j
        using block_nth(2) [OF n(3) less_imp_le [OF inside] that] by simp
      then have "filter (\<lambda>k. \<not> fst (?bs ! k)) [?k..<past_last fst ?bs] = filter (\<lambda>k. \<not> fst (?bs ! k)) [?k + unat n..<past_last fst ?bs]"
        by (rule filter_upt_skip)
      then show ?thesis using True step less.hyps [of "x + n"] n inside by simp
    next
      case False
      have "rq_begin q + of_nat ?k = x" by (simp add: off_def)
      then show ?thesis using False step True by (simp add: first_at_def upt_conv_Cons)
    qed
  next
    case False
    then show ?thesis using seq by (subst firstUnsacked.simps) (simp add: first_at_def)
  qed
qed

lemma sorted_candidates:
  assumes "rfc_candidates bs = k # ks" "j \<in> set ks"
  shows "k \<le> j"
proof -
  have "sorted (rfc_candidates bs)" by (simp add: rfc_candidates_def sorted_wrt_filter)
  then show ?thesis using assms by simp
qed

lemma candidates_lost:
  "(case rfc_candidates bs of [] \<Rightarrow> False | k # _ \<Rightarrow> rfc_lost mss bs k) \<longleftrightarrow> filter (rfc_lost mss bs) (rfc_candidates bs) \<noteq> []"
proof (cases "rfc_candidates bs")
  case (Cons k ks)
  then have "\<exists>j\<in>set (k # ks). rfc_lost mss bs j \<Longrightarrow> rfc_lost mss bs k"
    using rfc_lost_mono [of k _ mss bs] sorted_candidates [OF Cons] by auto
  then show ?thesis using Cons by (auto simp: filter_empty_conv)
qed simp

lemma candidates_inside: "rfc_candidates bs = k # ks \<Longrightarrow> k < length bs"
proof -
  assume "rfc_candidates bs = k # ks"
  then have "k \<in> set (rfc_candidates bs)" by simp
  then show ?thesis using past_last_le [of fst bs] by (simp add: rfc_candidates_def)
qed

lemma search_candidates:
  assumes ok: "loss_ok c q"
  defines "c1 \<equiv> c\<lparr>highRxt := getHighestRexmittedSeqNum q\<rparr>" and "ks \<equiv> rfc_candidates (scoreboard q)"
  shows "firstUnsacked c1 (getHighestSackedSeqNum q) (getHighestRexmittedSeqNum q) = Some (Inr (first_at (rq_begin q) ks))"
    and "(case first_at (rq_begin q) ks of None \<Rightarrow> Inr False | Some s \<Rightarrow> isLost c1 s)
      = Inr (filter (rfc_lost (snd_mss (tcb c)) (scoreboard q)) ks \<noteq> [])"
proof -
  let ?bs = "scoreboard q"
  have ok1: "loss_ok c1 q" using ok by (simp add: c1_def)
  show "firstUnsacked c1 (getHighestSackedSeqNum q) (getHighestRexmittedSeqNum q) = Some (Inr (first_at (rq_begin q) ks))"
    using firstUnsacked_board [OF ok1 refl, of "getHighestRexmittedSeqNum q"] highest_board(2) [OF ok] past_last_le [of snd ?bs]
    by (simp add: rfc_candidates_def ks_def)
  show "(case first_at (rq_begin q) ks of None \<Rightarrow> Inr False | Some s \<Rightarrow> isLost c1 s)
      = Inr (filter (rfc_lost (snd_mss (tcb c)) ?bs) ks \<noteq> [])"
  proof (cases ks)
    case (Cons j js)
    then have j: "j < length ?bs" unfolding ks_def by (rule candidates_inside)
    then have "off (rq_begin q) (rq_begin q + of_nat j) = j"
      using loss_okD(8) [OF ok] by (simp add: off_plus unat_of_nat take_bit_nat_eq_self)
    then have "isLost c1 (rq_begin q + of_nat j) = Inr (rfc_lost (snd_mss (tcb c)) ?bs j)"
      using isLost_board [OF ok1, of "rq_begin q + of_nat j"] j by (simp add: c1_def)
    then show ?thesis
      using candidates_lost [of "snd_mss (tcb c)" ?bs] Cons by (simp add: first_at_def ks_def)
  qed (simp add: first_at_def)
qed

lemma nextSeg_choice:
  assumes "loss_ok c q"
  defines "c1 \<equiv> c\<lparr>highRxt := getHighestRexmittedSeqNum q\<rparr>" and "ks \<equiv> rfc_candidates (scoreboard q)"
  shows "nextSeg c = Inr (c1, if filter (rfc_lost (snd_mss (tcb c)) (scoreboard q)) ks = [] \<and> newDataAllowed c
    then Some (snd_max (tcb c)) else first_at (rq_begin q) ks)"
proof -
  have "newDataAllowed c1 = newDataAllowed c" by (simp add: newDataAllowed_def c1_def)
  then show ?thesis
    using loss_okD(1,2) [OF assms(1)] highest_board(1) [OF assms(1)] search_candidates [OF assms(1)]
    by (auto simp: nextSeg_def askRexmitQueue_def c1_def ks_def Let_def)
qed

text \<open>
  C33: \<open>nextSeg\<close> returns and chooses what RFC 3517 says.  First the smallest octet above \<open>HighRxt\<close>, below the
  highest selectively acknowledged one, not selectively acknowledged itself and deemed lost; else, if there is unsent data and the
  advertised window has room for a segment beside what is in flight, new data; else the smallest octet as before that
  need not be deemed lost; else nothing.  The code only looks at the first unsacked block, which is enough because an octet
  above one that is not lost is not lost.
\<close>

theorem nextSeg_follows_rfc:
  assumes ok: "loss_ok c q" and w: "pipe c \<le> snd_wnd c"
  defines "newData \<equiv> (if 0 < getBytesAvailable (sendQueue c) (snd_max (tcb c))
      \<and> unat (pipe c) + unat (snd_mss (tcb c)) \<le> unat (snd_wnd c) then Some (off (snd_una (tcb c)) (snd_max (tcb c))) else None)"
  shows "nextSeg c = Inr (c\<lparr>highRxt := getHighestRexmittedSeqNum q\<rparr>,
    map_option (\<lambda>k. snd_una (tcb c) + of_nat k) (rfc_nextSeg (snd_mss (tcb c)) (scoreboard q) newData))"
proof -
  let ?bs = "scoreboard q" and ?m = "snd_mss (tcb c)"
  have b: "rq_begin q = snd_una (tcb c)" by (rule loss_okD(4) [OF ok])
  have nd: "newDataAllowed c \<longleftrightarrow> newData \<noteq> None" using ucast_room [OF w] by (simp add: newDataAllowed_def newData_def)
  have hd: "rfc_candidates ?bs = j # js \<Longrightarrow> filter (rfc_lost ?m ?bs) (rfc_candidates ?bs) \<noteq> []
      \<Longrightarrow> \<exists>ks. filter (rfc_lost ?m ?bs) (rfc_candidates ?bs) = j # ks" for j js
    using candidates_lost [of ?m ?bs] by simp
  have new: "newData = Some d \<Longrightarrow> snd_una (tcb c) + of_nat d = snd_max (tcb c)" for d
    by (auto simp: newData_def off_def split: if_splits)
  show ?thesis
  proof (cases "rfc_candidates ?bs")
    case Nil
    then show ?thesis unfolding nextSeg_choice [OF ok] nd using new by (auto simp: rfc_nextSeg_def first_at_def)
  next
    case (Cons j js)
    then show ?thesis unfolding nextSeg_choice [OF ok] nd using new hd [OF Cons] b
      by (auto simp: rfc_nextSeg_def first_at_def split: list.splits option.splits)
  qed
qed

text \<open>
  The room in the window is computed in an unsigned type.  When more is in flight than the advertised window
  allows, the difference wraps around, and \<open>nextSeg\<close> lets new data out whenever there is some and nothing is deemed lost,
  even into a closed window.
\<close>

theorem nextSeg_ignores_full_window:
  assumes ok: "loss_ok c q" and w: "snd_wnd c < pipe c" and b: "0 < getBytesAvailable (sendQueue c) (snd_max (tcb c))"
    and l: "filter (rfc_lost (snd_mss (tcb c)) (scoreboard q)) (rfc_candidates (scoreboard q)) = []"
  shows "nextSeg c = Inr (c\<lparr>highRxt := getHighestRexmittedSeqNum q\<rparr>, Some (snd_max (tcb c)))"
proof -
  have "newDataAllowed c" using b ucast_wraps [OF w] by (simp add: newDataAllowed_def)
  then show ?thesis using nextSeg_choice [OF ok] l by simp
qed

section \<open>A connection in loss recovery\<close>

text \<open>
  Four segments of 10 bytes from 1001 on were sent; the second and the fourth have been selectively acknowledged, and the
  first was retransmitted.
\<close>

definition example_board :: TCPSACKRexmitQueue where
  "example_board = \<lparr>rexmitQueue =
     [\<lparr>rx_begin = 1001, rx_end = 1011, rx_sacked = False, rx_rexmitted = True\<rparr>,
      \<lparr>rx_begin = 1011, rx_end = 1021, rx_sacked = True, rx_rexmitted = False\<rparr>,
      \<lparr>rx_begin = 1021, rx_end = 1031, rx_sacked = False, rx_rexmitted = False\<rparr>,
      \<lparr>rx_begin = 1031, rx_end = 1041, rx_sacked = True, rx_rexmitted = False\<rparr>],
     rq_begin = 1001, rq_end = 1041\<rparr>"

definition example_recovery :: TCPConnection where
  "example_recovery = example_connection\<lparr>fsm := S_ESTABLISHED, sack_enabled := True, rexmitQ := Some example_board,
     snd_wnd := 1000, tcb := TCPStateVariables_new\<lparr>snd_una := 1001, snd_nxt := 1041, snd_max := 1041, snd_mss := 10\<rparr>,
     sendQueue := \<lparr>sq_begin = 1001, sq_end = 1041\<rparr>\<rparr>"

lemma example_recovery_ok: "loss_ok example_recovery example_board"
  by (simp add: loss_ok_def rq_inv_def example_recovery_def example_board_def example_connection_def TCPStateVariables_new_def
      seqLess_def off_def in_win_def)

lemma example_bytes:
  "scoreboard example_board = replicate 10 (False, True) @ replicate 10 (True, False) @ replicate 10 (False, False) @ replicate 10 (True, False)"
  by (simp add: example_board_def rx_bytes_def)

lemma example_pipe: "rfc_pipe 10 (scoreboard example_board) = 30"
  unfolding example_bytes by code_simp


theorem setPipe_fails_after_fin_witness:
  "\<exists>e. setPipe (example_recovery\<lparr>tcb := (tcb example_recovery)\<lparr>snd_max := 1042\<rparr>\<rparr>) = Inl e"
proof -
  have "loss_ok (example_recovery\<lparr>tcb := (tcb example_recovery)\<lparr>snd_max := 1042\<rparr>\<rparr>) example_board"
    by (simp add: loss_ok_def rq_inv_def example_recovery_def example_board_def example_connection_def TCPStateVariables_new_def
        seqLess_def off_def in_win_def)
  then show ?thesis using setPipe_fails_after_fin by (auto simp: example_board_def)
qed

theorem nextSeg_follows_rfc_witness:
  "\<exists>c'. nextSeg example_recovery = Inr (c', Some 1021)"
proof -
  note d = example_recovery_def example_connection_def TCPStateVariables_new_def
  have v: "pipe example_recovery \<le> snd_wnd example_recovery" "snd_mss (tcb example_recovery) = 10" "snd_una (tcb example_recovery) = 1001"
    "getBytesAvailable (sendQueue example_recovery) (snd_max (tcb example_recovery)) = 0"
    by (simp_all add: d getBytesAvailable_def seqLess_def)
  have "rfc_nextSeg 10 (scoreboard example_board) None = Some 20" unfolding example_bytes by code_simp
  then show ?thesis using nextSeg_follows_rfc [OF example_recovery_ok v(1)] v by auto
qed

theorem nextSeg_ignores_full_window_witness:
  "\<exists>c'. nextSeg (example_recovery\<lparr>snd_wnd := 0, pipe := 10, sendQueue := \<lparr>sq_begin = 1001, sq_end = 2000\<rparr>\<rparr>) = Inr (c', Some 1041)"
proof -
  let ?c = "example_recovery\<lparr>snd_wnd := 0, pipe := 10, sendQueue := \<lparr>sq_begin = 1001, sq_end = 2000\<rparr>\<rparr>"
  have ok: "loss_ok ?c example_board" using example_recovery_ok by (auto simp: loss_ok_def)
  have v: "snd_max (tcb ?c) = 1041" "snd_mss (tcb ?c) = 10" "snd_wnd ?c < pipe ?c"
    by (simp_all add: example_recovery_def TCPStateVariables_new_def)
  have b: "0 < getBytesAvailable (sendQueue ?c) (snd_max (tcb ?c))" unfolding v by (simp add: getBytesAvailable_def seqLess_def)
  have "filter (rfc_lost 10 (scoreboard example_board)) (rfc_candidates (scoreboard example_board)) = []"
    unfolding example_bytes by code_simp
  then show ?thesis using nextSeg_ignores_full_window [OF ok v(3) b] v by auto
qed

end
