(* ===== verification/TCP_Algorithms.thy ===== *)
theory TCP_Algorithms
  imports TCP_Loss
begin

text \<open>
  The congestion control algorithms of \<^verbatim>\<open>src/src/transport/tcp/flavours\<close>:
  \<^verbatim>\<open>DumbTCP\<close>, \<^verbatim>\<open>TCPBaseAlg\<close> and its descendants
  \<^verbatim>\<open>TCPNoCongestionControl\<close>, \<^verbatim>\<open>TCPTahoe\<close>, \<^verbatim>\<open>TCPReno\<close> and
  \<^verbatim>\<open>TCPNewReno\<close>.

  The functions of the connection that send something notify the algorithm while they run.  They record the notifications;
  the algorithm acts on them when the function returns.  That is the same, because what it does then concerns
  only its own variables and timers, \<open>ack_now\<close>, \<open>last_ack_sent\<close>, \<open>time_last_data_sent\<close> and
  \<open>full_sized_segment_counter\<close>, none of which the sending functions read.

  Times are in milliseconds.  The product of a time with a double, rounded to the resolution of the simulation clock, belongs to
  the simulation kernel: \<open>eighth\<close> stands for the product with 0.125.
\<close>

section \<open>Timers and notifications\<close>

definition isScheduled :: "timer \<Rightarrow> bool outcome" where
  "isScheduled t = (if t = TimerNull then Inl (UndefinedBehaviour ''timer is NULL'') else Inr (t = TimerScheduled))"

definition cancelIfScheduled :: "timer \<Rightarrow> timer outcome" where
  "cancelIfScheduled t = outcome_bind (isScheduled t) (\<lambda>s. if s then cancel t else Inr t)"

definition simTime :: "TCPConnection \<Rightarrow> int" where
  "simTime c = int (simTimeMs c)"

definition updAlg :: "(TCPAlgState \<Rightarrow> TCPAlgState) \<Rightarrow> TCPConnection \<Rightarrow> TCPConnection" where
  "updAlg f c = c\<lparr>algState := f (algState c)\<rparr>"

fun notices :: "TcpOut list \<Rightarrow> TCPAlgorithmCall list" where
  "notices [] = []"
| "notices (ToAlgorithm a # os) = a # notices os"
| "notices (_ # os) = notices os"

fun settleAll :: "(TCPAlgorithmCall \<Rightarrow> TCPConnection \<Rightarrow> TCPConnection outcome) \<Rightarrow> TCPAlgorithmCall list \<Rightarrow> TCPConnection \<Rightarrow> TCPConnection outcome" where
  "settleAll notify [] c = Inr c"
| "settleAll notify (a # as) c = outcome_bind (notify a c) (\<lambda>c1. settleAll notify as c1)"

definition settle :: "(TCPAlgorithmCall \<Rightarrow> TCPConnection \<Rightarrow> TCPConnection outcome) \<Rightarrow> TCPConnection \<Rightarrow> TCPConnection \<Rightarrow> TCPConnection outcome" where
  "settle notify c c1 = settleAll notify (notices (drop (length (outputs c)) (outputs c1))) c1"

section \<open>TCPBaseAlg\<close>

definition TCPBaseAlg_initialize :: "TCPConnection \<Rightarrow> TCPConnection" where
  "TCPBaseAlg_initialize c =
     updAlg (\<lambda>a. a\<lparr>rexmitTimer := TimerIdle, persistTimer := TimerIdle, delayedAckTimer := TimerIdle, keepAliveTimer := TimerIdle\<rparr>) c"

definition startRexmitTimer :: "TCPConnection \<Rightarrow> TCPConnection outcome" where
  "startRexmitTimer c =
     outcome_bind (scheduleTimeout (rexmitTimer (algState c))) (\<lambda>t. Inr (updAlg (\<lambda>a. a\<lparr>rexmit_count := 0, rexmitTimer := t\<rparr>) c))"

definition restartRexmitTimer :: "TCPConnection \<Rightarrow> TCPConnection outcome" where
  "restartRexmitTimer c =
     outcome_bind (cancelIfScheduled (rexmitTimer (algState c))) (\<lambda>t. startRexmitTimer (updAlg (\<lambda>a. a\<lparr>rexmitTimer := t\<rparr>) c))"

definition ackSent :: "TCPConnection \<Rightarrow> TCPConnection outcome" where
  "ackSent c =
     outcome_bind (cancelIfScheduled (delayedAckTimer (algState c))) (\<lambda>t.
       Inr (updAlg (\<lambda>a. a\<lparr>delayedAckTimer := t\<rparr>)
         (c\<lparr>full_sized_segment_counter := 0, ack_now := False, last_ack_sent := st_rcv_nxt (tcb c)\<rparr>)))"

text \<open>A round-trip time measurement is started unless one is running or timestamps are used.\<close>

definition timeSegment :: "u32 \<Rightarrow> TCPConnection \<Rightarrow> TCPConnection" where
  "timeSegment fromseq c =
     (if \<not> ts_enabled c \<and> rtseq_sendtime (algState c) = 0
      then updAlg (\<lambda>a. a\<lparr>rtseq := fromseq, rtseq_sendtime := simTime c\<rparr>) c else c)"

definition dataSent :: "u32 \<Rightarrow> TCPConnection \<Rightarrow> TCPConnection outcome" where
  "dataSent fromseq c =
     outcome_bind (isScheduled (rexmitTimer (algState c))) (\<lambda>s.
     outcome_bind (if s then Inr c else startRexmitTimer c) (\<lambda>c1.
       Inr ((timeSegment fromseq c1)\<lparr>time_last_data_sent := simTimeMs c1\<rparr>)))"

fun TCPBaseAlg_notify :: "TCPAlgorithmCall \<Rightarrow> TCPConnection \<Rightarrow> TCPConnection outcome" where
  "TCPBaseAlg_notify A_ackSent c = ackSent c"
| "TCPBaseAlg_notify (A_dataSent fromseq) c = dataSent fromseq c"
| "TCPBaseAlg_notify A_restartRexmitTimer c = restartRexmitTimer c"
| "TCPBaseAlg_notify _ c = Inr c"

text \<open>A call of a function of the connection, with the notifications it sends.\<close>

definition sending :: "(TCPConnection \<Rightarrow> TCPConnection outcome) \<Rightarrow> TCPConnection \<Rightarrow> TCPConnection outcome" where
  "sending f c = outcome_bind (f c) (\<lambda>c1. settle TCPBaseAlg_notify c c1)"

definition initialWindow :: "TCPConnection \<Rightarrow> u32" where
  "initialWindow c = (let mss = snd_mss (tcb c) in min (4 * mss) (max (2 * mss) 4380))"

definition restartIdle :: "TCPConnection \<Rightarrow> TCPConnection" where
  "restartIdle c =
     (if getBytesAvailable (sendQueue c) (snd_nxt (tcb c)) \<noteq> 0 \<and> simTime c - int (time_last_data_sent c) > rexmit_timeout (algState c)
      then updAlg (\<lambda>a. a\<lparr>snd_cwnd := (if increased_IW_enabled c then min (initialWindow c) (snd_cwnd a) else snd_mss (tcb c))\<rparr>) c
      else c)"

definition TCPBaseAlg_sendData :: "bool \<Rightarrow> TCPConnection \<Rightarrow> (TCPConnection \<times> bool) outcome" where
  "TCPBaseAlg_sendData commandInvoked c =
     (let fullSegmentsOnly = (commandInvoked \<and> nagle_enabled c \<and> snd_una (tcb c) \<noteq> snd_max (tcb c)); c1 = restartIdle c
      in outcome_bind (sendData fullSegmentsOnly (snd_cwnd (algState c1)) c1) (\<lambda>(c2, b).
         outcome_bind (settle TCPBaseAlg_notify c1 c2) (\<lambda>c3. Inr (c3, b))))"

definition trySending :: "TCPConnection \<Rightarrow> TCPConnection outcome" where
  "trySending c = outcome_bind (TCPBaseAlg_sendData False c) (\<lambda>(c1, _). Inr c1)"

definition TCPBaseAlg_established :: "bool \<Rightarrow> TCPConnection \<Rightarrow> TCPConnection outcome" where
  "TCPBaseAlg_established act c =
     (let w = (if increased_IW_enabled c \<and> syn_rexmit_count c = 0 then initialWindow c else snd_mss (tcb c));
          c1 = updAlg (\<lambda>a. a\<lparr>snd_cwnd := w\<rparr>) c
      in if act then outcome_bind (TCPBaseAlg_sendData False c1) (\<lambda>(c2, b). if b then Inr c2 else sending sendAck c2)
         else Inr c1)"

definition TCPBaseAlg_connectionClosed :: "TCPConnection \<Rightarrow> TCPConnection outcome" where
  "TCPBaseAlg_connectionClosed c =
     outcome_bind (cancel (rexmitTimer (algState c))) (\<lambda>r.
     outcome_bind (cancel (persistTimer (algState c))) (\<lambda>p.
     outcome_bind (cancel (delayedAckTimer (algState c))) (\<lambda>d.
     outcome_bind (cancel (keepAliveTimer (algState c))) (\<lambda>k.
       Inr (updAlg (\<lambda>a. a\<lparr>rexmitTimer := r, persistTimer := p, delayedAckTimer := d, keepAliveTimer := k\<rparr>) c)))))"

subsection \<open>Round-trip times\<close>

definition clampRto :: "int \<Rightarrow> int" where
  "clampRto rto = (if rto > 240000 then 240000 else if rto < 1000 then 1000 else rto)"

definition rttMeasurementComplete :: "(int \<Rightarrow> int) \<Rightarrow> int \<Rightarrow> int \<Rightarrow> TCPConnection \<Rightarrow> TCPConnection" where
  "rttMeasurementComplete eighth tSent tAcked c =
     updAlg (\<lambda>a.
       let err = tAcked - tSent - srtt a; s = srtt a + eighth err; v = rttvar a + eighth (\<bar>err\<bar> - rttvar a)
       in a\<lparr>srtt := s, rttvar := v, rexmit_timeout := clampRto (s + 4 * v)\<rparr>) c"

definition rttMeasurementCompleteUsingTS :: "(int \<Rightarrow> int) \<Rightarrow> u32 \<Rightarrow> TCPConnection \<Rightarrow> TCPConnection outcome" where
  "rttMeasurementCompleteUsingTS eighth echoedTS c =
     (if \<not> ts_enabled c then Inl (AssertFailed ''state->ts_enabled'')
      else Inr (rttMeasurementComplete eighth (uint echoedTS) (uint (word_of_int (simTime c) :: u32)) c))"

subsection \<open>Segments received\<close>

definition receivedOutOfOrderSegment :: "TCPConnection \<Rightarrow> TCPConnection outcome" where
  "receivedOutOfOrderSegment c = sending sendAck (c\<lparr>ack_now := True\<rparr>)"

text \<open>The first condition says that an acknowledgement has already been sent, with data.\<close>

definition receiveSeqChanged :: "TCPConnection \<Rightarrow> TCPConnection outcome" where
  "receiveSeqChanged c0 =
     outcome_bind
       (if full_sized_segment_counter c0 = 0 \<and> \<not> ack_now c0 \<and> last_ack_sent c0 = st_rcv_nxt (tcb c0)
        then outcome_bind (isScheduled (delayedAckTimer (algState c0))) (\<lambda>s. Inr (\<not> s)) else Inr False)
       (\<lambda>alreadySent.
          let c = (if lossRecovery c0 then c0\<lparr>ack_now := True\<rparr> else c0)
          in if alreadySent then Inr c0
             else if \<not> delayed_acks_enabled c \<or> ack_now c \<or> full_sized_segment_counter c \<ge> 2 then sending sendAck c
             else outcome_bind (isScheduled (delayedAckTimer (algState c))) (\<lambda>s.
               if s then Inr c
               else outcome_bind (scheduleTimeout (delayedAckTimer (algState c))) (\<lambda>t.
                 Inr (updAlg (\<lambda>a. a\<lparr>delayedAckTimer := t\<rparr>) c))))"

definition measureAcked :: "(int \<Rightarrow> int) \<Rightarrow> TCPConnection \<Rightarrow> TCPConnection" where
  "measureAcked eighth c =
     (let a = algState c
      in if \<not> ts_enabled c \<and> rtseq_sendtime a \<noteq> 0 \<and> seqLess (rtseq a) (snd_una (tcb c))
         then updAlg (\<lambda>a. a\<lparr>rtseq_sendtime := 0\<rparr>) (rttMeasurementComplete eighth (rtseq_sendtime a) (simTime c) c)
         else c)"

definition rexmitAfterAck :: "TCPConnection \<Rightarrow> TCPConnection outcome" where
  "rexmitAfterAck c =
     (if snd_una (tcb c) = snd_max (tcb c)
      then outcome_bind (cancelIfScheduled (rexmitTimer (algState c))) (\<lambda>t. Inr (updAlg (\<lambda>a. a\<lparr>rexmitTimer := t\<rparr>) c))
      else outcome_bind (cancel (rexmitTimer (algState c))) (\<lambda>t. startRexmitTimer (updAlg (\<lambda>a. a\<lparr>rexmitTimer := t\<rparr>) c)))"

definition stopPersist :: "TCPConnection \<Rightarrow> TCPConnection outcome" where
  "stopPersist c =
     outcome_bind (isScheduled (persistTimer (algState c))) (\<lambda>s.
       if s then outcome_bind (cancel (persistTimer (algState c))) (\<lambda>t.
                   Inr (updAlg (\<lambda>a. a\<lparr>persistTimer := t, persist_factor := 0\<rparr>) c))
       else Inr c)"

definition persistAfterAck :: "TCPConnection \<Rightarrow> TCPConnection outcome" where
  "persistAfterAck c =
     (if snd_wnd c = 0
      then outcome_bind (isScheduled (rexmitTimer (algState c))) (\<lambda>r.
        if r then stopPersist c
        else outcome_bind (isScheduled (persistTimer (algState c))) (\<lambda>s.
          if s then Inr c
          else outcome_bind (scheduleTimeout (persistTimer (algState c))) (\<lambda>t.
            Inr (updAlg (\<lambda>a. a\<lparr>persistTimer := t\<rparr>) c))))
      else stopPersist c)"

definition TCPBaseAlg_receivedDataAck :: "(int \<Rightarrow> int) \<Rightarrow> TCPConnection \<Rightarrow> TCPConnection outcome" where
  "TCPBaseAlg_receivedDataAck eighth c =
     outcome_bind (rexmitAfterAck (measureAcked eighth c)) persistAfterAck"

definition TCPBaseAlg_receivedDuplicateAck :: "TCPConnection \<Rightarrow> TCPConnection outcome" where
  "TCPBaseAlg_receivedDuplicateAck c =
     (let fullSegmentsOnly = (nagle_enabled c \<and> snd_una (tcb c) \<noteq> snd_max (tcb c))
      in if dupacks c < DUPTHRESH \<and> limited_transmit_enabled c
         then sending (sendOneNewSegment fullSegmentsOnly (snd_cwnd (algState c))) c else Inr c)"

subsection \<open>Timeouts\<close>

text \<open>The scoreboard is cleared and loss recovery ends.\<close>

definition forgetSacks :: "TCPConnection \<Rightarrow> TCPConnection outcome" where
  "forgetSacks c =
     (if sack_enabled c
      then outcome_bind (onRexmitQueue c (\<lambda>q. Inr (resetRexmittedBit (resetSackedBit q)))) (\<lambda>c1.
        Inr (if lossRecovery c1 then c1\<lparr>recoveryPoint := snd_max (tcb c1), lossRecovery := False\<rparr> else c1))
      else Inr c)"

definition TCPBaseAlg_processRexmitTimer :: "TCPConnection \<Rightarrow> (TCPConnection \<times> TCPEventCode) outcome" where
  "TCPBaseAlg_processRexmitTimer c0 =
     (let c = updAlg (\<lambda>a. a\<lparr>rexmit_count := rexmit_count a + 1\<rparr>) c0
      in if rexmit_count (algState c) > 12 then Inr (out (ToApp I_TIMED_OUT) c, E_ABORT)
         else outcome_bind (scheduleTimeout (rexmitTimer (algState c))) (\<lambda>t.
              outcome_bind (forgetSacks (updAlg (\<lambda>a.
                  a\<lparr>rexmit_timeout := min 240000 (2 * rexmit_timeout a), rexmitTimer := t, rtseq_sendtime := 0, numRtos := numRtos a + 1\<rparr>) c)) (\<lambda>c1.
                Inr (c1\<lparr>time_last_data_sent := simTimeMs c1\<rparr>, E_IGNORE))))"

text \<open>The bounds of 5 and 60 seconds are applied to the retransmission timeout.\<close>

definition backOffPersist :: "TCPAlgState \<Rightarrow> TCPAlgState" where
  "backOffPersist a =
     (let f = (if persist_factor a = 0 then 1 else if persist_factor a < 64 then persist_factor a * 2 else persist_factor a);
          p = 1500 * uint f;
          r = (if p < 5000 then 5000 else rexmit_timeout a)
      in a\<lparr>persist_factor := f, persist_timeout := p, rexmit_timeout := (if p > 60000 then 60000 else r)\<rparr>)"

definition TCPBaseAlg_processPersistTimer :: "TCPConnection \<Rightarrow> (TCPConnection \<times> TCPEventCode) outcome" where
  "TCPBaseAlg_processPersistTimer c =
     (let c1 = updAlg backOffPersist c
      in outcome_bind (scheduleTimeout (persistTimer (algState c1))) (\<lambda>t.
         outcome_bind (sending (\<lambda>d. outcome_bind (sendProbe d) (\<lambda>(d1, _). Inr d1)) (updAlg (\<lambda>a. a\<lparr>persistTimer := t\<rparr>) c1)) (\<lambda>c2.
           Inr (c2, E_IGNORE))))"

definition processDelayedAckTimer :: "TCPConnection \<Rightarrow> (TCPConnection \<times> TCPEventCode) outcome" where
  "processDelayedAckTimer c = outcome_bind (sending sendAck (c\<lparr>ack_now := True\<rparr>)) (\<lambda>c1. Inr (c1, E_IGNORE))"

section \<open>Window management\<close>

definition recalculateSlowStartThreshold :: "TCPConnection \<Rightarrow> TCPConnection" where
  "recalculateSlowStartThreshold c =
     updAlg (\<lambda>a. a\<lparr>ssthresh := max (min (snd_cwnd a) (snd_wnd c) div 2) (2 * snd_mss (tcb c))\<rparr>) c"

text \<open>Slow start below the threshold, congestion avoidance above it; the division is by the window.\<close>

definition growWindow :: "TCPConnection \<Rightarrow> TCPConnection outcome" where
  "growWindow c =
     (let a = algState c; mss = snd_mss (tcb c); incr = mss * mss div snd_cwnd a
      in if snd_cwnd a < ssthresh a then Inr (updAlg (\<lambda>a. a\<lparr>snd_cwnd := snd_cwnd a + mss\<rparr>) c)
         else if snd_cwnd a = 0 then Inl (UndefinedBehaviour ''division by zero'')
         else Inr (updAlg (\<lambda>a. a\<lparr>snd_cwnd := snd_cwnd a + (if incr = 0 then 1 else incr)\<rparr>) c))"

text \<open>After a retransmission timeout: slow start with one segment.\<close>

definition slowStartAfterRto :: "TCPConnection \<Rightarrow> TCPConnection outcome" where
  "slowStartAfterRto c =
     (let c1 = updAlg (\<lambda>a. a\<lparr>snd_cwnd := snd_mss (tcb c)\<rparr>) (recalculateSlowStartThreshold c)
      in sending (retransmitOneSegment True) (c1\<lparr>tcb := (tcb c1)\<lparr>afterRto := True\<rparr>\<rparr>))"

definition unlessAborted :: "(TCPConnection \<Rightarrow> TCPConnection outcome) \<Rightarrow> (TCPConnection \<times> TCPEventCode) outcome
    \<Rightarrow> (TCPConnection \<times> TCPEventCode) outcome" where
  "unlessAborted f r =
     outcome_bind r (\<lambda>(c, event). if event = E_ABORT then Inr (c, event) else outcome_bind (f c) (\<lambda>c1. Inr (c1, event)))"

section \<open>TCPNoCongestionControl\<close>

definition NoCongestionControl_initialize :: "TCPConnection \<Rightarrow> TCPConnection" where
  "NoCongestionControl_initialize c = updAlg (\<lambda>a. a\<lparr>snd_cwnd := 0x7fffffff\<rparr>) (TCPBaseAlg_initialize c)"

definition NoCongestionControl_processRexmitTimer :: "TCPConnection \<Rightarrow> (TCPConnection \<times> TCPEventCode) outcome" where
  "NoCongestionControl_processRexmitTimer c =
     unlessAborted (sending (retransmitOneSegment True)) (TCPBaseAlg_processRexmitTimer c)"

definition NoCongestionControl_receivedDataAck :: "(int \<Rightarrow> int) \<Rightarrow> TCPConnection \<Rightarrow> TCPConnection outcome" where
  "NoCongestionControl_receivedDataAck eighth c = outcome_bind (TCPBaseAlg_receivedDataAck eighth c) trySending"

section \<open>TCPTahoe\<close>

definition Tahoe_processRexmitTimer :: "TCPConnection \<Rightarrow> (TCPConnection \<times> TCPEventCode) outcome" where
  "Tahoe_processRexmitTimer c = unlessAborted slowStartAfterRto (TCPBaseAlg_processRexmitTimer c)"

definition Tahoe_receivedDataAck :: "(int \<Rightarrow> int) \<Rightarrow> TCPConnection \<Rightarrow> TCPConnection outcome" where
  "Tahoe_receivedDataAck eighth c =
     outcome_bind (TCPBaseAlg_receivedDataAck eighth c) (\<lambda>c1. outcome_bind (growWindow c1) trySending)"

definition Tahoe_receivedDuplicateAck :: "TCPConnection \<Rightarrow> TCPConnection outcome" where
  "Tahoe_receivedDuplicateAck c0 =
     outcome_bind (TCPBaseAlg_receivedDuplicateAck c0) (\<lambda>c.
       if dupacks c = DUPTHRESH
       then sending (retransmitOneSegment False) (updAlg (\<lambda>a. a\<lparr>snd_cwnd := snd_mss (tcb c)\<rparr>) (recalculateSlowStartThreshold c))
       else Inr c)"

section \<open>TCPReno\<close>

definition Reno_processRexmitTimer :: "TCPConnection \<Rightarrow> (TCPConnection \<times> TCPEventCode) outcome" where
  "Reno_processRexmitTimer c = unlessAborted slowStartAfterRto (TCPBaseAlg_processRexmitTimer c)"

text \<open>Step (C) of RFC 3517.\<close>

definition sendIfPipeAllows :: "TCPConnection \<Rightarrow> TCPConnection outcome" where
  "sendIfPipeAllows c =
     (if sint (snd_cwnd (algState c) - pipe c) \<ge> sint (snd_mss (tcb c))
      then sending (sendDataDuringLossRecoveryPhase (snd_cwnd (algState c))) c else Inr c)"

definition Reno_recoveryAck :: "TCPConnection \<Rightarrow> TCPConnection outcome" where
  "Reno_recoveryAck c =
     (if sack_enabled c \<and> lossRecovery c
      then if seqGE (snd_una (tcb c)) (recoveryPoint c) then Inr (c\<lparr>lossRecovery := False\<rparr>)
           else outcome_bind (setPipe c) sendIfPipeAllows
      else Inr c)"

definition Reno_receivedDataAck :: "(int \<Rightarrow> int) \<Rightarrow> TCPConnection \<Rightarrow> TCPConnection outcome" where
  "Reno_receivedDataAck eighth c0 =
     outcome_bind (TCPBaseAlg_receivedDataAck eighth c0) (\<lambda>c.
     outcome_bind (if dupacks c \<ge> DUPTHRESH then Inr (updAlg (\<lambda>a. a\<lparr>snd_cwnd := ssthresh a\<rparr>) c) else growWindow c) (\<lambda>c1.
     outcome_bind (Reno_recoveryAck c1) trySending))"

definition Reno_enterRecovery :: "TCPConnection \<Rightarrow> TCPConnection" where
  "Reno_enterRecovery c =
     (let c1 = (if sack_enabled c \<and> (recoveryPoint c = 0 \<or> seqGE (snd_una (tcb c)) (recoveryPoint c))
                then c\<lparr>recoveryPoint := snd_max (tcb c), lossRecovery := True\<rparr> else c)
      in updAlg (\<lambda>a. a\<lparr>snd_cwnd := ssthresh a + 3 * snd_mss (tcb c)\<rparr>) (recalculateSlowStartThreshold c1))"

definition Reno_afterRetransmit :: "TCPConnection \<Rightarrow> TCPConnection outcome" where
  "Reno_afterRetransmit c =
     (if sack_enabled c
      then outcome_bind (setPipe c) (\<lambda>c1.
        if lossRecovery c1 then outcome_bind (restartRexmitTimer c1) sendIfPipeAllows else Inr c1)
      else Inr c)"

definition Reno_receivedDuplicateAck :: "TCPConnection \<Rightarrow> TCPConnection outcome" where
  "Reno_receivedDuplicateAck c0 =
     outcome_bind (TCPBaseAlg_receivedDuplicateAck c0) (\<lambda>c.
       if dupacks c = DUPTHRESH
       then outcome_bind (sending (retransmitOneSegment False) (Reno_enterRecovery c)) (\<lambda>c1.
            outcome_bind (Reno_afterRetransmit c1) trySending)
       else if dupacks c > DUPTHRESH then trySending (updAlg (\<lambda>a. a\<lparr>snd_cwnd := snd_cwnd a + snd_mss (tcb c)\<rparr>) c)
       else Inr c)"

section \<open>TCPNewReno\<close>

definition NewReno_processRexmitTimer :: "TCPConnection \<Rightarrow> (TCPConnection \<times> TCPEventCode) outcome" where
  "NewReno_processRexmitTimer c0 =
     unlessAborted (\<lambda>c. slowStartAfterRto
         (updAlg (\<lambda>a. a\<lparr>recover := snd_max (tcb c) - 1, firstPartialACK := False\<rparr>) (c\<lparr>lossRecovery := False\<rparr>)))
       (TCPBaseAlg_processRexmitTimer c0)"

definition NewReno_fullAck :: "TCPConnection \<Rightarrow> TCPConnection" where
  "NewReno_fullAck c =
     updAlg (\<lambda>a. a\<lparr>snd_cwnd := min (ssthresh a) (snd_max (tcb c) - snd_una (tcb c) + snd_mss (tcb c)), firstPartialACK := False\<rparr>)
       (c\<lparr>lossRecovery := False\<rparr>)"

text \<open>The window is deflated by the amount acknowledged; the subtraction is unsigned.\<close>

definition NewReno_deflate :: "u32 \<Rightarrow> TCPConnection \<Rightarrow> TCPConnection" where
  "NewReno_deflate firstSeqAcked c =
     (let acked = snd_una (tcb c) - firstSeqAcked
      in updAlg (\<lambda>a. a\<lparr>snd_cwnd := snd_cwnd a - acked + (if acked \<ge> snd_mss (tcb c) then snd_mss (tcb c) else 0)\<rparr>) c)"

definition NewReno_partialAck :: "u32 \<Rightarrow> TCPConnection \<Rightarrow> TCPConnection outcome" where
  "NewReno_partialAck firstSeqAcked c =
     outcome_bind (sending (retransmitOneSegment False) c) (\<lambda>c1.
     outcome_bind (trySending (NewReno_deflate firstSeqAcked c1)) (\<lambda>c2.
       if lossRecovery c2 \<and> \<not> firstPartialACK (algState c2)
       then restartRexmitTimer (updAlg (\<lambda>a. a\<lparr>firstPartialACK := True\<rparr>) c2) else Inr c2))"

definition NewReno_receivedDataAck :: "(int \<Rightarrow> int) \<Rightarrow> u32 \<Rightarrow> TCPConnection \<Rightarrow> TCPConnection outcome" where
  "NewReno_receivedDataAck eighth firstSeqAcked c0 =
     outcome_bind (TCPBaseAlg_receivedDataAck eighth c0) (\<lambda>c.
     outcome_bind
       (if lossRecovery c
        then if seqGE (snd_una (tcb c) - 1) (recover (algState c)) then Inr (NewReno_fullAck c) else NewReno_partialAck firstSeqAcked c
        else outcome_bind (growWindow c) (\<lambda>c1. Inr (updAlg (\<lambda>a. a\<lparr>recover := snd_una (tcb c1) - 2\<rparr>) c1)))
       trySending)"

text \<open>The test against \<open>recover\<close> compares plain numbers, not sequence numbers.\<close>

definition NewReno_enterRecovery :: "TCPConnection \<Rightarrow> TCPConnection outcome" where
  "NewReno_enterRecovery c =
     (if \<not> lossRecovery c \<and> snd_una (tcb c) - 1 > recover (algState c)
      then outcome_bind (sending (retransmitOneSegment False)
             (updAlg (\<lambda>a. a\<lparr>recover := snd_max (tcb c) - 1, firstPartialACK := False, snd_cwnd := ssthresh a + 3 * snd_mss (tcb c)\<rparr>)
               ((recalculateSlowStartThreshold c)\<lparr>lossRecovery := True\<rparr>))) trySending
      else Inr c)"

definition NewReno_receivedDuplicateAck :: "TCPConnection \<Rightarrow> TCPConnection outcome" where
  "NewReno_receivedDuplicateAck c0 =
     outcome_bind (TCPBaseAlg_receivedDuplicateAck c0) (\<lambda>c.
       if dupacks c = DUPTHRESH then NewReno_enterRecovery c
       else if dupacks c > DUPTHRESH \<and> lossRecovery c
       then trySending (updAlg (\<lambda>a. a\<lparr>snd_cwnd := snd_cwnd a + snd_mss (tcb c)\<rparr>) c)
       else Inr c)"

section \<open>DumbTCP\<close>

text \<open>It has only the retransmission timer, restarted whenever data is sent.\<close>

definition DumbTCP_dataSent :: "TCPConnection \<Rightarrow> TCPConnection outcome" where
  "DumbTCP_dataSent c =
     outcome_bind (cancelIfScheduled (rexmitTimer (algState c))) (\<lambda>t.
     outcome_bind (scheduleTimeout t) (\<lambda>t1. Inr (updAlg (\<lambda>a. a\<lparr>rexmitTimer := t1\<rparr>) c)))"

fun DumbTCP_notify :: "TCPAlgorithmCall \<Rightarrow> TCPConnection \<Rightarrow> TCPConnection outcome" where
  "DumbTCP_notify (A_dataSent _) c = DumbTCP_dataSent c"
| "DumbTCP_notify _ c = Inr c"

definition DumbTCP_sendData :: "TCPConnection \<Rightarrow> (TCPConnection \<times> bool) outcome" where
  "DumbTCP_sendData c =
     outcome_bind (sendData False 65535 c) (\<lambda>(c1, b). outcome_bind (settle DumbTCP_notify c c1) (\<lambda>c2. Inr (c2, b)))"

definition DumbTCP_sendAck :: "TCPConnection \<Rightarrow> TCPConnection outcome" where
  "DumbTCP_sendAck c = outcome_bind (sendAck c) (\<lambda>c1. settle DumbTCP_notify c c1)"

fun DumbTCP_call :: TCPAlgorithm where
  "DumbTCP_call A_initialize c = Inr (updAlg (\<lambda>a. a\<lparr>rexmitTimer := TimerIdle\<rparr>) c)"
| "DumbTCP_call (A_established act) c =
     (if act then outcome_bind (DumbTCP_sendData c) (\<lambda>(c1, b). if b then Inr c1 else DumbTCP_sendAck c1) else Inr c)"
| "DumbTCP_call A_connectionClosed c =
     outcome_bind (cancel (rexmitTimer (algState c))) (\<lambda>t. Inr (updAlg (\<lambda>a. a\<lparr>rexmitTimer := t\<rparr>) c))"
| "DumbTCP_call A_sendCommandInvoked c = outcome_bind (DumbTCP_sendData c) (\<lambda>(c1, _). Inr c1)"
| "DumbTCP_call A_receivedOutOfOrderSegment c = DumbTCP_sendAck c"
| "DumbTCP_call A_receiveSeqChanged c = DumbTCP_sendAck c"
| "DumbTCP_call (A_receivedDataAck _) c = outcome_bind (DumbTCP_sendData c) (\<lambda>(c1, _). Inr c1)"
| "DumbTCP_call (A_receivedAckForDataNotYetSent _) c = DumbTCP_sendAck c"
| "DumbTCP_call (A_dataSent _) c = DumbTCP_dataSent c"
| "DumbTCP_call _ c = Inr c"

fun DumbTCP_timer :: TCPAlgorithmTimer where
  "DumbTCP_timer REXMIT c =
     outcome_bind (retransmitData c) (\<lambda>c1.
     outcome_bind (settle DumbTCP_notify c c1) (\<lambda>c2.
     outcome_bind (scheduleTimeout (rexmitTimer (algState c2))) (\<lambda>t.
       Inr (updAlg (\<lambda>a. a\<lparr>rexmitTimer := t\<rparr>) c2, E_IGNORE))))"
| "DumbTCP_timer _ c = Inl (RuntimeError ''unrecognized timer'')"

section \<open>The algorithms as the connection sees them\<close>

datatype TcpFlavour = TCPNoCongestionControl | TCPTahoe | TCPReno | TCPNewReno

fun flavour_receivedDataAck :: "(int \<Rightarrow> int) \<Rightarrow> TcpFlavour \<Rightarrow> u32 \<Rightarrow> TCPConnection \<Rightarrow> TCPConnection outcome" where
  "flavour_receivedDataAck eighth TCPNoCongestionControl _ c = NoCongestionControl_receivedDataAck eighth c"
| "flavour_receivedDataAck eighth TCPTahoe _ c = Tahoe_receivedDataAck eighth c"
| "flavour_receivedDataAck eighth TCPReno _ c = Reno_receivedDataAck eighth c"
| "flavour_receivedDataAck eighth TCPNewReno n c = NewReno_receivedDataAck eighth n c"

fun flavour_receivedDuplicateAck :: "TcpFlavour \<Rightarrow> TCPConnection \<Rightarrow> TCPConnection outcome" where
  "flavour_receivedDuplicateAck TCPNoCongestionControl c = TCPBaseAlg_receivedDuplicateAck c"
| "flavour_receivedDuplicateAck TCPTahoe c = Tahoe_receivedDuplicateAck c"
| "flavour_receivedDuplicateAck TCPReno c = Reno_receivedDuplicateAck c"
| "flavour_receivedDuplicateAck TCPNewReno c = NewReno_receivedDuplicateAck c"

fun flavour_processRexmitTimer :: "TcpFlavour \<Rightarrow> TCPConnection \<Rightarrow> (TCPConnection \<times> TCPEventCode) outcome" where
  "flavour_processRexmitTimer TCPNoCongestionControl c = NoCongestionControl_processRexmitTimer c"
| "flavour_processRexmitTimer TCPTahoe c = Tahoe_processRexmitTimer c"
| "flavour_processRexmitTimer TCPReno c = Reno_processRexmitTimer c"
| "flavour_processRexmitTimer TCPNewReno c = NewReno_processRexmitTimer c"

fun flavour_call :: "(int \<Rightarrow> int) \<Rightarrow> TcpFlavour \<Rightarrow> TCPAlgorithm" where
  "flavour_call eighth fl A_initialize c = Inr (if fl = TCPNoCongestionControl then NoCongestionControl_initialize c else TCPBaseAlg_initialize c)"
| "flavour_call eighth fl (A_established act) c = TCPBaseAlg_established act c"
| "flavour_call eighth fl A_connectionClosed c = TCPBaseAlg_connectionClosed c"
| "flavour_call eighth fl A_sendCommandInvoked c = outcome_bind (TCPBaseAlg_sendData True c) (\<lambda>(c1, _). Inr c1)"
| "flavour_call eighth fl A_receivedOutOfOrderSegment c = receivedOutOfOrderSegment c"
| "flavour_call eighth fl A_receiveSeqChanged c = receiveSeqChanged c"
| "flavour_call eighth fl (A_receivedDataAck n) c = flavour_receivedDataAck eighth fl n c"
| "flavour_call eighth fl A_receivedDuplicateAck c = flavour_receivedDuplicateAck fl c"
| "flavour_call eighth fl (A_receivedAckForDataNotYetSent _) c = sending sendAck c"
| "flavour_call eighth fl (A_rttMeasurementCompleteUsingTS ts) c = rttMeasurementCompleteUsingTS eighth ts c"
| "flavour_call eighth fl a c = TCPBaseAlg_notify a c"

fun flavour_timer :: "TcpFlavour \<Rightarrow> TCPAlgorithmTimer" where
  "flavour_timer fl REXMIT c = flavour_processRexmitTimer fl c"
| "flavour_timer fl PERSIST c = TCPBaseAlg_processPersistTimer c"
| "flavour_timer fl DELAYEDACK c = processDelayedAckTimer c"
| "flavour_timer fl KEEPALIVE c = Inr (c, E_IGNORE)"

end
