(* ===== verification/TCP_Alg_Frame.thy ===== *)
theory TCP_Alg_Frame
  imports TCP_Algorithms
begin

text \<open>
  What the sending functions of the connection leave alone, and which notifications they send to the congestion control
  algorithm: a segment sent changes neither the state machine nor anything the algorithm keeps, and whatever moves
  \<open>SND.MAX\<close> notifies the algorithm in a way that starts the retransmission timer.
\<close>

section \<open>What sending leaves alone\<close>

lemma notices_append [simp]: "notices (xs @ ys) = notices xs @ notices ys"
  by (induction xs rule: notices.induct) auto

definition aframe :: "TCPConnection \<Rightarrow> ((TcpState \<times> timer \<times> timer \<times> bool) \<times> (int \<times> bool \<times> int) \<times> (bool \<times> bool \<times> bool) \<times> nat)
    \<times> TCPAlgState \<times> u32 \<times> bool \<times> u32" where
  "aframe c = (view c, algState c, snd_una (tcb c), lossRecovery c, dupacks c)"

definition quietly :: "TCPConnection \<Rightarrow> TCPConnection \<Rightarrow> bool" where
  "quietly c c' \<longleftrightarrow> aframe c' = aframe c \<and> snd_max (tcb c') = snd_max (tcb c) \<and> (\<exists>L. outputs c' = outputs c @ L \<and> notices L = [])"

lemma quietly_refl [simp]: "quietly c c"
  by (simp add: quietly_def)

lemma quietly_trans [trans]: "quietly a b \<Longrightarrow> quietly b c \<Longrightarrow> quietly a c"
  by (auto simp: quietly_def)

lemma quietly_frame:
  "ws_enabled t = ws_enabled (tcb c) \<Longrightarrow> snd_una t = snd_una (tcb c) \<Longrightarrow> snd_max t = snd_max (tcb c) \<Longrightarrow> quietly c (c\<lparr>tcb := t\<rparr>)"
  "quietly c (c\<lparr>sentBytes := n\<rparr>)" "quietly c (c\<lparr>rexmitQ := q\<rparr>)" "quietly c (c\<lparr>queueUpdate := b\<rparr>)"
  "quietly c (c\<lparr>highRxt := n\<rparr>)" "quietly c (c\<lparr>pipe := n\<rparr>)"
  "quietly c (resetSackFlags (c\<lparr>sacks_array := ss, snd_sacks := n\<rparr>))"
  "notices [x] = [] \<Longrightarrow> x \<noteq> ToApp I_CLOSED \<Longrightarrow> quietly c (out x c)"
  by (simp_all add: quietly_def aframe_def resetSackFlags_view)
     (simp_all add: resetSackFlags_def out_def view_def)

lemma addSacks_changes:
  assumes "addSacks opts c = Inr (c', opts')"
  shows "\<exists>ss n. c' = resetSackFlags (c\<lparr>sacks_array := ss, snd_sacks := n\<rparr>)"
proof -
  have same: "c\<lparr>sacks_array := ss\<rparr> = c\<lparr>sacks_array := ss, snd_sacks := snd_sacks c\<rparr>" for ss by simp
  show ?thesis
    using assms unfolding addSacks_def Let_def
  proof (elim bind_InrE if_InrE, goal_cases)
    case (1 ss0)
    then have "c' = resetSackFlags (c\<lparr>sacks_array := ss0\<rparr>)" by (simp only: sum.inject prod.inject)
    then show ?case by (metis same)
  next
    case (2 ss0 ss)
    then have "c' = resetSackFlags (c\<lparr>sacks_array := (if start_seqno c \<noteq> end_seqno c \<and> snd_dsack c then tl ss else ss)\<rparr>)"
      by (simp only: sum.inject prod.inject)
    then show ?case by (metis same)
  next
    case (5 ss0 ss)
    then show ?case by (simp only: sum.inject prod.inject) blast
  qed (simp_all only: sum.distinct)
qed

lemma writeHeaderOptions_quietly:
  assumes "writeHeaderOptions False ack c = Inr (c', opts)"
  shows "quietly c c'"
proof -
  consider opts' where "addSacks opts' c = Inr (c', opts)" | opts' o2 where "addSacks opts' c = Inr (c', o2)" | "c' = c"
    using assms by (auto simp: writeHeaderOptions_def writeDataOptions_def Let_def split: if_splits)
  then show ?thesis by cases (auto dest!: addSacks_changes intro: quietly_frame(7))
qed

lemma onRexmitQueue_quietly: "onRexmitQueue c f = Inr c' \<Longrightarrow> quietly c c'"
  by (auto simp: onRexmitQueue_def intro: quietly_frame(3) split: option.splits)

lemma updateRcvWnd_keeps: "updateRcvWnd st q = Inr (st', w) \<Longrightarrow>
    ws_enabled st' = ws_enabled st \<and> snd_una st' = snd_una st \<and> snd_max st' = snd_max st"
  by (auto simp: updateRcvWnd_def updateRcvQueueVars_def Let_def split: if_splits)

lemma withRcvWnd_quietly:
  assumes "withRcvWnd c f = Inr x"
  obtains c1 w where "quietly c c1" "f c1 w = Inr x"
proof -
  obtain st w where u: "updateRcvWnd (tcb c) (receiveQueue c) = Inr (st, w)" "f (c\<lparr>tcb := st\<rparr>) w = Inr x"
    using assms by (auto simp: withRcvWnd_def)
  then show thesis using that [of "c\<lparr>tcb := st\<rparr>" w] quietly_frame(1) updateRcvWnd_keeps [OF u(1)] by metis
qed

lemma sendToIP_quietly: "sendToIP g w opts c = Inr c' \<Longrightarrow> quietly c c'"
  unfolding sendToIP_def
  by (auto intro: quietly_trans [OF quietly_frame(2) quietly_frame(8)] split: if_splits)

lemma requestData_quietly: "quietly c (requestData c)"
  unfolding requestData_def Let_def
  by (auto intro: quietly_trans [OF quietly_frame(8) quietly_frame(4)])

lemma advanceNxt_quietly: "quietly c (fst (advanceNxt n c))"
  by (simp add: advanceNxt_def Let_def quietly_frame(1))

lemma transmit_quietly:
  assumes "transmit n opts c = Inr c'"
  shows "quietly c c'"
proof -
  obtain g c1 where g: "createSegmentWithBytes (sendQueue c) (snd_nxt (tcb c)) n = Inr g" and
    c1: "(if sack_enabled c then onRexmitQueue c (\<lambda>q. enqueueSentData q (snd_nxt (tcb c)) (snd_nxt (tcb c) + n)) else Inr c) = Inr c1"
    and r: "withRcvWnd c1 (\<lambda>c2 w.
       if n \<noteq> payloadLength g then Inl (AssertFailed ''bytes == tcpseg->getPayloadLength()'')
       else let (c3, fin) = advanceNxt n c2
         in outcome_bind (sendToIP (g\<lparr>ackNo := st_rcv_nxt (tcb c1), ackBit := True, finBit := fin\<rparr>) w opts c3) (\<lambda>c4. Inr (requestData c4))) = Inr c'"
    using assms by (auto simp: transmit_def)
  have q1: "quietly c c1" using c1 by (auto dest: onRexmitQueue_quietly split: if_splits)
  from r show ?thesis
  proof (rule withRcvWnd_quietly)
    fix c2 w
    assume q2: "quietly c1 c2" and e: "(if n \<noteq> payloadLength g then Inl (AssertFailed ''bytes == tcpseg->getPayloadLength()'')
       else let (c3, fin) = advanceNxt n c2
         in outcome_bind (sendToIP (g\<lparr>ackNo := st_rcv_nxt (tcb c1), ackBit := True, finBit := fin\<rparr>) w opts c3) (\<lambda>c4. Inr (requestData c4))) = Inr c'"
    then obtain c4 where c4: "sendToIP (g\<lparr>ackNo := st_rcv_nxt (tcb c1), ackBit := True, finBit := snd (advanceNxt n c2)\<rparr>) w opts (fst (advanceNxt n c2)) = Inr c4"
      "c' = requestData c4" by (auto simp: Let_def split_beta split: if_splits)
    have "quietly (fst (advanceNxt n c2)) c4" using c4(1) by (rule sendToIP_quietly)
    then show "quietly c c'"
      unfolding c4(2) using q1 q2 advanceNxt_quietly requestData_quietly quietly_trans by metis
  qed
qed

lemma skipSacked_quietly: "skipSacked c = Inr c' \<Longrightarrow> quietly c c'"
  by (auto simp: skipSacked_def askRexmitQueue_def intro: quietly_frame(1) split: if_splits option.splits)

lemma sendSegment_quietly:
  assumes "sendSegment n c = Inr c'"
  shows "quietly c c'"
proof -
  obtain c0 c1 opts m where "skipSacked c = Inr c0" "writeHeaderOptions False True c0 = Inr (c1, opts)"
    "transmit m opts (c1\<lparr>sentBytes := m\<rparr>) = Inr c'"
    using assms by (auto simp: sendSegment_def Let_def split: if_splits)
  then have "quietly c c0" "quietly c0 c1" "quietly (c1\<lparr>sentBytes := m\<rparr>) c'"
    by (auto dest: skipSacked_quietly writeHeaderOptions_quietly transmit_quietly)
  then show ?thesis using quietly_frame(2) quietly_trans by metis
qed

text \<open>
  The other functions may move \<open>SND.MAX\<close>; when they do, they notify the algorithm in a way that makes it start the
  retransmission timer.  The retransmission of the oldest segment need not.
\<close>

definition wakes :: "TCPAlgorithmCall list \<Rightarrow> bool" where
  "wakes as \<longleftrightarrow> (\<exists>a\<in>set as. a = A_restartRexmitTimer \<or> (\<exists>n. a = A_dataSent n))"

lemma wakes_append [simp]: "wakes (as @ bs) \<longleftrightarrow> wakes as \<or> wakes bs"
  by (auto simp: wakes_def)

definition sends :: "TCPConnection \<Rightarrow> TCPConnection \<Rightarrow> bool" where
  "sends c c' \<longleftrightarrow> aframe c' = aframe c
     \<and> (\<exists>L. outputs c' = outputs c @ L \<and> (snd_max (tcb c') = snd_max (tcb c) \<or> wakes (notices L)))"

definition resends :: "TCPConnection \<Rightarrow> TCPConnection \<Rightarrow> bool" where
  "resends c c' \<longleftrightarrow> aframe c' = aframe c \<and> (\<exists>L. outputs c' = outputs c @ L)"

lemma quietly_sends: "quietly c c' \<Longrightarrow> sends c c'"
  by (auto simp: quietly_def sends_def)

lemma sends_resends: "sends c c' \<Longrightarrow> resends c c'"
  by (auto simp: sends_def resends_def)

lemma sends_refl [simp]: "sends c c"
  by (simp add: quietly_sends)

lemma sends_trans [trans]: "sends a b \<Longrightarrow> sends b c \<Longrightarrow> sends a c"
  by (auto simp: sends_def)

lemma resends_trans [trans]: "resends a b \<Longrightarrow> resends b c \<Longrightarrow> resends a c"
  by (auto simp: resends_def)

lemma nxt_quietly: "quietly c (c\<lparr>tcb := (tcb c)\<lparr>snd_nxt := n\<rparr>\<rparr>)"
  by (rule quietly_frame(1)) simp_all

lemma max_aframe:
  "ws_enabled t = ws_enabled (tcb c) \<Longrightarrow> snd_una t = snd_una (tcb c) \<Longrightarrow> aframe (c\<lparr>tcb := t\<rparr>) = aframe c"
  "aframe (c\<lparr>highRxt := n\<rparr>) = aframe c"
  by (simp_all add: aframe_def)

lemma out_aframe [simp]: "aframe (out (ToAlgorithm a) c) = aframe c" "outputs (out x c) = outputs c @ [x]" "tcb (out x c) = tcb c"
  by (simp_all add: aframe_def) (simp_all add: out_def)

lemma raiseMax_aframe [simp]: "aframe (raiseMax c) = aframe c" "outputs (raiseMax c) = outputs c"
  by (simp_all add: raiseMax_def max_aframe)

lemma woken:
  assumes "quietly c c1" "aframe d = aframe c1" "outputs d = outputs c1 @ M" "wakes (notices M)"
  shows "sends c d"
  using assms by (auto simp: quietly_def sends_def)

lemma sendLoop_quietly_any:
  assumes r: "sendLoop e b c = Some x"
  shows "\<forall>c' r. x = Inr (c', r) \<longrightarrow> quietly c c'"
proof (rule sendLoop.raw_induct [where P = "\<lambda>e b c x. \<forall>c' r. x = Inr (c', r) \<longrightarrow> quietly c c'", OF _ r])
  fix loop :: "u32 \<Rightarrow> u64 \<Rightarrow> TCPConnection \<Rightarrow> (TCPConnection \<times> u64) outcome option" and e :: u32 and b :: u64 and c x
  assume IH: "\<And>e b c x. loop e b c = Some x \<Longrightarrow> \<forall>c' r. x = Inr (c', r) \<longrightarrow> quietly c c'"
    and eq: "(if ucast e \<le> b then case sendSegment (snd_mss (tcb c)) c of Inl e \<Rightarrow> Some (Inl e) | Inr c1 \<Rightarrow> loop e (b - ucast (sentBytes c1)) c1
         else Some (Inr (c, b))) = Some x"
  show "\<forall>c' r. x = Inr (c', r) \<longrightarrow> quietly c c'"
  proof (cases "sendSegment (snd_mss (tcb c)) c")
    case (Inl e)
    then show ?thesis using eq by (auto split: if_splits)
  next
    case (Inr c1)
    then show ?thesis
      using eq IH [of e "b - ucast (sentBytes c1)" c1 x] sendSegment_quietly [OF Inr] quietly_trans [of c c1] by (auto split: if_splits)
  qed
qed

lemma sendLoop_quietly: "sendLoop e b c = Some (Inr (c', r)) \<Longrightarrow> quietly c c'"
  using sendLoop_quietly_any by blast

lemma sendSegments_quietly: "sendSegments e b c = Inr (c', r) \<Longrightarrow> quietly c c'"
  by (auto simp: sendSegments_def dest: sendSegment_quietly sendLoop_quietly split: if_splits)

lemma lastSegment_quietly: "lastSegment b c = Inr c' \<Longrightarrow> quietly c c'"
  by (auto simp: lastSegment_def Let_def dest: sendSegment_quietly split: if_splits)

lemma sendFrom_quietly: "quietly c (sendFrom c)"
  by (simp add: sendFrom_def nxt_quietly)

lemma dataSentNotice_wakes:
  "aframe (dataSentNotice h n c) = aframe c" "\<exists>M. outputs (dataSentNotice h n c) = outputs c @ M \<and> wakes (notices M)"
  by (auto simp: dataSentNotice_def Let_def wakes_def)

lemma sendData_sends:
  assumes "sendData full w c = Inr (c', b)"
  shows "sends c c'"
proof -
  consider "c' = sendFrom c" | h n B e c1 r c2 where "sendSegments e B (sendFrom c) = Inr (c1, r)" "lastSegment r c1 = Inr c2"
      "c' = dataSentNotice h n (raiseMax c2)"
    using assms by (auto simp: sendData_def Let_def split: if_splits)
  then show ?thesis
  proof cases
    case 1
    then show ?thesis by (simp add: quietly_sends sendFrom_quietly)
  next
    case 2
    obtain M where "outputs c' = outputs c2 @ M" "wakes (notices M)" using 2(3) dataSentNotice_wakes(2) [of h n "raiseMax c2"] by auto
    moreover have "aframe c' = aframe c2" using 2(3) dataSentNotice_wakes(1) by simp
    moreover have "quietly c c2"
      using sendFrom_quietly sendSegments_quietly [OF 2(1)] lastSegment_quietly [OF 2(2)] quietly_trans by metis
    ultimately show ?thesis using woken by metis
  qed
qed

lemma sendAck_sends:
  assumes "sendAck c = Inr c'"
  shows "sends c c'"
  using assms unfolding sendAck_def
proof (rule withRcvWnd_quietly)
  fix c1 w
  assume q: "quietly c c1" and r: "outcome_bind (writeHeaderOptions False True c1) (\<lambda>(c2, opts).
       outcome_bind (sendToIP (newSegment\<lparr>sequenceNo := snd_nxt (tcb c), ackNo := st_rcv_nxt (tcb c), ackBit := True\<rparr>)
                       w opts c2) (\<lambda>c3. Inr (out (ToAlgorithm A_ackSent) c3))) = Inr c'"
  then obtain c2 opts c3 where "writeHeaderOptions False True c1 = Inr (c2, opts)" and c3: "quietly c2 c3" "c' = out (ToAlgorithm A_ackSent) c3"
    by (auto dest: sendToIP_quietly)
  then have "quietly c c3" using q writeHeaderOptions_quietly quietly_trans by metis
  then show ?thesis using c3(2) by (auto simp: sends_def quietly_def)
qed

lemma sendProbe_sends:
  assumes "sendProbe c = Inr (c', b)"
  shows "sends c c'"
proof -
  define d where "d = c\<lparr>tcb := (tcb c)\<lparr>snd_nxt := snd_max (tcb c)\<rparr>\<rparr>"
  have q: "quietly c d" unfolding d_def by (rule nxt_quietly)
  consider "c' = d" | c1 where "sendSegment 1 d = Inr c1"
    "c' = out (ToAlgorithm (A_dataSent (snd_nxt (tcb d)))) (out (ToAlgorithm A_ackSent) (c1\<lparr>tcb := (tcb c1)\<lparr>snd_max := snd_nxt (tcb c1)\<rparr>\<rparr>))"
    using assms by (auto simp: sendProbe_def Let_def d_def split: if_splits)
  then show ?thesis
  proof cases
    case 1
    then show ?thesis using q quietly_sends by simp
  next
    case 2
    have "quietly c c1" using q sendSegment_quietly [OF 2(1)] quietly_trans by metis
    then show ?thesis using 2(2) by (intro woken [of c c1]) (auto simp: max_aframe wakes_def)
  qed
qed

lemma sendFin_resends:
  assumes "sendFin c = Inr c'"
  shows "resends c c'"
  using assms unfolding sendFin_def
proof (rule withRcvWnd_quietly)
  fix c1 w
  assume q: "quietly c c1" and r: "outcome_bind (sendToIP (newSegment\<lparr>sequenceNo := snd_nxt (tcb c), ackNo := st_rcv_nxt (tcb c), finBit := True,
                       ackBit := True\<rparr>) w [] c1) (\<lambda>c2. Inr (out (ToAlgorithm A_ackSent) c2)) = Inr c'"
  then obtain c2 where "quietly c1 c2" and c2: "c' = out (ToAlgorithm A_ackSent) c2" by (auto dest: sendToIP_quietly)
  then have "quietly c c2" using q quietly_trans by metis
  then show ?thesis using c2 by (auto simp: resends_def quietly_def)
qed

lemma resendFin_resends:
  assumes "resendFin notify c = Inr c'" "\<And>d. resends d (notify d)"
  shows "resends c c'"
proof -
  define d where "d = c\<lparr>tcb := (tcb c)\<lparr>snd_max := sq_end (sendQueue c), snd_nxt := sq_end (sendQueue c)\<rparr>\<rparr>"
  obtain c2 n where c2: "sendFin d = Inr c2" "c' = (notify c2)\<lparr>tcb := (tcb (notify c2))\<lparr>snd_nxt := n, snd_max := n\<rparr>\<rparr>"
    using assms(1) by (auto simp: resendFin_def Let_def d_def)
  have "resends c d" by (simp add: d_def resends_def max_aframe)
  moreover have "resends (notify c2) c'" unfolding c2(2) by (simp add: resends_def max_aframe)
  ultimately show ?thesis using sendFin_resends [OF c2(1)] assms(2) [of c2] resends_trans by metis
qed

lemma out_resends: "resends c (out (ToAlgorithm a) c)"
  by (simp add: resends_def)

lemma quietly_resends: "quietly c c' \<Longrightarrow> resends c c'"
  by (simp add: quietly_sends sends_resends)

lemma retransmitOneSegment_resends:
  assumes "retransmitOneSegment rto c = Inr c'"
  shows "resends c c'"
proof -
  define d where "d = c\<lparr>tcb := (tcb c)\<lparr>snd_nxt := snd_una (tcb c)\<rparr>\<rparr>"
  have q: "resends c d" unfolding d_def by (rule quietly_resends [OF nxt_quietly])
  have seg: "aframe c1 = aframe c \<and> (\<exists>L. outputs c1 = outputs c @ L)" if "sendSegment n d = Inr c1" for n c1
    using sendSegment_quietly [OF that] q by (auto simp: quietly_def resends_def)
  have fin: "aframe c1 = aframe c \<and> (\<exists>L. outputs c1 = outputs c @ L)"
    if "resendFin (\<lambda>c2. out (ToAlgorithm (A_segmentRetransmitted (snd_nxt (tcb c2)) (snd_nxt (tcb c2) + 1))) c2) d = Inr c1" for c1
    using resendFin_resends [OF that out_resends] q by (auto simp: resends_def)
  show ?thesis
    using assms unfolding retransmitOneSegment_def Let_def d_def [symmetric] resends_def
    by (elim if_InrE bind_InrE) (auto simp: max_aframe dest!: seg fin split: if_splits)
qed

lemma retransmitLoop_quietly_any:
  assumes r: "retransmitLoop b c = Some x"
  shows "\<forall>c'. x = Inr c' \<longrightarrow> quietly c c'"
proof (rule retransmitLoop.raw_induct [where P = "\<lambda>b c x. \<forall>c'. x = Inr c' \<longrightarrow> quietly c c'", OF _ r])
  fix loop :: "u32 \<Rightarrow> TCPConnection \<Rightarrow> TCPConnection outcome option" and b :: u32 and c x
  let ?s = "sendSegment (min (min b (snd_mss (tcb c))) (getBytesAvailable (sendQueue c) (snd_nxt (tcb c)))) c"
  assume IH: "\<And>b c x. loop b c = Some x \<Longrightarrow> \<forall>c'. x = Inr c' \<longrightarrow> quietly c c'"
    and eq: "(if 0 < b then case ?s of Inl e \<Rightarrow> Some (Inl e)
         | Inr c1 \<Rightarrow> if send_fin c1 \<and> snd_nxt (tcb c1) = snd_fin_seq c1 + 1 then Some (Inr c1) else loop (b - sentBytes c1) c1
         else Some (Inr c)) = Some x"
  show "\<forall>c'. x = Inr c' \<longrightarrow> quietly c c'"
  proof (cases ?s)
    case (Inl e)
    then show ?thesis using eq by (auto split: if_splits)
  next
    case (Inr c1)
    then show ?thesis
      using eq IH [of "b - sentBytes c1" c1 x] sendSegment_quietly [OF Inr] quietly_trans [of c c1] by (auto split: if_splits)
  qed
qed

lemma retransmitData_resends:
  assumes "retransmitData c = Inr c'"
  shows "resends c c'"
proof -
  define d where "d = c\<lparr>tcb := (tcb c)\<lparr>snd_nxt := snd_una (tcb c)\<rparr>\<rparr>"
  have q: "resends c d" unfolding d_def by (rule quietly_resends [OF nxt_quietly])
  consider "resendFin (\<lambda>c2. c2) d = Inr c'" | B c1 a where "retransmitLoop B d = Some (Inr c1)" "c' = out (ToAlgorithm a) c1"
    using assms unfolding retransmitData_def Let_def d_def [symmetric] by (elim if_InrE bind_InrE) auto
  then show ?thesis
  proof cases
    case 1
    then show ?thesis using resendFin_resends [OF 1] q resends_trans by (metis quietly_refl quietly_resends)
  next
    case 2
    then show ?thesis using q retransmitLoop_quietly_any [OF 2(1)] quietly_resends out_resends resends_trans by metis
  qed
qed

lemma sendOneNewSegment_sends:
  assumes "sendOneNewSegment full w c = Inr c'"
  shows "sends c c'"
proof -
  define d where "d = c\<lparr>tcb := (tcb c)\<lparr>snd_nxt := snd_max (tcb c)\<rparr>\<rparr>"
  have seg: "aframe c1 = aframe c \<and> (\<exists>L. outputs c1 = outputs c @ L)" if "sendSegment n d = Inr c1" for n c1
    using sendSegment_quietly [OF that] nxt_quietly [of c] by (auto simp: quietly_def d_def)
  have sent: "sends c (out (ToAlgorithm (A_dataSent m)) (out (ToAlgorithm A_ackSent) c3))"
    if "sendSegment n d = Inr c1" "aframe c3 = aframe c1" "outputs c3 = outputs c1" for n c1 c3 m
    using seg [OF that(1)] that(2,3) by (auto simp: sends_def wakes_def)
  show ?thesis
    using assms unfolding sendOneNewSegment_def Let_def d_def [symmetric]
    by (elim if_InrE bind_InrE) (simp_all only: sum.inject sum.distinct, auto simp: max_aframe intro: sent split: if_splits)
qed

lemma setPipe_quietly: "setPipe c = Inr c' \<Longrightarrow> quietly c c'"
  unfolding setPipe_def Let_def
  by (elim if_InrE bind_InrE) (auto intro: quietly_trans [OF quietly_frame(5) quietly_frame(6)])

lemma nextSeg_quietly: "nextSeg c = Inr (c', s) \<Longrightarrow> quietly c c'"
  unfolding nextSeg_def Let_def
  by (elim if_InrE bind_InrE) (auto intro: quietly_frame(5))

lemma lossSegment_sends:
  assumes "sendSegmentDuringLossRecoveryPhase n c = Inr c'"
  shows "sends c c'"
proof -
  define d where "d = c\<lparr>tcb := (tcb c)\<lparr>snd_nxt := n\<rparr>\<rparr>"
  have seg: "aframe c1 = aframe c \<and> (\<exists>L. outputs c1 = outputs c @ L)" if "sendSegment m d = Inr c1" for m c1
    using sendSegment_quietly [OF that] nxt_quietly [of c] by (auto simp: quietly_def d_def)
  have sent: "sends c (out (ToAlgorithm A_restartRexmitTimer) (out (ToAlgorithm A_ackSent) c3))"
      "sends c (out (ToAlgorithm (A_dataSent k)) (out (ToAlgorithm A_ackSent) c3))"
    if "sendSegment m d = Inr c1" "aframe c3 = aframe c1" "outputs c3 = outputs c1" for m c1 c3 k
    using seg [OF that(1)] that(2,3) by (auto simp: sends_def wakes_def)
  show ?thesis
    using assms unfolding sendSegmentDuringLossRecoveryPhase_def Let_def d_def [symmetric]
    by (elim if_InrE bind_InrE) (simp_all only: sum.inject sum.distinct, auto simp: max_aframe intro: sent split: if_splits)
qed

lemma pipe_quietly: "sends c c' \<Longrightarrow> sends c (c'\<lparr>pipe := n\<rparr>)"
  using quietly_frame(6) quietly_sends sends_trans by metis

lemma lossRecoveryLoop_sends:
  assumes r: "lossRecoveryLoop w c = Some x"
  shows "\<forall>c'. x = Inr c' \<longrightarrow> sends c c'"
proof (rule lossRecoveryLoop.raw_induct [where P = "\<lambda>w c x. \<forall>c'. x = Inr c' \<longrightarrow> sends c c'", OF _ r])
  fix loop :: "u32 \<Rightarrow> TCPConnection \<Rightarrow> TCPConnection outcome option" and w :: u32 and c x
  assume IH: "\<And>w c x. loop w c = Some x \<Longrightarrow> \<forall>c'. x = Inr c' \<longrightarrow> sends c c'"
    and eq: "(if sint (snd_mss (tcb c)) \<le> sint (w - pipe c) then
        (case nextSeg c of Inl e \<Rightarrow> Some (Inl e)
         | Inr r \<Rightarrow> (case snd r of None \<Rightarrow> Some (Inr (fst r))
              | Some n \<Rightarrow> (case sendSegmentDuringLossRecoveryPhase n (fst r) of Inl e \<Rightarrow> Some (Inl e)
                   | Inr c1 \<Rightarrow> loop w (c1\<lparr>pipe := pipe c1 + sentBytes c1\<rparr>))))
      else Some (Inr c)) = Some x"
  show "\<forall>c'. x = Inr c' \<longrightarrow> sends c c'"
  proof (cases "sint (snd_mss (tcb c)) \<le> sint (w - pipe c) \<and> (\<exists>e. x = Inr e)")
    case True
    then obtain c1 s where c1: "nextSeg c = Inr (c1, s)" using eq by (auto split: sum.splits)
    have q: "sends c c1" using nextSeg_quietly [OF c1] by (rule quietly_sends)
    show ?thesis
    proof (cases s)
      case None
      then show ?thesis using eq c1 True q by auto
    next
      case (Some n)
      then obtain c2 where c2: "sendSegmentDuringLossRecoveryPhase n c1 = Inr c2" "loop w (c2\<lparr>pipe := pipe c2 + sentBytes c2\<rparr>) = Some x"
        using eq c1 True by (auto split: sum.splits)
      have "sends c (c2\<lparr>pipe := pipe c2 + sentBytes c2\<rparr>)" using q lossSegment_sends [OF c2(1)] sends_trans pipe_quietly by metis
      then show ?thesis using IH [OF c2(2)] sends_trans by blast
    qed
  qed (use eq in auto)
qed

lemma lossRecovery_sends: "sendDataDuringLossRecoveryPhase w c = Inr c' \<Longrightarrow> sends c c'"
  using lossRecoveryLoop_sends by (auto simp: sendDataDuringLossRecoveryPhase_def split: if_splits)

end
