(* ===== verification/TCP_Alg_Props.thy ===== *)
theory TCP_Alg_Props
  imports TCP_Alg_Frame
begin

text \<open>
  Properties of the congestion control algorithms: the contract that the connection relies on, as a locale interpreted on every
  flavour; the bounds of the retransmission timeout; that the retransmission timer runs while data is outstanding; the persist
  timer; and the growth of the congestion window.
\<close>

section \<open>Steps of the algorithms\<close>

text \<open>The retransmission timeout stays between one second and 240 seconds.\<close>

definition rto_ok :: "TCPAlgState \<Rightarrow> bool" where
  "rto_ok a \<longleftrightarrow> 1000 \<le> rexmit_timeout a \<and> rexmit_timeout a \<le> 240000"

abbreviation running :: "TCPConnection \<Rightarrow> bool" where
  "running c \<equiv> rexmitTimer (algState c) = TimerScheduled"

definition aresend :: "TCPConnection \<Rightarrow> TCPConnection \<Rightarrow> bool" where
  "aresend c c' \<longleftrightarrow> view c' = view c \<and> (rto_ok (algState c) \<longrightarrow> rto_ok (algState c')) \<and> snd_una (tcb c') = snd_una (tcb c)
     \<and> (running c \<longrightarrow> running c')"

definition asend :: "TCPConnection \<Rightarrow> TCPConnection \<Rightarrow> bool" where
  "asend c c' \<longleftrightarrow> aresend c c' \<and> (snd_max (tcb c') = snd_max (tcb c) \<or> running c')"

lemma asend_refl [simp]: "asend c c"
  by (simp add: asend_def aresend_def)

lemma asend_trans [trans]: "asend a b \<Longrightarrow> asend b c \<Longrightarrow> asend a c"
  by (auto simp: asend_def aresend_def)

lemma aresend_trans [trans]: "aresend a b \<Longrightarrow> aresend b c \<Longrightarrow> aresend a c"
  by (auto simp: aresend_def)

lemma asend_aresend: "asend c c' \<Longrightarrow> aresend c c'"
  by (simp add: asend_def)

lemma aresend_running: "aresend c c' \<Longrightarrow> running c \<Longrightarrow> asend c c'"
  by (simp add: asend_def aresend_def)

lemma quietly_asend: "quietly c c' \<Longrightarrow> asend c c'"
  by (simp add: quietly_def asend_def aresend_def aframe_def)

lemma updAlg_asend:
  assumes "\<And>a. rexmit_timeout (f a) = rexmit_timeout a \<or> rto_ok (f a)" "rexmitTimer (f (algState c)) \<in> {rexmitTimer (algState c), TimerScheduled}"
  shows "asend c (updAlg f c)"
  using assms(1) [of "algState c"] assms(2) by (auto simp: asend_def aresend_def updAlg_def rto_ok_def)

lemma field_asend:
  "asend c (c\<lparr>ack_now := b\<rparr>)" "asend c (c\<lparr>last_ack_sent := n\<rparr>)" "asend c (c\<lparr>time_last_data_sent := t\<rparr>)"
  "asend c (c\<lparr>full_sized_segment_counter := n\<rparr>)" "asend c (c\<lparr>lossRecovery := b\<rparr>)" "asend c (c\<lparr>recoveryPoint := n\<rparr>)"
  "asend c (c\<lparr>tcb := (tcb c)\<lparr>afterRto := b\<rparr>\<rparr>)" "asend c (c\<lparr>rexmitQ := q\<rparr>)" "x \<noteq> ToApp I_CLOSED \<Longrightarrow> asend c (out x c)"
  "asend c (c\<lparr>full_sized_segment_counter := n, ack_now := b, last_ack_sent := m\<rparr>)"
  "asend c (c\<lparr>recoveryPoint := n, lossRecovery := b\<rparr>)"
  by (simp_all add: asend_def aresend_def) (simp add: out_def)

section \<open>Notifications\<close>

lemma startRexmitTimer_asend: "startRexmitTimer c = Inr c' \<Longrightarrow> asend c c' \<and> running c' \<and> snd_max (tcb c') = snd_max (tcb c)"
  by (auto simp: startRexmitTimer_def scheduleTimeout_def updAlg_def asend_def aresend_def rto_ok_def split: if_splits)

lemma cancelIfScheduled_Inr: "cancelIfScheduled t = Inr t' \<Longrightarrow> t' = TimerIdle"
  by (cases t) (auto simp: cancelIfScheduled_def isScheduled_def cancel_def split: if_splits)

lemma restartRexmitTimer_asend: "restartRexmitTimer c = Inr c' \<Longrightarrow> asend c c' \<and> running c' \<and> snd_max (tcb c') = snd_max (tcb c)"
  unfolding restartRexmitTimer_def
  by (elim bind_InrE) (auto simp: startRexmitTimer_def scheduleTimeout_def updAlg_def asend_def aresend_def rto_ok_def split: if_splits)

lemma ackSent_asend: "ackSent c = Inr c' \<Longrightarrow> asend c c' \<and> snd_max (tcb c') = snd_max (tcb c)"
  unfolding ackSent_def
  by (elim bind_InrE) (auto simp: updAlg_def asend_def aresend_def rto_ok_def)

lemma timeSegment_asend: "asend c (timeSegment n c)" "snd_max (tcb (timeSegment n c)) = snd_max (tcb c)"
  by (simp_all add: timeSegment_def updAlg_def asend_def aresend_def rto_ok_def)

lemma dataSent_asend:
  assumes "dataSent n c = Inr c'"
  shows "asend c c' \<and> running c' \<and> snd_max (tcb c') = snd_max (tcb c)"
proof -
  obtain c1 where c1: "c1 = c \<and> running c \<or> startRexmitTimer c = Inr c1" and c': "c' = (timeSegment n c1)\<lparr>time_last_data_sent := simTimeMs c1\<rparr>"
    using assms unfolding dataSent_def by (elim bind_InrE) (auto simp: isScheduled_def split: if_splits)
  have 1: "asend c c1" "running c1" "snd_max (tcb c1) = snd_max (tcb c)" using c1 startRexmitTimer_asend by auto
  have "asend c1 c'" unfolding c' using timeSegment_asend field_asend(3) asend_trans by metis
  moreover have "snd_max (tcb c') = snd_max (tcb c1)" unfolding c' by (simp add: timeSegment_asend)
  ultimately show ?thesis using 1 asend_trans by (auto simp: asend_def aresend_def)
qed

lemma notify_asend:
  "TCPBaseAlg_notify a c = Inr c' \<Longrightarrow> asend c c' \<and> (wakes [a] \<longrightarrow> running c') \<and> snd_max (tcb c') = snd_max (tcb c)"
  by (induction a c rule: TCPBaseAlg_notify.induct)
    (auto simp: wakes_def dest: ackSent_asend dataSent_asend restartRexmitTimer_asend)

lemma settleAll_asend:
  "settleAll TCPBaseAlg_notify as c = Inr c' \<Longrightarrow> asend c c' \<and> (wakes as \<longrightarrow> running c') \<and> snd_max (tcb c') = snd_max (tcb c)"
proof (induction as arbitrary: c)
  case (Cons a as)
  then obtain c1 where c1: "TCPBaseAlg_notify a c = Inr c1" "settleAll TCPBaseAlg_notify as c1 = Inr c'" by auto
  have "wakes (a # as) \<longleftrightarrow> wakes [a] \<or> wakes as" by (auto simp: wakes_def)
  then show ?case
    using notify_asend [OF c1(1)] Cons.IH [OF c1(2)] asend_trans [of c c1 c'] by (auto simp: asend_def aresend_def)
qed (simp add: wakes_def)

lemma settle_asend:
  assumes "sends c c1" "settle TCPBaseAlg_notify c c1 = Inr c'"
  shows "asend c c'"
proof -
  obtain L where L: "outputs c1 = outputs c @ L" "snd_max (tcb c1) = snd_max (tcb c) \<or> wakes (notices L)" "aframe c1 = aframe c"
    using assms(1) by (auto simp: sends_def)
  have "settleAll TCPBaseAlg_notify (notices L) c1 = Inr c'" using assms(2) L(1) by (simp add: settle_def)
  from settleAll_asend [OF this] L show ?thesis by (auto simp: asend_def aresend_def aframe_def)
qed

lemma settle_aresend:
  assumes "resends c c1" "settle TCPBaseAlg_notify c c1 = Inr c'"
  shows "aresend c c'"
proof -
  obtain L where L: "outputs c1 = outputs c @ L" "aframe c1 = aframe c" using assms(1) by (auto simp: resends_def)
  have "settleAll TCPBaseAlg_notify (notices L) c1 = Inr c'" using assms(2) L(1) by (simp add: settle_def)
  from settleAll_asend [OF this] L show ?thesis by (auto simp: asend_def aresend_def aframe_def)
qed

lemma sending_asend: "(\<And>c1. f c = Inr c1 \<Longrightarrow> sends c c1) \<Longrightarrow> sending f c = Inr c' \<Longrightarrow> asend c c'"
  by (auto simp: sending_def intro: settle_asend)

lemma sending_aresend: "(\<And>c1. f c = Inr c1 \<Longrightarrow> resends c c1) \<Longrightarrow> sending f c = Inr c' \<Longrightarrow> aresend c c'"
  by (auto simp: sending_def intro: settle_aresend)

lemma sendAck_asend: "sending sendAck c = Inr c' \<Longrightarrow> asend c c'"
  by (rule sending_asend [OF sendAck_sends])

lemma retransmit_aresend: "sending (retransmitOneSegment b) c = Inr c' \<Longrightarrow> aresend c c'"
  by (rule sending_aresend [OF retransmitOneSegment_resends])

lemma restartIdle_asend: "asend c (restartIdle c)"
  by (auto simp: restartIdle_def intro: updAlg_asend)

lemma baseSendData_asend:
  assumes "TCPBaseAlg_sendData b c = Inr (c', s)"
  shows "asend c c'"
proof -
  obtain full w c2 where "sendData full w (restartIdle c) = Inr (c2, s)" "settle TCPBaseAlg_notify (restartIdle c) c2 = Inr c'"
    using assms by (auto simp: TCPBaseAlg_sendData_def Let_def)
  then have "asend (restartIdle c) c'" using settle_asend sendData_sends by metis
  then show ?thesis using restartIdle_asend asend_trans by metis
qed

lemma trySending_asend: "trySending c = Inr c' \<Longrightarrow> asend c c'"
  by (auto simp: trySending_def dest: baseSendData_asend)

section \<open>The functions of the algorithms\<close>

definition akeep :: "TCPConnection \<Rightarrow> TCPConnection \<Rightarrow> bool" where
  "akeep c c' \<longleftrightarrow> view c' = view c \<and> (rto_ok (algState c) \<longrightarrow> rto_ok (algState c'))"

definition guarded :: "TCPConnection \<Rightarrow> bool" where
  "guarded c \<longleftrightarrow> (snd_una (tcb c) \<noteq> snd_max (tcb c) \<longrightarrow> running c)"

lemma aresend_akeep: "aresend c c' \<Longrightarrow> akeep c c'"
  by (simp add: aresend_def akeep_def)

lemma asend_akeep: "asend c c' \<Longrightarrow> akeep c c'"
  by (simp add: asend_def aresend_akeep)

lemma akeep_trans [trans]: "akeep a b \<Longrightarrow> akeep b c \<Longrightarrow> akeep a c"
  by (simp add: akeep_def)

lemma asend_guarded: "asend c c' \<Longrightarrow> guarded c \<Longrightarrow> guarded c'"
  by (auto simp: asend_def aresend_def guarded_def)

lemma established_asend:
  assumes "TCPBaseAlg_established act c = Inr c'"
  shows "asend c c'"
proof -
  obtain w where r: "(if act then outcome_bind (TCPBaseAlg_sendData False (updAlg (\<lambda>a. a\<lparr>snd_cwnd := w\<rparr>) c)) (\<lambda>(c2, b). if b then Inr c2 else sending sendAck c2)
      else Inr (updAlg (\<lambda>a. a\<lparr>snd_cwnd := w\<rparr>) c)) = Inr c'"
    using assms by (simp only: TCPBaseAlg_established_def Let_def)
  have u: "asend c (updAlg (\<lambda>a. a\<lparr>snd_cwnd := w\<rparr>) c)" by (rule updAlg_asend) simp_all
  from r show ?thesis
    by (elim if_InrE bind_InrE) (auto dest!: baseSendData_asend sendAck_asend intro: asend_trans [OF u] asend_trans u split: if_splits)
qed

lemma connectionClosed_akeep: "TCPBaseAlg_connectionClosed c = Inr c' \<Longrightarrow> akeep c c'"
  by (auto simp: TCPBaseAlg_connectionClosed_def updAlg_def akeep_def rto_ok_def)

lemma rtt_rto: "rto_ok (algState (rttMeasurementComplete e s t c))" "view (rttMeasurementComplete e s t c) = view c"
  "rexmitTimer (algState (rttMeasurementComplete e s t c)) = rexmitTimer (algState c)" "tcb (rttMeasurementComplete e s t c) = tcb c"
  by (simp_all add: rttMeasurementComplete_def updAlg_def rto_ok_def clampRto_def Let_def)

lemma rttTS_asend: "rttMeasurementCompleteUsingTS e ts c = Inr c' \<Longrightarrow> asend c c'"
  by (auto simp: rttMeasurementCompleteUsingTS_def asend_def aresend_def rtt_rto split: if_splits)

lemma receiveSeqChanged_asend:
  assumes "receiveSeqChanged c = Inr c'"
  shows "asend c c'"
proof -
  define d where "d = (if lossRecovery c then c\<lparr>ack_now := True\<rparr> else c)"
  have d: "asend c d" by (simp add: d_def field_asend)
  have t: "asend d (updAlg (\<lambda>a. a\<lparr>delayedAckTimer := t\<rparr>) d)" for t by (rule updAlg_asend) simp_all
  show ?thesis
    using assms unfolding receiveSeqChanged_def Let_def d_def [symmetric]
    by (elim if_InrE bind_InrE)
      (simp_all only: sum.inject, auto dest!: sendAck_asend intro: d asend_trans [OF d] asend_trans [OF d t])
qed

text \<open>What the acknowledgement of new data does first: afterwards the timer runs exactly if data is outstanding.\<close>

lemma measureAcked_frame:
  "view (measureAcked e c) = view c" "tcb (measureAcked e c) = tcb c" "rto_ok (algState c) \<Longrightarrow> rto_ok (algState (measureAcked e c))"
  "lossRecovery (measureAcked e c) = lossRecovery c" "recover (algState (measureAcked e c)) = recover (algState c)"
  by (simp_all add: measureAcked_def rttMeasurementComplete_def updAlg_def rto_ok_def clampRto_def Let_def)

lemma rexmitAfterAck_guarded:
  assumes "rexmitAfterAck c = Inr c'"
  shows "akeep c c' \<and> guarded c' \<and> tcb c' = tcb c \<and> lossRecovery c' = lossRecovery c \<and> recover (algState c') = recover (algState c)"
  using assms unfolding rexmitAfterAck_def
  by (elim if_InrE bind_InrE)
    (auto simp: akeep_def guarded_def updAlg_def rto_ok_def startRexmitTimer_def scheduleTimeout_def split: if_splits)

lemma stopPersist_asend:
  "stopPersist c = Inr c' \<Longrightarrow> asend c c' \<and> tcb c' = tcb c \<and> lossRecovery c' = lossRecovery c \<and> recover (algState c') = recover (algState c)"
  unfolding stopPersist_def
  by (elim if_InrE bind_InrE) (auto simp: asend_def aresend_def updAlg_def rto_ok_def)

lemma persistAfterAck_asend:
  "persistAfterAck c = Inr c' \<Longrightarrow> asend c c' \<and> tcb c' = tcb c \<and> lossRecovery c' = lossRecovery c \<and> recover (algState c') = recover (algState c)"
  unfolding persistAfterAck_def
  by (elim if_InrE bind_InrE) (auto simp: asend_def aresend_def updAlg_def rto_ok_def dest!: stopPersist_asend)

lemma baseDataAck_guarded:
  assumes "TCPBaseAlg_receivedDataAck e c = Inr c'"
  shows "akeep c c' \<and> guarded c' \<and> tcb c' = tcb c \<and> lossRecovery c' = lossRecovery c \<and> recover (algState c') = recover (algState c)"
proof -
  obtain c1 where c1: "rexmitAfterAck (measureAcked e c) = Inr c1" "persistAfterAck c1 = Inr c'"
    using assms by (auto simp: TCPBaseAlg_receivedDataAck_def)
  have "akeep c (measureAcked e c)" by (simp add: akeep_def measureAcked_frame)
  then show ?thesis
    using rexmitAfterAck_guarded [OF c1(1)] persistAfterAck_asend [OF c1(2)] asend_akeep asend_guarded akeep_trans measureAcked_frame by metis
qed

lemma growWindow_asend: "growWindow c = Inr c' \<Longrightarrow> asend c c'"
  unfolding growWindow_def Let_def
  by (elim if_InrE) (auto intro!: updAlg_asend)

lemma baseDupAck_asend: "TCPBaseAlg_receivedDuplicateAck c = Inr c' \<Longrightarrow> asend c c'"
  unfolding TCPBaseAlg_receivedDuplicateAck_def Let_def
  by (elim if_InrE) (auto intro: sending_asend sendOneNewSegment_sends)

lemma recalculate_asend: "asend c (recalculateSlowStartThreshold c)"
  unfolding recalculateSlowStartThreshold_def by (rule updAlg_asend) simp_all

lemma cwnd_asend:
  "asend c (updAlg (\<lambda>a. a\<lparr>snd_cwnd := f a\<rparr>) c)" "asend c (updAlg (\<lambda>a. a\<lparr>recover := n\<rparr>) c)"
  "asend c (updAlg (\<lambda>a. a\<lparr>firstPartialACK := b\<rparr>) c)"
  by (auto intro: updAlg_asend)

subsection \<open>Retransmission timeouts\<close>

text \<open>After a timeout that does not abort the connection the timer runs again.\<close>

lemma forgetSacks_asend: "forgetSacks c = Inr c' \<Longrightarrow> asend c c'"
  unfolding forgetSacks_def
  by (elim if_InrE bind_InrE)
    (auto dest!: onRexmitQueue_quietly quietly_asend intro: asend_trans [OF _ field_asend(11)])

lemma baseRexmit_akeep:
  assumes "TCPBaseAlg_processRexmitTimer c = Inr (c', e)"
  shows "akeep c c' \<and> snd_una (tcb c') = snd_una (tcb c) \<and> (e = E_ABORT \<or> e = E_IGNORE \<and> running c')"
proof -
  define d where "d = updAlg (\<lambda>a. a\<lparr>rexmit_count := rexmit_count a + 1\<rparr>) c"
  have d: "asend c d" unfolding d_def by (rule updAlg_asend) simp_all
  consider "c' = out (ToApp I_TIMED_OUT) d" "e = E_ABORT"
    | c1 where "forgetSacks (updAlg (\<lambda>a. a\<lparr>rexmit_timeout := min 240000 (2 * rexmit_timeout a), rexmitTimer := TimerScheduled, rtseq_sendtime := 0, numRtos := numRtos a + 1\<rparr>) d) = Inr c1"
      "c' = c1\<lparr>time_last_data_sent := simTimeMs c1\<rparr>" "e = E_IGNORE"
    using assms unfolding TCPBaseAlg_processRexmitTimer_def Let_def d_def [symmetric]
    by (elim if_InrE bind_InrE) (auto simp: scheduleTimeout_def split: if_splits)
  then show ?thesis
  proof cases
    case 1
    have "asend d c'" unfolding 1(1) by (rule field_asend(9)) simp
    then have "asend c c'" by (rule asend_trans [OF d])
    then show ?thesis using 1(2) asend_akeep by (auto simp: asend_def aresend_def)
  next
    case 2
    let ?u = "updAlg (\<lambda>a. a\<lparr>rexmit_timeout := min 240000 (2 * rexmit_timeout a), rexmitTimer := TimerScheduled, rtseq_sendtime := 0, numRtos := numRtos a + 1\<rparr>) d"
    have "asend ?u c'" unfolding 2(2) by (rule asend_trans [OF forgetSacks_asend [OF 2(1)] field_asend(3)])
    moreover have "akeep d ?u \<and> running ?u \<and> snd_una (tcb ?u) = snd_una (tcb d)" by (auto simp: akeep_def updAlg_def rto_ok_def)
    ultimately show ?thesis using 2(3) d by (auto simp: asend_def aresend_def akeep_def)
  qed
qed

lemma slowStart_aresend:
  assumes "slowStartAfterRto c = Inr c'"
  shows "aresend c c'"
proof -
  let ?d = "updAlg (\<lambda>a. a\<lparr>snd_cwnd := snd_mss (tcb c)\<rparr>) (recalculateSlowStartThreshold c)"
  have "asend c ?d" by (rule asend_trans [OF recalculate_asend cwnd_asend(1)])
  then have "asend c (?d\<lparr>tcb := (tcb ?d)\<lparr>afterRto := True\<rparr>\<rparr>)" by (rule asend_trans [OF _ field_asend(7)])
  moreover have "aresend (?d\<lparr>tcb := (tcb ?d)\<lparr>afterRto := True\<rparr>\<rparr>) c'"
    using assms unfolding slowStartAfterRto_def Let_def by (rule retransmit_aresend)
  ultimately show ?thesis by (rule aresend_trans [OF asend_aresend])
qed

lemma unlessAborted_step:
  assumes r: "unlessAborted f (TCPBaseAlg_processRexmitTimer c) = Inr (c', e)" and f: "\<And>d d'. f d = Inr d' \<Longrightarrow> aresend d d'"
  shows "akeep c c' \<and> (e = E_ABORT \<or> e = E_IGNORE \<and> guarded c')"
proof -
  obtain c1 e1 where c1: "TCPBaseAlg_processRexmitTimer c = Inr (c1, e1)" "(if e1 = E_ABORT then Inr (c1, e1) else outcome_bind (f c1) (\<lambda>c2. Inr (c2, e1))) = Inr (c', e)"
    using r by (auto simp: unlessAborted_def)
  note b = baseRexmit_akeep [OF c1(1)]
  show ?thesis
  proof (cases "e1 = E_ABORT")
    case True
    then show ?thesis using c1(2) b by simp
  next
    case False
    then have "aresend c1 c'" "e = e1" using c1(2) f by auto
    then show ?thesis using b False by (auto simp: aresend_def akeep_def guarded_def)
  qed
qed

lemma rexmitTimer_step:
  assumes "flavour_processRexmitTimer fl c = Inr (c', e)"
  shows "akeep c c' \<and> (e = E_ABORT \<or> e = E_IGNORE \<and> guarded c')"
proof -
  let ?new = "\<lambda>c. slowStartAfterRto (updAlg (\<lambda>a. a\<lparr>recover := snd_max (tcb c) - 1, firstPartialACK := False\<rparr>) (c\<lparr>lossRecovery := False\<rparr>))"
  have new: "aresend d d'" if "?new d = Inr d'" for d d'
  proof -
    have "asend (d\<lparr>lossRecovery := False\<rparr>) (updAlg (\<lambda>a. a\<lparr>recover := snd_max (tcb d) - 1, firstPartialACK := False\<rparr>) (d\<lparr>lossRecovery := False\<rparr>))"
      by (rule updAlg_asend) simp_all
    then show ?thesis using slowStart_aresend [OF that] field_asend(5) asend_aresend asend_trans aresend_trans by metis
  qed
  obtain f where "unlessAborted f (TCPBaseAlg_processRexmitTimer c) = Inr (c', e)" "f \<in> {sending (retransmitOneSegment True), slowStartAfterRto, ?new}"
    using assms
    by (cases fl) (auto simp: NoCongestionControl_processRexmitTimer_def Tahoe_processRexmitTimer_def Reno_processRexmitTimer_def NewReno_processRexmitTimer_def)
  then show ?thesis using unlessAborted_step [of f] retransmit_aresend slowStart_aresend new by blast
qed

lemma persistTimer_step:
  assumes "TCPBaseAlg_processPersistTimer c = Inr (c', e)"
  shows "asend c c' \<and> e = E_IGNORE"
proof -
  obtain t where r: "sending (\<lambda>d. outcome_bind (sendProbe d) (\<lambda>(d1, _). Inr d1)) (updAlg (\<lambda>a. a\<lparr>persistTimer := t\<rparr>) (updAlg backOffPersist c)) = Inr c'"
      and e: "e = E_IGNORE"
    using assms by (auto simp: TCPBaseAlg_processPersistTimer_def Let_def)
  have "asend c (updAlg backOffPersist c)" by (rule updAlg_asend) (auto simp: backOffPersist_def Let_def rto_ok_def)
  moreover have "asend (updAlg backOffPersist c) (updAlg (\<lambda>a. a\<lparr>persistTimer := t\<rparr>) (updAlg backOffPersist c))" by (rule updAlg_asend) simp_all
  moreover have "asend (updAlg (\<lambda>a. a\<lparr>persistTimer := t\<rparr>) (updAlg backOffPersist c)) c'"
    by (rule sending_asend [OF _ r]) (auto dest: sendProbe_sends)
  ultimately show ?thesis using e asend_trans by metis
qed

lemma delayedAck_step: "processDelayedAckTimer c = Inr (c', e) \<Longrightarrow> asend c c' \<and> e = E_IGNORE"
  by (auto simp: processDelayedAckTimer_def dest!: sendAck_asend intro: asend_trans [OF field_asend(1)])

subsection \<open>Acknowledgements\<close>

lemma pipeAllows_asend: "sendIfPipeAllows c = Inr c' \<Longrightarrow> asend c c'"
  unfolding sendIfPipeAllows_def by (elim if_InrE) (auto intro: sending_asend lossRecovery_sends)

lemma renoRecoveryAck_asend: "Reno_recoveryAck c = Inr c' \<Longrightarrow> asend c c'"
  unfolding Reno_recoveryAck_def
  by (elim if_InrE bind_InrE)
    (auto dest!: setPipe_quietly pipeAllows_asend intro: field_asend(5) asend_trans [OF quietly_asend])

lemma newRenoDeflate_asend: "asend c (NewReno_deflate n c)"
  unfolding NewReno_deflate_def Let_def by (rule cwnd_asend(1))

lemma newRenoFullAck_asend: "asend c (NewReno_fullAck c)"
proof -
  have "asend (c\<lparr>lossRecovery := False\<rparr>) (NewReno_fullAck c)" unfolding NewReno_fullAck_def by (rule updAlg_asend) simp_all
  then show ?thesis by (rule asend_trans [OF field_asend(5)])
qed

lemma newRenoPartialAck_aresend:
  assumes "NewReno_partialAck n c = Inr c'"
  shows "aresend c c'"
proof -
  obtain c1 c2 where c1: "sending (retransmitOneSegment False) c = Inr c1" and c2: "trySending (NewReno_deflate n c1) = Inr c2"
    and c': "c' = c2 \<or> restartRexmitTimer (updAlg (\<lambda>a. a\<lparr>firstPartialACK := True\<rparr>) c2) = Inr c'"
    using assms by (auto simp: NewReno_partialAck_def split: if_splits)
  have "asend c1 c2" by (rule asend_trans [OF newRenoDeflate_asend trySending_asend [OF c2]])
  moreover have "asend c2 c'" using c' restartRexmitTimer_asend asend_trans [OF cwnd_asend(3)] asend_refl by blast
  ultimately have "aresend c1 c'" using asend_trans asend_aresend by blast
  with retransmit_aresend [OF c1] show ?thesis by (rule aresend_trans)
qed

text \<open>NewReno's \<open>recover\<close> lies below \<open>SND.MAX\<close> as long as it is in its recovery phase.\<close>

definition recover_sent :: "TcpFlavour \<Rightarrow> TCPConnection \<Rightarrow> bool" where
  "recover_sent fl c \<longleftrightarrow> (fl = TCPNewReno \<and> lossRecovery c \<and> snd_una (tcb c) = snd_max (tcb c)
     \<longrightarrow> seqGE (snd_una (tcb c) - 1) (recover (algState c)))"

lemma dataAck_tail:
  assumes "flavour_receivedDataAck e fl n c = Inr c'"
  obtains c1 where "TCPBaseAlg_receivedDataAck e c = Inr c1" "aresend c1 c'" "recover_sent fl c1 \<Longrightarrow> guarded c1 \<Longrightarrow> asend c1 c'"
proof -
  assume goal: "\<And>c1. TCPBaseAlg_receivedDataAck e c = Inr c1 \<Longrightarrow> aresend c1 c' \<Longrightarrow> (recover_sent fl c1 \<Longrightarrow> guarded c1 \<Longrightarrow> asend c1 c') \<Longrightarrow> thesis"
  obtain c1 c2 where c1: "TCPBaseAlg_receivedDataAck e c = Inr c1" and c2: "trySending c2 = Inr c'"
    and s: "asend c1 c2 \<or> fl = TCPNewReno \<and> lossRecovery c1 \<and> \<not> seqGE (snd_una (tcb c1) - 1) (recover (algState c1)) \<and> aresend c1 c2"
  proof (cases fl)
    case TCPNoCongestionControl
    then show ?thesis using assms that asend_refl by (auto simp: NoCongestionControl_receivedDataAck_def)
  next
    case TCPTahoe
    then show ?thesis using assms that growWindow_asend by (auto simp: Tahoe_receivedDataAck_def)
  next
    case TCPReno
    then obtain a b d where "TCPBaseAlg_receivedDataAck e c = Inr a" "asend a b" "Reno_recoveryAck b = Inr d" "trySending d = Inr c'"
      using assms by (auto simp: Reno_receivedDataAck_def intro: cwnd_asend(1) growWindow_asend split: if_splits)
    then show ?thesis using that renoRecoveryAck_asend asend_trans by blast
  next
    case TCPNewReno
    have grown: "asend a (updAlg (\<lambda>x. x\<lparr>recover := snd_una (tcb b) - 2\<rparr>) b)" if "growWindow a = Inr b" for a b
      by (rule asend_trans [OF growWindow_asend [OF that] cwnd_asend(2)])
    show ?thesis
      using assms TCPNewReno that newRenoFullAck_asend newRenoPartialAck_aresend grown
      by (auto simp: NewReno_receivedDataAck_def split: if_splits)
  qed
  have t: "asend c2 c'" by (rule trySending_asend [OF c2])
  have "aresend c1 c'" using s asend_aresend aresend_trans [OF _ asend_aresend [OF t]] by blast
  moreover have "asend c1 c'" if "recover_sent fl c1" "guarded c1"
  proof -
    have "asend c1 c2" using s that aresend_running by (auto simp: recover_sent_def guarded_def)
    then show ?thesis by (rule asend_trans [OF _ t])
  qed
  ultimately show thesis using goal [OF c1] by blast
qed

lemma dataAck_step:
  assumes "flavour_receivedDataAck e fl n c = Inr c'"
  shows "akeep c c'" and "recover_sent fl c \<Longrightarrow> guarded c'"
proof -
  from assms show "akeep c c'"
  proof (rule dataAck_tail)
    fix c1 assume "TCPBaseAlg_receivedDataAck e c = Inr c1" "aresend c1 c'"
    then show ?thesis using baseDataAck_guarded aresend_akeep akeep_trans by blast
  qed
  show "guarded c'" if "recover_sent fl c"
    using assms
  proof (rule dataAck_tail)
    fix c1 assume c1: "TCPBaseAlg_receivedDataAck e c = Inr c1" "recover_sent fl c1 \<Longrightarrow> guarded c1 \<Longrightarrow> asend c1 c'"
    note b = baseDataAck_guarded [OF c1(1)]
    then have "recover_sent fl c1" using that by (simp add: recover_sent_def)
    then show ?thesis using c1(2) b asend_guarded by blast
  qed
qed

lemma renoEnter_asend: "asend c (Reno_enterRecovery c)"
proof -
  define d where "d = (if sack_enabled c \<and> (recoveryPoint c = 0 \<or> seqGE (snd_una (tcb c)) (recoveryPoint c))
                then c\<lparr>recoveryPoint := snd_max (tcb c), lossRecovery := True\<rparr> else c)"
  have "asend c d" using field_asend(11) by (simp add: d_def)
  moreover have "asend d (Reno_enterRecovery c)"
    unfolding Reno_enterRecovery_def Let_def d_def [symmetric] by (rule asend_trans [OF recalculate_asend cwnd_asend(1)])
  ultimately show ?thesis by (rule asend_trans)
qed

lemma renoAfter_asend: "Reno_afterRetransmit c = Inr c' \<Longrightarrow> asend c c'"
  unfolding Reno_afterRetransmit_def
  by (elim if_InrE bind_InrE)
    (auto dest!: setPipe_quietly restartRexmitTimer_asend pipeAllows_asend intro: asend_trans [OF quietly_asend] quietly_asend asend_trans)

lemma newRenoEnter_aresend:
  assumes "NewReno_enterRecovery c = Inr c'"
  shows "aresend c c'"
proof (cases "c' = c")
  case False
  let ?d = "(recalculateSlowStartThreshold c)\<lparr>lossRecovery := True\<rparr>"
  let ?e = "updAlg (\<lambda>a. a\<lparr>recover := snd_max (tcb c) - 1, firstPartialACK := False, snd_cwnd := ssthresh a + 3 * snd_mss (tcb c)\<rparr>) ?d"
  obtain c1 where c1: "sending (retransmitOneSegment False) ?e = Inr c1" "trySending c1 = Inr c'"
    using assms False by (auto simp: NewReno_enterRecovery_def split: if_splits)
  have "asend c ?d" by (rule asend_trans [OF recalculate_asend field_asend(5)])
  moreover have "asend ?d ?e" by (rule updAlg_asend) simp_all
  ultimately have "aresend c ?e" using asend_trans asend_aresend by blast
  also have "aresend ?e c1" by (rule retransmit_aresend [OF c1(1)])
  also have "aresend c1 c'" by (rule asend_aresend [OF trySending_asend [OF c1(2)]])
  finally show ?thesis .
qed (simp add: asend_aresend)

lemma dupAck_tail:
  assumes "flavour_receivedDuplicateAck fl c = Inr c'"
  shows "aresend c c'"
proof -
  obtain c1 where c1: "TCPBaseAlg_receivedDuplicateAck c = Inr c1" and s: "aresend c1 c'"
  proof (cases fl)
    case TCPNoCongestionControl
    then show ?thesis using assms that asend_refl asend_aresend by fastforce
  next
    case TCPTahoe
    have cut: "asend a (updAlg (\<lambda>x. x\<lparr>snd_cwnd := snd_mss (tcb a)\<rparr>) (recalculateSlowStartThreshold a))" for a
      by (rule asend_trans [OF recalculate_asend cwnd_asend(1)])
    have "aresend a c'" if "sending (retransmitOneSegment False) (updAlg (\<lambda>x. x\<lparr>snd_cwnd := snd_mss (tcb a)\<rparr>) (recalculateSlowStartThreshold a)) = Inr c'" for a
      by (rule aresend_trans [OF asend_aresend [OF cut] retransmit_aresend [OF that]])
    then show ?thesis using assms TCPTahoe that asend_aresend [OF asend_refl] by (auto simp: Tahoe_receivedDuplicateAck_def split: if_splits)
  next
    case TCPReno
    have fast: "aresend a c'" if "sending (retransmitOneSegment False) (Reno_enterRecovery a) = Inr b" "Reno_afterRetransmit b = Inr d" "trySending d = Inr c'" for a b d
      using aresend_trans [OF asend_aresend [OF renoEnter_asend] retransmit_aresend [OF that(1)]]
        asend_aresend [OF asend_trans [OF renoAfter_asend [OF that(2)] trySending_asend [OF that(3)]]] aresend_trans by blast
    have more: "aresend a c'" if "trySending (updAlg (\<lambda>x. x\<lparr>snd_cwnd := snd_cwnd x + snd_mss (tcb a)\<rparr>) a) = Inr c'" for a
      by (rule asend_aresend [OF asend_trans [OF cwnd_asend(1) trySending_asend [OF that]]])
    show ?thesis
      using assms TCPReno that fast more asend_aresend [OF asend_refl] by (auto simp: Reno_receivedDuplicateAck_def split: if_splits)
  next
    case TCPNewReno
    have more: "aresend a c'" if "trySending (updAlg (\<lambda>x. x\<lparr>snd_cwnd := snd_cwnd x + snd_mss (tcb a)\<rparr>) a) = Inr c'" for a
      by (rule asend_aresend [OF asend_trans [OF cwnd_asend(1) trySending_asend [OF that]]])
    then show ?thesis
      using assms TCPNewReno that newRenoEnter_aresend asend_aresend [OF asend_refl] by (auto simp: NewReno_receivedDuplicateAck_def split: if_splits)
  qed
  show ?thesis by (rule aresend_trans [OF asend_aresend [OF baseDupAck_asend [OF c1]] s])
qed

section \<open>Calls and timers\<close>

lemma initialize_akeep:
  "akeep c (TCPBaseAlg_initialize c)" "akeep c (NoCongestionControl_initialize c)"
  by (simp_all add: akeep_def TCPBaseAlg_initialize_def NoCongestionControl_initialize_def updAlg_def rto_ok_def)

text \<open>Every call but those at the beginning and at the end of a connection keeps the timer running while data is outstanding.\<close>

lemma call_step:
  assumes r: "flavour_call e fl a c = Inr c'"
  shows "akeep c c'"
    and "guarded c \<Longrightarrow> recover_sent fl c \<Longrightarrow> a \<notin> {A_initialize, A_connectionClosed} \<Longrightarrow> (a = A_receivedDuplicateAck \<Longrightarrow> snd_una (tcb c) \<noteq> snd_max (tcb c))
      \<Longrightarrow> guarded c'"
proof -
  consider "a = A_initialize" | "a = A_connectionClosed" | n where "a = A_receivedDataAck n" | "a = A_receivedDuplicateAck" | "asend c c'"
    using r
    by (cases a) (auto dest: established_asend baseSendData_asend receiveSeqChanged_asend sendAck_asend rttTS_asend ackSent_asend dataSent_asend restartRexmitTimer_asend
        simp: receivedOutOfOrderSegment_def intro: asend_trans [OF field_asend(1)])
  then have "akeep c c' \<and> (guarded c \<longrightarrow> recover_sent fl c \<longrightarrow> a \<notin> {A_initialize, A_connectionClosed} \<longrightarrow>
      (a = A_receivedDuplicateAck \<longrightarrow> snd_una (tcb c) \<noteq> snd_max (tcb c)) \<longrightarrow> guarded c')"
  proof cases
    case 1
    then show ?thesis using r initialize_akeep by auto
  next
    case 2
    then show ?thesis using r connectionClosed_akeep by auto
  next
    case 3
    then show ?thesis using r dataAck_step [of e fl n c c'] by auto
  next
    case 4
    then have "aresend c c'" using r dupAck_tail by simp
    then have "akeep c c'" "running c \<longrightarrow> running c'" by (auto intro: aresend_akeep simp: aresend_def)
    then show ?thesis using 4 by (auto simp: guarded_def)
  next
    case 5
    then show ?thesis using asend_akeep asend_guarded by blast
  qed
  then show "akeep c c'" "guarded c \<Longrightarrow> recover_sent fl c \<Longrightarrow> a \<notin> {A_initialize, A_connectionClosed} \<Longrightarrow>
      (a = A_receivedDuplicateAck \<Longrightarrow> snd_una (tcb c) \<noteq> snd_max (tcb c)) \<Longrightarrow> guarded c'" by blast+
qed

lemma timer_step:
  assumes r: "flavour_timer fl x c = Inr (c', e)"
  shows "akeep c c' \<and> (e = E_IGNORE \<or> e = E_ABORT) \<and> (e = E_IGNORE \<and> (x = REXMIT \<or> guarded c) \<longrightarrow> guarded c')"
proof (cases x)
  case REXMIT
  then show ?thesis using r rexmitTimer_step [of fl c c' e] by auto
next
  case PERSIST
  then show ?thesis using r persistTimer_step [of c c' e] asend_akeep asend_guarded by auto
next
  case DELAYEDACK
  then show ?thesis using r delayedAck_step [of c c' e] asend_akeep asend_guarded by auto
next
  case KEEPALIVE
  then show ?thesis using r asend_akeep [OF asend_refl] by auto
qed

subsection \<open>DumbTCP\<close>

lemma dumbNotify_view: "DumbTCP_notify a c = Inr c' \<Longrightarrow> view c' = view c"
  by (induction a c rule: DumbTCP_notify.induct) (auto simp: DumbTCP_dataSent_def updAlg_def)

lemma dumbSettle_view:
  assumes "settle DumbTCP_notify c c1 = Inr c'" "resends c c1"
  shows "view c' = view c"
proof -
  have "settleAll DumbTCP_notify as d = Inr d' \<Longrightarrow> view d' = view d" for as d d'
    by (induction as arbitrary: d) (auto dest!: dumbNotify_view)
  then show ?thesis using assms by (simp add: settle_def resends_def aframe_def)
qed

lemma dumbSend_view:
  "DumbTCP_sendData c = Inr (c', b) \<Longrightarrow> view c' = view c" "DumbTCP_sendAck c = Inr c' \<Longrightarrow> view c' = view c"
  by (auto simp: DumbTCP_sendData_def DumbTCP_sendAck_def dest!: sendData_sends sendAck_sends sends_resends dest: dumbSettle_view)

lemma dumbCall_view: "DumbTCP_call a c = Inr c' \<Longrightarrow> view c' = view c"
  by (induction a c rule: DumbTCP_call.induct)
    (auto simp: updAlg_def DumbTCP_dataSent_def dest!: dumbSend_view split: if_splits)

lemma dumbTimer_view: "DumbTCP_timer x c = Inr (c', e) \<Longrightarrow> view c' = view c \<and> e = E_IGNORE"
  by (cases x) (auto simp: updAlg_def dest!: retransmitData_resends dest: dumbSettle_view)

section \<open>The contract\<close>

text \<open>
  What the connection relies on: an algorithm leaves the state machine, the setup timers, the socket and window scaling alone
  and does not tell the application that the connection is closed; a timer of it at most aborts the connection.
\<close>

locale tcp_algorithm =
  fixes call :: TCPAlgorithm and timeout :: TCPAlgorithmTimer
  assumes call_view: "call a c = Inr c' \<Longrightarrow> view c' = view c"
    and timer_view: "timeout x c = Inr (c', e) \<Longrightarrow> view c' = view c \<and> (e = E_IGNORE \<or> e = E_ABORT)"
begin

lemma keeps: "alg_keeps call" "timer_keeps timeout"
  using call_view timer_view by (auto simp: alg_keeps_def timer_keeps_def)

lemma inv: "tcp_reach call timeout c \<Longrightarrow> tcp_inv c"
  by (rule reach_inv [OF keeps])

end

interpretation flavour: tcp_algorithm "flavour_call eighth fl" "flavour_timer fl" for eighth fl
  using call_step(1) timer_step by unfold_locales (auto simp: akeep_def)

interpretation dumb: tcp_algorithm DumbTCP_call DumbTCP_timer
  using dumbCall_view dumbTimer_view by unfold_locales auto

section \<open>Properties\<close>

definition example_eighth :: "int \<Rightarrow> int" where
  "example_eighth x = x div 8"

lemma example_reno_open:
  "processAppCommand (flavour_call example_eighth TCPReno) (TCPConnection_new example_connection) (C_OPEN_ACTIVE example_open) = Inr (example_client, True)"
  by code_simp

lemma example_reno_reach: "tcp_reach (flavour_call example_eighth TCPReno) (flavour_timer TCPReno) example_client"
proof (rule command [OF created _ example_reno_open])
  show "\<not> par_windowScalingSupport (par example_connection)" by code_simp
  show "cmd_ok (C_OPEN_ACTIVE example_open)" by code_simp
qed



text \<open>
  C37: the retransmission timeout is three seconds at first and never leaves the range from one second to 240 seconds: no
  measurement of the round-trip time, however the simulation clock rounds, no doubling after a timeout and not even the persist
  timer, which changes it by mistake, takes it out of it.
\<close>

theorem rto_stays_bounded:
  "rto_ok TCPAlgState_new
   \<and> (rto_ok (algState c) \<and> flavour_call eighth fl a c = Inr c' \<longrightarrow> rto_ok (algState c'))
   \<and> (rto_ok (algState c) \<and> flavour_timer fl x c = Inr (c', e) \<longrightarrow> rto_ok (algState c'))"
  using call_step(1) [of eighth fl a c c'] timer_step [of fl x c c' e]
  by (auto simp: akeep_def rto_ok_def TCPAlgState_new_def)


text \<open>A sender with two segments outstanding whose retransmission timer is running.\<close>

definition example_reno :: TCPConnection where
  "example_reno = example_sender\<lparr>tcb := (tcb example_sender)\<lparr>snd_nxt := 2073, snd_max := 2073\<rparr>,
     algState := TCPAlgState_new\<lparr>rexmitTimer := TimerScheduled, persistTimer := TimerIdle, delayedAckTimer := TimerIdle,
       keepAliveTimer := TimerIdle, snd_cwnd := 1072\<rparr>\<rparr>"

definition example_rexmit :: "(TCPConnection \<times> TCPEventCode) outcome" where
  "example_rexmit = flavour_timer TCPReno REXMIT (example_reno\<lparr>algState := algFired REXMIT (algState example_reno)\<rparr>)"

lemma example_rexmit_ok: "case example_rexmit of Inl _ \<Rightarrow> False | Inr (c', e) \<Rightarrow> e = E_IGNORE \<and> rexmit_timeout (algState c') = 6000"
  by code_simp

theorem rto_stays_bounded_witness:
  "\<exists>c' e. example_rexmit = Inr (c', e) \<and> rto_ok (algState c') \<and> rexmit_timeout (algState c') = 6000"
proof -
  obtain c' where c': "example_rexmit = Inr (c', E_IGNORE)" "rexmit_timeout (algState c') = 6000"
    using example_rexmit_ok by (auto split: sum.splits)
  have "rto_ok (algState (example_reno\<lparr>algState := algFired REXMIT (algState example_reno)\<rparr>))"
    by (simp add: rto_ok_def example_reno_def TCPAlgState_new_def)
  then show ?thesis using rto_stays_bounded [of "example_reno\<lparr>algState := algFired REXMIT (algState example_reno)\<rparr>" example_eighth TCPReno A_ackSent c' REXMIT E_IGNORE] c' by (auto simp: example_rexmit_def)
qed


lemma backOffPersist_step:
  assumes f: "persist_factor a = 2 ^ min n 6"
  shows "persist_factor (backOffPersist a) = 2 ^ min (Suc n) 6" "persist_timeout (backOffPersist a) = 1500 * 2 ^ min (Suc n) 6"
    "rexmit_timeout (backOffPersist a) = (if n = 0 then 5000 else if n \<le> 4 then rexmit_timeout a else 60000)"
proof -
  have "n = 0 \<or> n = 1 \<or> n = 2 \<or> n = 3 \<or> n = 4 \<or> n = 5 \<or> 6 \<le> n" by linarith
  then show "persist_factor (backOffPersist a) = 2 ^ min (Suc n) 6" "persist_timeout (backOffPersist a) = 1500 * 2 ^ min (Suc n) 6"
    "rexmit_timeout (backOffPersist a) = (if n = 0 then 5000 else if n \<le> 4 then rexmit_timeout a else 60000)"
    using f by (elim disjE; simp add: backOffPersist_def Let_def)+
qed

text \<open>
  C39: the persist timer is not kept between 5 and 60 seconds: it goes off after 1.5, 3, 6, 12, 24, 48 and then 96 seconds.  The
  bounds are applied to the retransmission timeout instead, which becomes 5 seconds at the first time and 60 at the seventh.
\<close>

theorem persist_timer_out_of_bounds:
  "persist_timeout ((backOffPersist ^^ Suc n) TCPAlgState_new) = 1500 * 2 ^ min n 6
   \<and> rexmit_timeout ((backOffPersist ^^ Suc n) TCPAlgState_new) = (if n \<le> 5 then 5000 else 60000)"
proof -
  let ?s = "\<lambda>k. (backOffPersist ^^ Suc k) TCPAlgState_new"
  have "persist_factor (?s n) = 2 ^ min n 6 \<and> persist_timeout (?s n) = 1500 * 2 ^ min n 6
      \<and> rexmit_timeout (?s n) = (if n \<le> 5 then 5000 else 60000)"
  proof (induction n)
    case 0
    show ?case by (simp add: backOffPersist_def TCPAlgState_new_def)
  next
    case (Suc n)
    have "?s (Suc n) = backOffPersist (?s n)" by simp
    then show ?case using backOffPersist_step [of "?s n" n] Suc.IH by simp
  qed
  then show ?thesis by blast
qed

text \<open>The window after a number of acknowledgements.\<close>

fun growTimes :: "nat \<Rightarrow> TCPConnection \<Rightarrow> TCPConnection outcome" where
  "growTimes 0 c = Inr c"
| "growTimes (Suc n) c = outcome_bind (growTimes n c) growWindow"

abbreviation cwnd :: "TCPConnection \<Rightarrow> nat" where
  "cwnd c \<equiv> unat (snd_cwnd (algState c))"

lemma ssthresh_lt: "unat (ssthresh (algState c)) < 2 ^ 32"
  using unsigned_less [of "ssthresh (algState c)"] by simp

lemma slow_start:
  assumes "cwnd c + n * unat (snd_mss (tcb c)) \<le> unat (ssthresh (algState c))" "0 < snd_mss (tcb c)"
  shows "\<exists>c'. growTimes n c = Inr c' \<and> cwnd c' = cwnd c + n * unat (snd_mss (tcb c)) \<and> tcb c' = tcb c
    \<and> ssthresh (algState c') = ssthresh (algState c)"
  using assms(1)
proof (induction n)
  case (Suc n)
  then obtain c1 where c1: "growTimes n c = Inr c1" "cwnd c1 = cwnd c + n * unat (snd_mss (tcb c))" "tcb c1 = tcb c"
    "ssthresh (algState c1) = ssthresh (algState c)" by auto
  have lt: "cwnd c1 + unat (snd_mss (tcb c)) \<le> unat (ssthresh (algState c))" using Suc.prems c1(2) by simp
  moreover have "0 < unat (snd_mss (tcb c))" using assms(2) by (simp add: unat_gt_0)
  ultimately have "snd_cwnd (algState c1) < ssthresh (algState c1)" using c1(4) by (simp add: word_less_nat_alt)
  moreover have "unat (snd_cwnd (algState c1) + snd_mss (tcb c)) = cwnd c1 + unat (snd_mss (tcb c))"
    using lt ssthresh_lt [of c] unat_add_lem [of "snd_cwnd (algState c1)" "snd_mss (tcb c)"] by simp
  ultimately show ?case using c1 by (simp add: growWindow_def updAlg_def Let_def)
qed simp

lemma avoidance_step:
  assumes m_def: "m = snd_mss (tcb c)" and m: "unat m \<le> 65535" and w: "0 < B" "B \<le> cwnd c" "unat (ssthresh (algState c)) \<le> B"
    and room: "cwnd c + max 1 (unat m * unat m div B) < 2 ^ 32"
  shows "\<exists>c'. growWindow c = Inr c' \<and> cwnd c < cwnd c' \<and> cwnd c' \<le> cwnd c + max 1 (unat m * unat m div B)
    \<and> tcb c' = tcb c \<and> ssthresh (algState c') = ssthresh (algState c)"
proof -
  define i where "i = m * m div snd_cwnd (algState c)"
  have "unat m * unat m \<le> 65535 * 65535" using m by (intro mult_le_mono) simp_all
  then have "unat (m * m) = unat m * unat m" by (simp add: unat_word_ariths)
  then have "unat i = unat m * unat m div cwnd c" by (simp add: i_def unat_div)
  also have "\<dots> \<le> unat m * unat m div B" using w by (intro div_le_mono2) simp_all
  finally have i: "unat i \<le> unat m * unat m div B" .
  define j where "j = (if i = 0 then 1 else i)"
  have j: "0 < unat j" "unat j \<le> max 1 (unat m * unat m div B)" using i by (auto simp: j_def unat_gt_0)
  have "\<not> snd_cwnd (algState c) < ssthresh (algState c)" "snd_cwnd (algState c) \<noteq> 0" using w by (auto simp: word_less_nat_alt)
  then have g: "growWindow c = Inr (updAlg (\<lambda>a. a\<lparr>snd_cwnd := snd_cwnd a + j\<rparr>) c)"
    by (simp add: growWindow_def j_def i_def m_def Let_def)
  have "unat (snd_cwnd (algState c) + j) = cwnd c + unat j"
    using room j(2) unat_add_lem [of "snd_cwnd (algState c)" j] by simp
  then show ?thesis using g j by (simp add: updAlg_def)
qed

lemma avoidance:
  assumes m: "unat (snd_mss (tcb c)) \<le> 65535" and w: "0 < cwnd c" "ssthresh (algState c) \<le> snd_cwnd (algState c)"
    and room: "cwnd c + n * max 1 (unat (snd_mss (tcb c)) * unat (snd_mss (tcb c)) div cwnd c) < 2 ^ 32"
  shows "\<exists>c'. growTimes n c = Inr c' \<and> cwnd c + n \<le> cwnd c'
    \<and> cwnd c' \<le> cwnd c + n * max 1 (unat (snd_mss (tcb c)) * unat (snd_mss (tcb c)) div cwnd c)
    \<and> tcb c' = tcb c \<and> ssthresh (algState c') = ssthresh (algState c)"
  using room
proof (induction n)
  case (Suc n)
  let ?i = "max 1 (unat (snd_mss (tcb c)) * unat (snd_mss (tcb c)) div cwnd c)"
  obtain c1 where c1: "growTimes n c = Inr c1" "cwnd c + n \<le> cwnd c1" "cwnd c1 \<le> cwnd c + n * ?i" "tcb c1 = tcb c"
    "ssthresh (algState c1) = ssthresh (algState c)" using Suc by auto
  have "cwnd c1 + ?i < 2 ^ 32" using c1(3) Suc.prems by simp
  then obtain c2 where c2: "growWindow c1 = Inr c2" "cwnd c1 < cwnd c2" "cwnd c2 \<le> cwnd c1 + ?i" "tcb c2 = tcb c1"
    "ssthresh (algState c2) = ssthresh (algState c1)"
    using avoidance_step [OF refl, of c1 "cwnd c"] m w c1 by (auto simp: word_le_nat_alt)
  then show ?case using c1 by (intro exI [of _ c2]) simp
qed simp

lemma round_trip_increase: "n * m \<le> w \<Longrightarrow> 0 < w \<Longrightarrow> n * max 1 (m * m div w) \<le> max m n" for n m w :: nat
proof -
  assume nm: "n * m \<le> w" and w: "0 < w"
  have "n * (m * m div w) * w \<le> n * (m * m)" by (simp add: mult.assoc)
  then have "n * (m * m div w) \<le> n * (m * m) div w" using w by (simp add: less_eq_div_iff_mult_less_eq)
  also have "\<dots> = (n * m) * m div w" by (simp add: mult.assoc)
  also have "\<dots> \<le> w * m div w" using nm by (intro div_le_mono mult_right_mono) simp_all
  also have "\<dots> = m" using w by simp
  finally show ?thesis by (simp add: nat_mult_max_right)
qed

text \<open>
  C40: how fast the congestion window of Tahoe, Reno and NewReno opens.  During the \<open>n\<close> acknowledgements of one round trip, one
  for each segment of the window, slow start adds exactly one segment for each, so that the window at most doubles; congestion
  avoidance makes the window grow with each, by at most one segment in all (or by one byte each, when the window
  is larger than the square of the segment size).
\<close>

theorem window_growth_per_round_trip:
  assumes mss: "0 < snd_mss (tcb c)" "unat (snd_mss (tcb c)) \<le> 65535" and w: "0 < cwnd c" "cwnd c < 2 ^ 31"
    and n: "n * unat (snd_mss (tcb c)) \<le> cwnd c"
  shows "(cwnd c + n * unat (snd_mss (tcb c)) \<le> unat (ssthresh (algState c)) \<longrightarrow>
      (\<exists>c'. growTimes n c = Inr c' \<and> cwnd c' = cwnd c + n * unat (snd_mss (tcb c)) \<and> cwnd c' \<le> 2 * cwnd c))
    \<and> (ssthresh (algState c) \<le> snd_cwnd (algState c) \<longrightarrow>
      (\<exists>c'. growTimes n c = Inr c' \<and> cwnd c + n \<le> cwnd c' \<and> cwnd c' \<le> cwnd c + max (unat (snd_mss (tcb c))) n))"
proof (intro conjI impI)
  assume "cwnd c + n * unat (snd_mss (tcb c)) \<le> unat (ssthresh (algState c))"
  then show "\<exists>c'. growTimes n c = Inr c' \<and> cwnd c' = cwnd c + n * unat (snd_mss (tcb c)) \<and> cwnd c' \<le> 2 * cwnd c"
    using slow_start [OF _ mss(1)] n by fastforce
next
  assume s: "ssthresh (algState c) \<le> snd_cwnd (algState c)"
  let ?m = "unat (snd_mss (tcb c))"
  have i: "n * max 1 (?m * ?m div cwnd c) \<le> max ?m n" by (rule round_trip_increase [OF n w(1)])
  have "n \<le> cwnd c" using n mss(1) by (metis le_trans mult_le_mono2 nat_mult_1_right One_nat_def Suc_leI unat_gt_0 word_gt_0)
  then have "cwnd c + n * max 1 (?m * ?m div cwnd c) < 2 ^ 32" using i w(2) mss(2) by simp
  then show "\<exists>c'. growTimes n c = Inr c' \<and> cwnd c + n \<le> cwnd c' \<and> cwnd c' \<le> cwnd c + max ?m n"
    using avoidance [OF mss(2) w(1) s] i by fastforce
qed

theorem window_growth_per_round_trip_witness:
  "\<exists>c'. growTimes 2 example_reno = Inr c' \<and> cwnd c' = 2144"
proof -
  have v: "0 < snd_mss (tcb example_reno)" "unat (snd_mss (tcb example_reno)) \<le> 65535" "0 < cwnd example_reno" "cwnd example_reno < 2 ^ 31"
    "2 * unat (snd_mss (tcb example_reno)) \<le> cwnd example_reno"
    "cwnd example_reno + 2 * unat (snd_mss (tcb example_reno)) \<le> unat (ssthresh (algState example_reno))"
    "cwnd example_reno = 1072" "unat (snd_mss (tcb example_reno)) = 536"
    by (simp_all add: example_reno_def example_sender_def TCPStateVariables_new_def TCPAlgState_new_def)
  show ?thesis using window_growth_per_round_trip [OF v(1-5)] v(6-8) by auto
qed

end
