(* ===== verification/Spec2Isabelle.thy ===== *)
theory Spec2Isabelle
  imports Reassembly_Buffer IPv4_FragBuf IPv4_Address Routing_Table Routing_Table_Props
    IPv4_Fragmentation IPv4_Resolution IPv4_Forwarding IGMP_Props TCP_Alg_Props
begin

text \<open>
  A verification of the IPv4 network layer and of TCP in the INET/INETMANET framework for the OMNeT++
  simulator: the modules \<^verbatim>\<open>IPv4\<close>, \<^verbatim>\<open>ICMP\<close>,
  \<^verbatim>\<open>ARP\<close>, \<^verbatim>\<open>IGMPv2\<close>, \<^verbatim>\<open>RoutingTable\<close> and
  \<^verbatim>\<open>TCP\<close> with the classes they are built from.

  \<^bold>\<open>The program.\<close>  A host or router is a compound module.  The IPv4 module receives datagrams
  from the network and packets from the transport layer.  It asks the routing table for a route, cuts
  datagrams that are larger than the MTU into fragments, asks ARP for the MAC address of the next hop and
  keeps datagrams while ARP has no answer, and on the other side puts fragments together in the fragment
  buffer and delivers the result to the protocol it carries.  Errors are answered through ICMP.  IGMP reports the
  multicast groups a host has joined, and on a router decides for which groups IPv4 forwards multicast
  datagrams to an interface.  TCP keeps
  one connection object per connection: a state machine, a state block, a send and a receive queue, a
  retransmission queue for selective acknowledgements, and an exchangeable congestion control algorithm
  with which it exchanges notifications.  The modules call each other directly or by messages of the
  simulation kernel; there is one thread, and a handler runs to its end before the next one starts.

  \<^bold>\<open>Theories.\<close>  Paths are relative to \<^verbatim>\<open>src/src\<close>.

  \<^item> \<open>Net_Prelude\<close>: integer types, error values, \<^verbatim>\<open>std::map\<close> as a sorted
    association list with its interface (locale \<open>ordered_map\<close>), \<^verbatim>\<open>std::upper_bound\<close>.

  \<^item> \<open>Reassembly_Buffer\<close>: \<^verbatim>\<open>base/ReassemblyBuffer\<close>.  Completion exactly when
    every byte has arrived, in any order (C1).

  \<^item> \<open>IPv4_FragBuf\<close>: \<^verbatim>\<open>networklayer/ipv4/IPv4FragBuf\<close> and the fields of
    \<^verbatim>\<open>IPv4Datagram.msg\<close>.  Interleaved streams of fragments (C2), definedness (C3), purging.

  \<^item> \<open>IPv4_Address\<close>: \<^verbatim>\<open>networklayer/contract/IPv4Address\<close>.  Text and netmask
    round trips (C5); the prefix comparisons and the classful functions agree.

  \<^item> \<open>IPv4_Interface\<close>: the interface entry, \<^verbatim>\<open>IPv4InterfaceData\<close> with its multicast
    groups and reference counts, MAC addresses, and lookups of \<^verbatim>\<open>InterfaceTable\<close>.

  \<^item> \<open>Routing_Table\<close>, \<open>Routing_Table_Props\<close>: \<^verbatim>\<open>RoutingTable\<close>,
    \<^verbatim>\<open>IPv4Route\<close>.  Routes are objects in a store (the heap of the model), the table is a
    vector of pointers; reachable tables are sorted, hold no dangling pointer, and their cache agrees with
    the scan.  Lookup (C9), removal (C10), addition (C11), and what \<^verbatim>\<open>setAdminDist\<close> breaks
    (C12).

  \<^item> \<open>Multicast_Routing\<close>: multicast routes and the filter rules of the table.

  \<^item> \<open>ICMP\<close>, \<open>ARP\<close>: \<^verbatim>\<open>networklayer/ipv4/ICMP\<close>,
    \<^verbatim>\<open>networklayer/arp/ARP\<close>.  When errors are answered; the cache invariant (an entry is
    pending exactly if its timer runs).

  \<^item> \<open>IPv4_Module\<close>: \<^verbatim>\<open>networklayer/ipv4/IPv4\<close>, every handler, with the
    netfilter hooks of \<^verbatim>\<open>INetfilter.h\<close> and \<^verbatim>\<open>base/ProtocolMap\<close>.

  \<^item> \<open>IPv4_Fragmentation\<close>: fragmentation and reassembly together (C7), and the payload that a second
    fragmentation loses (C28).

  \<^item> \<open>IPv4_Resolution\<close>: IPv4 and ARP as one step relation.  The locale \<open>output_condition\<close> lifts what
    the output operation keeps to the whole datapath; it is interpreted on the condition that waiting
    datagrams have a running resolution (C35).  Every resolution ends (C4).

  \<^item> \<open>IPv4_Forwarding\<close>: IPv4 and the routing table.  Forwarding by the best route (C8).

  \<^item> \<open>IGMP\<close>, \<open>IGMP_Invariant\<close>, \<open>IGMP_Props\<close>: \<^verbatim>\<open>networklayer/ipv4/IGMPv2\<close>, host and
    router part.  As a step relation with interfaces that come and go: entries, timers and the listeners of
    the IPv4 module stay in step (C6); which messages fail (C22); a group whose members have left is dropped
    in time (C16).

  \<^item> \<open>TCP_Seq\<close>: sequence numbers and segments, \<^verbatim>\<open>transport/tcp_common/TCPSegment\<close>
    (C13).

  \<^item> \<open>TCP_SACK_Queue\<close>, \<open>TCP_Data_Queues\<close>: \<^verbatim>\<open>transport/tcp/TCPSACKRexmitQueue\<close>
    refines a scoreboard (C14, C15); the queues that transfer byte counts (C17, C18).

  \<^item> \<open>TCP_Receive\<close>, \<open>TCP_Connection\<close>: the receive side (C19, C20); the connection object, header
    options and the segments it builds (C21), \<^verbatim>\<open>TCPConnectionUtil.cc\<close> and
    \<^verbatim>\<open>TCPConnectionSackUtil.cc\<close>.

  \<^item> \<open>TCP_FSM\<close>, \<open>TCP_Segments\<close>: the state machine, the commands and timers
    (\<^verbatim>\<open>TCPConnectionBase.cc\<close>, \<^verbatim>\<open>TCPConnectionEventProc.cc\<close>) and the
    processing of segments (\<^verbatim>\<open>TCPConnectionRcvSegment.cc\<close>), one definition per step of
    RFC 793 (C23).

  \<^item> \<open>TCP_Frame\<close>, \<open>TCP_Invariant\<close>, \<open>TCP_Setup\<close>: what handlers leave alone, the invariant of the
    connection setup for every entry point, and what follows for every reachable connection (C24 to C27).

  \<^item> \<open>TCP_Sender\<close>, \<open>TCP_Send_Props\<close>: the sending loops (C29 to C31).

  \<^item> \<open>TCP_Loss\<close>: loss recovery compared with the text of RFC 3517 (C32 to C34).

  \<^item> \<open>TCP_Algorithms\<close>, \<open>TCP_Alg_Frame\<close>, \<open>TCP_Alg_Props\<close>:
    \<^verbatim>\<open>transport/tcp/flavours\<close>: DumbTCP, TCPBaseAlg, TCPNoCongestionControl, TCPTahoe,
    TCPReno, TCPNewReno (C36 to C40).

  \<^bold>\<open>How the code is rendered.\<close>  A class is a record of its fields, a member function a definition that
  takes the object and returns it updated.  A function that can fail has the type \<open>outcome\<close>: a thrown
  \<^verbatim>\<open>cRuntimeError\<close>, a failed \<^verbatim>\<open>ASSERT\<close>, undefined behaviour and a loop that
  never ends are different error values.  32-bit sequence numbers and addresses, 16-bit offsets and 64-bit
  MAC addresses are words, so that their arithmetic wraps around; \<^verbatim>\<open>int\<close> counters and lengths
  are integers, without the overflow of the type.  Messages to other modules, signals and notifications are
  appended to a list of the state in the order in which the code sends them.  A scheduled self-message is
  the time it is set to.  Simulation times are integers, milliseconds in IPv4, ARP, IGMP and TCP.

  \<^bold>\<open>Loops.\<close>  A loop whose end is plain is a recursive function with a measure.  The loops of
  \<open>sendData\<close>, \<open>retransmitData\<close>, \<open>setPipe\<close>, \<open>nextSeg\<close> and the loss recovery may run for ever and are partial functions on
  options; a loop that does not end gives \<open>DoesNotReturn\<close>, and that they end is part of C29, C31, C32 and
  C33, that one does not is C30.  There is no fuel.

  \<^bold>\<open>Parameters.\<close>  The hooks of IPv4, the listeners of multicast notifications, the gates that are
  connected, and the random draw that decides whether a bit error hits the header; the congestion control
  algorithm in the theories of the connection, an argument that is instantiated by the flavours in
  \<open>TCP_Alg_Props\<close>; the delays that IGMP draws at random; the rounding of one eighth of a time; the index \<^verbatim>\<open>delRule\<close> starts from,
  which the code leaves uninitialised.

  \<^bold>\<open>Not modelled.\<close>  Log output, display strings, statistics vectors, parsing of routing and
  configuration files, NED parameters and the registration of interfaces.  Of TCP: the queues that carry
  messages or byte streams, the flavours Vegas and Westwood (floating-point estimators), the adapters to
  lwIP and NSC.  Of IPv4: DSR packets and IP options.  The other protocols of the framework (IPv6, the
  routing daemons for fixed and mobile ad hoc networks, UDP, SCTP, RTP, MPLS), the link layers and radios,
  mobility, applications and the network configurators do not take part in the behaviour verified here.
\<close>

end
